(* ===== verification/C_Prelude.thy ===== *)
theory C_Prelude
  imports Main "HOL-Library.Word"
begin

text \<open>
  Shared vocabulary of the development: the outcome of a C call, the return codes of
  \<^verbatim>\<open>opal/include/opal/constants.h\<close> (which the ORTE and ORCM layers reuse under their own
  prefixes), the allocator as a parameter, and generic lemmas on lists that several
  components need.

  \<^item> \<open>outcome\<close>: a C function either returns, or runs into undefined behaviour (a NULL
    dereference, an access outside an allocated block, a signed overflow), or never
    returns.  The last two are values of the model, so that a theorem that a call returns
    excludes both.
  \<^item> \<open>allocator\<close>: whether \<^verbatim>\<open>malloc\<close>, \<^verbatim>\<open>calloc\<close>, \<^verbatim>\<open>realloc\<close> or \<^verbatim>\<open>strdup\<close> of so many
    bytes succeeds.  Functions that allocate take it as an argument and have the error
    branch of the source.
  \<^item> a C string is a HOL \<open>string\<close> without the terminating NUL; a pointer that may be
    NULL is an \<open>option\<close>.
\<close>

named_theorems outcome_simps \<open>rules that evaluate the outcome combinators\<close>

section \<open>Outcomes of C calls\<close>

datatype 'a outcome = Ret 'a | Undef | Diverge

fun obind :: "'a outcome \<Rightarrow> ('a \<Rightarrow> 'b outcome) \<Rightarrow> 'b outcome" where
  "obind (Ret x) f = f x"
| "obind Undef f = Undef"
| "obind Diverge f = Diverge"

definition returns :: "'a outcome \<Rightarrow> bool" where
  "returns r \<longleftrightarrow> (\<exists>x. r = Ret x)"

section \<open>Return codes\<close>

text \<open>
  The codes of \<^verbatim>\<open>opal/include/opal/constants.h\<close> that the modelled code returns, and the codes
  that ORCM adds for logical groups.  \<open>status_code\<close> gives the numeric value of the OPAL ones,
  for callers that test the sign.
\<close>

datatype status =
    OPAL_SUCCESS
  | OPAL_ERROR
  | OPAL_ERR_OUT_OF_RESOURCE
  | OPAL_ERR_TEMP_OUT_OF_RESOURCE
  | OPAL_ERR_BAD_PARAM
  | OPAL_ERR_NOT_SUPPORTED
  | OPAL_ERR_NOT_FOUND
  | OPAL_ERR_NOT_AVAILABLE
  | OPAL_ERR_PACK_MISMATCH
  | OPAL_ERR_PACK_FAILURE
  | OPAL_ERR_UNPACK_FAILURE
  | OPAL_ERR_UNPACK_INADEQUATE_SPACE
  | OPAL_ERR_UNPACK_READ_PAST_END_OF_BUFFER
  | OPAL_ERR_TYPE_MISMATCH
  | OPAL_ERR_UNKNOWN_DATA_TYPE
  | OPAL_ERR_BUFFER
  | OPAL_ERR_DATA_TYPE_REDEF
  | ORCM_ERR_RECV_MORE_THAN_POSTED
  | ORCM_ERR_NO_ANY_GROUP
  | ORCM_ERR_GROUP_NOT_EXIST
  | ORCM_ERR_NODE_NOT_EXIST

fun status_code :: "status \<Rightarrow> int option" where
  "status_code OPAL_SUCCESS = Some 0"
| "status_code OPAL_ERROR = Some (- 1)"
| "status_code OPAL_ERR_OUT_OF_RESOURCE = Some (- 2)"
| "status_code OPAL_ERR_TEMP_OUT_OF_RESOURCE = Some (- 3)"
| "status_code OPAL_ERR_BAD_PARAM = Some (- 5)"
| "status_code OPAL_ERR_NOT_SUPPORTED = Some (- 8)"
| "status_code OPAL_ERR_NOT_FOUND = Some (- 13)"
| "status_code OPAL_ERR_NOT_AVAILABLE = Some (- 16)"
| "status_code OPAL_ERR_PACK_MISMATCH = Some (- 22)"
| "status_code OPAL_ERR_PACK_FAILURE = Some (- 23)"
| "status_code OPAL_ERR_UNPACK_FAILURE = Some (- 24)"
| "status_code OPAL_ERR_UNPACK_INADEQUATE_SPACE = Some (- 25)"
| "status_code OPAL_ERR_UNPACK_READ_PAST_END_OF_BUFFER = Some (- 26)"
| "status_code OPAL_ERR_TYPE_MISMATCH = Some (- 27)"
| "status_code OPAL_ERR_UNKNOWN_DATA_TYPE = Some (- 29)"
| "status_code OPAL_ERR_BUFFER = Some (- 30)"
| "status_code OPAL_ERR_DATA_TYPE_REDEF = Some (- 31)"
| "status_code _ = None"

section \<open>Memory\<close>

type_synonym allocator = "nat \<Rightarrow> bool"

abbreviation malloc_ok :: allocator where
  "malloc_ok \<equiv> \<lambda>_. True"

abbreviation sizeof_ptr :: nat where
  "sizeof_ptr \<equiv> 8"

definition INT_MAX :: int where
  "INT_MAX = 2147483647"

text \<open>The conversion of a \<^verbatim>\<open>size_t\<close> to \<^verbatim>\<open>int\<close>.\<close>

definition c_int :: "nat \<Rightarrow> int" where
  "c_int n = sint (of_nat n :: 32 word)"

text \<open>
  Arithmetic on \<^verbatim>\<open>size_t\<close> (64 bits) is on natural numbers with the reduction written out where
  a result may leave the range; \<^verbatim>\<open>calloc\<close> fails when the product of its arguments does.
\<close>

definition size_t :: "nat \<Rightarrow> nat" where
  "size_t n = n mod 2 ^ 64"

definition size_of_int :: "int \<Rightarrow> nat" where
  "size_of_int i = nat (i mod 2 ^ 64)"

definition calloc_ok :: "allocator \<Rightarrow> nat \<Rightarrow> nat \<Rightarrow> bool" where
  "calloc_ok alloc n sz = (n * sz < 2 ^ 64 \<and> alloc (n * sz))"

section \<open>Lemmas on outcomes\<close>

lemma returns_simps [simp]:
  "returns (Ret x)" "\<not> returns Undef" "\<not> returns Diverge"
  by (simp_all add: returns_def)

lemma obind_eq_Ret [outcome_simps]:
  "obind m f = Ret y \<longleftrightarrow> (\<exists>x. m = Ret x \<and> f x = Ret y)"
  by (cases m) auto

lemma obind_assoc [outcome_simps]:
  "obind (obind m f) g = obind m (\<lambda>x. obind (f x) g)"
  by (cases m) auto

text \<open>The weakest liberal precondition: what holds of every result of a call.\<close>

definition wlp :: "'a outcome \<Rightarrow> ('a \<Rightarrow> bool) \<Rightarrow> bool" where
  "wlp m P \<longleftrightarrow> (\<forall>x. m = Ret x \<longrightarrow> P x)"

lemma wlp_simps [simp]: "wlp (Ret x) P = P x" "wlp Undef P" "wlp (obind m f) P = wlp m (\<lambda>x. wlp (f x) P)"
  by (auto simp: wlp_def obind_eq_Ret)

lemma wlpI: "(\<And>x. P x) \<Longrightarrow> wlp m P"
  by (simp add: wlp_def)

lemma wlp_mono: "wlp m P \<Longrightarrow> (\<And>x. P x \<Longrightarrow> Q x) \<Longrightarrow> wlp m Q"
  by (simp add: wlp_def)

lemma c_int_small: "n < 2 ^ 31 \<Longrightarrow> c_int n = int n"
  by (simp add: c_int_def INT_MAX_def signed_of_nat signed_take_bit_int_eq_self)

section \<open>Lemmas on lists\<close>

lemma takeWhile_neq_append [simp]:
  assumes "d \<notin> set xs"
  shows "takeWhile (\<lambda>c. c \<noteq> d) (xs @ d # ys) = xs"
  using assms by (induction xs) auto

lemma dropWhile_neq_append [simp]:
  assumes "d \<notin> set xs"
  shows "dropWhile (\<lambda>c. c \<noteq> d) (xs @ d # ys) = d # ys"
  using assms by (induction xs) auto

lemma takeWhile_neq_all [simp]:
  assumes "d \<notin> set xs"
  shows "takeWhile (\<lambda>c. c \<noteq> d) xs = xs"
  using assms by (induction xs) auto

lemma dropWhile_neq_all [simp]:
  assumes "d \<notin> set xs"
  shows "dropWhile (\<lambda>c. c \<noteq> d) xs = []"
  using assms by (induction xs) auto

lemma takeWhile_True [simp]: "takeWhile (\<lambda>_. True) xs = xs"
  by (induction xs) auto

lemma dropWhile_neq_hd:
  assumes "dropWhile (\<lambda>c. c \<noteq> d) xs = y # ys"
  shows "y = d"
  using assms by (induction xs) (auto split: if_splits)

lemma split_at_delim:
  assumes "dropWhile (\<lambda>c. c \<noteq> d) xs = y # ys"
  shows "xs = takeWhile (\<lambda>c. c \<noteq> d) xs @ d # ys"
  using assms dropWhile_neq_hd [OF assms]
  by (metis takeWhile_dropWhile_id)

lemma not_in_takeWhile_neq [simp]:
  "d \<notin> set (takeWhile (\<lambda>c. c \<noteq> d) xs)"
  by (auto dest: set_takeWhileD)

lemma length_dropWhile_less:
  assumes "xs \<noteq> []"
  shows "length (tl (dropWhile P xs)) < length xs"
proof -
  have "length (dropWhile P xs) \<le> length xs"
    by (rule length_dropWhile_le)
  moreover have "0 < length xs"
    using assms by simp
  ultimately show ?thesis
    by (metis diff_less less_le_trans length_tl le_less_trans diff_le_self
        less_imp_diff_less order_le_less zero_less_one)
qed

section \<open>Lemmas on indices of circular arrays\<close>

lemma mod_add_inj:
  fixes n :: nat
  assumes "i < n" "j < n" "(t + i) mod n = (t + j) mod n"
  shows "i = j"
proof -
  have "i = j" if "i \<le> j" "i < n" "j < n" "(t + i) mod n = (t + j) mod n" for i j
  proof -
    have "n dvd (t + j) - (t + i)"
      using that mod_eq_dvd_iff_nat [of "t + i" "t + j" n] by simp
    then show ?thesis
      using that by (auto dest: dvd_imp_le)
  qed
  then show ?thesis
    using assms by (metis nat_le_linear)
qed

end
