(* ===== verification/C_String.thy ===== *)
theory C_String
  imports C_Prelude
begin

text \<open>
  The functions of the C library that the string-processing code uses, in the C locale:
  character classes, decimal output of \<^verbatim>\<open>printf\<close>, and \<^verbatim>\<open>strtol\<close> with base 10 on 64-bit
  \<^verbatim>\<open>long\<close>.  The lemmas relate reading and writing of decimal numbers, with and without
  leading zeros.
\<close>

section \<open>Definitions\<close>

definition isdigit :: "char \<Rightarrow> bool" where
  "isdigit c \<longleftrightarrow> 48 \<le> (of_char c :: nat) \<and> (of_char c :: nat) \<le> 57"

definition isalpha :: "char \<Rightarrow> bool" where
  "isalpha c \<longleftrightarrow>
     65 \<le> (of_char c :: nat) \<and> (of_char c :: nat) \<le> 90 \<or>
     97 \<le> (of_char c :: nat) \<and> (of_char c :: nat) \<le> 122"

definition isspace :: "char \<Rightarrow> bool" where
  "isspace c \<longleftrightarrow> (of_char c :: nat) = 32 \<or> 9 \<le> (of_char c :: nat) \<and> (of_char c :: nat) \<le> 13"

definition digit_val :: "char \<Rightarrow> nat" where
  "digit_val c = of_char c - 48"

definition digit_char :: "nat \<Rightarrow> char" where
  "digit_char d = char_of (48 + d)"

text \<open>The value of a string of digits, and the shortest decimal form of a number.\<close>

definition dec_val :: "string \<Rightarrow> nat" where
  "dec_val s = foldl (\<lambda>n c. 10 * n + digit_val c) 0 s"

fun dec :: "nat \<Rightarrow> string" where
  "dec n = (if n < 10 then [digit_char n] else dec (n div 10) @ [digit_char (n mod 10)])"

declare dec.simps [simp del]

definition LONG_MAX :: int where
  "LONG_MAX = 2 ^ 63 - 1"

definition LONG_MIN :: int where
  "LONG_MIN = - (2 ^ 63)"

text \<open>
  \<^verbatim>\<open>strtol\<close>: the value, the rest of the string, and whether \<^verbatim>\<open>errno\<close> was set to \<^verbatim>\<open>ERANGE\<close>
  (otherwise it is left alone).
\<close>

definition strtol :: "string \<Rightarrow> int \<times> string \<times> bool" where
  "strtol s =
     (let s1 = dropWhile isspace s;
          neg = (s1 \<noteq> [] \<and> hd s1 = CHR ''-'');
          s2 = (if s1 \<noteq> [] \<and> (hd s1 = CHR ''-'' \<or> hd s1 = CHR ''+'') then tl s1 else s1);
          ds = takeWhile isdigit s2;
          n = (if neg then - int (dec_val ds) else int (dec_val ds))
      in if ds = [] then (0, s, False)
         else (max LONG_MIN (min LONG_MAX n), dropWhile isdigit s2, n < LONG_MIN \<or> LONG_MAX < n))"

text \<open>Conversion of a \<^verbatim>\<open>long\<close> to \<^verbatim>\<open>int\<close>.\<close>

definition int_of_long :: "int \<Rightarrow> int" where
  "int_of_long i = sint (of_int i :: 32 word)"

section \<open>Digits\<close>

lemma digit_char_val [simp]: "d < 10 \<Longrightarrow> digit_val (digit_char d) = d"
  by (simp add: digit_val_def digit_char_def of_char_of)

lemma isdigit_digit_char [simp]: "d < 10 \<Longrightarrow> isdigit (digit_char d)"
  by (simp add: isdigit_def digit_char_def of_char_of)

lemma digit_val_less [simp]: "isdigit c \<Longrightarrow> digit_val c < 10"
  by (auto simp: isdigit_def digit_val_def)

lemma digit_val_char [simp]: "isdigit c \<Longrightarrow> digit_char (digit_val c) = c"
  by (auto simp: isdigit_def digit_val_def digit_char_def)

lemma isdigit_not_isalpha: "isdigit c \<Longrightarrow> \<not> isalpha c"
  by (auto simp: isdigit_def isalpha_def)

lemma isdigit_literals [simp]:
  "\<not> isdigit CHR '',''" "\<not> isdigit CHR ''-''" "\<not> isdigit CHR '']''" "\<not> isdigit CHR '':''"
  "\<not> isdigit CHR ''[''" "isdigit CHR ''0''" "\<not> isdigit CHR ''+''"
  by (simp_all add: isdigit_def)

lemma isalpha_literals [simp]:
  "\<not> isalpha CHR '',''" "\<not> isalpha CHR '']''" "\<not> isalpha CHR '':''" "\<not> isalpha CHR ''[''"
  by (simp_all add: isalpha_def)

lemma isspace_isdigit: "isdigit c \<Longrightarrow> \<not> isspace c"
  by (auto simp: isspace_def isdigit_def)

section \<open>Values of digit strings\<close>

lemma dec_val_Nil [simp]: "dec_val [] = 0"
  by (simp add: dec_val_def)

lemma dec_val_snoc [simp]: "dec_val (s @ [c]) = 10 * dec_val s + digit_val c"
  by (simp add: dec_val_def)

lemma dec_val_less:
  assumes "\<forall>c\<in>set s. isdigit c"
  shows "dec_val s < 10 ^ length s"
  using assms
proof (induction s rule: rev_induct)
  case (snoc c s)
  have "digit_val c < 10" "dec_val s < 10 ^ length s"
    using snoc by simp_all
  then show ?case
    by simp
qed simp

lemma dec_digits: "c \<in> set (dec n) \<Longrightarrow> isdigit c"
proof (induction n rule: dec.induct)
  case (1 n)
  then show ?case
    by (subst (asm) (2) dec.simps) (auto split: if_splits)
qed

lemma dec_ne [simp]: "dec n \<noteq> []"
  by (subst dec.simps) simp

lemma dec_val_dec [simp]: "dec_val (dec n) = n"
proof (induction n rule: dec.induct)
  case (1 n)
  show ?case
  proof (cases "n < 10")
    case True
    then show ?thesis
      using dec_val_snoc [of "[]"] by (subst dec.simps) simp
  next
    case False
    then show ?thesis
      using 1 by (subst dec.simps) simp
  qed
qed

lemma dec_length:
  assumes "n < 10 ^ k" "0 < k"
  shows "length (dec n) \<le> k"
  using assms
proof (induction n arbitrary: k rule: dec.induct)
  case (1 n)
  show ?case
  proof (cases "n < 10")
    case True
    then show ?thesis
      using 1 by (subst dec.simps) simp
  next
    case False
    then obtain j where k: "k = Suc j" "0 < j"
      using 1 by (cases k) (auto, cases "k - 1", auto)
    have "n div 10 < 10 ^ j"
      using 1(2) k by (simp add: div_less_iff_less_mult mult.commute)
    then show ?thesis
      using 1(1) [OF False] k False by (subst dec.simps) simp
  qed
qed

lemma dec_val_zeros: "dec_val (replicate k CHR ''0'' @ s) = dec_val s"
proof (induction s rule: rev_induct)
  case Nil
  then show ?case
    by (induction k) (simp_all flip: replicate_append_same add: digit_val_def)
next
  case (snoc c s)
  then show ?case
    by (simp flip: append_assoc)
qed

text \<open>A string of digits is determined by its length and value.\<close>

lemma dec_val_inj:
  assumes "\<forall>c\<in>set s. isdigit c" "\<forall>c\<in>set t. isdigit c" "length s = length t"
    "dec_val s = dec_val t"
  shows "s = t"
  using assms
proof (induction s arbitrary: t rule: rev_induct)
  case (snoc c s)
  obtain u d where t: "t = u @ [d]"
    using snoc.prems(3) by (cases t rule: rev_cases) auto
  have lt: "digit_val c < 10" "digit_val d < 10"
    using snoc.prems t by simp_all
  have eq: "10 * dec_val s + digit_val c = 10 * dec_val u + digit_val d"
    using snoc.prems t by simp
  then have "dec_val s = dec_val u" "digit_val c = digit_val d"
    using lt by presburger+
  then show ?case
    using snoc t by simp (metis digit_val_char)
qed simp

definition pad :: "nat \<Rightarrow> nat \<Rightarrow> string" where
  "pad k n = replicate (k - length (dec n)) CHR ''0'' @ dec n"

lemma pad_dec_val:
  assumes "\<forall>c\<in>set s. isdigit c" "s \<noteq> []"
  shows "pad (length s) (dec_val s) = s"
proof (rule dec_val_inj)
  have "length (dec (dec_val s)) \<le> length s"
    using dec_length [OF dec_val_less [OF assms(1)]] assms(2) by simp
  then show "length (pad (length s) (dec_val s)) = length s"
    by (simp add: pad_def)
qed (use assms(1) in \<open>auto simp: pad_def dec_val_zeros dest: dec_digits\<close>)

section \<open>Reading numbers\<close>

lemma takeWhile_isdigit_dec:
  assumes "rest = [] \<or> \<not> isdigit (hd rest)"
  shows "takeWhile isdigit (dec n @ rest) = dec n" "dropWhile isdigit (dec n @ rest) = rest"
  using assms dec_digits
  by (cases rest; auto simp: takeWhile_append dropWhile_append takeWhile_eq_all_conv)+

lemma strtol_digits:
  assumes "\<forall>c\<in>set ds. isdigit c" "ds \<noteq> []" "rest = [] \<or> \<not> isdigit (hd rest)" "int (dec_val ds) \<le> LONG_MAX"
  shows "strtol (ds @ rest) = (int (dec_val ds), rest, False)"
proof -
  obtain c ds' where ds: "ds = c # ds'"
    using assms(2) by (cases ds) auto
  then have c: "isdigit c" "\<not> isspace c" "c \<noteq> CHR ''-''" "c \<noteq> CHR ''+''"
    using assms(1) isspace_isdigit [of c] by auto
  have "takeWhile isdigit (ds @ rest) = ds" "dropWhile isdigit (ds @ rest) = rest"
    using assms(1,3) by (cases rest; auto simp: takeWhile_append dropWhile_append takeWhile_eq_all_conv)+
  then show ?thesis
    using c assms(4) by (simp add: strtol_def Let_def ds LONG_MAX_def LONG_MIN_def)
qed

lemma strtol_dec:
  assumes "rest = [] \<or> \<not> isdigit (hd rest)" "int n \<le> LONG_MAX"
  shows "strtol (dec n @ rest) = (int n, rest, False)"
  using strtol_digits [of "dec n" rest] assms dec_digits by auto

lemma int_of_long_small: "0 \<le> i \<Longrightarrow> i \<le> INT_MAX \<Longrightarrow> int_of_long i = i"
  by (simp add: int_of_long_def INT_MAX_def signed_of_int signed_take_bit_int_eq_self)

end
