(* ===== verification/C_Float.thy ===== *)
theory C_Float
  imports C_String Complex_Main "HOL-Library.Log_Nat"
begin

text \<open>
  Finite floating point numbers as rational numbers, with what the C library does to them when
  they are printed with \<^verbatim>\<open>%f\<close> and read back with \<^verbatim>\<open>strtof\<close> or \<^verbatim>\<open>strtod\<close>: rounding to six decimals,
  and rounding to the nearest number of a binary format (ties to even).  A format is given by the
  length of the significand and the exponent of the smallest number.  Infinities, NaN, the sign
  of zero and hexadecimal input are not modelled; neither is overflow.
\<close>

section \<open>Definitions\<close>

definition round_even :: "rat \<Rightarrow> int" where
  "round_even q =
     (let n = \<lfloor>q\<rfloor>; d = q - of_int n in if d < 1 / 2 \<or> (d = 1 / 2 \<and> even n) then n else n + 1)"

definition ilog2 :: "rat \<Rightarrow> int" where
  "ilog2 q =
     (case quotient_of q of
        (a, b) \<Rightarrow>
          (let k = int (floorlog 2 (nat a)) - int (floorlog 2 (nat b)) in
           if 2 powi k \<le> q then k else k - 1))"

definition fp_ulp :: "nat \<Rightarrow> int \<Rightarrow> rat \<Rightarrow> rat" where
  "fp_ulp p emin q = 2 powi (max emin (ilog2 \<bar>q\<bar> - int p + 1))"

definition fp_round :: "nat \<Rightarrow> int \<Rightarrow> rat \<Rightarrow> rat" where
  "fp_round p emin q = (if q = 0 then 0 else of_int (round_even (q / fp_ulp p emin q)) * fp_ulp p emin q)"

definition float_round :: "rat \<Rightarrow> rat" where
  "float_round = fp_round 24 (- 149)"

definition double_round :: "rat \<Rightarrow> rat" where
  "double_round = fp_round 53 (- 1074)"

text \<open>\<^verbatim>\<open>printf("%f")\<close>.\<close>

definition micros :: "rat \<Rightarrow> nat" where
  "micros q = nat (round_even (\<bar>q\<bar> * 1000000))"

definition fmt_f :: "rat \<Rightarrow> string" where
  "fmt_f q = (if q < 0 then ''-'' else []) @ dec (micros q div 1000000) @ CHR ''.'' # pad 6 (micros q mod 1000000)"

text \<open>
  The number that a decimal string denotes: spaces, a sign, digits with an optional point, an
  optional exponent; 0 when there is no digit.
\<close>

definition exponent_of :: "string \<Rightarrow> int" where
  "exponent_of s =
     (case s of
        [] \<Rightarrow> 0
      | c # t \<Rightarrow>
          if c \<noteq> CHR ''e'' \<and> c \<noteq> CHR ''E'' then 0
          else
            (let neg = (t \<noteq> [] \<and> hd t = CHR ''-'');
                 u = (if t \<noteq> [] \<and> (hd t = CHR ''-'' \<or> hd t = CHR ''+'') then tl t else t);
                 n = int (dec_val (takeWhile isdigit u))
             in if neg then - n else n))"

definition unsigned_decimal :: "string \<Rightarrow> rat" where
  "unsigned_decimal s =
     (let ip = takeWhile isdigit s;
          r = dropWhile isdigit s;
          fp = (if r \<noteq> [] \<and> hd r = CHR ''.'' then takeWhile isdigit (tl r) else []);
          r' = (if r \<noteq> [] \<and> hd r = CHR ''.'' then dropWhile isdigit (tl r) else r)
      in if ip = [] \<and> fp = [] then 0
         else of_nat (dec_val (ip @ fp)) / 10 ^ length fp * 10 powi exponent_of r')"

definition decimal_value :: "string \<Rightarrow> rat" where
  "decimal_value s =
     (let s1 = dropWhile isspace s in
      if s1 \<noteq> [] \<and> hd s1 = CHR ''-'' then - unsigned_decimal (tl s1)
      else if s1 \<noteq> [] \<and> hd s1 = CHR ''+'' then unsigned_decimal (tl s1)
      else unsigned_decimal s1)"

definition strtof :: "string \<Rightarrow> rat" where
  "strtof s = float_round (decimal_value s)"

definition strtod :: "string \<Rightarrow> rat" where
  "strtod s = double_round (decimal_value s)"

section \<open>Rounding\<close>

lemma round_even_int [simp]: "round_even (of_int n) = n"
  by (simp add: round_even_def)

lemma round_even_err: "\<bar>of_int (round_even q) - q\<bar> \<le> 1 / 2"
proof -
  have "of_int \<lfloor>q\<rfloor> \<le> q" "q < of_int \<lfloor>q\<rfloor> + 1"
    by linarith+
  then show ?thesis
    by (auto simp: round_even_def Let_def abs_le_iff)
qed

lemma round_even_nonneg: "0 \<le> q \<Longrightarrow> 0 \<le> round_even q"
  by (simp add: round_even_def Let_def)

lemma micros_err: "\<bar>of_nat (micros q) / 1000000 - \<bar>q\<bar>\<bar> \<le> 1 / 2000000"
proof -
  have "of_nat (micros q) = (of_int (round_even (\<bar>q\<bar> * 1000000)) :: rat)"
    by (simp add: micros_def round_even_nonneg)
  then show ?thesis
    using round_even_err [of "\<bar>q\<bar> * 1000000"] by (simp add: abs_if field_simps split: if_splits)
qed

lemma fp_round_int:
  assumes "nat \<bar>k\<bar> < 2 ^ p" "0 < p" "emin \<le> 0"
  shows "fp_round p emin (of_int k) = of_int k"
proof (cases "k = 0")
  case False
  have q: "quotient_of (of_int \<bar>k\<bar>) = (\<bar>k\<bar>, 1)"
    using quotient_of_int [of "\<bar>k\<bar>"] by (simp add: Rat.of_int_def)
  have "floorlog 2 (nat \<bar>k\<bar>) \<le> p"
    using assms(1) by (simp add: floorlog_leI)
  moreover have "floorlog 2 (Suc 0) = 1"
    by (simp add: compute_floorlog)
  ultimately have "ilog2 \<bar>of_int k\<bar> - int p + 1 \<le> 0"
    by (simp add: ilog2_def q Let_def flip: of_int_abs)
  then obtain m :: nat where m: "max emin (ilog2 \<bar>of_int k\<bar> - int p + 1) = - int m"
    using assms(3) by (metis max.bounded_iff minus_minus nonpos_int_cases)
  have ulp: "fp_ulp p emin (of_int k) = 1 / 2 ^ m"
    unfolding fp_ulp_def m by (simp add: power_int_minus divide_inverse)
  have "of_int k / fp_ulp p emin (of_int k) = of_int (k * 2 ^ m)"
    by (simp add: ulp)
  then have "round_even (of_int k / fp_ulp p emin (of_int k)) = k * 2 ^ m"
    using round_even_int by metis
  then show ?thesis
    using False by (simp add: fp_round_def ulp)
qed (simp add: fp_round_def)

lemma fp_round_err: "\<bar>fp_round p emin q - q\<bar> \<le> fp_ulp p emin q / 2"
proof -
  define u where "u = fp_ulp p emin q"
  have u: "0 < u"
    by (simp add: u_def fp_ulp_def)
  have "\<bar>of_int (round_even (q / u)) - q / u\<bar> * u \<le> 1 / 2 * u"
    by (rule mult_right_mono [OF round_even_err]) (use u in simp)
  moreover have "\<bar>of_int (round_even (q / u)) - q / u\<bar> * u = \<bar>of_int (round_even (q / u)) * u - q\<bar>"
    using u abs_mult_pos [of u "of_int (round_even (q / u)) - q / u"] by (simp add: left_diff_distrib)
  ultimately show ?thesis
    using u by (auto simp: fp_round_def u_def)
qed

lemma ilog2_le:
  assumes "0 < q"
  shows "2 powi ilog2 q \<le> q"
proof -
  obtain a b where ab: "quotient_of q = (a, b)"
    by (cases "quotient_of q")
  have b: "0 < b" and q: "q = of_int a / of_int b"
    using ab by (auto simp: quotient_of_denom_pos quotient_of_div)
  have a: "0 < a"
    using assms b by (simp add: q zero_less_divide_iff)
  define la lb where "la = floorlog 2 (nat a)" and "lb = floorlog 2 (nat b)"
  have la: "2 ^ (la - 1) \<le> nat a" "0 < la"
    using floorlog_bounds [of "nat a" 2] a by (auto simp: la_def floorlog_def)
  have lb: "nat b < 2 ^ lb"
    using floorlog_bounds [of "nat b" 2] b by (simp add: lb_def)
  have bounds: "(2 :: rat) ^ (la - 1) \<le> of_nat (nat a)" "of_nat (nat b) \<le> (2 :: rat) ^ lb"
    using of_nat_mono [OF la(1), where ?'a = rat] of_nat_mono [OF less_imp_le [OF lb], where ?'a = rat]
    by (simp_all only: of_nat_power of_nat_numeral)
  have "(2 :: rat) powi (int la - int lb - 1) = 2 ^ (la - 1) / 2 ^ lb"
    using la(2) by (simp add: power_int_diff of_nat_diff flip: power_int_of_nat)
  also have "\<dots> \<le> of_nat (nat a) / of_nat (nat b)"
    by (rule frac_le) (use bounds b in simp_all)
  also have "\<dots> = q"
    using a b by (simp add: q)
  finally show ?thesis
    by (simp add: ilog2_def ab Let_def la_def lb_def diff_diff_eq)
qed

lemma double_round_small:
  assumes "0 \<le> q" "q < 1"
  shows "\<bar>double_round q - q\<bar> \<le> 1 / 2 ^ 53"
proof (cases "q = 0")
  case False
  then have q: "0 < q"
    using assms(1) by simp
  have "ilog2 q < 0"
  proof (rule ccontr)
    assume "\<not> ilog2 q < 0"
    then have "1 \<le> (2 :: rat) powi ilog2 q"
      by (simp add: one_le_power_int)
    then show False
      using ilog2_le [OF q] assms(2) by simp
  qed
  then have "max (- 1074) (ilog2 \<bar>q\<bar> - int 53 + 1) \<le> - 53"
    using q by simp
  then have "fp_ulp 53 (- 1074) q \<le> 2 powi (- 53)"
    unfolding fp_ulp_def by (rule power_int_increasing) simp
  also have "(2 :: rat) powi (- 53) = 1 / 2 ^ 53"
    by (simp only: power_int_minus divide_inverse power_int_numeral mult_1)
  finally show ?thesis
    using fp_round_err [of 53 "- 1074" q] unfolding double_round_def by linarith
qed (simp add: double_round_def fp_round_def)

section \<open>Printing and reading back\<close>

lemma dec_val_append: "dec_val (s @ t) = dec_val s * 10 ^ length t + dec_val t"
proof (induction t rule: rev_induct)
  case (snoc c t)
  have "dec_val (s @ t @ [c]) = 10 * dec_val (s @ t) + digit_val c"
    using dec_val_snoc [of "s @ t" c] by simp
  then show ?case
    using snoc by (simp add: algebra_simps)
qed simp

lemma pad_digits: "c \<in> set (pad k n) \<Longrightarrow> isdigit c"
  using dec_digits by (auto simp: pad_def)

lemma pad_length: "n < 10 ^ k \<Longrightarrow> 0 < k \<Longrightarrow> length (pad k n) = k"
  using dec_length [of n k] by (simp add: pad_def)

lemma pad_val [simp]: "dec_val (pad k n) = n"
  by (simp add: pad_def dec_val_zeros)

lemma takeWhile_isdigit_pad [simp]:
  "takeWhile isdigit (pad k n) = pad k n" "dropWhile isdigit (pad k n) = []"
  using pad_digits by (auto simp: takeWhile_eq_all_conv)

lemma unsigned_decimal_digits:
  assumes "b < 1000000"
  shows "unsigned_decimal (dec a @ CHR ''.'' # pad 6 b) = of_nat (a * 1000000 + b) / 1000000"
proof -
  have len: "length (pad 6 b) = 6"
    using assms by (intro pad_length) simp_all
  have dot: "takeWhile isdigit (dec a @ CHR ''.'' # pad 6 b) = dec a"
      "dropWhile isdigit (dec a @ CHR ''.'' # pad 6 b) = CHR ''.'' # pad 6 b"
    by (rule takeWhile_isdigit_dec; simp add: isdigit_def)+
  have val: "dec_val (dec a @ pad 6 b) = a * 1000000 + b"
    by (simp add: dec_val_append len)
  show ?thesis
    unfolding unsigned_decimal_def Let_def dot by (simp add: val len exponent_of_def)
qed

lemma dec_first: "\<not> isspace (hd (dec a))" "hd (dec a) \<noteq> CHR ''-''" "hd (dec a) \<noteq> CHR ''+''"
proof -
  have "isdigit (hd (dec a))"
    using dec_ne [of a] dec_digits [of "hd (dec a)" a] by simp
  then show "\<not> isspace (hd (dec a))" "hd (dec a) \<noteq> CHR ''-''" "hd (dec a) \<noteq> CHR ''+''"
    using isspace_isdigit by auto
qed

lemma decimal_value_dec: "decimal_value (dec a @ s) = unsigned_decimal (dec a @ s)"
    "decimal_value (CHR ''-'' # dec a @ s) = - unsigned_decimal (dec a @ s)"
proof -
  obtain c cs where c: "dec a = c # cs"
    using dec_ne [of a] by (cases "dec a") simp_all
  have minus: "\<not> isspace CHR ''-''"
    by (simp add: isspace_def)
  show "decimal_value (dec a @ s) = unsigned_decimal (dec a @ s)"
    using dec_first [of a] by (simp add: decimal_value_def c)
  show "decimal_value (CHR ''-'' # dec a @ s) = - unsigned_decimal (dec a @ s)"
    by (simp add: decimal_value_def minus)
qed

text \<open>The number that is transmitted: rounded to six decimals.\<close>

definition six_decimals :: "rat \<Rightarrow> rat" where
  "six_decimals q = (if q < 0 then - 1 else 1) * (of_nat (micros q) / 1000000)"

lemma decimal_value_fmt_f: "decimal_value (fmt_f q) = six_decimals q"
  using unsigned_decimal_digits [of "micros q mod 1000000" "micros q div 1000000"]
  by (simp add: fmt_f_def six_decimals_def decimal_value_dec)

lemma six_decimals_err: "\<bar>six_decimals q - q\<bar> \<le> 1 / 2000000"
proof (cases "q < 0")
  case True
  have "\<bar>- m - q\<bar> = \<bar>m - (- q)\<bar>" for m :: rat
    by linarith
  then show ?thesis
    using True micros_err [of q] by (simp add: six_decimals_def)
next
  case False
  then show ?thesis
    using micros_err [of q] by (simp add: six_decimals_def)
qed

lemma six_decimals_int: "six_decimals (of_int k) = of_int k"
proof -
  have "micros (of_int k) = nat (\<bar>k\<bar> * 1000000)"
    using round_even_int [of "\<bar>k\<bar> * 1000000"] by (simp add: micros_def)
  then show ?thesis
    by (simp add: six_decimals_def abs_if)
qed

lemma strtod_fmt_f: "strtod (fmt_f q) = double_round (six_decimals q)"
  by (simp add: strtod_def decimal_value_fmt_f)

lemma strtof_fmt_f: "strtof (fmt_f q) = float_round (six_decimals q)"
  by (simp add: strtof_def decimal_value_fmt_f)

end
