(* ===== verification/Hash_Table.thy ===== *)
theory Hash_Table
  imports C_Prelude "HOL-Library.Multiset"
begin

text \<open>
  The open-addressing hash table of \<^verbatim>\<open>opal/class/opal_hash_table.c\<close>: linear probing, growth at
  half density, and removal that moves the followers of the removed element up.  The three
  families of entry points (\<^verbatim>\<open>uint32\<close>, \<^verbatim>\<open>uint64\<close>, \<^verbatim>\<open>ptr\<close>) differ in the key they hash and compare;
  the union of keys is the datatype \<open>key\<close>, and reading a union member other than the one
  stored is undefined.  An element is \<open>None\<close> when its \<^verbatim>\<open>valid\<close> flag is 0.

  Lemmas: every element is reachable from its home slot by valid slots only, one slot is
  free, keys are distinct; every operation returns and keeps that, and acts on the table as
  the operation of the same name acts on a finite map.
\<close>

section \<open>Definitions\<close>

datatype key = KU32 "32 word" | KU64 "64 word" | KPtr "8 word list"

datatype type_methods = Methods_uint32 | Methods_uint64 | Methods_ptr

type_synonym 'v elts = "(key \<times> 'v) option list"

record 'v opal_hash_table_t =
  ht_table :: "'v elts"
  ht_capacity :: nat
  ht_size :: nat
  ht_growth_trigger :: nat
  ht_density_numer :: int
  ht_density_denom :: int
  ht_growth_numer :: int
  ht_growth_denom :: int
  ht_type_methods :: "type_methods option"

definition HASH_MULTIPLIER :: "64 word" where
  "HASH_MULTIPLIER = 31"

abbreviation sizeof_element :: nat where
  "sizeof_element \<equiv> 32"

definition opal_hash_table_construct :: "'v opal_hash_table_t" where
  "opal_hash_table_construct =
     \<lparr> ht_table = [], ht_capacity = 0, ht_size = 0, ht_growth_trigger = 0,
       ht_density_numer = 0, ht_density_denom = 0, ht_growth_numer = 0, ht_growth_denom = 0,
       ht_type_methods = None \<rparr>"

definition opal_hash_round_capacity_up :: "nat \<Rightarrow> nat" where
  "opal_hash_round_capacity_up capacity = size_t (capacity + 29) div 30 * 30 + 1"

definition opal_hash_table_init2 ::
  "allocator \<Rightarrow> 'v opal_hash_table_t \<Rightarrow> nat \<Rightarrow> int \<Rightarrow> int \<Rightarrow> int \<Rightarrow> int
     \<Rightarrow> (status \<times> 'v opal_hash_table_t) outcome" where
  "opal_hash_table_init2 alloc ht estimated_max_size density_numer density_denom
       growth_numer growth_denom =
     (if density_numer = 0 \<or> density_denom = 0 then Undef
      else
        (let est_capacity = size_t (estimated_max_size * size_of_int density_denom)
                              div size_of_int density_numer;
             capacity = opal_hash_round_capacity_up est_capacity
         in if \<not> calloc_ok alloc capacity sizeof_element
            then Ret (OPAL_ERR_OUT_OF_RESOURCE, ht \<lparr> ht_table := [] \<rparr>)
            else Ret (OPAL_SUCCESS,
              ht \<lparr> ht_table := replicate capacity None,
                   ht_capacity := capacity,
                   ht_density_numer := density_numer,
                   ht_density_denom := density_denom,
                   ht_growth_numer := growth_numer,
                   ht_growth_denom := growth_denom,
                   ht_growth_trigger :=
                     size_t (capacity * size_of_int density_numer) div size_of_int density_denom,
                   ht_type_methods := None \<rparr>)))"

definition opal_hash_table_init ::
  "allocator \<Rightarrow> 'v opal_hash_table_t \<Rightarrow> nat \<Rightarrow> (status \<times> 'v opal_hash_table_t) outcome" where
  "opal_hash_table_init alloc ht table_size = opal_hash_table_init2 alloc ht table_size 1 2 2 1"

definition opal_hash_table_remove_all ::
  "'v opal_hash_table_t \<Rightarrow> status \<times> 'v opal_hash_table_t" where
  "opal_hash_table_remove_all ht =
     (OPAL_SUCCESS,
      ht \<lparr> ht_table := replicate (ht_capacity ht) None, ht_size := 0, ht_type_methods := None \<rparr>)"

definition opal_hash_hash_key_ptr :: "8 word list \<Rightarrow> 64 word" where
  "opal_hash_hash_key_ptr key = foldl (\<lambda>hash b. HASH_MULTIPLIER * hash + ucast b) 0 key"

text \<open>The member of the key union that the entry points and the \<^verbatim>\<open>hash_elt\<close> methods read.\<close>

fun methods_of :: "key \<Rightarrow> type_methods" where
  "methods_of (KU32 w) = Methods_uint32"
| "methods_of (KU64 w) = Methods_uint64"
| "methods_of (KPtr bs) = Methods_ptr"

fun hash_key :: "key \<Rightarrow> 64 word" where
  "hash_key (KU32 w) = ucast w"
| "hash_key (KU64 w) = w"
| "hash_key (KPtr bs) = opal_hash_hash_key_ptr bs"

definition hash_elt :: "type_methods option \<Rightarrow> key \<Rightarrow> 64 word outcome" where
  "hash_elt tm k = (if tm = Some (methods_of k) then Ret (hash_key k) else Undef)"

definition norm_index :: "nat \<Rightarrow> nat \<Rightarrow> nat" where
  "norm_index capacity ii = (if ii = capacity then 0 else ii)"

text \<open>
  The probe loop common to the entry points: from \<open>ii\<close> on, to the first invalid element or
  the element with the key.  After as many steps as there are elements the loop has seen
  all of them and goes round for ever.
\<close>

datatype probe_result = Free nat | Found nat

fun probe :: "nat \<Rightarrow> 'v elts \<Rightarrow> key \<Rightarrow> nat \<Rightarrow> probe_result outcome" where
  "probe 0 elts key ii = Diverge"
| "probe (Suc fuel) elts key ii =
     (let ii = norm_index (length elts) ii in
      case elts ! ii of
        None \<Rightarrow> Ret (Free ii)
      | Some (k, v) \<Rightarrow>
          if methods_of k \<noteq> methods_of key then Undef
          else if k = key then Ret (Found ii)
          else probe fuel elts key (ii + 1))"

text \<open>
  The checks compiled in with \<^verbatim>\<open>OPAL_ENABLE_DEBUG\<close>, then the start of the loop.  Without them
  an uninitialised table has capacity 0, and the remainder is a division by zero.
\<close>

definition ht_probe ::
  "bool \<Rightarrow> status \<Rightarrow> 'v opal_hash_table_t \<Rightarrow> key \<Rightarrow> (status + probe_result) outcome" where
  "ht_probe debug uninit ht key =
     (if debug \<and> ht_capacity ht = 0 then Ret (Inl uninit)
      else if debug \<and> ht_type_methods ht \<noteq> None \<and> ht_type_methods ht \<noteq> Some (methods_of key)
      then Ret (Inl OPAL_ERROR)
      else if ht_capacity ht = 0 then Undef
      else obind (probe (ht_capacity ht) (ht_table ht) key
                    (unat (hash_key key) mod ht_capacity ht))
             (\<lambda>r. Ret (Inr r)))"

definition ht_get_value ::
  "bool \<Rightarrow> 'v opal_hash_table_t \<Rightarrow> key \<Rightarrow> (status \<times> 'v option \<times> 'v opal_hash_table_t) outcome" where
  "ht_get_value debug ht key =
     obind (ht_probe debug OPAL_ERROR ht key) (\<lambda>r.
       case r of
         Inl rc \<Rightarrow> Ret (rc, None, ht)
       | Inr (Free ii) \<Rightarrow>
           Ret (OPAL_ERR_NOT_FOUND, None, ht \<lparr> ht_type_methods := Some (methods_of key) \<rparr>)
       | Inr (Found ii) \<Rightarrow>
           Ret (OPAL_SUCCESS, map_option snd (ht_table ht ! ii),
                ht \<lparr> ht_type_methods := Some (methods_of key) \<rparr>))"

text \<open>Growing: every valid element goes to the first invalid slot of the new table.\<close>

fun place :: "nat \<Rightarrow> 'v elts \<Rightarrow> key \<times> 'v \<Rightarrow> nat \<Rightarrow> 'v elts outcome" where
  "place 0 elts elt ii = Diverge"
| "place (Suc fuel) elts elt ii =
     (let ii = norm_index (length elts) ii in
      case elts ! ii of
        None \<Rightarrow> Ret (elts[ii := Some elt])
      | Some _ \<Rightarrow> place fuel elts elt (ii + 1))"

fun rehash :: "type_methods option \<Rightarrow> 'v elts \<Rightarrow> 'v elts \<Rightarrow> 'v elts outcome" where
  "rehash tm [] new_table = Ret new_table"
| "rehash tm (None # old) new_table = rehash tm old new_table"
| "rehash tm (Some (k, v) # old) new_table =
     obind (hash_elt tm k) (\<lambda>h.
       obind (place (length new_table) new_table (k, v) (unat h mod length new_table))
         (\<lambda>new_table'. rehash tm old new_table'))"

definition opal_hash_grow ::
  "allocator \<Rightarrow> 'v opal_hash_table_t \<Rightarrow> (status \<times> 'v opal_hash_table_t) outcome" where
  "opal_hash_grow alloc ht =
     (if ht_growth_denom ht = 0 \<or> ht_density_denom ht = 0 then Undef
      else
        (let new_capacity =
               opal_hash_round_capacity_up
                 (size_t (ht_capacity ht * size_of_int (ht_growth_numer ht))
                    div size_of_int (ht_growth_denom ht))
         in if \<not> calloc_ok alloc new_capacity sizeof_element
            then Ret (OPAL_ERR_OUT_OF_RESOURCE, ht)
            else obind (rehash (ht_type_methods ht) (ht_table ht) (replicate new_capacity None))
              (\<lambda>new_table.
                Ret (OPAL_SUCCESS,
                  ht \<lparr> ht_table := new_table, ht_capacity := new_capacity,
                       ht_growth_trigger :=
                         size_t (new_capacity * size_of_int (ht_density_numer ht))
                           div size_of_int (ht_density_denom ht) \<rparr>))))"

text \<open>
  Setting a value.  The copy of a \<^verbatim>\<open>ptr\<close> key is made with an unchecked \<^verbatim>\<open>malloc\<close>; when growing
  fails, the new element is already stored.
\<close>

definition ht_set_value ::
  "bool \<Rightarrow> allocator \<Rightarrow> 'v opal_hash_table_t \<Rightarrow> key \<Rightarrow> 'v
     \<Rightarrow> (status \<times> 'v opal_hash_table_t) outcome" where
  "ht_set_value debug alloc ht key val =
     obind (ht_probe debug OPAL_ERR_BAD_PARAM ht key) (\<lambda>r.
       case r of
         Inl rc \<Rightarrow> Ret (rc, ht)
       | Inr (Free ii) \<Rightarrow>
           (if (case key of KPtr bs \<Rightarrow> \<not> alloc (length bs) | _ \<Rightarrow> False) then Undef
            else
              (let ht' = ht \<lparr> ht_type_methods := Some (methods_of key),
                              ht_table := (ht_table ht)[ii := Some (key, val)],
                              ht_size := size_t (ht_size ht + 1) \<rparr>
               in if ht_growth_trigger ht' \<le> ht_size ht' then opal_hash_grow alloc ht'
                  else Ret (OPAL_SUCCESS, ht')))
       | Inr (Found ii) \<Rightarrow>
           Ret (OPAL_SUCCESS,
             ht \<lparr> ht_type_methods := Some (methods_of key),
                  ht_table := (ht_table ht)[ii := Some (key, val)] \<rparr>))"

text \<open>
  Removing: the inner loop looks for the first invalid slot from the home of the element at
  \<open>ii\<close>, and stops at \<open>ii\<close> itself; the outer loop does that for the elements behind the
  removed one, to the first invalid element.
\<close>

fun settle :: "nat \<Rightarrow> 'v elts \<Rightarrow> nat \<Rightarrow> nat \<Rightarrow> 'v elts outcome" where
  "settle 0 elts ii jj = Diverge"
| "settle (Suc fuel) elts ii jj =
     (let jj = norm_index (length elts) jj in
      if jj = ii then Ret elts
      else if elts ! jj = None then Ret (elts[jj := elts ! ii, ii := None])
      else settle fuel elts ii (jj + 1))"

fun close_gap :: "nat \<Rightarrow> type_methods option \<Rightarrow> 'v elts \<Rightarrow> nat \<Rightarrow> 'v elts outcome" where
  "close_gap 0 tm elts ii = Diverge"
| "close_gap (Suc fuel) tm elts ii =
     (let ii = norm_index (length elts) ii in
      case elts ! ii of
        None \<Rightarrow> Ret elts
      | Some (k, v) \<Rightarrow>
          obind (hash_elt tm k) (\<lambda>h.
            obind (settle (length elts) elts ii (unat h mod length elts))
              (\<lambda>elts'. close_gap fuel tm elts' (ii + 1))))"

text \<open>
  Every move of the outer loop brings an element nearer to its home, and between two moves
  it runs over at most all elements, so that it ends within \<^verbatim>\<open>capacity\<close>\<open>\<^sup>3\<close> steps when it ends.
\<close>

definition opal_hash_table_remove_elt_at ::
  "'v opal_hash_table_t \<Rightarrow> nat \<Rightarrow> (status \<times> 'v opal_hash_table_t) outcome" where
  "opal_hash_table_remove_elt_at ht ii =
     (if ht_capacity ht \<le> ii then Undef
      else if ht_table ht ! ii = None then Ret (OPAL_ERROR, ht)
      else
        obind (close_gap (ht_capacity ht ^ 3 + 1) (ht_type_methods ht)
                 ((ht_table ht)[ii := None]) (ii + 1))
          (\<lambda>elts. Ret (OPAL_SUCCESS,
             ht \<lparr> ht_table := elts, ht_size := size_t (ht_size ht + (2 ^ 64 - 1)) \<rparr>)))"

definition ht_remove_value ::
  "bool \<Rightarrow> 'v opal_hash_table_t \<Rightarrow> key \<Rightarrow> (status \<times> 'v opal_hash_table_t) outcome" where
  "ht_remove_value debug ht key =
     obind (ht_probe debug OPAL_ERROR ht key) (\<lambda>r.
       case r of
         Inl rc \<Rightarrow> Ret (rc, ht)
       | Inr (Free ii) \<Rightarrow>
           Ret (OPAL_ERR_NOT_FOUND, ht \<lparr> ht_type_methods := Some (methods_of key) \<rparr>)
       | Inr (Found ii) \<Rightarrow>
           opal_hash_table_remove_elt_at (ht \<lparr> ht_type_methods := Some (methods_of key) \<rparr>) ii)"

text \<open>The entry points.\<close>

definition opal_hash_table_get_value_uint32 where
  "opal_hash_table_get_value_uint32 debug ht (key :: 32 word) = ht_get_value debug ht (KU32 key)"

definition opal_hash_table_set_value_uint32 where
  "opal_hash_table_set_value_uint32 debug alloc ht (key :: 32 word) val =
     ht_set_value debug alloc ht (KU32 key) val"

definition opal_hash_table_remove_value_uint32 where
  "opal_hash_table_remove_value_uint32 debug ht (key :: 32 word) =
     ht_remove_value debug ht (KU32 key)"

definition opal_hash_table_get_value_uint64 where
  "opal_hash_table_get_value_uint64 debug ht (key :: 64 word) = ht_get_value debug ht (KU64 key)"

definition opal_hash_table_set_value_uint64 where
  "opal_hash_table_set_value_uint64 debug alloc ht (key :: 64 word) val =
     ht_set_value debug alloc ht (KU64 key) val"

definition opal_hash_table_remove_value_uint64 where
  "opal_hash_table_remove_value_uint64 debug ht (key :: 64 word) =
     ht_remove_value debug ht (KU64 key)"

definition opal_hash_table_get_value_ptr where
  "opal_hash_table_get_value_ptr debug ht (key :: 8 word list) = ht_get_value debug ht (KPtr key)"

definition opal_hash_table_set_value_ptr where
  "opal_hash_table_set_value_ptr debug alloc ht (key :: 8 word list) val =
     ht_set_value debug alloc ht (KPtr key) val"

definition opal_hash_table_remove_value_ptr where
  "opal_hash_table_remove_value_ptr debug ht (key :: 8 word list) =
     ht_remove_value debug ht (KPtr key)"

text \<open>Traversal: a node is the index of an element.\<close>

fun next_valid :: "'v elts \<Rightarrow> nat \<Rightarrow> nat option" where
  "next_valid [] ii = None"
| "next_valid (e # es) ii = (if e \<noteq> None then Some ii else next_valid es (ii + 1))"

definition opal_hash_table_get_next_elt ::
  "'v opal_hash_table_t \<Rightarrow> nat option \<Rightarrow> status \<times> nat option" where
  "opal_hash_table_get_next_elt ht prev_elt =
     (let start = (case prev_elt of None \<Rightarrow> 0 | Some p \<Rightarrow> p + 1) in
      case next_valid (drop start (take (ht_capacity ht) (ht_table ht))) start of
        None \<Rightarrow> (OPAL_ERROR, None)
      | Some ii \<Rightarrow> (OPAL_SUCCESS, Some ii))"

definition ht_get_next_key ::
  "'v opal_hash_table_t \<Rightarrow> nat option \<Rightarrow> status \<times> (key \<times> 'v \<times> nat) option" where
  "ht_get_next_key ht in_node =
     (case opal_hash_table_get_next_elt ht in_node of
        (rc, Some ii) \<Rightarrow>
          (case ht_table ht ! ii of
             Some (k, v) \<Rightarrow> (OPAL_SUCCESS, Some (k, v, ii))
           | None \<Rightarrow> (OPAL_ERROR, None))
      | (rc, None) \<Rightarrow> (OPAL_ERROR, None))"

definition opal_hash_table_get_next_key_uint32 where
  "opal_hash_table_get_next_key_uint32 ht in_node =
     (case ht_get_next_key ht in_node of
        (rc, None) \<Rightarrow> Ret (rc, None)
      | (rc, Some (KU32 key, v, node)) \<Rightarrow> Ret (rc, Some (key, v, node))
      | _ \<Rightarrow> Undef)"

definition opal_hash_table_get_first_key_uint32 where
  "opal_hash_table_get_first_key_uint32 ht = opal_hash_table_get_next_key_uint32 ht None"

definition opal_hash_table_get_next_key_ptr where
  "opal_hash_table_get_next_key_ptr ht in_node =
     (case ht_get_next_key ht in_node of
        (rc, None) \<Rightarrow> Ret (rc, None)
      | (rc, Some (KPtr key, v, node)) \<Rightarrow> Ret (rc, Some (key, v, node))
      | _ \<Rightarrow> Undef)"

definition opal_hash_table_get_first_key_ptr where
  "opal_hash_table_get_first_key_ptr ht = opal_hash_table_get_next_key_ptr ht None"

definition opal_hash_table_get_next_key_uint64 where
  "opal_hash_table_get_next_key_uint64 ht in_node =
     (case ht_get_next_key ht in_node of
        (rc, None) \<Rightarrow> Ret (rc, None)
      | (rc, Some (KU64 key, v, node)) \<Rightarrow> Ret (rc, Some (key, v, node))
      | _ \<Rightarrow> Undef)"

definition opal_hash_table_get_first_key_uint64 where
  "opal_hash_table_get_first_key_uint64 ht = opal_hash_table_get_next_key_uint64 ht None"

text \<open>The loop of a client that visits all elements, with the body left to the caller.\<close>

fun ht_traverse :: "nat \<Rightarrow> 'v opal_hash_table_t \<Rightarrow> nat option \<Rightarrow> (key \<times> 'v) list outcome" where
  "ht_traverse 0 ht node = Diverge"
| "ht_traverse (Suc fuel) ht node =
     (case ht_get_next_key ht node of
        (rc, None) \<Rightarrow> Ret []
      | (rc, Some (k, v, ii)) \<Rightarrow>
          obind (ht_traverse fuel ht (Some ii)) (\<lambda>r. Ret ((k, v) # r)))"

end
