(* ===== verification/Containers.thy ===== *)
theory Containers
  imports C_Prelude
begin

text \<open>
  The contracts that the container classes of \<^verbatim>\<open>opal/class\<close> promise to their clients, as
  locales, with the lemmas that need nothing but the contract.  The component theories
  interpret them on the definitions that model the code.

  \<^item> \<open>keyed_store\<close>: get, set and remove under a key (the hash table, for each kind of key).
  \<^item> \<open>bounded_queue\<close>: a queue that gives up its oldest element when full (ring buffer).
  \<^item> \<open>slot_pool\<close>: numbered slots that are handed out and given back (pointer array, hotel).
\<close>

section \<open>Stores with keys\<close>

datatype ('k, 'v) store_op = Get 'k | Put 'k 'v | Del 'k

text \<open>
  A sequence of calls on a store, which ends early when a call to set fails; and the same
  sequence on a finite map.
\<close>

fun store_run ::
  "('t \<Rightarrow> 'k \<Rightarrow> (status \<times> 'v option \<times> 't) outcome) \<Rightarrow> ('t \<Rightarrow> 'k \<Rightarrow> 'v \<Rightarrow> (status \<times> 't) outcome) \<Rightarrow>
   ('t \<Rightarrow> 'k \<Rightarrow> (status \<times> 't) outcome) \<Rightarrow> ('k, 'v) store_op list \<Rightarrow> 't
     \<Rightarrow> ((status \<times> 'v option) list \<times> 't) outcome" where
  "store_run get put del [] t = Ret ([], t)"
| "store_run get put del (Get k # ops) t =
     obind (get t k) (\<lambda>(rc, v, t').
       obind (store_run get put del ops t') (\<lambda>(rs, t''). Ret ((rc, v) # rs, t'')))"
| "store_run get put del (Put k v # ops) t =
     obind (put t k v) (\<lambda>(rc, t').
       if rc \<noteq> OPAL_SUCCESS then Ret ([(rc, None)], t')
       else obind (store_run get put del ops t') (\<lambda>(rs, t''). Ret ((rc, None) # rs, t'')))"
| "store_run get put del (Del k # ops) t =
     obind (del t k) (\<lambda>(rc, t').
       obind (store_run get put del ops t') (\<lambda>(rs, t''). Ret ((rc, None) # rs, t'')))"

definition found_code :: "'v option \<Rightarrow> status" where
  "found_code v = (if v = None then OPAL_ERR_NOT_FOUND else OPAL_SUCCESS)"

fun map_run :: "('k, 'v) store_op list \<Rightarrow> ('k \<rightharpoonup> 'v) \<Rightarrow> (status \<times> 'v option) list \<times> ('k \<rightharpoonup> 'v)" where
  "map_run [] m = ([], m)"
| "map_run (Get k # ops) m =
     (case map_run ops m of (rs, m') \<Rightarrow> ((found_code (m k), m k) # rs, m'))"
| "map_run (Put k v # ops) m =
     (case map_run ops (m(k \<mapsto> v)) of (rs, m') \<Rightarrow> ((OPAL_SUCCESS, None) # rs, m'))"
| "map_run (Del k # ops) m =
     (case map_run ops (m(k := None)) of (rs, m') \<Rightarrow> ((found_code (m k), None) # rs, m'))"

text \<open>The results of a sequence that was cut short by a failed set.\<close>

definition cut_short :: "(status \<times> 'v option) list \<Rightarrow> (status \<times> 'v option) list \<Rightarrow> bool" where
  "cut_short rs full \<longleftrightarrow>
     rs \<noteq> [] \<and> length rs \<le> length full \<and> butlast rs = take (length rs - 1) full \<and>
     last rs = (OPAL_ERR_OUT_OF_RESOURCE, None)"

lemma cut_short_Cons: "cut_short rs full \<Longrightarrow> cut_short (r # rs) (r # full)"
  by (auto simp: cut_short_def take_Cons')

lemma cut_short_now: "cut_short [(OPAL_ERR_OUT_OF_RESOURCE, None)] (r # full)"
  by (simp add: cut_short_def)

locale keyed_store =
  fixes inv :: "'t \<Rightarrow> bool"
    and content :: "'t \<Rightarrow> 'k \<rightharpoonup> 'v"
    and get :: "'t \<Rightarrow> 'k \<Rightarrow> (status \<times> 'v option \<times> 't) outcome"
    and put :: "'t \<Rightarrow> 'k \<Rightarrow> 'v \<Rightarrow> (status \<times> 't) outcome"
    and del :: "'t \<Rightarrow> 'k \<Rightarrow> (status \<times> 't) outcome"
  assumes get_law: "inv t \<Longrightarrow>
      \<exists>t'. get t k = Ret (found_code (content t k), content t k, t') \<and>
           inv t' \<and> content t' = content t"
    and put_law: "inv t \<Longrightarrow>
      \<exists>rc t'. put t k v = Ret (rc, t') \<and> content t' = (content t)(k \<mapsto> v) \<and>
           (rc = OPAL_SUCCESS \<and> inv t' \<or> rc = OPAL_ERR_OUT_OF_RESOURCE)"
    and del_law: "inv t \<Longrightarrow>
      \<exists>t'. del t k = Ret (found_code (content t k), t') \<and>
           inv t' \<and> content t' = (content t)(k := None)"
begin

lemma get_after_put:
  assumes "inv t" "put t k v = Ret (OPAL_SUCCESS, t')"
  shows "\<exists>t''. get t' k = Ret (OPAL_SUCCESS, Some v, t'') \<and> inv t'' \<and> content t'' = content t'"
  using put_law [OF assms(1), of k v] get_law [of t' k] assms(2)
  by (auto simp: found_code_def)

lemma get_after_del:
  assumes "inv t" "del t k = Ret (rc, t')"
  shows "\<exists>t''. get t' k = Ret (OPAL_ERR_NOT_FOUND, None, t'') \<and> inv t'' \<and> content t'' = content t'"
  using del_law [OF assms(1), of k] get_law [of t' k] assms(2)
  by (auto simp: found_code_def)

lemma run_refines_map:
  assumes "inv t"
  shows "\<exists>rs t'. store_run get put del ops t = Ret (rs, t') \<and>
    (rs = fst (map_run ops (content t)) \<and> content t' = snd (map_run ops (content t)) \<and> inv t' \<or>
     cut_short rs (fst (map_run ops (content t))))"
  using assms
proof (induction ops arbitrary: t)
  case (Cons x ops)
  show ?case
  proof (cases x)
    case (Get k)
    obtain t1 where t1: "get t k = Ret (found_code (content t k), content t k, t1)" "inv t1"
        "content t1 = content t"
      using get_law [OF Cons.prems] by blast
    show ?thesis
      using Cons.IH [OF t1(2), unfolded t1(3)] t1(1) Get by (auto split: prod.split intro: cut_short_Cons simp del: fun_upd_apply)
  next
    case (Put k v)
    obtain rc t1 where t1: "put t k v = Ret (rc, t1)" "content t1 = (content t)(k \<mapsto> v)"
        "rc = OPAL_SUCCESS \<and> inv t1 \<or> rc = OPAL_ERR_OUT_OF_RESOURCE"
      using put_law [OF Cons.prems] by blast
    from t1(3) show ?thesis
    proof
      assume ok: "rc = OPAL_SUCCESS \<and> inv t1"
      show ?thesis
        using Cons.IH [OF conjunct2 [OF ok], unfolded t1(2)] ok t1(1) Put by (auto split: prod.split intro: cut_short_Cons simp del: fun_upd_apply)
    next
      assume "rc = OPAL_ERR_OUT_OF_RESOURCE"
      then show ?thesis
        using t1 Put by (auto split: prod.split intro: cut_short_now)
    qed
  next
    case (Del k)
    obtain t1 where t1: "del t k = Ret (found_code (content t k), t1)" "inv t1"
        "content t1 = (content t)(k := None)"
      using del_law [OF Cons.prems] by blast
    show ?thesis
      using Cons.IH [OF t1(2), unfolded t1(3)] t1(1) Del by (auto split: prod.split intro: cut_short_Cons simp del: fun_upd_apply)
  qed
qed simp

end

text \<open>
  A store that counts its bindings, and can take one more while there are fewer than \<open>limit\<close>.
\<close>

locale sized_store = keyed_store inv content get put del
  for inv :: "'t \<Rightarrow> bool"
    and content :: "'t \<Rightarrow> 'k \<rightharpoonup> 'v"
    and get :: "'t \<Rightarrow> 'k \<Rightarrow> (status \<times> 'v option \<times> 't) outcome"
    and put :: "'t \<Rightarrow> 'k \<Rightarrow> 'v \<Rightarrow> (status \<times> 't) outcome"
    and del :: "'t \<Rightarrow> 'k \<Rightarrow> (status \<times> 't) outcome" +
  fixes size :: "'t \<Rightarrow> nat" and limit :: nat
  assumes finite_law: "inv t \<Longrightarrow> finite (dom (content t))"
    and size_law: "inv t \<Longrightarrow> size t = card (dom (content t))"
    and room_law: "inv t \<Longrightarrow> size t < limit \<Longrightarrow> put t k v \<noteq> Ret (OPAL_ERR_OUT_OF_RESOURCE, t')"
begin

lemma put_room:
  assumes "inv t" "size t < limit"
  shows "\<exists>t'. put t k v = Ret (OPAL_SUCCESS, t') \<and> inv t' \<and> content t' = (content t)(k \<mapsto> v) \<and> size t' \<le> size t + 1"
proof -
  obtain t' where t': "put t k v = Ret (OPAL_SUCCESS, t')" "inv t'" "content t' = (content t)(k \<mapsto> v)"
    using put_law [OF assms(1), of k v] room_law [OF assms, of k v] by blast
  then have "size t' \<le> size t + 1"
    using finite_law [OF assms(1)] by (simp add: size_law assms(1) card_insert_if)
  then show ?thesis
    using t' by blast
qed

lemma get_size: "inv t \<Longrightarrow> get t k = Ret (rc, v, t') \<Longrightarrow> size t' = size t"
  using get_law [of t k] by (auto simp: size_law)

lemma del_size:
  assumes "inv t" "del t k = Ret (rc, t')"
  shows "size t' \<le> size t"
proof -
  have "inv t'" "content t' = (content t)(k := None)"
    using del_law [OF assms(1), of k] assms(2) by auto
  then show ?thesis
    using finite_law [OF assms(1)] by (simp add: size_law assms(1) card_mono)
qed

lemma run_total:
  assumes "inv t" "size t + length ops \<le> limit"
  shows "\<exists>t'. store_run get put del ops t = Ret (fst (map_run ops (content t)), t') \<and>
           inv t' \<and> content t' = snd (map_run ops (content t))"
  using assms
proof (induction ops arbitrary: t)
  case (Cons x ops)
  show ?case
  proof (cases x)
    case (Get k)
    obtain t1 where t1: "get t k = Ret (found_code (content t k), content t k, t1)" "inv t1" "content t1 = content t"
      using get_law [OF Cons.prems(1)] by blast
    then have "size t1 + length ops \<le> limit"
      using get_size [OF Cons.prems(1) t1(1)] Cons.prems(2) by simp
    from Cons.IH [OF t1(2) this] show ?thesis
      using t1 Get by (auto split: prod.split)
  next
    case (Put k v)
    obtain t1 where t1: "put t k v = Ret (OPAL_SUCCESS, t1)" "inv t1" "content t1 = (content t)(k \<mapsto> v)"
        "size t1 \<le> size t + 1"
      using put_room [OF Cons.prems(1)] Cons.prems(2) by force
    then have "size t1 + length ops \<le> limit"
      using Cons.prems(2) by simp
    from Cons.IH [OF t1(2) this] show ?thesis
      using t1 Put by (auto split: prod.split simp del: fun_upd_apply)
  next
    case (Del k)
    obtain t1 where t1: "del t k = Ret (found_code (content t k), t1)" "inv t1" "content t1 = (content t)(k := None)"
      using del_law [OF Cons.prems(1)] by blast
    then have "size t1 + length ops \<le> limit"
      using del_size [OF Cons.prems(1) t1(1)] Cons.prems(2) by simp
    from Cons.IH [OF t1(2) this] show ?thesis
      using t1 Del by (auto split: prod.split simp del: fun_upd_apply)
  qed
qed simp

end

section \<open>Bounded queues\<close>

datatype 'a queue_op = Push 'a | Pop

fun queue_run ::
  "('t \<Rightarrow> 'a \<Rightarrow> ('a option \<times> 't) outcome) \<Rightarrow> ('t \<Rightarrow> ('a option \<times> 't) outcome) \<Rightarrow>
   'a queue_op list \<Rightarrow> 't \<Rightarrow> ('a option list \<times> 't) outcome" where
  "queue_run push pop [] t = Ret ([], t)"
| "queue_run push pop (Push x # ops) t =
     obind (push t x) (\<lambda>(r, t').
       obind (queue_run push pop ops t') (\<lambda>(rs, t''). Ret (r # rs, t'')))"
| "queue_run push pop (Pop # ops) t =
     obind (pop t) (\<lambda>(r, t').
       obind (queue_run push pop ops t') (\<lambda>(rs, t''). Ret (r # rs, t'')))"

fun fifo_run :: "nat \<Rightarrow> 'a queue_op list \<Rightarrow> 'a list \<Rightarrow> 'a option list \<times> 'a list" where
  "fifo_run n [] q = ([], q)"
| "fifo_run n (Push x # ops) q =
     (if length q < n
      then (case fifo_run n ops (q @ [x]) of (rs, q') \<Rightarrow> (None # rs, q'))
      else (case fifo_run n ops (tl q @ [x]) of (rs, q') \<Rightarrow> (Some (hd q) # rs, q')))"
| "fifo_run n (Pop # ops) q =
     (case fifo_run n ops (tl q) of
        (rs, q') \<Rightarrow> ((if q = [] then None else Some (hd q)) # rs, q'))"

locale bounded_queue =
  fixes inv :: "'t \<Rightarrow> bool"
    and content :: "'t \<Rightarrow> 'a list"
    and bound :: nat
    and push :: "'t \<Rightarrow> 'a \<Rightarrow> ('a option \<times> 't) outcome"
    and pop :: "'t \<Rightarrow> ('a option \<times> 't) outcome"
  assumes push_law: "inv t \<Longrightarrow>
      \<exists>t'. push t x =
             Ret (if length (content t) < bound then None else Some (hd (content t)), t') \<and>
           inv t' \<and>
           content t' = (if length (content t) < bound then content t @ [x]
                         else tl (content t) @ [x])"
    and pop_law: "inv t \<Longrightarrow>
      \<exists>t'. pop t = Ret (if content t = [] then None else Some (hd (content t)), t') \<and>
           inv t' \<and> content t' = tl (content t)"
    and bound_law: "inv t \<Longrightarrow> length (content t) \<le> bound"
begin

lemma run_refines_fifo:
  assumes "inv t"
  shows "\<exists>t'. queue_run push pop ops t = Ret (fst (fifo_run bound ops (content t)), t') \<and>
    inv t' \<and> content t' = snd (fifo_run bound ops (content t))"
  using assms
proof (induction ops arbitrary: t)
  case (Cons x ops)
  show ?case
  proof (cases x)
    case (Push y)
    obtain t1 where t1: "push t y =
          Ret (if length (content t) < bound then None else Some (hd (content t)), t1)" "inv t1"
        "content t1 = (if length (content t) < bound then content t @ [y] else tl (content t) @ [y])"
      using push_law [OF Cons.prems] by blast
    then show ?thesis
      using Cons.IH [OF t1(2)] Push by (auto split: prod.split)
  next
    case Pop
    obtain t1 where t1: "pop t = Ret (if content t = [] then None else Some (hd (content t)), t1)"
        "inv t1" "content t1 = tl (content t)"
      using pop_law [OF Cons.prems] by blast
    then show ?thesis
      using Cons.IH [OF t1(2)] Pop by (auto split: prod.split)
  qed
qed simp

end

section \<open>Pools of numbered slots\<close>

datatype 'a pool_op = Acquire 'a | Release nat

datatype 'a pool_event = Acquired nat 'a | Refused 'a | Released nat

text \<open>
  A client and what it saw.  It may give back any slot of the pool, also one that is free; an index beyond the
  current slots is not passed on.
\<close>

fun pool_run ::
  "('t \<Rightarrow> nat) \<Rightarrow> ('t \<Rightarrow> 'a \<Rightarrow> (nat option \<times> 't) outcome) \<Rightarrow> ('t \<Rightarrow> nat \<Rightarrow> 't outcome) \<Rightarrow>
   'a pool_op list \<Rightarrow> 't \<Rightarrow> ('a pool_event list \<times> 't) outcome" where
  "pool_run slots acquire release [] t = Ret ([], t)"
| "pool_run slots acquire release (Acquire x # ops) t =
     obind (acquire t x) (\<lambda>(r, t').
       obind (pool_run slots acquire release ops t') (\<lambda>(ev, t'').
         Ret ((case r of Some i \<Rightarrow> Acquired i x | None \<Rightarrow> Refused x) # ev, t'')))"
| "pool_run slots acquire release (Release i # ops) t =
     (if slots t \<le> i then pool_run slots acquire release ops t
      else obind (release t i) (\<lambda>t'.
        obind (pool_run slots acquire release ops t') (\<lambda>(ev, t''). Ret (Released i # ev, t''))))"

definition all_used :: "nat \<Rightarrow> (nat \<rightharpoonup> 'a) \<Rightarrow> bool" where
  "all_used n m \<longleftrightarrow> (\<forall>i<n. m i \<noteq> None)"

text \<open>
  The pool after a run: the number of slots and what is in them.  A slot is handed out only while it is free; a
  request is refused only when every slot is used and the pool cannot grow; the pool grows, to the size that \<open>grow\<close>
  gives, only when every slot is used; giving back empties a slot.  \<open>None\<close> when the events are not of this kind.
\<close>

fun replay ::
  "(nat \<Rightarrow> nat option) \<Rightarrow> 'a pool_event list \<Rightarrow> nat \<times> (nat \<rightharpoonup> 'a) \<Rightarrow> (nat \<times> (nat \<rightharpoonup> 'a)) option" where
  "replay grow [] p = Some p"
| "replay grow (Acquired i x # ev) (n, m) =
     (let n' = (if all_used n m then (case grow n of None \<Rightarrow> n | Some k \<Rightarrow> k) else n) in
      if i < n' \<and> m i = None then replay grow ev (n', m(i \<mapsto> x)) else None)"
| "replay grow (Refused x # ev) (n, m) =
     (if all_used n m \<and> grow n = None then replay grow ev (n, m) else None)"
| "replay grow (Released i # ev) (n, m) = (if i < n then replay grow ev (n, m(i := None)) else None)"

lemma replay_one:
  assumes "replay grow [case r of Some i \<Rightarrow> Acquired i x | None \<Rightarrow> Refused x] (n, m) = Some (n', m')"
  shows "n' = n \<or> grow n = Some n'" "m' = m \<or> (\<exists>i y. m' = m(i := y))"
  using assms by (auto simp: Let_def split: option.splits if_splits)

text \<open>\<open>inv k\<close> is the invariant of a pool from which at least \<open>k\<close> more slots can be requested.\<close>

locale slot_pool =
  fixes inv :: "nat \<Rightarrow> 't \<Rightarrow> bool"
    and slots :: "'t \<Rightarrow> nat"
    and used :: "'t \<Rightarrow> nat \<rightharpoonup> 'a"
    and grow :: "'t \<Rightarrow> nat \<Rightarrow> nat option"
    and acquire :: "'t \<Rightarrow> 'a \<Rightarrow> (nat option \<times> 't) outcome"
    and release :: "'t \<Rightarrow> nat \<Rightarrow> 't outcome"
  assumes acquire_law: "inv (Suc k) t \<Longrightarrow>
      \<exists>r t'. acquire t x = Ret (r, t') \<and> inv k t' \<and> grow t' = grow t \<and>
        replay (grow t) [case r of Some i \<Rightarrow> Acquired i x | None \<Rightarrow> Refused x] (slots t, used t) =
          Some (slots t', used t')"
    and release_law: "inv (Suc k) t \<Longrightarrow> i < slots t \<Longrightarrow>
      \<exists>t'. release t i = Ret t' \<and> inv k t' \<and> grow t' = grow t \<and> slots t' = slots t \<and>
        used t' = (used t)(i := None)"
    and inv_less: "inv (Suc k) t \<Longrightarrow> inv k t"
begin

lemma run_as_replay:
  assumes "inv (length ops) t"
  shows "\<exists>ev t'. pool_run slots acquire release ops t = Ret (ev, t') \<and> inv 0 t' \<and>
    replay (grow t) ev (slots t, used t) = Some (slots t', used t')"
  using assms
proof (induction ops arbitrary: t)
  case (Cons x ops)
  have inv: "inv (Suc (length ops)) t"
    using Cons.prems by simp
  show ?case
  proof (cases x)
    case (Acquire y)
    obtain r t1 where t1: "acquire t y = Ret (r, t1)" "inv (length ops) t1" "grow t1 = grow t"
        "replay (grow t) [case r of Some i \<Rightarrow> Acquired i y | None \<Rightarrow> Refused y] (slots t, used t) =
           Some (slots t1, used t1)"
      using acquire_law [OF inv] by blast
    then show ?thesis
      using Cons.IH [OF t1(2)] Acquire
      by (auto simp: Let_def simp del: fun_upd_apply split: option.splits if_splits)
  next
    case (Release i)
    show ?thesis
    proof (cases "slots t \<le> i")
      case True
      then show ?thesis
        using Cons.IH [OF inv_less [OF inv]] Release by simp
    next
      case False
      then obtain t1 where t1: "release t i = Ret t1" "inv (length ops) t1" "grow t1 = grow t"
          "slots t1 = slots t" "used t1 = (used t)(i := None)"
        using release_law [OF inv, of i] by auto
      then show ?thesis
        using Cons.IH [OF t1(2)] Release False by (auto simp del: fun_upd_apply)
    qed
  qed
qed simp

end

end
