(* ===== verification/Hash_Table_Map.thy ===== *)
theory Hash_Table_Map
  imports Hash_Table Containers
begin

text \<open>
  Correctness of the hash table: the invariant of the element array and of the table, the
  finite map a table stands for, and for every operation that it returns, keeps the invariant
  and acts on that map as it should.
\<close>

section \<open>The invariant\<close>

definition entries :: "'v elts \<Rightarrow> (key \<times> 'v) list" where
  "entries elts = List.map_filter (\<lambda>x. x) elts"

definition home :: "nat \<Rightarrow> key \<Rightarrow> nat" where
  "home c k = unat (hash_key k) mod c"

definition dist :: "nat \<Rightarrow> nat \<Rightarrow> nat \<Rightarrow> nat" where
  "dist c h i = (i + c - h) mod c"

text \<open>Every valid element is reached from its home slot over valid elements.\<close>

definition path_ok :: "'v elts \<Rightarrow> bool" where
  "path_ok elts \<longleftrightarrow>
     (\<forall>i<length elts. case elts ! i of
        None \<Rightarrow> True
      | Some (k, v) \<Rightarrow>
          (\<forall>d<dist (length elts) (home (length elts) k) i.
             elts ! ((home (length elts) k + d) mod length elts) \<noteq> None))"

definition elts_ok :: "type_methods \<Rightarrow> 'v elts \<Rightarrow> bool" where
  "elts_ok tm elts \<longleftrightarrow>
     path_ok elts \<and> distinct (map fst (entries elts)) \<and>
     (\<forall>e\<in>set (entries elts). methods_of (fst e) = tm)"

text \<open>
  The table as \<^verbatim>\<open>opal_hash_table_init\<close> sets it up.  \<open>ht_base\<close> allows every slot to be taken,
  which is the case for a moment inside a store; between operations one slot is free.
\<close>

definition ht_base :: "type_methods \<Rightarrow> 'v opal_hash_table_t \<Rightarrow> bool" where
  "ht_base tm ht \<longleftrightarrow>
     ht_capacity ht = length (ht_table ht) \<and>
     ht_capacity ht * sizeof_element < 2 ^ 64 \<and>
     elts_ok tm (ht_table ht) \<and>
     ht_size ht = length (entries (ht_table ht)) \<and>
     ht_growth_trigger ht = ht_capacity ht div 2 \<and>
     ht_density_numer ht = 1 \<and> ht_density_denom ht = 2 \<and>
     ht_growth_numer ht = 2 \<and> ht_growth_denom ht = 1 \<and>
     (ht_type_methods ht = None \<or> ht_type_methods ht = Some tm)"

definition ht_inv :: "type_methods \<Rightarrow> 'v opal_hash_table_t \<Rightarrow> bool" where
  "ht_inv tm ht \<longleftrightarrow> ht_base tm ht \<and> ht_size ht < ht_capacity ht"

definition ht_map :: "'v opal_hash_table_t \<Rightarrow> key \<rightharpoonup> 'v" where
  "ht_map ht = map_of (entries (ht_table ht))"

section \<open>Entries\<close>

lemma entries_Nil [simp]: "entries [] = []"
  by (simp add: entries_def)

lemma entries_Cons [simp]:
  "entries (x # xs) = (case x of None \<Rightarrow> entries xs | Some e \<Rightarrow> e # entries xs)"
  by (simp add: entries_def List.map_filter_simps split: option.split)

lemma entries_append [simp]: "entries (xs @ ys) = entries xs @ entries ys"
  by (induction xs) (auto split: option.split)

lemma entries_replicate [simp]: "entries (replicate n None) = []"
  by (induction n) auto

lemma set_entries: "e \<in> set (entries elts) \<longleftrightarrow> Some e \<in> set elts"
  by (induction elts) (auto split: option.split)

lemma length_entries_le: "length (entries elts) \<le> length elts"
  by (induction elts) (auto split: option.split)

lemma entries_all_valid: "None \<notin> set elts \<Longrightarrow> length (entries elts) = length elts"
  by (induction elts) (auto split: option.split, metis option.exhaust surj_pair)

lemma entries_split:
  assumes "i < length elts"
  shows "entries elts =
           entries (take i elts) @ entries [elts ! i] @ entries (drop (Suc i) elts)"
  by (metis assms entries_append id_take_nth_drop append_Cons append_Nil)

lemma entries_update:
  assumes "i < length elts"
  shows "entries (elts[i := x]) =
           entries (take i elts) @ entries [x] @ entries (drop (Suc i) elts)"
  using assms by (simp add: upd_conv_take_nth_drop split: option.split)

lemma mset_entries_fill:
  assumes "i < length elts" "elts ! i = None"
  shows "mset (entries (elts[i := Some e])) = add_mset e (mset (entries elts))"
  using assms by (simp add: entries_update entries_split [OF assms(1)])

lemma mset_entries_clear:
  assumes "i < length elts" "elts ! i = Some e"
  shows "add_mset e (mset (entries (elts[i := None]))) = mset (entries elts)"
  using assms by (simp add: entries_update entries_split [OF assms(1)])

lemma mset_entries_move:
  assumes "i < length elts" "j < length elts" "i \<noteq> j" "elts ! j = None" "elts ! i = Some e"
  shows "mset (entries (elts[j := Some e, i := None])) = mset (entries elts)"
proof -
  have "add_mset e (mset (entries (elts[j := Some e, i := None]))) =
          mset (entries (elts[j := Some e]))"
    using assms by (intro mset_entries_clear) auto
  then show ?thesis
    using assms by (simp add: mset_entries_fill)
qed

lemma map_of_entries_eq:
  assumes "mset xs = mset ys" "distinct (map fst xs)"
  shows "map_of xs = map_of ys"
proof -
  have "distinct (map fst ys)"
    using assms by (metis mset_eq_imp_distinct_iff mset_map)
  then show ?thesis
    using assms by (metis map_of_inject_set mset_eq_setD)
qed

lemma distinct_fst_mset:
  assumes "mset xs = mset ys"
  shows "distinct (map fst xs) = distinct (map fst ys)"
  using assms by (metis mset_eq_imp_distinct_iff mset_map)

section \<open>Cyclic indices\<close>

lemma norm_index_mod: "ii \<le> c \<Longrightarrow> 0 < c \<Longrightarrow> norm_index c ii = ii mod c"
  by (auto simp: norm_index_def)

lemma norm_index_Suc: "0 < c \<Longrightarrow> norm_index c (Suc (h mod c)) = Suc h mod c"
  by (simp add: norm_index_def mod_Suc)

lemma norm_index_less [simp]: "0 < c \<Longrightarrow> norm_index c (h mod c) = h mod c"
  by (metis mod_less_divisor nat_less_le norm_index_def)

lemma dist_less: "0 < c \<Longrightarrow> dist c h i < c"
  by (simp add: dist_def)

lemma add_dist:
  assumes "h < c" "i < c"
  shows "(h + dist c h i) mod c = i"
proof -
  have "(h + (i + c - h) mod c) mod c = (h + (i + c - h)) mod c"
    by (rule mod_add_right_eq)
  also have "\<dots> = i"
    using assms by simp
  finally show ?thesis
    by (simp add: dist_def)
qed

lemma dist_add:
  assumes "h < c" "n < c"
  shows "dist c h ((h + n) mod c) = n"
proof (cases "h + n < c")
  case True
  then show ?thesis
    using assms by (simp add: dist_def)
next
  case False
  then have "(h + n) mod c = h + n - c"
    using assms by (simp add: mod_if)
  then show ?thesis
    using assms False by (simp add: dist_def)
qed

lemma home_less [simp]: "0 < c \<Longrightarrow> home c k < c"
  by (simp add: home_def)

lemma first_stop:
  fixes c :: nat
  assumes "i < c" "S i"
  obtains n where "n < c" "S ((h + n) mod c)" "\<forall>d<n. \<not> S ((h + d) mod c)"
proof -
  let ?n = "LEAST n. S ((h + n) mod c)"
  have c: "0 < c"
    using assms(1) by simp
  have "(h + dist c (h mod c) i) mod c = (h mod c + dist c (h mod c) i) mod c"
    by (simp only: mod_add_left_eq)
  also have "\<dots> = i"
    using assms(1) c by (simp add: add_dist)
  finally have *: "S ((h + dist c (h mod c) i) mod c)"
    using assms(2) by simp
  show thesis
  proof (rule that)
    show "?n < c"
      by (rule le_less_trans [OF Least_le [of "\<lambda>n. S ((h + n) mod c)", OF *] dist_less [OF c]])
    show "S ((h + ?n) mod c)"
      using * by (rule LeastI)
    show "\<forall>d<?n. \<not> S ((h + d) mod c)"
      using not_less_Least by blast
  qed
qed

lemma path_okD:
  assumes "path_ok elts" "i < length elts" "elts ! i = Some (k, v)"
    "d < dist (length elts) (home (length elts) k) i"
  shows "elts ! ((home (length elts) k + d) mod length elts) \<noteq> None"
proof -
  have "case elts ! i of None \<Rightarrow> True
    | Some (k, v) \<Rightarrow> \<forall>d<dist (length elts) (home (length elts) k) i.
        elts ! ((home (length elts) k + d) mod length elts) \<noteq> None"
    using assms(1,2) unfolding path_ok_def by blast
  then show ?thesis
    unfolding assms(3) prod.case option.case using assms(4) by blast
qed

section \<open>Probing\<close>

lemma probe_skip:
  assumes "elts \<noteq> []"
    and "\<forall>d<n. \<exists>k v. elts ! ((h + d) mod length elts) = Some (k, v) \<and>
            methods_of k = methods_of key \<and> k \<noteq> key"
  shows "probe (n + f) elts key (h mod length elts) =
           probe f elts key ((h + n) mod length elts)"
  using assms(2)
proof (induction n arbitrary: h)
  case (Suc n)
  let ?c = "length elts"
  obtain k v where kv: "elts ! (h mod ?c) = Some (k, v)" "methods_of k = methods_of key" "k \<noteq> key"
    using Suc.prems [rule_format, of 0] by auto
  have rest: "\<forall>d<n. \<exists>k v. elts ! ((Suc h + d) mod ?c) = Some (k, v) \<and>
      methods_of k = methods_of key \<and> k \<noteq> key"
  proof (intro allI impI)
    fix d assume "d < n"
    then show "\<exists>k v. elts ! ((Suc h + d) mod ?c) = Some (k, v) \<and>
        methods_of k = methods_of key \<and> k \<noteq> key"
      using Suc.prems [rule_format, of "Suc d"] by simp
  qed
  have "probe (Suc n + f) elts key (h mod ?c) = probe (n + f) elts key (Suc (h mod ?c))"
    using kv assms(1) by simp
  also have "\<dots> = probe (n + f) elts key (Suc h mod ?c)"
    using assms(1) by (cases "n + f") (simp_all add: norm_index_Suc)
  also have "\<dots> = probe f elts key ((Suc h + n) mod ?c)"
    by (rule Suc.IH [OF rest])
  finally show ?case
    by simp
qed simp

lemma probe_cases:
  assumes "elts_ok (methods_of key) elts" "None \<in> set elts"
  obtains
    (free) n where "n < length elts"
      "probe (length elts) elts key (home (length elts) key) =
         Ret (Free ((home (length elts) key + n) mod length elts))"
      "elts ! ((home (length elts) key + n) mod length elts) = None"
      "\<forall>d<n. elts ! ((home (length elts) key + d) mod length elts) \<noteq> None"
      "\<forall>v. (key, v) \<notin> set (entries elts)"
  | (found) i v where "i < length elts"
      "probe (length elts) elts key (home (length elts) key) = Ret (Found i)"
      "elts ! i = Some (key, v)"
proof -
  let ?c = "length elts" and ?h = "home (length elts) key"
  let ?S = "\<lambda>i. elts ! i = None \<or> (\<exists>v. elts ! i = Some (key, v))"
  have c: "0 < ?c" "elts \<noteq> []"
    using assms(2) by auto
  obtain e where e: "e < ?c" "elts ! e = None"
    using assms(2) by (metis in_set_conv_nth)
  obtain n where n: "n < ?c" "?S ((?h + n) mod ?c)" "\<forall>d<n. \<not> ?S ((?h + d) mod ?c)"
    using first_stop [of e ?c ?S ?h] e by blast
  have same: "methods_of k = methods_of key" if "Some (k, v) \<in> set elts" for k v
    using assms(1) that by (auto simp: elts_ok_def simp flip: set_entries)
  have "\<forall>d<n. \<exists>k v. elts ! ((?h + d) mod ?c) = Some (k, v) \<and>
      methods_of k = methods_of key \<and> k \<noteq> key"
  proof (intro allI impI)
    fix d assume "d < n"
    then obtain k v where kv: "elts ! ((?h + d) mod ?c) = Some (k, v)" "k \<noteq> key"
      using n(3) by (metis option.exhaust surj_pair)
    then have "methods_of k = methods_of key"
      using same [of k v] c by (metis mod_less_divisor nth_mem)
    then show "\<exists>k v. elts ! ((?h + d) mod ?c) = Some (k, v) \<and>
        methods_of k = methods_of key \<and> k \<noteq> key"
      using kv by blast
  qed
  from probe_skip [OF c(2) this, of "?c - n"]
  have step: "probe ?c elts key ?h = probe (Suc (?c - n - 1)) elts key ((?h + n) mod ?c)"
    using n(1) c by (simp del: probe.simps add: Suc_diff_Suc)
  show thesis
  proof (cases "elts ! ((?h + n) mod ?c)")
    case None
    have "(key, v) \<notin> set (entries elts)" for v
    proof
      assume "(key, v) \<in> set (entries elts)"
      then obtain i where i: "i < ?c" "elts ! i = Some (key, v)"
        by (metis in_set_conv_nth set_entries)
      let ?m = "dist ?c ?h i"
      have m: "(?h + ?m) mod ?c = i"
        using i c by (simp add: add_dist)
      have "\<not> n < ?m"
        using path_okD [of elts i key v n] assms(1) i None by (auto simp: elts_ok_def)
      moreover have "n \<noteq> ?m" "\<not> ?m < n"
        using m i None n(3) by auto
      ultimately show False
        by simp
    qed
    then show thesis
      using free [of n] n None step c by simp
  next
    case (Some p)
    then obtain v where "elts ! ((?h + n) mod ?c) = Some (key, v)"
      using n(2) by auto
    then show thesis
      using found [of "(?h + n) mod ?c" v] step c by simp
  qed
qed

section \<open>Storing in the first free slot\<close>

lemma path_okI:
  assumes "\<And>i k v d. i < length elts \<Longrightarrow> elts ! i = Some (k, v) \<Longrightarrow>
      d < dist (length elts) (home (length elts) k) i \<Longrightarrow>
      elts ! ((home (length elts) k + d) mod length elts) \<noteq> None"
  shows "path_ok elts"
  unfolding path_ok_def using assms by (auto split: option.split)

lemma path_ok_fill:
  assumes ok: "path_ok elts" and n: "n < length elts"
    and before: "\<forall>d<n. elts ! ((home (length elts) key + d) mod length elts) \<noteq> None"
    and i: "i = (home (length elts) key + n) mod length elts"
  shows "path_ok (elts[i := Some (key, v)])"
proof (rule path_okI)
  let ?c = "length elts"
  have c: "0 < ?c"
    using n by (cases elts) auto
  fix j k w d
  assume j: "j < length (elts[i := Some (key, v)])"
    and kw: "elts[i := Some (key, v)] ! j = Some (k, w)"
    and d: "d < dist (length (elts[i := Some (key, v)]))
              (home (length (elts[i := Some (key, v)])) k) j"
  have "elts ! ((home ?c k + d) mod ?c) \<noteq> None" if "(home ?c k + d) mod ?c \<noteq> i"
  proof (cases "j = i")
    case True
    then have "k = key"
      using kw j by simp
    moreover have "d < n"
      using d True i n c by (simp add: \<open>k = key\<close> dist_add)
    ultimately show ?thesis
      using before by blast
  next
    case False
    then show ?thesis
      using path_okD [OF ok, of j k w d] j kw d by simp
  qed
  then show "elts[i := Some (key, v)] !
      ((home (length (elts[i := Some (key, v)])) k + d) mod length (elts[i := Some (key, v)]))
      \<noteq> None"
    using c by (cases "(home ?c k + d) mod ?c = i") auto
qed

lemma elts_ok_fill:
  assumes "elts_ok (methods_of key) elts" "n < length elts"
    "\<forall>d<n. elts ! ((home (length elts) key + d) mod length elts) \<noteq> None"
    "i = (home (length elts) key + n) mod length elts" "elts ! i = None"
    "\<forall>v. (key, v) \<notin> set (entries elts)"
  shows "elts_ok (methods_of key) (elts[i := Some (key, v)]) \<and>
         mset (entries (elts[i := Some (key, v)])) = add_mset (key, v) (mset (entries elts))"
proof -
  have "i < length elts"
    using assms(2,4) by (metis gr_implies_not0 mod_less_divisor not_gr_zero)
  then have ms: "mset (entries (elts[i := Some (key, v)])) = mset ((key, v) # entries elts)"
    using assms(5) by (simp add: mset_entries_fill)
  then have "set (entries (elts[i := Some (key, v)])) = set ((key, v) # entries elts)"
    by (rule mset_eq_setD)
  moreover have "distinct (map fst (entries (elts[i := Some (key, v)])))"
    unfolding distinct_fst_mset [OF ms] using assms(1,6) by (auto simp: elts_ok_def)
  ultimately show ?thesis
    using assms(1) path_ok_fill [OF _ assms(2,3,4), of v] ms by (simp add: elts_ok_def)
qed

lemma place_skip:
  assumes "elts \<noteq> []" "\<forall>d<n. elts ! ((h + d) mod length elts) \<noteq> None"
  shows "place (n + f) elts e (h mod length elts) = place f elts e ((h + n) mod length elts)"
  using assms(2)
proof (induction n arbitrary: h)
  case (Suc n)
  let ?c = "length elts"
  have rest: "\<forall>d<n. elts ! ((Suc h + d) mod ?c) \<noteq> None"
    using Suc.prems by (metis Suc_less_eq add_Suc_shift)
  have "elts ! (h mod ?c) \<noteq> None"
    using Suc.prems [rule_format, of 0] by simp
  then have "place (Suc n + f) elts e (h mod ?c) = place (n + f) elts e (Suc (h mod ?c))"
    using assms(1) by auto
  also have "\<dots> = place (n + f) elts e (Suc h mod ?c)"
    using assms(1) by (cases "n + f") (simp_all add: norm_index_Suc)
  also have "\<dots> = place f elts e ((Suc h + n) mod ?c)"
    by (rule Suc.IH [OF rest])
  finally show ?case
    by simp
qed simp

lemma place_ok:
  assumes "elts_ok (methods_of key) elts" "None \<in> set elts"
    "\<forall>v. (key, v) \<notin> set (entries elts)"
  obtains elts' where
    "place (length elts) elts (key, v) (home (length elts) key) = Ret elts'"
    "length elts' = length elts" "elts_ok (methods_of key) elts'"
    "mset (entries elts') = add_mset (key, v) (mset (entries elts))"
proof -
  let ?c = "length elts" and ?h = "home (length elts) key"
  obtain e where "e < ?c" "elts ! e = None"
    using assms(2) by (metis in_set_conv_nth)
  then obtain n where n: "n < ?c" "elts ! ((?h + n) mod ?c) = None"
      "\<forall>d<n. elts ! ((?h + d) mod ?c) \<noteq> None"
    using first_stop [of e ?c "\<lambda>i. elts ! i = None" ?h] by blast
  have ne: "elts \<noteq> []" "0 < ?c"
    using n(1) by auto
  have "place ?c elts (key, v) ?h = place (Suc (?c - n - 1)) elts (key, v) ((?h + n) mod ?c)"
    using place_skip [OF ne(1) n(3), of "?c - n"] n(1) ne
    by (simp del: place.simps add: Suc_diff_Suc)
  also have "\<dots> = Ret (elts[(?h + n) mod ?c := Some (key, v)])"
    using n(2) ne by simp
  finally show thesis
    using that elts_ok_fill [OF assms(1) n(1,3) refl n(2) assms(3), of v] by simp
qed

section \<open>Growing\<close>

lemma free_slot: "length (entries elts) < length elts \<Longrightarrow> None \<in> set elts"
  using entries_all_valid [of elts] by auto

lemma rehash_ok:
  assumes "elts_ok tm new" "\<forall>e\<in>set (entries old). methods_of (fst e) = tm"
    "distinct (map fst (entries old @ entries new))"
    "length (entries old) + length (entries new) < length new"
  shows "\<exists>new'. rehash (Some tm) old new = Ret new' \<and> length new' = length new \<and>
    elts_ok tm new' \<and> mset (entries new') = mset (entries old @ entries new)"
  using assms
proof (induction old arbitrary: new)
  case (Cons x old)
  show ?case
  proof (cases x)
    case None
    then show ?thesis
      using Cons by simp
  next
    case (Some e)
    obtain k v where x: "x = Some (k, v)"
      using Some by (cases e) simp
    let ?c = "length new"
    have tm: "methods_of k = tm" and fresh: "\<forall>v. (k, v) \<notin> set (entries new)"
      and none: "None \<in> set new" and ok: "elts_ok (methods_of k) new"
      using Cons.prems x by (auto intro!: free_slot) (metis fst_conv image_eqI)
    obtain new1 where new1: "place ?c new (k, v) (home ?c k) = Ret new1"
        "length new1 = ?c" "elts_ok (methods_of k) new1"
        "mset (entries new1) = mset ((k, v) # entries new)"
      using place_ok [OF ok none fresh, of v] by auto
    have ms: "mset (entries old @ entries new1) = mset (entries (x # old) @ entries new)"
      using new1(4) x by simp
    have len: "length (entries new1) = Suc (length (entries new))"
      using mset_eq_length [OF new1(4)] by simp
    have "\<exists>new'. rehash (Some tm) old new1 = Ret new' \<and> length new' = length new1 \<and>
        elts_ok tm new' \<and> mset (entries new') = mset (entries old @ entries new1)"
      using Cons.prems new1(2,3) len x tm
      by (intro Cons.IH) (auto simp: distinct_fst_mset [OF ms] simp del: map_append)
    then show ?thesis
      unfolding ms new1(2) using new1(1) tm
      by (simp add: x hash_elt_def flip: home_def)
  qed
qed simp

lemma size_t_small [simp]: "n < 2 ^ 64 \<Longrightarrow> size_t n = n"
  by (simp add: size_t_def)

lemma round_capacity_up_ge:
  assumes "c + 29 < 2 ^ 64"
  shows "c < opal_hash_round_capacity_up c"
  using assms unfolding opal_hash_round_capacity_up_def by simp

lemma elts_ok_empty: "elts_ok tm (replicate n None)"
  by (auto simp: elts_ok_def intro!: path_okI)

lemma grow_cases:
  assumes base: "ht_base tm ht" and tm: "ht_type_methods ht = Some tm"
  obtains
    (fail) "opal_hash_grow alloc ht = Ret (OPAL_ERR_OUT_OF_RESOURCE, ht)"
  | (grown) ht' where "opal_hash_grow alloc ht = Ret (OPAL_SUCCESS, ht')" "ht_inv tm ht'"
      "mset (entries (ht_table ht')) = mset (entries (ht_table ht))"
      "ht_type_methods ht' = Some tm" "ht_capacity ht < ht_capacity ht'"
proof -
  let ?c = "ht_capacity ht" and ?n = "opal_hash_round_capacity_up (2 * ht_capacity ht)"
  note b = base [unfolded ht_base_def]
  have "?c * sizeof_element < 2 ^ 64"
    using b by simp
  then have small: "2 * ?c + 29 < 2 ^ 64"
    by simp
  have sizes: "size_of_int 2 = 2" "size_of_int 1 = 1"
    by (simp_all add: size_of_int_def)
  have n: "2 * ?c < ?n"
    by (rule round_capacity_up_ge [OF small])
  have grow: "opal_hash_grow alloc ht =
      (if \<not> calloc_ok alloc ?n sizeof_element then Ret (OPAL_ERR_OUT_OF_RESOURCE, ht)
       else obind (rehash (Some tm) (ht_table ht) (replicate ?n None)) (\<lambda>new_table.
         Ret (OPAL_SUCCESS, ht \<lparr> ht_table := new_table, ht_capacity := ?n,
           ht_growth_trigger := size_t ?n div 2 \<rparr>)))"
    using b small unfolding opal_hash_grow_def
    by (simp add: sizes tm mult.commute Let_def)
  show thesis
  proof (cases "calloc_ok alloc ?n sizeof_element")
    case False
    then show thesis
      using fail grow by simp
  next
    case True
    then have n64: "?n * sizeof_element < 2 ^ 64"
      by (simp add: calloc_ok_def)
    have "length (entries (ht_table ht)) < ?n"
      using n b length_entries_le [of "ht_table ht"] by linarith
    then obtain new' where new': "rehash (Some tm) (ht_table ht) (replicate ?n None) = Ret new'"
        "length new' = ?n" "elts_ok tm new'" "mset (entries new') = mset (entries (ht_table ht))"
      using rehash_ok [of tm "replicate ?n None" "ht_table ht"] b
      by (auto simp: elts_ok_empty elts_ok_def [of tm "ht_table ht"])
    have "length (entries new') = length (entries (ht_table ht))"
      by (rule mset_eq_length [OF new'(4)])
    moreover have "size_t ?n = ?n"
      using n64 by simp
    ultimately show thesis
      using grown True grow new' b n n64 \<open>length (entries (ht_table ht)) < ?n\<close> tm
      by (simp add: ht_inv_def ht_base_def)
  qed
qed

section \<open>The operations\<close>

lemma ht_inv_free: "ht_inv tm ht \<Longrightarrow> None \<in> set (ht_table ht)"
  by (auto simp: ht_inv_def ht_base_def intro: free_slot)

lemma ht_probe_eq:
  assumes "ht_inv (methods_of key) ht"
  shows "ht_probe debug uninit ht key =
           obind (probe (length (ht_table ht)) (ht_table ht) key
                    (home (length (ht_table ht)) key)) (\<lambda>r. Ret (Inr r))"
  using assms by (auto simp: ht_probe_def ht_inv_def ht_base_def home_def)

lemma ht_map_Some:
  assumes "ht_base tm ht"
  shows "ht_map ht k = Some v \<longleftrightarrow> (k, v) \<in> set (entries (ht_table ht))"
  using assms by (simp add: ht_map_def ht_base_def elts_ok_def)

lemma ht_map_None:
  "ht_map ht k = None \<longleftrightarrow> (\<forall>v. (k, v) \<notin> set (entries (ht_table ht)))"
  by (force simp: ht_map_def map_of_eq_None_iff)

lemma ht_get_ok:
  assumes inv: "ht_inv (methods_of key) ht"
  shows "ht_get_value debug ht key =
           Ret (if ht_map ht key = None then OPAL_ERR_NOT_FOUND else OPAL_SUCCESS,
                ht_map ht key, ht \<lparr> ht_type_methods := Some (methods_of key) \<rparr>)"
proof -
  have base: "ht_base (methods_of key) ht" and ok: "elts_ok (methods_of key) (ht_table ht)"
    using inv by (simp_all add: ht_inv_def ht_base_def)
  show ?thesis
  proof (cases rule: probe_cases [OF ok ht_inv_free [OF inv]])
    case (1 n)
    then show ?thesis
      using ht_map_None [of ht key] by (simp add: ht_get_value_def ht_probe_eq [OF inv])
  next
    case (2 i v)
    then have "(key, v) \<in> set (entries (ht_table ht))"
      by (metis nth_mem set_entries)
    then have "ht_map ht key = Some v"
      using ht_map_Some [OF base] by simp
    then show ?thesis
      using 2 by (simp add: ht_get_value_def ht_probe_eq [OF inv])
  qed
qed

lemma ht_map_cong:
  assumes "ht_base tm ht" "mset (entries (ht_table ht')) = mset (entries (ht_table ht))"
  shows "ht_map ht' = ht_map ht"
  using map_of_entries_eq [OF assms(2) [symmetric]] assms(1)
  by (simp add: ht_map_def ht_base_def elts_ok_def)

lemma ht_map_fill:
  assumes "ht_base tm ht'"
    "mset (entries (ht_table ht')) = add_mset (k, v) (mset (entries (ht_table ht)))"
  shows "ht_map ht' = (ht_map ht)(k \<mapsto> v)"
  using map_of_entries_eq [of "entries (ht_table ht')" "(k, v) # entries (ht_table ht)"] assms
  by (simp add: ht_map_def ht_base_def elts_ok_def)

lemma ht_set_free:
  assumes inv: "ht_inv (methods_of key) ht"
    and n: "n < length (ht_table ht)"
      "i = (home (length (ht_table ht)) key + n) mod length (ht_table ht)"
      "ht_table ht ! i = None"
      "\<forall>d<n. ht_table ht ! ((home (length (ht_table ht)) key + d) mod length (ht_table ht)) \<noteq> None"
      "\<forall>v. (key, v) \<notin> set (entries (ht_table ht))"
    and ht': "ht' = ht \<lparr> ht_type_methods := Some (methods_of key),
                       ht_table := (ht_table ht)[i := Some (key, v)],
                       ht_size := size_t (ht_size ht + 1) \<rparr>"
  shows "ht_base (methods_of key) ht'" "ht_map ht' = (ht_map ht)(key \<mapsto> v)"
    "ht_size ht' = Suc (ht_size ht)"
proof -
  have base: "ht_base (methods_of key) ht" and ok: "elts_ok (methods_of key) (ht_table ht)"
    using inv by (simp_all add: ht_inv_def ht_base_def)
  note fill = elts_ok_fill [OF ok n(1,4,2,3,5), of v]
  have "length (entries ((ht_table ht)[i := Some (key, v)])) = Suc (length (entries (ht_table ht)))"
    using fill by (metis size_add_mset size_mset)
  moreover have "size_t (ht_size ht + 1) = Suc (ht_size ht)"
    using inv by (simp add: ht_inv_def ht_base_def)
  ultimately show "ht_base (methods_of key) ht'" "ht_size ht' = Suc (ht_size ht)"
    using base fill by (simp_all add: ht' ht_base_def)
  then show "ht_map ht' = (ht_map ht)(key \<mapsto> v)"
    using fill by (intro ht_map_fill) (simp_all add: ht')
qed

lemma ht_set_replace:
  assumes base: "ht_base tm ht" and i: "i < length (ht_table ht)" "ht_table ht ! i = Some (key, w)"
    and ht': "ht' = ht \<lparr> ht_type_methods := Some tm, ht_table := (ht_table ht)[i := Some (key, v)] \<rparr>"
  shows "ht_base tm ht'" "ht_map ht' = (ht_map ht)(key \<mapsto> v)"
proof -
  let ?t = "ht_table ht" and ?rest = "entries ((ht_table ht)[i := None])"
  have ms: "mset (entries ?t) = mset ((key, w) # ?rest)"
    using mset_entries_clear [OF i] by simp
  have ms': "mset (entries (?t[i := Some (key, v)])) = mset ((key, v) # ?rest)"
    using mset_entries_fill [of i "?t[i := None]" "(key, v)"] i by simp
  have d: "distinct (map fst ((key, w) # ?rest))"
    using base by (simp only: ht_base_def elts_ok_def distinct_fst_mset [OF ms])
  then have d': "distinct (map fst (entries (?t[i := Some (key, v)])))"
    unfolding distinct_fst_mset [OF ms'] by simp
  have "set (entries ?t) = set ((key, w) # ?rest)"
      "set (entries (?t[i := Some (key, v)])) = set ((key, v) # ?rest)"
    using ms ms' mset_eq_setD by blast+
  then have tm: "\<forall>e\<in>set (entries (?t[i := Some (key, v)])). methods_of (fst e) = tm"
    using base by (simp add: ht_base_def elts_ok_def)
  have same: "?t[i := Some (key, v)] ! j = None \<longleftrightarrow> ?t ! j = None" for j
    using i by (cases "j = i") auto
  have fst_same: "map_option fst (?t[i := Some (key, v)] ! j) = map_option fst (?t ! j)" for j
    using i by (cases "j = i") auto
  have "path_ok (?t[i := Some (key, v)])"
  proof (rule path_okI)
    fix j k u d
    assume j: "j < length (?t[i := Some (key, v)])" "?t[i := Some (key, v)] ! j = Some (k, u)"
      "d < dist (length (?t[i := Some (key, v)])) (home (length (?t[i := Some (key, v)])) k) j"
    obtain u' where "?t ! j = Some (k, u')"
      using fst_same [of j] j(2) by (cases "?t ! j") auto
    then show "?t[i := Some (key, v)] ! ((home (length (?t[i := Some (key, v)])) k + d)
        mod length (?t[i := Some (key, v)])) \<noteq> None"
      unfolding same length_list_update
      using path_okD [of ?t j k u' d] base j by (simp add: ht_base_def elts_ok_def)
  qed
  moreover have "length (entries (?t[i := Some (key, v)])) = length (entries ?t)"
    using mset_eq_length [OF ms] mset_eq_length [OF ms'] by simp
  ultimately show "ht_base tm ht'"
    using base d' tm by (simp add: ht' ht_base_def elts_ok_def)
  show "ht_map ht' = (ht_map ht)(key \<mapsto> v)"
    using map_of_entries_eq [OF ms'] map_of_entries_eq [OF ms] d' d base
    by (simp add: ht' ht_map_def ht_base_def elts_ok_def)
qed

lemma ht_set_ok:
  assumes inv: "ht_inv (methods_of key) ht"
    and copy: "\<And>bs. key = KPtr bs \<Longrightarrow> alloc (length bs)"
  obtains rc ht' where "ht_set_value debug alloc ht key v = Ret (rc, ht')"
    "rc = OPAL_SUCCESS \<or> rc = OPAL_ERR_OUT_OF_RESOURCE"
    "ht_map ht' = (ht_map ht)(key \<mapsto> v)" "ht_base (methods_of key) ht'"
    "rc = OPAL_SUCCESS \<Longrightarrow> ht_inv (methods_of key) ht'"
proof -
  have base: "ht_base (methods_of key) ht" and ok: "elts_ok (methods_of key) (ht_table ht)"
    using inv by (simp_all add: ht_inv_def ht_base_def)
  show thesis
  proof (cases rule: probe_cases [OF ok ht_inv_free [OF inv]])
    case (1 n)
    define i where "i = (home (length (ht_table ht)) key + n) mod length (ht_table ht)"
    define h1 where "h1 = ht \<lparr> ht_type_methods := Some (methods_of key),
                       ht_table := (ht_table ht)[i := Some (key, v)],
                       ht_size := size_t (ht_size ht + 1) \<rparr>"
    note h1 = ht_set_free [OF inv 1(1) i_def 1(3) [folded i_def] 1(4,5) h1_def]
    have eq: "ht_set_value debug alloc ht key v =
        (if ht_growth_trigger h1 \<le> ht_size h1 then opal_hash_grow alloc h1
         else Ret (OPAL_SUCCESS, h1))"
      using 1(2) copy
      by (auto simp: ht_set_value_def ht_probe_eq [OF inv] h1_def i_def Let_def split: key.split)
    show thesis
    proof (cases "ht_growth_trigger h1 \<le> ht_size h1")
      case True
      have "ht_type_methods h1 = Some (methods_of key)"
        by (simp add: h1_def)
      from h1(1) this show thesis
      proof (cases rule: grow_cases [where alloc = alloc])
        case fail
        then show ?thesis
          using that eq True h1 by simp
      next
        case (grown ht')
        then show ?thesis
          using that [of OPAL_SUCCESS ht'] eq True h1 ht_map_cong [OF h1(1) grown(3)]
          by (simp add: ht_inv_def)
      qed
    next
      case False
      have "ht_inv (methods_of key) h1"
        using False h1(1) by (auto simp: ht_inv_def ht_base_def)
      then show thesis
        using that [of OPAL_SUCCESS h1] eq False h1 by simp
    qed
  next
    case (2 i w)
    define h1 where "h1 = ht \<lparr> ht_type_methods := Some (methods_of key),
                       ht_table := (ht_table ht)[i := Some (key, v)] \<rparr>"
    note h1 = ht_set_replace [OF base 2(1,3) h1_def]
    have "ht_set_value debug alloc ht key v = Ret (OPAL_SUCCESS, h1)"
      using 2(2) by (simp add: ht_set_value_def ht_probe_eq [OF inv] h1_def)
    moreover have "ht_inv (methods_of key) h1"
      using h1(1) inv by (simp add: ht_inv_def h1_def)
    ultimately show thesis
      using that h1 by blast
  qed
qed

section \<open>Removing\<close>

text \<open>
  Seen from a free slot \<open>e\<close> the cyclic table is a linear one: \<open>rel elts e p\<close> is the element \<open>p\<close>
  places behind \<open>e\<close>, and the home of a stored key is never behind the key.
\<close>

definition rel :: "'v elts \<Rightarrow> nat \<Rightarrow> nat \<Rightarrow> (key \<times> 'v) option" where
  "rel elts e p = elts ! ((e + p) mod length elts)"

definition rel_home :: "nat \<Rightarrow> nat \<Rightarrow> key \<Rightarrow> nat" where
  "rel_home c e k = dist c e (home c k)"

definition linear :: "'v elts \<Rightarrow> nat \<Rightarrow> bool" where
  "linear elts e \<longleftrightarrow>
     (\<forall>p<length elts. \<forall>k v. rel elts e p = Some (k, v) \<longrightarrow>
        rel_home (length elts) e k \<le> p \<and>
        (\<forall>q. rel_home (length elts) e k \<le> q \<and> q < p \<longrightarrow> rel elts e q \<noteq> None))"

lemma slot_eq_iff:
  fixes c :: nat
  assumes "e < c" "p < c" "q < c"
  shows "(e + p) mod c = (e + q) mod c \<longleftrightarrow> p = q"
  using mod_add_inj [OF assms(2,3)] by blast

lemma rel_update:
  assumes "e < length elts" "p < length elts" "q < length elts"
  shows "rel (elts[(e + q) mod length elts := x]) e p = (if p = q then x else rel elts e p)"
proof -
  have "(e + p) mod length elts < length elts"
    using assms(1) by (intro mod_less_divisor) linarith
  then show ?thesis
    using slot_eq_iff [of e "length elts" p q] assms
    by (auto simp: rel_def nth_list_update)
qed

lemma rel_home_slot:
  assumes "e < c"
  shows "(e + (rel_home c e k + d)) mod c = (home c k + d) mod c"
proof -
  have "home c k = (e + rel_home c e k) mod c"
    using assms by (simp add: rel_home_def add_dist)
  then have "(home c k + d) mod c = (e + rel_home c e k + d) mod c"
    by (simp only: mod_add_left_eq)
  then show ?thesis
    by (simp only: add.assoc)
qed

lemma dist_home:
  assumes "e < c" "p < c" "rel_home c e k \<le> p"
  shows "dist c (home c k) ((e + p) mod c) = p - rel_home c e k"
proof -
  have "(e + p) mod c = (home c k + (p - rel_home c e k)) mod c"
    using rel_home_slot [OF assms(1), of k "p - rel_home c e k"] assms(3) by simp
  moreover have "home c k < c" "p - rel_home c e k < c"
    using assms(1,2) by (auto simp: home_def)
  ultimately show ?thesis
    by (simp only: dist_add)
qed

lemma path_ok_linear:
  assumes e: "e < length elts" "elts ! e = None" and ok: "path_ok elts"
  shows "linear elts e"
  unfolding linear_def
proof (intro allI impI)
  let ?c = "length elts"
  have c: "0 < ?c"
    using e(1) by linarith
  fix p k v
  assume p: "p < ?c" and kv: "rel elts e p = Some (k, v)"
  let ?h = "rel_home ?c e k"
  have i: "(e + p) mod ?c < ?c"
    using c by simp
  have "?h < ?c"
    using c by (simp add: rel_home_def dist_less)
  have le: "?h \<le> p"
  proof (rule ccontr)
    assume less: "\<not> ?h \<le> p"
    have "p \<noteq> 0"
      using kv e by (metis add.right_neutral mod_less option.distinct(1) rel_def)
    have "(home ?c k + (?c + p - ?h)) mod ?c = (e + (?h + (?c + p - ?h))) mod ?c"
      by (rule rel_home_slot [OF e(1), symmetric])
    also have "\<dots> = (e + p) mod ?c"
      using less \<open>?h < ?c\<close> by (simp add: add.left_commute [of e])
    finally have eq: "(home ?c k + (?c + p - ?h)) mod ?c = (e + p) mod ?c" .
    have "?c + p - ?h < ?c"
      using less \<open>?h < ?c\<close> by linarith
    then have "dist ?c (home ?c k) ((e + p) mod ?c) = ?c + p - ?h"
      using dist_add [of "home ?c k" ?c "?c + p - ?h"] c by (simp only: eq home_less)
    then have "elts ! ((home ?c k + (?c - ?h)) mod ?c) \<noteq> None"
      using path_okD [OF ok i, of k v "?c - ?h"] kv \<open>p \<noteq> 0\<close> \<open>?h < ?c\<close> by (simp add: rel_def)
    moreover have "(home ?c k + (?c - ?h)) mod ?c = e"
      using rel_home_slot [OF e(1), of k "?c - ?h"] \<open>?h < ?c\<close> e(1) by simp
    ultimately show False
      using e(2) by simp
  qed
  have "rel elts e q \<noteq> None" if "?h \<le> q" "q < p" for q
    using path_okD [OF ok i, of k v "q - ?h"] kv that dist_home [OF e(1) p le]
      rel_home_slot [OF e(1), of k "q - ?h"]
    by (simp add: rel_def)
  then show "?h \<le> p \<and> (\<forall>q. ?h \<le> q \<and> q < p \<longrightarrow> rel elts e q \<noteq> None)"
    using le by blast
qed

lemma linear_path_ok:
  assumes e: "e < length elts" and lin: "linear elts e"
  shows "path_ok elts"
proof (rule path_okI)
  let ?c = "length elts"
  fix i k v d
  assume i: "i < ?c" "elts ! i = Some (k, v)" and d: "d < dist ?c (home ?c k) i"
  let ?p = "dist ?c e i" and ?h = "rel_home ?c e k"
  have p: "?p < ?c" "(e + ?p) mod ?c = i"
    using e i dist_less [of ?c e i] by (simp_all only: add_dist)
  then have h: "?h \<le> ?p" "\<forall>q. ?h \<le> q \<and> q < ?p \<longrightarrow> rel elts e q \<noteq> None"
    using lin i by (auto simp: linear_def rel_def)
  have "d < ?p - ?h"
    using d dist_home [OF e p(1) h(1)] p(2) by simp
  then have "rel elts e (?h + d) \<noteq> None"
    using h by simp
  then show "elts ! ((home ?c k + d) mod ?c) \<noteq> None"
    using rel_home_slot [OF e, of k d] by (simp add: rel_def)
qed

text \<open>
  The state of the outer loop at position \<open>p\<close>: one gap \<open>g\<close> before \<open>p\<close>; the elements before
  \<open>p\<close> are in place, those from \<open>p\<close> on would be with the gap filled.
\<close>

definition gap_at :: "'v elts \<Rightarrow> nat \<Rightarrow> nat \<Rightarrow> nat \<Rightarrow> bool" where
  "gap_at elts e g p \<longleftrightarrow>
     0 < g \<and> g < p \<and> p \<le> length elts \<and> rel elts e 0 = None \<and> rel elts e g = None \<and>
     (\<forall>r<length elts. \<forall>k v. rel elts e r = Some (k, v) \<longrightarrow>
        rel_home (length elts) e k \<le> r \<and>
        (\<forall>q. rel_home (length elts) e k \<le> q \<and> q < r \<and> (r < p \<or> q \<noteq> g) \<longrightarrow>
           rel elts e q \<noteq> None))"

lemma gap_atD:
  assumes "gap_at elts e g p" "r < length elts" "rel elts e r = Some (k, v)"
  shows "rel_home (length elts) e k \<le> r"
    "rel_home (length elts) e k \<le> q \<Longrightarrow> q < r \<Longrightarrow> r < p \<or> q \<noteq> g \<Longrightarrow> rel elts e q \<noteq> None"
  using assms unfolding gap_at_def by blast+

lemma gap_at_done:
  assumes "gap_at elts e g p" "p = length elts \<or> rel elts e p = None"
  shows "linear elts e"
  unfolding linear_def
proof (intro allI impI conjI)
  fix r k v q
  assume r: "r < length elts" "rel elts e r = Some (k, v)"
  then show "rel_home (length elts) e k \<le> r"
    using gap_atD(1) [OF assms(1)] by blast
  assume q: "rel_home (length elts) e k \<le> q \<and> q < r"
  show "rel elts e q \<noteq> None"
  proof (cases "r < p \<or> q \<noteq> g")
    case True
    then show ?thesis
      using gap_atD(2) [OF assms(1) r] q by blast
  next
    case False
    then have "rel elts e p = None" "q < p" "p \<noteq> g"
      using assms r by (auto simp: gap_at_def)
    moreover from this have "p < r"
      using False r by (metis linorder_neqE_nat option.distinct(1))
    ultimately show ?thesis
      using gap_atD(2) [OF assms(1) r, of p] q by auto
  qed
qed

lemma gap_at_skip:
  assumes "gap_at elts e g p" "p < length elts" "rel elts e p = Some (k, v)"
    "g < rel_home (length elts) e k"
  shows "gap_at elts e g (Suc p)"
  using assms unfolding gap_at_def by (auto simp: less_Suc_eq)

lemma gap_at_move:
  assumes gap: "gap_at elts e g p" and e: "e < length elts" and p: "p < length elts"
    and kv: "rel elts e p = Some (k, v)" and h: "rel_home (length elts) e k \<le> g"
    and elts': "elts' = elts[(e + g) mod length elts := Some (k, v), (e + p) mod length elts := None]"
  shows "gap_at elts' e p (Suc p)"
proof -
  have g: "0 < g" "g < p" "g < length elts" "rel elts e 0 = None" "rel elts e g = None"
    using gap p by (auto simp: gap_at_def)
  have rel': "rel elts' e r = (if r = p then None else if r = g then Some (k, v) else rel elts e r)"
    if "r < length elts" for r
    using that e p g(3)
      rel_update [of e "elts[(e + g) mod length elts := Some (k, v)]" r p None]
      rel_update [of e elts r g "Some (k, v)"]
    by (simp add: elts')
  have len: "length elts' = length elts"
    by (simp add: elts')
  have "rel_home (length elts) e k' \<le> r \<and>
      (\<forall>q. rel_home (length elts) e k' \<le> q \<and> q < r \<and> (r < Suc p \<or> q \<noteq> p) \<longrightarrow>
        rel elts' e q \<noteq> None)"
    if r: "r < length elts" "rel elts' e r = Some (k', v')" for r k' v'
  proof (cases "r = g")
    case True
    then have "k' = k"
      using r g rel' [of g] by simp
    then show ?thesis
      using h gap_atD(2) [OF gap p kv] g p True by (auto simp: rel')
  next
    case False
    then have "r \<noteq> p" "rel elts e r = Some (k', v')"
      using r rel' [of r] by (auto split: if_splits)
    then show ?thesis
      using gap_atD [OF gap r(1)] False r(1) g p rel' by (auto simp: less_Suc_eq)
  qed
  then show ?thesis
    using g p rel' [OF le_less_trans [OF le0 p]] rel' [of p] by (auto simp: gap_at_def len)
qed

lemma settle_skip:
  assumes "elts \<noteq> []"
    "\<forall>d<n. elts ! ((h + d) mod length elts) \<noteq> None \<and> (h + d) mod length elts \<noteq> ii"
  shows "settle (n + f) elts ii (h mod length elts) = settle f elts ii ((h + n) mod length elts)"
  using assms(2)
proof (induction n arbitrary: h)
  case (Suc n)
  let ?c = "length elts"
  have rest: "\<forall>d<n. elts ! ((Suc h + d) mod ?c) \<noteq> None \<and> (Suc h + d) mod ?c \<noteq> ii"
    using Suc.prems by (metis Suc_less_eq add_Suc_shift)
  have "elts ! (h mod ?c) \<noteq> None \<and> h mod ?c \<noteq> ii"
    using Suc.prems [rule_format, of 0] by simp
  then have "settle (Suc n + f) elts ii (h mod ?c) = settle (n + f) elts ii (Suc (h mod ?c))"
    using assms(1) by auto
  also have "\<dots> = settle (n + f) elts ii (Suc h mod ?c)"
    using assms(1) by (cases "n + f") (simp_all add: norm_index_Suc)
  also have "\<dots> = settle f elts ii ((Suc h + n) mod ?c)"
    by (rule Suc.IH [OF rest])
  finally show ?case
    by simp
qed simp

lemma settle_gap:
  assumes gap: "gap_at elts e g p" and e: "e < length elts" and p: "p < length elts"
    and kv: "rel elts e p = Some (k, v)"
  shows "settle (length elts) elts ((e + p) mod length elts) (home (length elts) k) =
           Ret (if rel_home (length elts) e k \<le> g
                then elts[(e + g) mod length elts := Some (k, v), (e + p) mod length elts := None]
                else elts)"
proof -
  let ?c = "length elts" and ?h = "rel_home (length elts) e k"
  define s where "s = (if ?h \<le> g then g else p)"
  have g: "g < p" "rel elts e g = None"
    using gap by (auto simp: gap_at_def)
  have h: "?h \<le> s" "s \<le> p"
    using gap_atD(1) [OF gap p kv] g by (auto simp: s_def)
  have ne: "elts \<noteq> []"
    using e by auto
  define m where "m = s - ?h"
  have slot: "(home ?c k + d) mod ?c = (e + (?h + d)) mod ?c" for d
    using rel_home_slot [OF e] by simp
  have skip: "\<forall>d<m. elts ! ((home ?c k + d) mod ?c) \<noteq> None \<and>
      (home ?c k + d) mod ?c \<noteq> (e + p) mod ?c"
  proof (intro allI impI conjI)
    fix d assume d: "d < m"
    then have *: "?h + d < p" "?h + d \<noteq> g"
      using h by (auto simp: m_def s_def split: if_splits)
    then show "elts ! ((home ?c k + d) mod ?c) \<noteq> None"
      using gap_atD(2) [OF gap p kv, of "?h + d"] unfolding slot by (simp add: rel_def)
    show "(home ?c k + d) mod ?c \<noteq> (e + p) mod ?c"
      unfolding slot using * slot_eq_iff [OF e, of "?h + d" p] p by simp
  qed
  have "m < ?c"
    using h p unfolding m_def by linarith
  then have "settle ?c elts ((e + p) mod ?c) (home ?c k) =
      settle (Suc (?c - (m) - 1)) elts ((e + p) mod ?c) ((e + s) mod ?c)"
    using settle_skip [OF ne skip, of "?c - (m)"] slot [of m] h ne
    by (simp del: settle.simps add: Suc_diff_Suc m_def)
  also have "\<dots> = Ret (if ?h \<le> g then elts[(e + g) mod ?c := Some (k, v), (e + p) mod ?c := None]
      else elts)"
    using ne g kv slot_eq_iff [OF e, of g p] p by (auto simp: s_def rel_def)
  finally show ?thesis .
qed

lemma close_gap_ok:
  assumes "gap_at elts e g p" "e < length elts" "norm_index (length elts) ii = (e + p) mod length elts"
    "length elts < fuel + p" "\<forall>x\<in>set (entries elts). methods_of (fst x) = tm"
  shows "\<exists>elts'. close_gap fuel (Some tm) elts ii = Ret elts' \<and> length elts' = length elts \<and>
    linear elts' e \<and> mset (entries elts') = mset (entries elts)"
  using assms
proof (induction fuel arbitrary: elts g p ii)
  case 0
  then show ?case
    by (simp add: gap_at_def)
next
  case (Suc fuel)
  let ?c = "length elts"
  show ?case
  proof (cases "rel elts e p")
    case None
    then show ?thesis
      using Suc.prems gap_at_done [of elts e g p] by (auto simp: rel_def)
  next
    case (Some x)
    obtain k v where kv: "rel elts e p = Some (k, v)"
      using Some by (cases x) simp
    have "rel elts e ?c = None"
      using Suc.prems(1,2) by (simp add: gap_at_def rel_def)
    then have p: "p < ?c"
      using Suc.prems(1) kv by (auto simp: gap_at_def le_less)
    have g: "g < p" "rel elts e g = None"
      using Suc.prems(1) by (auto simp: gap_at_def)
    have i: "(e + p) mod ?c < ?c" "(e + g) mod ?c < ?c" "(e + p) mod ?c \<noteq> (e + g) mod ?c"
      using Suc.prems(2) g p slot_eq_iff [of e ?c p g]
      by (auto intro!: mod_less_divisor)
    have tm: "methods_of k = tm"
      using Suc.prems(5) kv i by (metis fst_conv nth_mem rel_def set_entries)
    have "0 < ?c"
      using p by linarith
    then have next_ii: "norm_index ?c (Suc ((e + p) mod ?c)) = (e + Suc p) mod ?c"
      using norm_index_Suc [of ?c "e + p"] by simp
    let ?e' = "elts[(e + g) mod ?c := Some (k, v), (e + p) mod ?c := None]"
    define elts1 where "elts1 = (if rel_home ?c e k \<le> g then ?e' else elts)"
    have ms: "mset (entries elts1) = mset (entries elts)"
      using mset_entries_move [OF i(1,2,3), of "(k, v)"] g kv by (auto simp: elts1_def rel_def)
    have len: "length elts1 = ?c"
      by (simp add: elts1_def)
    obtain g' where gap1: "gap_at elts1 e g' (Suc p)"
      using gap_at_move [OF Suc.prems(1,2) p kv _ refl] gap_at_skip [OF Suc.prems(1) p kv]
      by (metis elts1_def not_le)
    have "\<exists>elts'. close_gap fuel (Some tm) elts1 (Suc ((e + p) mod ?c)) = Ret elts' \<and>
        length elts' = length elts1 \<and> linear elts' e \<and> mset (entries elts') = mset (entries elts1)"
      using Suc.prems(2,4,5) next_ii mset_eq_setD [OF ms]
      by (intro Suc.IH [OF gap1]) (simp_all add: len)
    moreover have "close_gap (Suc fuel) (Some tm) elts ii =
        close_gap fuel (Some tm) elts1 (Suc ((e + p) mod ?c))"
      using Suc.prems(3) kv tm settle_gap [OF Suc.prems(1,2) p kv]
      by (simp add: rel_def hash_elt_def elts1_def Let_def flip: home_def)
    ultimately show ?thesis
      by (simp only: ms len)
  qed
qed

lemma gap_at_start:
  assumes e: "e < length elts" "elts ! e = None" and lin: "linear elts e"
    and i: "i < length elts" "elts ! i = Some x"
  shows "gap_at (elts[i := None]) e (dist (length elts) e i) (Suc (dist (length elts) e i))"
proof -
  let ?c = "length elts" and ?g = "dist (length elts) e i"
  have c: "0 < ?c"
    using e by linarith
  have g: "?g < ?c" "(e + ?g) mod ?c = i"
    using dist_less [OF c] add_dist [OF e(1) i(1)] by auto
  have rel': "rel (elts[i := None]) e r = (if r = ?g then None else rel elts e r)" if "r < ?c" for r
    using rel_update [OF e(1) that g(1), of None] g(2) by simp
  have g0: "?g \<noteq> 0"
    using g e i by (metis add.right_neutral mod_less option.distinct(1))
  have "rel elts e 0 = None"
    using e by (simp add: rel_def)
  then show ?thesis
    unfolding gap_at_def using g0 g(1) c rel' lin
    by (auto simp: linear_def less_Suc_eq_le)
qed

lemma remove_elt_at_ok:
  assumes base: "ht_base tm ht" and free: "None \<in> set (ht_table ht)"
    and tm: "ht_type_methods ht = Some tm"
    and i: "i < length (ht_table ht)" "ht_table ht ! i = Some (k, v)"
  obtains ht' where "opal_hash_table_remove_elt_at ht i = Ret (OPAL_SUCCESS, ht')"
    "ht_inv tm ht'" "ht_map ht' = (ht_map ht)(k := None)" "ht_type_methods ht' = Some tm"
    "Suc (ht_size ht') = ht_size ht"
proof -
  let ?t = "ht_table ht" and ?c = "length (ht_table ht)" and ?u = "(ht_table ht)[i := None]"
  note b = base [unfolded ht_base_def elts_ok_def]
  obtain e where e: "e < ?c" "?t ! e = None"
    using free by (metis in_set_conv_nth)
  have lin: "linear ?t e"
    using path_ok_linear [OF e] b by simp
  let ?g = "dist ?c e i"
  have gap: "gap_at ?u e ?g (Suc ?g)"
    by (rule gap_at_start [OF e lin i])
  have ms: "mset (entries ?t) = mset ((k, v) # entries ?u)"
    using mset_entries_clear [OF i] by simp
  have slot: "norm_index ?c (i + 1) = (e + Suc ?g) mod ?c"
  proof -
    have "0 < ?c" "(e + ?g) mod ?c = i"
      using e add_dist [OF e(1) i(1)] by auto
    then show ?thesis
      using norm_index_Suc [of ?c "e + ?g"] by simp
  qed
  have meths: "\<forall>x\<in>set (entries ?u). methods_of (fst x) = tm"
    using b mset_eq_setD [OF ms] by auto
  have "?c \<le> ?c ^ 3"
    using i(1) by (intro self_le_power) linarith+
  then obtain elts' where elts': "close_gap (?c ^ 3 + 1) (Some tm) ?u (i + 1) = Ret elts'"
      "length elts' = ?c" "linear elts' e" "mset (entries elts') = mset (entries ?u)"
    using close_gap_ok [OF gap, of "i + 1" "?c ^ 3 + 1" tm] e slot meths by auto
  define ht' where "ht' = ht \<lparr> ht_table := elts', ht_size := size_t (ht_size ht + (2 ^ 64 - 1)) \<rparr>"
  have d: "distinct (map fst ((k, v) # entries ?u))"
    using b by (simp only: distinct_fst_mset [OF ms])
  then have d': "distinct (map fst (entries elts'))"
    by (simp add: distinct_fst_mset [OF elts'(4)])
  have len: "length (entries ?t) = Suc (length (entries elts'))"
    using mset_eq_length [OF ms] mset_eq_length [OF elts'(4)] by simp
  have size': "ht_size ht' = length (entries elts')"
    using b len length_entries_le [of ?t] by (simp add: ht'_def size_t_def)
  have inv: "ht_inv tm ht'"
    using b size' d' elts' meths mset_eq_setD [OF elts'(4)] linear_path_ok [of e elts'] e(1) len
      length_entries_le [of ?t]
    by (simp add: ht_inv_def ht_base_def elts_ok_def ht'_def)
  have "ht_map ht' = map_of (entries ?u)"
    using map_of_entries_eq [OF elts'(4) d'] by (simp add: ht_map_def ht'_def)
  moreover have "ht_map ht = map_of ((k, v) # entries ?u)"
    using map_of_entries_eq [OF ms] b by (simp add: ht_map_def)
  moreover have "map_of (entries ?u) k = None"
    using d by (simp add: map_of_eq_None_iff)
  ultimately have "ht_map ht' = (ht_map ht)(k := None)"
    by (auto simp: fun_eq_iff)
  moreover have "opal_hash_table_remove_elt_at ht i = Ret (OPAL_SUCCESS, ht')"
    using b i tm elts'(1) by (simp add: opal_hash_table_remove_elt_at_def ht'_def)
  ultimately show thesis
    using that inv tm b len size' by (simp add: ht'_def)
qed

lemma ht_remove_ok:
  assumes inv: "ht_inv (methods_of key) ht"
  obtains ht' where
    "ht_remove_value debug ht key =
       Ret (if ht_map ht key = None then OPAL_ERR_NOT_FOUND else OPAL_SUCCESS, ht')"
    "ht_inv (methods_of key) ht'" "ht_map ht' = (ht_map ht)(key := None)"
proof -
  have base: "ht_base (methods_of key) ht" and ok: "elts_ok (methods_of key) (ht_table ht)"
    using inv by (simp_all add: ht_inv_def ht_base_def)
  define h1 where "h1 = ht \<lparr> ht_type_methods := Some (methods_of key) \<rparr>"
  have h1: "ht_inv (methods_of key) h1" "ht_map h1 = ht_map ht" "ht_table h1 = ht_table ht"
      "ht_type_methods h1 = Some (methods_of key)"
    using inv by (simp_all add: h1_def ht_inv_def ht_base_def ht_map_def)
  show thesis
  proof (cases rule: probe_cases [OF ok ht_inv_free [OF inv]])
    case (1 n)
    then have "ht_map ht key = None"
      by (simp add: ht_map_None)
    then show thesis
      using that [of h1] 1 h1 by (simp add: ht_remove_value_def ht_probe_eq [OF inv] h1_def fun_upd_idem)
  next
    case (2 i v)
    then have "(key, v) \<in> set (entries (ht_table ht))"
      by (metis nth_mem set_entries)
    then have "ht_map ht key = Some v"
      using ht_map_Some [OF base] by simp
    moreover obtain ht' where "opal_hash_table_remove_elt_at h1 i = Ret (OPAL_SUCCESS, ht')"
        "ht_inv (methods_of key) ht'" "ht_map ht' = (ht_map h1)(key := None)"
      using remove_elt_at_ok [of "methods_of key" h1 i key v] h1 2 ht_inv_free [OF inv]
      by (auto simp: ht_inv_def)
    ultimately show thesis
      using that 2 h1 by (simp add: ht_remove_value_def ht_probe_eq [OF inv] h1_def)
  qed
qed

section \<open>Set-up, traversal and the contract\<close>

lemma init_ok:
  assumes "n < 2 ^ 32" "ht_size ht = 0"
  obtains
    (fail) ht' where "opal_hash_table_init alloc ht n = Ret (OPAL_ERR_OUT_OF_RESOURCE, ht')"
  | (ready) ht' where "opal_hash_table_init alloc ht n = Ret (OPAL_SUCCESS, ht')"
      "\<forall>tm. ht_inv tm ht'" "ht_map ht' = Map.empty" "2 * n < ht_capacity ht'"
proof -
  let ?c = "opal_hash_round_capacity_up (2 * n)"
  have small: "2 * n + 29 < 2 ^ 64"
    using assms(1) by simp
  have c: "2 * n < ?c" "?c \<le> 2 * n + 30"
    using round_capacity_up_ge [OF small] small
    by (simp_all add: opal_hash_round_capacity_up_def)
  have sizes: "size_of_int 2 = 2" "size_of_int 1 = 1"
    by (simp_all add: size_of_int_def)
  have s: "size_t (n * 2) = 2 * n" "size_t ?c = ?c"
    using small c assms(1) by simp_all
  show thesis
    using that c assms
    by (cases "calloc_ok alloc ?c sizeof_element")
       (auto simp: opal_hash_table_init_def opal_hash_table_init2_def sizes s Let_def
         ht_inv_def ht_base_def ht_map_def elts_ok_empty)
qed

lemma remove_all_ok:
  assumes "ht_inv tm ht"
  shows "fst (opal_hash_table_remove_all ht) = OPAL_SUCCESS"
    "ht_inv tm' (snd (opal_hash_table_remove_all ht))"
    "ht_map (snd (opal_hash_table_remove_all ht)) = Map.empty"
  using assms
  by (auto simp: opal_hash_table_remove_all_def ht_inv_def ht_base_def ht_map_def elts_ok_empty)

lemma next_valid_None: "next_valid elts ii = None \<longleftrightarrow> entries elts = []"
  by (induction elts arbitrary: ii) (auto split: option.split)

lemma next_valid_Some:
  assumes "next_valid elts ii = Some j"
  shows "ii \<le> j \<and> j < ii + length elts \<and>
    (\<exists>e. elts ! (j - ii) = Some e \<and> entries elts = e # entries (drop (Suc (j - ii)) elts))"
  using assms
proof (induction elts arbitrary: ii)
  case (Cons x elts)
  show ?case
  proof (cases x)
    case None
    then have IH: "Suc ii \<le> j \<and> j < Suc ii + length elts \<and>
        (\<exists>e. elts ! (j - Suc ii) = Some e \<and>
          entries elts = e # entries (drop (Suc (j - Suc ii)) elts))"
      using Cons.IH [of "Suc ii"] Cons.prems by simp
    then have "j - ii = Suc (j - Suc ii)"
      by linarith
    then show ?thesis
      using IH None by auto
  qed (use Cons.prems in auto)
qed simp

lemma get_next_key_cases:
  assumes "ht_capacity ht = length (ht_table ht)" "start = (case node of None \<Rightarrow> 0 | Some p \<Rightarrow> p + 1)"
  obtains
    (last) "ht_get_next_key ht node = (OPAL_ERROR, None)" "entries (drop start (ht_table ht)) = []"
  | (more) k v j where "ht_get_next_key ht node = (OPAL_SUCCESS, Some (k, v, j))"
      "start \<le> j" "j < length (ht_table ht)" "ht_table ht ! j = Some (k, v)"
      "entries (drop start (ht_table ht)) = (k, v) # entries (drop (Suc j) (ht_table ht))"
proof (cases "next_valid (drop start (ht_table ht)) start")
  case None
  then have "ht_get_next_key ht node = (OPAL_ERROR, None)"
    using assms by (simp add: ht_get_next_key_def opal_hash_table_get_next_elt_def Let_def)
  then show thesis
    using last None by (simp add: next_valid_None)
next
  case (Some j)
  note s = next_valid_Some [OF Some]
  then have j: "start \<le> j" "j < length (ht_table ht)"
    by auto
  then obtain e where "ht_table ht ! j = Some e"
      "entries (drop start (ht_table ht)) = e # entries (drop (Suc j) (ht_table ht))"
    using s by auto
  then show thesis
    using more [of "fst e" "snd e" j] j Some assms
    by (simp add: ht_get_next_key_def opal_hash_table_get_next_elt_def split_beta Let_def)
qed

lemma traverse_from:
  assumes "ht_capacity ht = length (ht_table ht)"
    "start = (case node of None \<Rightarrow> 0 | Some p \<Rightarrow> p + 1)" "length (ht_table ht) < fuel + start"
    "start \<le> length (ht_table ht)"
  shows "ht_traverse fuel ht node = Ret (entries (drop start (ht_table ht)))"
  using assms(2-)
proof (induction fuel arbitrary: start node)
  case (Suc fuel)
  show ?case
  proof (cases rule: get_next_key_cases [OF assms(1) Suc.prems(1)])
    case 1
    then show ?thesis
      by simp
  next
    case (2 k v j)
    then show ?thesis
      using Suc.IH [of "Suc j" "Some j"] Suc.prems(2) by simp
  qed
qed simp

text \<open>The contract, for the keys that a function \<open>kf\<close> makes of the caller's keys.\<close>

lemma ht_keyed_store:
  assumes inj: "inj kf" and tm: "\<And>k. methods_of (kf k) = tm"
    and copy: "\<And>k bs. kf k = KPtr bs \<Longrightarrow> alloc (length bs)"
  shows "keyed_store (ht_inv tm) (\<lambda>ht k. ht_map ht (kf k)) (\<lambda>ht k. ht_get_value debug ht (kf k))
           (\<lambda>ht k v. ht_set_value debug alloc ht (kf k) v) (\<lambda>ht k. ht_remove_value debug ht (kf k))"
proof
  fix ht :: "'v opal_hash_table_t" and k v
  assume inv: "ht_inv tm ht"
  then have inv': "ht_inv (methods_of (kf k)) ht"
    by (simp add: tm)
  have upd: "(\<lambda>k. m' (kf k)) = (\<lambda>k. m (kf k))(k := x)" if "m' = m(kf k := x)"
    for m m' :: "key \<rightharpoonup> 'v" and x
    using that inj by (auto simp: fun_eq_iff inj_eq)
  have same: "ht_map (ht \<lparr> ht_type_methods := x \<rparr>) = ht_map ht" for x
    by (simp add: ht_map_def)
  have keep: "ht_inv tm (ht \<lparr> ht_type_methods := Some tm \<rparr>)"
    using inv by (simp add: ht_inv_def ht_base_def)
  show "\<exists>t'. ht_get_value debug ht (kf k) =
      Ret (found_code (ht_map ht (kf k)), ht_map ht (kf k), t') \<and> ht_inv tm t' \<and>
      (\<lambda>k. ht_map t' (kf k)) = (\<lambda>k. ht_map ht (kf k))"
    using ht_get_ok [OF inv', of debug] keep
    by (intro exI [of _ "ht \<lparr> ht_type_methods := Some tm \<rparr>"])
       (simp add: found_code_def same tm)
  obtain rc t' where set: "ht_set_value debug alloc ht (kf k) v = Ret (rc, t')"
      "rc = OPAL_SUCCESS \<or> rc = OPAL_ERR_OUT_OF_RESOURCE"
      "ht_map t' = (ht_map ht)(kf k \<mapsto> v)" "rc = OPAL_SUCCESS \<Longrightarrow> ht_inv (methods_of (kf k)) t'"
    by (rule ht_set_ok [OF inv', of alloc debug v]) (use copy in auto)
  show "\<exists>rc t'. ht_set_value debug alloc ht (kf k) v = Ret (rc, t') \<and>
      (\<lambda>k. ht_map t' (kf k)) = (\<lambda>k. ht_map ht (kf k))(k \<mapsto> v) \<and>
      (rc = OPAL_SUCCESS \<and> ht_inv tm t' \<or> rc = OPAL_ERR_OUT_OF_RESOURCE)"
    using set(1,2,4) upd [OF set(3)] unfolding tm by blast
  obtain t' where rem: "ht_remove_value debug ht (kf k) =
       Ret (if ht_map ht (kf k) = None then OPAL_ERR_NOT_FOUND else OPAL_SUCCESS, t')"
      "ht_inv (methods_of (kf k)) t'" "ht_map t' = (ht_map ht)(kf k := None)"
    by (rule ht_remove_ok [OF inv', of debug])
  show "\<exists>t'. ht_remove_value debug ht (kf k) = Ret (found_code (ht_map ht (kf k)), t') \<and>
      ht_inv tm t' \<and> (\<lambda>k. ht_map t' (kf k)) = (\<lambda>k. ht_map ht (kf k))(k := None)"
    using rem(1,2) upd [OF rem(3)] unfolding tm found_code_def by blast
qed

lemmas uint32_api = opal_hash_table_get_value_uint32_def opal_hash_table_set_value_uint32_def
  opal_hash_table_remove_value_uint32_def

lemmas uint64_api = opal_hash_table_get_value_uint64_def opal_hash_table_set_value_uint64_def
  opal_hash_table_remove_value_uint64_def

lemmas ptr_api = opal_hash_table_get_value_ptr_def opal_hash_table_set_value_ptr_def
  opal_hash_table_remove_value_ptr_def

interpretation u32: keyed_store "ht_inv Methods_uint32" "\<lambda>ht k. ht_map ht (KU32 k)"
  "opal_hash_table_get_value_uint32 debug" "opal_hash_table_set_value_uint32 debug alloc"
  "opal_hash_table_remove_value_uint32 debug"
  for debug :: bool and alloc :: allocator
  using ht_keyed_store [of KU32 Methods_uint32 alloc debug]
  by (simp add: uint32_api [abs_def] inj_def)

interpretation u64: keyed_store "ht_inv Methods_uint64" "\<lambda>ht k. ht_map ht (KU64 k)"
  "opal_hash_table_get_value_uint64 debug" "opal_hash_table_set_value_uint64 debug alloc"
  "opal_hash_table_remove_value_uint64 debug"
  for debug :: bool and alloc :: allocator
  using ht_keyed_store [of KU64 Methods_uint64 alloc debug]
  by (simp add: uint64_api [abs_def] inj_def)

interpretation ptr: keyed_store "ht_inv Methods_ptr" "\<lambda>ht k. ht_map ht (KPtr k)"
  "opal_hash_table_get_value_ptr debug" "opal_hash_table_set_value_ptr debug malloc_ok"
  "opal_hash_table_remove_value_ptr debug"
  for debug :: bool
  using ht_keyed_store [of KPtr Methods_ptr malloc_ok debug]
  by (simp add: ptr_api [abs_def] inj_def)

section \<open>Enough room\<close>

lemma grow_enough:
  assumes "ht_growth_numer ht = 2" "ht_growth_denom ht = 1" "ht_density_denom ht = 2" "ht_capacity ht < 2 ^ 54"
  shows "opal_hash_grow malloc_ok ht \<noteq> Ret (OPAL_ERR_OUT_OF_RESOURCE, ht')"
proof -
  let ?n = "opal_hash_round_capacity_up (2 * ht_capacity ht)"
  have "(2 * ht_capacity ht + 29) div 30 * 30 \<le> 2 * ht_capacity ht + 29"
    by simp
  then have "?n * sizeof_element < 2 ^ 64"
    using assms(4) by (simp add: opal_hash_round_capacity_up_def size_t_def)
  moreover have "size_t (ht_capacity ht * 2) = 2 * ht_capacity ht"
    using assms(4) by (simp add: size_t_def)
  ultimately show ?thesis
    using assms(1-3) by (auto simp: opal_hash_grow_def calloc_ok_def size_of_int_def Let_def outcome_simps)
qed

text \<open>With an allocator that does not run out, a table of fewer than \<open>2\<^sup>50\<close> entries can always grow.\<close>

lemma set_value_enough:
  assumes "ht_inv (methods_of key) ht" "ht_size ht < 2 ^ 50"
  shows "ht_set_value debug malloc_ok ht key v \<noteq> Ret (OPAL_ERR_OUT_OF_RESOURCE, ht')"
proof
  assume set: "ht_set_value debug malloc_ok ht key v = Ret (OPAL_ERR_OUT_OF_RESOURCE, ht')"
  obtain r where r: "ht_probe debug OPAL_ERR_BAD_PARAM ht key = Ret (Inr r)"
    using set ht_probe_eq [OF assms(1)] by (auto simp: ht_set_value_def outcome_simps)
  show False
  proof (cases r)
    case (Free ii)
    define ht1 where "ht1 = ht \<lparr>ht_type_methods := Some (methods_of key),
      ht_table := (ht_table ht)[ii := Some (key, v)], ht_size := size_t (ht_size ht + 1)\<rparr>"
    have base: "ht_growth_trigger ht = ht_capacity ht div 2" "ht_growth_numer ht = 2" "ht_growth_denom ht = 1"
        "ht_density_denom ht = 2"
      using assms(1) by (simp_all add: ht_inv_def ht_base_def)
    have "ht_set_value debug malloc_ok ht key v =
        (if ht_growth_trigger ht1 \<le> ht_size ht1 then opal_hash_grow malloc_ok ht1 else Ret (OPAL_SUCCESS, ht1))"
      using r Free by (simp add: ht_set_value_def ht1_def Let_def split: key.split)
    then have grow: "opal_hash_grow malloc_ok ht1 = Ret (OPAL_ERR_OUT_OF_RESOURCE, ht')" "ht_capacity ht div 2 \<le> ht_size ht + 1"
      using set base(1) assms(2) by (auto simp: ht1_def size_t_def split: if_splits)
    have "ht_capacity ht < 2 ^ 54"
      using grow(2) assms(2) by simp
    then show False
      using grow_enough [of ht1 ht'] grow(1) base by (simp add: ht1_def)
  next
    case (Found ii)
    then show False
      using set r by (simp add: ht_set_value_def)
  qed
qed

lemma ht_size_card:
  assumes "ht_inv tm ht"
  shows "ht_size ht = card (dom (ht_map ht))"
proof -
  let ?es = "entries (ht_table ht)"
  have d: "distinct (map fst ?es)" "ht_size ht = length ?es"
    using assms by (simp_all add: ht_inv_def ht_base_def elts_ok_def)
  then have "card (dom (ht_map ht)) = length (map fst ?es)"
    by (simp add: ht_map_def dom_map_of_conv_image_fst distinct_card flip: set_map)
  then show ?thesis
    using d(2) by simp
qed

lemma key_dom:
  assumes "ht_inv tm ht" "\<forall>k. methods_of k = tm \<longrightarrow> (\<exists>x. k = K x)"
  shows "dom (ht_map ht) = K ` dom (\<lambda>x. ht_map ht (K x))"
proof -
  have "\<exists>x. k = K x" if "ht_map ht k = Some v" for k v
  proof -
    have "methods_of k = tm"
      using assms(1) that ht_map_Some [of tm ht k v] by (auto simp: ht_inv_def ht_base_def elts_ok_def)
    then show ?thesis
      using assms(2) by blast
  qed
  then show ?thesis
    by (force simp: dom_def image_iff)
qed

lemma key_size:
  assumes "ht_inv tm ht" "\<forall>k. methods_of k = tm \<longrightarrow> (\<exists>x. k = K x)" "inj K"
  shows "finite (dom (\<lambda>x. ht_map ht (K x)))" "ht_size ht = card (dom (\<lambda>x. ht_map ht (K x)))"
proof -
  have "finite (dom (ht_map ht))"
    by (simp add: ht_map_def finite_dom_map_of)
  then show "finite (dom (\<lambda>x. ht_map ht (K x)))"
    unfolding key_dom [OF assms(1,2)] by (rule finite_imageD) (use assms(3) in \<open>simp add: inj_on_def\<close>)
  show "ht_size ht = card (dom (\<lambda>x. ht_map ht (K x)))"
    unfolding ht_size_card [OF assms(1)] key_dom [OF assms(1,2)] by (rule card_image) (use assms(3) in \<open>simp add: inj_on_def\<close>)
qed

lemma methods_key:
  "\<forall>k. methods_of k = Methods_ptr \<longrightarrow> (\<exists>x. k = KPtr x)" "inj KPtr"
  "\<forall>k. methods_of k = Methods_uint64 \<longrightarrow> (\<exists>x. k = KU64 x)" "inj KU64"
  by (auto simp: inj_def elim: methods_of.elims)

interpretation ptr_sized: sized_store "ht_inv Methods_ptr" "\<lambda>ht k. ht_map ht (KPtr k)"
  "opal_hash_table_get_value_ptr debug" "opal_hash_table_set_value_ptr debug malloc_ok"
  "opal_hash_table_remove_value_ptr debug" ht_size "2 ^ 50"
  for debug :: bool
  by unfold_locales (auto simp: key_size [OF _ methods_key(1,2)] opal_hash_table_set_value_ptr_def set_value_enough)

interpretation u64_sized: sized_store "ht_inv Methods_uint64" "\<lambda>ht k. ht_map ht (KU64 k)"
  "opal_hash_table_get_value_uint64 debug" "opal_hash_table_set_value_uint64 debug malloc_ok"
  "opal_hash_table_remove_value_uint64 debug" ht_size "2 ^ 50"
  for debug :: bool
  by unfold_locales (auto simp: key_size [OF _ methods_key(3,4)] opal_hash_table_set_value_uint64_def set_value_enough)

section \<open>Properties\<close>

lemma init_inv:
  fixes ht :: "'a opal_hash_table_t"
  assumes "n < 2 ^ 32" "opal_hash_table_init alloc opal_hash_table_construct n = Ret (OPAL_SUCCESS, ht)"
  shows "ht_inv tm ht" "ht_map ht = Map.empty"
proof -
  have size0: "ht_size (opal_hash_table_construct :: 'a opal_hash_table_t) = 0"
    by (simp add: opal_hash_table_construct_def)
  have "(\<forall>tm. ht_inv tm ht) \<and> ht_map ht = Map.empty"
    by (rule init_ok [OF assms(1) size0, of alloc]) (use assms(2) in auto)
  then show "ht_inv tm ht" "ht_map ht = Map.empty"
    by auto
qed

lemma init_zero:
  "opal_hash_table_init alloc opal_hash_table_construct 0 =
     Ret (if alloc sizeof_element
          then (OPAL_SUCCESS, \<lparr> ht_table = [None], ht_capacity = 1, ht_size = 0,
            ht_growth_trigger = 0, ht_density_numer = 1, ht_density_denom = 2,
            ht_growth_numer = 2, ht_growth_denom = 1, ht_type_methods = None \<rparr>)
          else (OPAL_ERR_OUT_OF_RESOURCE, opal_hash_table_construct))"
  by (simp add: opal_hash_table_init_def opal_hash_table_init2_def opal_hash_table_construct_def
      opal_hash_round_capacity_up_def size_of_int_def calloc_ok_def size_t_def)

text \<open>
  C3: on a table that \<^verbatim>\<open>opal_hash_table_init\<close> set up, any sequence of get, set and remove calls
  for one kind of key returns, and its results and its final contents are those of the same
  sequence on a finite map (for \<^verbatim>\<open>uint32\<close> and \<^verbatim>\<open>uint64\<close> keys with any allocator; for \<^verbatim>\<open>ptr\<close> keys,
  whose copies are not tested, with one that does not run out).  The one way to leave it is
  a set that reports that the table could not grow.
\<close>

theorem hash_table_refines_map:
  fixes ht :: "'v opal_hash_table_t"
  assumes "n < 2 ^ 32"
    and "opal_hash_table_init alloc opal_hash_table_construct n = Ret (OPAL_SUCCESS, ht)"
  shows "(\<exists>rs ht'. store_run (opal_hash_table_get_value_uint32 debug)
            (opal_hash_table_set_value_uint32 debug alloc)
            (opal_hash_table_remove_value_uint32 debug) ops32 ht = Ret (rs, ht') \<and>
          (rs = fst (map_run ops32 Map.empty) \<and>
           (\<forall>k. ht_map ht' (KU32 k) = snd (map_run ops32 Map.empty) k) \<or>
           cut_short rs (fst (map_run ops32 Map.empty)))) \<and>
         (\<exists>rs ht'. store_run (opal_hash_table_get_value_uint64 debug)
            (opal_hash_table_set_value_uint64 debug alloc)
            (opal_hash_table_remove_value_uint64 debug) ops64 ht = Ret (rs, ht') \<and>
          (rs = fst (map_run ops64 Map.empty) \<and>
           (\<forall>k. ht_map ht' (KU64 k) = snd (map_run ops64 Map.empty) k) \<or>
           cut_short rs (fst (map_run ops64 Map.empty)))) \<and>
         (\<exists>rs ht'. store_run (opal_hash_table_get_value_ptr debug)
            (opal_hash_table_set_value_ptr debug malloc_ok)
            (opal_hash_table_remove_value_ptr debug) opsptr ht = Ret (rs, ht') \<and>
          (rs = fst (map_run opsptr Map.empty) \<and>
           (\<forall>k. ht_map ht' (KPtr k) = snd (map_run opsptr Map.empty) k) \<or>
           cut_short rs (fst (map_run opsptr Map.empty))))"
  using u32.run_refines_map [OF init_inv(1) [OF assms], of debug alloc ops32]
    u64.run_refines_map [OF init_inv(1) [OF assms], of debug alloc ops64]
    ptr.run_refines_map [OF init_inv(1) [OF assms], of debug opsptr]
  unfolding init_inv(2) [OF assms] fun_eq_iff by blast

theorem hash_table_refines_map_witness:
  "\<exists>ht. opal_hash_table_init malloc_ok opal_hash_table_construct 0 = Ret (OPAL_SUCCESS, ht) \<and>
    (\<exists>rs ht'. store_run (opal_hash_table_get_value_uint32 True)
        (opal_hash_table_set_value_uint32 True malloc_ok)
        (opal_hash_table_remove_value_uint32 True)
        [Put 5 (1::nat), Put 36 2, Del 5, Get 36] ht = Ret (rs, ht'))"
proof -
  obtain ht :: "nat opal_hash_table_t" where
    ht: "opal_hash_table_init malloc_ok opal_hash_table_construct 0 = Ret (OPAL_SUCCESS, ht)"
    by (simp add: init_zero)
  show ?thesis
    using hash_table_refines_map [OF _ ht, of True "[Put 5 1, Put 36 2, Del 5, Get 36]" "[]" "[]"] ht
    by auto
qed

text \<open>
  C4: removing a key.  The call returns, moves the elements behind the gap so that every other
  key is still found where it is looked for (the invariant and the map are those without
  the key), and reports whether the key was there.
\<close>

theorem hash_table_remove_correct:
  assumes "ht_inv (methods_of key) ht"
  shows "\<exists>ht'. ht_remove_value debug ht key =
           Ret (if ht_map ht key = None then OPAL_ERR_NOT_FOUND else OPAL_SUCCESS, ht') \<and>
         ht_inv (methods_of key) ht' \<and> ht_map ht' = (ht_map ht)(key := None)"
  by (rule ht_remove_ok [OF assms, of debug]) blast

theorem hash_table_remove_correct_witness:
  "\<exists>ht :: nat opal_hash_table_t. ht_inv Methods_uint32 ht \<and>
     (\<exists>ht'. ht_remove_value False ht (KU32 7) =
        Ret (if ht_map ht (KU32 7) = None then OPAL_ERR_NOT_FOUND else OPAL_SUCCESS, ht'))"
proof -
  obtain ht :: "nat opal_hash_table_t" where
    "opal_hash_table_init malloc_ok opal_hash_table_construct 0 = Ret (OPAL_SUCCESS, ht)"
    by (simp add: init_zero)
  then have inv: "ht_inv Methods_uint32 ht"
    by (intro init_inv(1) [of 0]) simp_all
  then show ?thesis
    using hash_table_remove_correct [of "KU32 7" ht False] by auto
qed

text \<open>
  C5: setting a value.  The call returns; the key is then bound to the value and all other
  bindings are as before, whether or not the table could grow; when the code is success the
  invariant holds again, so that one slot is free for the next search to end at.
\<close>

theorem hash_table_set_correct:
  assumes "ht_inv (methods_of key) ht" and "\<forall>bs. key = KPtr bs \<longrightarrow> alloc (length bs)"
  shows "\<exists>rc ht'. ht_set_value debug alloc ht key v = Ret (rc, ht') \<and>
           ht_map ht' = (ht_map ht)(key \<mapsto> v) \<and>
           (rc = OPAL_SUCCESS \<and> ht_inv (methods_of key) ht' \<or> rc = OPAL_ERR_OUT_OF_RESOURCE)"
proof (rule ht_set_ok [OF assms(1), of alloc debug v])
  show "alloc (length bs)" if "key = KPtr bs" for bs
    using assms(2) that by blast
qed blast

theorem hash_table_set_correct_witness:
  "\<exists>ht :: nat opal_hash_table_t. ht_inv Methods_ptr ht \<and>
     (\<exists>rc ht'. ht_set_value False malloc_ok ht (KPtr [1, 2]) 9 = Ret (rc, ht') \<and>
        ht_map ht' = (ht_map ht)(KPtr [1, 2] \<mapsto> 9))"
proof -
  obtain ht :: "nat opal_hash_table_t" where
    "opal_hash_table_init malloc_ok opal_hash_table_construct 0 = Ret (OPAL_SUCCESS, ht)"
    by (simp add: init_zero)
  then have inv: "ht_inv Methods_ptr ht"
    by (intro init_inv(1) [of 0]) simp_all
  then show ?thesis
    using hash_table_set_correct [of "KPtr [1, 2]" ht malloc_ok False 9] by auto
qed

text \<open>
  C24: visiting the table from the first key with the next-key calls ends, and meets every
  binding exactly once.
\<close>

theorem hash_table_traverse_complete:
  assumes "ht_inv tm ht"
  shows "\<exists>es. ht_traverse (ht_capacity ht + 1) ht None = Ret es \<and>
           distinct (map fst es) \<and> map_of es = ht_map ht \<and> length es = ht_size ht"
  using assms traverse_from [of ht 0 None "ht_capacity ht + 1"]
  by (simp add: ht_inv_def ht_base_def elts_ok_def ht_map_def)

theorem hash_table_traverse_complete_witness:
  "\<exists>ht :: nat opal_hash_table_t. ht_inv Methods_uint32 ht \<and>
     (\<exists>es. ht_traverse (ht_capacity ht + 1) ht None = Ret es \<and> map_of es = ht_map ht)"
proof -
  obtain ht :: "nat opal_hash_table_t" where
    "opal_hash_table_init malloc_ok opal_hash_table_construct 0 = Ret (OPAL_SUCCESS, ht)"
    by (simp add: init_zero)
  then have inv: "ht_inv Methods_uint32 ht"
    by (intro init_inv(1) [of 0]) simp_all
  then show ?thesis
    using hash_table_traverse_complete [of Methods_uint32 ht] by auto
qed

text \<open>
  C39: after a set that failed to grow the table, the element is stored all the same and can fill
  the last free slot: the next search for another key never returns.
\<close>

theorem hash_table_full_diverges:
  assumes "k1 \<noteq> k2" and "alloc sizeof_element" and "\<not> alloc (31 * sizeof_element)"
  shows "obind (opal_hash_table_init alloc opal_hash_table_construct 0) (\<lambda>(rc, ht).
           opal_hash_table_set_value_uint32 debug alloc ht k1 v) =
         Ret (OPAL_ERR_OUT_OF_RESOURCE,
           \<lparr> ht_table = [Some (KU32 k1, v)], ht_capacity = 1, ht_size = 1, ht_growth_trigger = 0,
             ht_density_numer = 1, ht_density_denom = 2, ht_growth_numer = 2, ht_growth_denom = 1,
             ht_type_methods = Some Methods_uint32 \<rparr>) \<and>
         obind (obind (opal_hash_table_init alloc opal_hash_table_construct 0) (\<lambda>(rc, ht).
           opal_hash_table_set_value_uint32 debug alloc ht k1 v)) (\<lambda>(rc, ht).
             opal_hash_table_get_value_uint32 debug ht k2) = Diverge"
  using assms
  by (simp add: init_zero uint32_api ht_set_value_def ht_get_value_def ht_probe_def norm_index_def
      opal_hash_grow_def opal_hash_round_capacity_up_def size_of_int_def calloc_ok_def size_t_def)

theorem hash_table_full_diverges_witness:
  "obind (obind (opal_hash_table_init (\<lambda>n. n < 100) opal_hash_table_construct 0) (\<lambda>(rc, ht).
     opal_hash_table_set_value_uint32 False (\<lambda>n. n < 100) ht 1 (0::nat))) (\<lambda>(rc, ht).
       opal_hash_table_get_value_uint32 False ht 2) = Diverge"
  by (rule conjunct2 [OF hash_table_full_diverges]) simp_all

end
