(* ===== verification/Argv.thy ===== *)
theory Argv
  imports C_Prelude
begin

text \<open>
  The NULL-terminated string arrays of \<^verbatim>\<open>opal/util/argv.c\<close>, on which the command line tools,
  the node regular expressions and the logical groups are built.  An \<^verbatim>\<open>argv\<close> is NULL or a
  list of strings; every function takes the allocator and has the out-of-memory branches of
  the source.  Lemmas: the list each operation computes, that splitting and joining invert
  each other, and the two calls for which the source leaves its buffer.
\<close>

section \<open>Definitions\<close>

type_synonym argv = "string list option"

definition ARGSIZE :: nat where
  "ARGSIZE = 128"

definition strdup_bytes :: "string \<Rightarrow> nat" where
  "strdup_bytes s = length s + 1"

definition opal_argv_count :: "argv \<Rightarrow> nat" where
  "opal_argv_count argv = (case argv of None \<Rightarrow> 0 | Some vs \<Rightarrow> length vs)"

text \<open>
  A failing \<^verbatim>\<open>realloc\<close> overwrites \<^verbatim>\<open>*argv\<close> with NULL, so the caller loses the old array; a
  failing \<^verbatim>\<open>strdup\<close> leaves the array as it was (its new last slot is the terminating NULL).
\<close>

definition opal_argv_append_nosize :: "allocator \<Rightarrow> argv \<Rightarrow> string \<Rightarrow> status \<times> argv" where
  "opal_argv_append_nosize alloc argv arg =
     (let vs = (case argv of None \<Rightarrow> [] | Some vs \<Rightarrow> vs) in
      if \<not> alloc ((length vs + 2) * sizeof_ptr) then (OPAL_ERR_OUT_OF_RESOURCE, None)
      else if \<not> alloc (strdup_bytes arg) then (OPAL_ERR_OUT_OF_RESOURCE, Some vs)
      else (OPAL_SUCCESS, Some (vs @ [arg])))"

definition opal_argv_append ::
  "allocator \<Rightarrow> int \<Rightarrow> argv \<Rightarrow> string \<Rightarrow> status \<times> int \<times> argv" where
  "opal_argv_append alloc argc argv arg =
     (case opal_argv_append_nosize alloc argv arg of
        (rc, argv') \<Rightarrow>
          if rc \<noteq> OPAL_SUCCESS then (rc, argc, argv')
          else (OPAL_SUCCESS, int (opal_argv_count argv'), argv'))"

text \<open>
  \<^verbatim>\<open>opal_argv_prepend_nosize\<close> does not test the result of \<^verbatim>\<open>strdup\<close>: when it fails the first
  slot is NULL, and the array reads as the empty one.
\<close>

definition opal_argv_prepend_nosize :: "allocator \<Rightarrow> argv \<Rightarrow> string \<Rightarrow> status \<times> argv" where
  "opal_argv_prepend_nosize alloc argv arg =
     (let vs = (case argv of None \<Rightarrow> [] | Some vs \<Rightarrow> vs) in
      if \<not> alloc ((length vs + 2) * sizeof_ptr) then (OPAL_ERR_OUT_OF_RESOURCE, None)
      else if \<not> alloc (strdup_bytes arg) then (OPAL_SUCCESS, Some [])
      else (OPAL_SUCCESS, Some (arg # vs)))"

text \<open>
  The \<^verbatim>\<open>overwrite\<close> branch replaces the found element by a copy of the same string; a failing
  \<^verbatim>\<open>strdup\<close> there cuts the array at that position.
\<close>

definition opal_argv_append_unique_nosize ::
  "allocator \<Rightarrow> argv \<Rightarrow> string \<Rightarrow> bool \<Rightarrow> status \<times> argv" where
  "opal_argv_append_unique_nosize alloc argv arg overwrite =
     (case argv of
        None \<Rightarrow> opal_argv_append_nosize alloc argv arg
      | Some vs \<Rightarrow>
          if arg \<in> set vs then
            (if overwrite \<and> \<not> alloc (strdup_bytes arg)
             then (OPAL_SUCCESS, Some (takeWhile (\<lambda>v. v \<noteq> arg) vs))
             else (OPAL_SUCCESS, Some vs))
          else opal_argv_append_nosize alloc argv arg)"

text \<open>
  The scan of \<^verbatim>\<open>opal_argv_split_inter\<close>: the token before the next delimiter, then one of the
  four branches of the source.  An argument of \<^verbatim>\<open>ARGSIZE\<close> characters or more that is followed
  by a delimiter goes through a temporary heap block; the last token is added straight from
  the input.
\<close>

function argv_split_loop ::
  "allocator \<Rightarrow> string \<Rightarrow> char \<Rightarrow> bool \<Rightarrow> int \<Rightarrow> argv \<Rightarrow> argv" where
  "argv_split_loop alloc src delimiter include_empty argc argv =
     (if src = [] then argv
      else
        let arg = takeWhile (\<lambda>c. c \<noteq> delimiter) src;
            p = dropWhile (\<lambda>c. c \<noteq> delimiter) src
        in if arg = [] then
             (if include_empty then
                (case opal_argv_append alloc argc argv [] of
                   (rc, argc', argv') \<Rightarrow>
                     if rc \<noteq> OPAL_SUCCESS then None
                     else argv_split_loop alloc (tl p) delimiter include_empty argc' argv')
              else argv_split_loop alloc (tl p) delimiter include_empty argc argv)
           else if p = [] then
             (case opal_argv_append alloc argc argv src of
                (rc, argc', argv') \<Rightarrow> if rc \<noteq> OPAL_SUCCESS then None else argv')
           else if length arg > ARGSIZE - 1 \<and> \<not> alloc (length arg + 1) then None
           else
             (case opal_argv_append alloc argc argv arg of
                (rc, argc', argv') \<Rightarrow>
                  if rc \<noteq> OPAL_SUCCESS then None
                  else argv_split_loop alloc (tl p) delimiter include_empty argc' argv'))"
  by pat_completeness auto
termination
  by (relation "measure (\<lambda>(alloc, src, d, e, argc, argv). length src)")
     (auto simp: length_dropWhile_less simp del: length_tl)

definition opal_argv_split_inter ::
  "allocator \<Rightarrow> string option \<Rightarrow> char \<Rightarrow> bool \<Rightarrow> argv" where
  "opal_argv_split_inter alloc src delimiter include_empty =
     (case src of None \<Rightarrow> None
      | Some s \<Rightarrow> argv_split_loop alloc s delimiter include_empty 0 None)"

definition opal_argv_split :: "allocator \<Rightarrow> string option \<Rightarrow> char \<Rightarrow> argv" where
  "opal_argv_split alloc src delimiter = opal_argv_split_inter alloc src delimiter False"

definition opal_argv_split_with_empty :: "allocator \<Rightarrow> string option \<Rightarrow> char \<Rightarrow> argv" where
  "opal_argv_split_with_empty alloc src delimiter = opal_argv_split_inter alloc src delimiter True"

text \<open>
  The filling loop of \<^verbatim>\<open>opal_argv_join\<close>: \<open>n\<close> characters still to write, \<open>pp\<close> the rest of the
  current string, \<open>ps\<close> the strings after it.  Stepping past the last string makes \<^verbatim>\<open>pp\<close> NULL;
  reading through it is undefined.
\<close>

fun argv_join_fill :: "nat \<Rightarrow> string option \<Rightarrow> string list \<Rightarrow> char \<Rightarrow> string outcome" where
  "argv_join_fill 0 pp ps d = Ret []"
| "argv_join_fill (Suc n) None ps d = Undef"
| "argv_join_fill (Suc n) (Some (c # pp)) ps d =
     obind (argv_join_fill n (Some pp) ps d) (\<lambda>r. Ret (c # r))"
| "argv_join_fill (Suc n) (Some []) [] d =
     obind (argv_join_fill n None [] d) (\<lambda>r. Ret (d # r))"
| "argv_join_fill (Suc n) (Some []) (q # qs) d =
     obind (argv_join_fill n (Some q) qs d) (\<lambda>r. Ret (d # r))"

definition argv_strlen :: "string list \<Rightarrow> nat" where
  "argv_strlen vs = sum_list (map (\<lambda>v. length v + 1) vs)"

definition opal_argv_join :: "allocator \<Rightarrow> argv \<Rightarrow> char \<Rightarrow> string option outcome" where
  "opal_argv_join alloc argv delimiter =
     (case argv of
        None \<Rightarrow> Ret (if alloc 1 then Some [] else None)
      | Some [] \<Rightarrow> Ret (if alloc 1 then Some [] else None)
      | Some (v # vs) \<Rightarrow>
          (let str_len = argv_strlen (v # vs) in
           if \<not> alloc str_len then Ret None
           else obind (argv_join_fill (str_len - 1) (Some v) vs delimiter) (\<lambda>r. Ret (Some r))))"

text \<open>
  \<^verbatim>\<open>opal_argv_join_range\<close> joins the elements \<^verbatim>\<open>start\<close> to \<^verbatim>\<open>end - 1\<close>.  When that range is
  empty, \<^verbatim>\<open>str_len\<close> is 0 and \<^verbatim>\<open>str[--str_len]\<close> writes before the block: undefined, unless
  the (zero-sized) allocation already failed.  The test of \<^verbatim>\<open>start\<close> is made on its value
  converted to \<^verbatim>\<open>int\<close>.
\<close>

definition opal_argv_join_range ::
  "allocator \<Rightarrow> argv \<Rightarrow> nat \<Rightarrow> nat \<Rightarrow> char \<Rightarrow> string option outcome" where
  "opal_argv_join_range alloc argv start end' delimiter =
     (case argv of
        None \<Rightarrow> Ret (if alloc 1 then Some [] else None)
      | Some vs \<Rightarrow>
          if vs = [] \<or> int (length vs) < c_int start then Ret (if alloc 1 then Some [] else None)
          else if length vs < start then Undef
          else
            (let ws = take (end' - start) (drop start vs); str_len = argv_strlen ws in
             if \<not> alloc str_len then Ret None
             else if str_len = 0 then Undef
             else
               (case drop start vs of
                  [] \<Rightarrow> Undef
                | q # qs \<Rightarrow>
                    obind (argv_join_fill (str_len - 1) (Some q) qs delimiter)
                      (\<lambda>r. Ret (Some r)))))"

definition opal_argv_len :: "argv \<Rightarrow> nat" where
  "opal_argv_len argv =
     (case argv of None \<Rightarrow> 0
      | Some vs \<Rightarrow> sizeof_ptr + sum_list (map (\<lambda>v. length v + 1 + sizeof_ptr) vs))"

text \<open>
  \<^verbatim>\<open>opal_argv_copy\<close> stores through the result of its first \<^verbatim>\<open>malloc\<close> without testing it.
\<close>

fun argv_copy_loop :: "allocator \<Rightarrow> string list \<Rightarrow> int \<Rightarrow> argv \<Rightarrow> argv" where
  "argv_copy_loop alloc [] dupc dupv = dupv"
| "argv_copy_loop alloc (v # vs) dupc dupv =
     (case opal_argv_append alloc dupc dupv v of
        (rc, dupc', dupv') \<Rightarrow>
          if rc \<noteq> OPAL_SUCCESS then None else argv_copy_loop alloc vs dupc' dupv')"

definition opal_argv_copy :: "allocator \<Rightarrow> argv \<Rightarrow> argv outcome" where
  "opal_argv_copy alloc argv =
     (case argv of None \<Rightarrow> Ret None
      | Some vs \<Rightarrow>
          if \<not> alloc sizeof_ptr then Undef else Ret (argv_copy_loop alloc vs 0 (Some [])))"

text \<open>
  \<^verbatim>\<open>opal_argv_delete\<close>: the suffix is moved over the deleted elements.  The counter is reduced
  by the number asked for, also when fewer elements were there to delete; the sum of the two
  \<^verbatim>\<open>int\<close> arguments may overflow.
\<close>

definition opal_argv_delete ::
  "int \<Rightarrow> argv option \<Rightarrow> int \<Rightarrow> int \<Rightarrow> (status \<times> int \<times> argv option) outcome" where
  "opal_argv_delete argc argv start num_to_delete =
     (case argv of
        None \<Rightarrow> Ret (OPAL_SUCCESS, argc, argv)
      | Some None \<Rightarrow> Ret (OPAL_SUCCESS, argc, argv)
      | Some (Some vs) \<Rightarrow>
          if num_to_delete = 0 then Ret (OPAL_SUCCESS, argc, argv)
          else
            (let count = int (length vs) in
             if count < start then Ret (OPAL_SUCCESS, argc, argv)
             else if start < 0 \<or> num_to_delete < 0 then Ret (OPAL_ERR_BAD_PARAM, argc, argv)
             else if start + num_to_delete > INT_MAX then Undef
             else
               (let suffix_count = max 0 (count - (start + num_to_delete)) in
                Ret (OPAL_SUCCESS, argc - num_to_delete,
                 Some (Some (take (nat start) vs @
                   take (nat suffix_count) (drop (nat (start + num_to_delete)) vs)))))))"

fun argv_append_all :: "allocator \<Rightarrow> int \<Rightarrow> argv \<Rightarrow> string list \<Rightarrow> argv" where
  "argv_append_all alloc count target [] = target"
| "argv_append_all alloc count target (s # ss) =
     (case opal_argv_append alloc count target s of
        (rc, count', target') \<Rightarrow> argv_append_all alloc count' target' ss)"

text \<open>
  \<^verbatim>\<open>opal_argv_insert\<close> ignores failures of the appends in its first branch; in the second one it
  uses the result of \<^verbatim>\<open>realloc\<close> without a test, and a failed \<^verbatim>\<open>strdup\<close> ends the array early.
\<close>

definition opal_argv_insert ::
  "allocator \<Rightarrow> argv option \<Rightarrow> int \<Rightarrow> argv \<Rightarrow> (status \<times> argv option) outcome" where
  "opal_argv_insert alloc target start source =
     (case target of
        None \<Rightarrow> Ret (OPAL_ERR_BAD_PARAM, target)
      | Some None \<Rightarrow> Ret (OPAL_ERR_BAD_PARAM, target)
      | Some (Some vs) \<Rightarrow>
          if start < 0 then Ret (OPAL_ERR_BAD_PARAM, target)
          else
            (case source of
               None \<Rightarrow> Ret (OPAL_SUCCESS, target)
             | Some ss \<Rightarrow>
                 if int (length vs) < start then
                   Ret (OPAL_SUCCESS,
                     Some (argv_append_all alloc (int (length vs)) (Some vs) ss))
                 else if \<not> alloc (sizeof_ptr * (length vs + length ss + 1)) then Undef
                 else
                   (let good = takeWhile (\<lambda>s. alloc (strdup_bytes s)) ss in
                    Ret (OPAL_SUCCESS,
                      Some (Some
                        (if length good < length ss then take (nat start) vs @ good
                         else take (nat start) vs @ ss @ drop (nat start) vs))))))"

definition opal_argv_insert_element ::
  "allocator \<Rightarrow> argv option \<Rightarrow> int \<Rightarrow> string option \<Rightarrow> (status \<times> argv option) outcome" where
  "opal_argv_insert_element alloc target location source =
     (case target of
        None \<Rightarrow> Ret (OPAL_ERR_BAD_PARAM, target)
      | Some None \<Rightarrow> Ret (OPAL_ERR_BAD_PARAM, target)
      | Some (Some vs) \<Rightarrow>
          if location < 0 then Ret (OPAL_ERR_BAD_PARAM, target)
          else
            (case source of
               None \<Rightarrow> Ret (OPAL_SUCCESS, target)
             | Some s \<Rightarrow>
                 if int (length vs) < location then
                   (case opal_argv_append alloc (int (length vs)) (Some vs) s of
                      (rc, count', target') \<Rightarrow> Ret (OPAL_SUCCESS, Some target'))
                 else if \<not> alloc (sizeof_ptr * (length vs + 2)) then Undef
                 else if \<not> alloc (strdup_bytes s) then
                   Ret (OPAL_SUCCESS, Some (Some (take (nat location) vs)))
                 else
                   Ret (OPAL_SUCCESS,
                     Some (Some (take (nat location) vs @ s # drop (nat location) vs)))))"

text \<open>
  Reference definitions: the fields between delimiters, and the text that puts delimiters
  between strings.
\<close>

fun fields :: "char \<Rightarrow> string \<Rightarrow> string list" where
  "fields d [] = [[]]"
| "fields d (c # cs) =
     (if c = d then [] # fields d cs else (c # hd (fields d cs)) # tl (fields d cs))"

fun intersperse_join :: "char \<Rightarrow> string list \<Rightarrow> string" where
  "intersperse_join d [] = []"
| "intersperse_join d [v] = v"
| "intersperse_join d (v # w # vs) = v @ d # intersperse_join d (w # vs)"

definition nonempty_argv :: "string list \<Rightarrow> argv" where
  "nonempty_argv vs = (if vs = [] then None else Some vs)"

definition drop_last_empty :: "string list \<Rightarrow> string list" where
  "drop_last_empty vs = (if last vs = [] then butlast vs else vs)"

section \<open>Appending and counting\<close>

lemma append_nosize_ok [simp]:
  "opal_argv_append_nosize malloc_ok argv arg =
     (OPAL_SUCCESS, Some ((case argv of None \<Rightarrow> [] | Some vs \<Rightarrow> vs) @ [arg]))"
  by (simp add: opal_argv_append_nosize_def)

lemma append_ok [simp]:
  "opal_argv_append malloc_ok argc argv arg =
     (OPAL_SUCCESS, int (Suc (opal_argv_count argv)),
      Some ((case argv of None \<Rightarrow> [] | Some vs \<Rightarrow> vs) @ [arg]))"
  by (simp add: opal_argv_append_def opal_argv_count_def split: option.splits)

lemma append_success:
  assumes "opal_argv_append alloc argc argv arg = (OPAL_SUCCESS, argc', argv')"
  shows "opal_argv_append malloc_ok argc argv arg = (OPAL_SUCCESS, argc', argv')"
  using assms
  by (auto simp: opal_argv_append_def opal_argv_append_nosize_def opal_argv_count_def Let_def
      split: if_splits option.splits)

lemma append_unique_ok:
  "opal_argv_append_unique_nosize malloc_ok argv arg ow =
     (OPAL_SUCCESS,
      Some (let vs = (case argv of None \<Rightarrow> [] | Some vs \<Rightarrow> vs) in
            if arg \<in> set vs then vs else vs @ [arg]))"
  by (auto simp: opal_argv_append_unique_nosize_def Let_def split: option.splits)

section \<open>Splitting\<close>

lemma fields_ne [simp]: "fields d s \<noteq> []"
  by (cases s) auto

lemma fields_no_delim [simp]: "d \<notin> set s \<Longrightarrow> fields d s = [s]"
  by (induction s) auto

lemma fields_append_delim [simp]:
  "d \<notin> set s \<Longrightarrow> fields d (s @ d # t) = s # fields d t"
  by (induction s) auto

lemma fields_unfold:
  "fields d s =
     (case dropWhile (\<lambda>c. c \<noteq> d) s of
        [] \<Rightarrow> [s]
      | _ # t \<Rightarrow> takeWhile (\<lambda>c. c \<noteq> d) s # fields d t)"
proof (cases "dropWhile (\<lambda>c. c \<noteq> d) s")
  case Nil
  then have "d \<notin> set s"
    by (auto simp: dropWhile_eq_Nil_conv)
  then show ?thesis
    using Nil by simp
next
  case (Cons y t)
  then show ?thesis
    by (subst split_at_delim [OF Cons]) simp
qed

lemma not_in_fields: "v \<in> set (fields d s) \<Longrightarrow> d \<notin> set v"
proof (induction s arbitrary: v)
  case (Cons c s)
  then show ?case
    by (auto split: if_splits dest: list.set_sel(2) [OF fields_ne])
qed auto

definition split_result :: "bool \<Rightarrow> char \<Rightarrow> string \<Rightarrow> string list" where
  "split_result e d s =
     (if s = [] then [] else if e then drop_last_empty (fields d s)
      else filter (\<lambda>v. v \<noteq> []) (fields d s))"

lemma split_result_delim:
  assumes "d \<notin> set v"
  shows "split_result e d (v @ d # t) =
           (if v = [] \<and> \<not> e then [] else [v]) @ split_result e d t"
  using assms
  by (auto simp: split_result_def drop_last_empty_def)

lemma split_result_tail:
  assumes "d \<notin> set v" "v \<noteq> []"
  shows "split_result e d v = [v]"
  using assms by (simp add: split_result_def drop_last_empty_def)

definition extend :: "argv \<Rightarrow> string list \<Rightarrow> argv" where
  "extend argv vs = (if vs = [] then argv
     else Some ((case argv of None \<Rightarrow> [] | Some ws \<Rightarrow> ws) @ vs))"

lemma extend_simps [simp]:
  "extend argv [] = argv"
  "extend (Some ws) vs = Some (ws @ vs)"
  "extend None vs = nonempty_argv vs"
  by (auto simp: extend_def nonempty_argv_def)

lemma extend_cons:
  "extend (Some ((case argv of None \<Rightarrow> [] | Some ws \<Rightarrow> ws) @ [v])) vs = extend argv (v # vs)"
  by (simp add: extend_def)

declare argv_split_loop.simps [simp del]

lemma split_loop_step:
  assumes "d \<notin> set v"
  shows "argv_split_loop alloc (v @ d # t) d e argc argv =
           (if v = [] \<and> \<not> e then argv_split_loop alloc t d e argc argv
            else if length v > ARGSIZE - 1 \<and> \<not> alloc (length v + 1) then None
            else
              (case opal_argv_append alloc argc argv v of
                 (rc, argc', argv') \<Rightarrow>
                   if rc \<noteq> OPAL_SUCCESS then None
                   else argv_split_loop alloc t d e argc' argv'))"
  using assms by (subst argv_split_loop.simps) (auto simp: Let_def ARGSIZE_def split: prod.split)

lemma split_loop_ok:
  "argv_split_loop malloc_ok s d e argc argv = extend argv (split_result e d s)"
proof (induction s arbitrary: argc argv rule: length_induct)
  case (1 s)
  show ?case
  proof (cases "dropWhile (\<lambda>c. c \<noteq> d) s")
    case Nil
    then have "d \<notin> set s"
      by (auto simp: dropWhile_eq_Nil_conv)
    then show ?thesis
      by (cases "s = []")
         (simp_all add: argv_split_loop.simps split_result_tail, simp_all add: split_result_def extend_def)
  next
    case (Cons y t)
    define v where "v = takeWhile (\<lambda>c. c \<noteq> d) s"
    have v: "d \<notin> set v" "s = v @ d # t"
      using split_at_delim [OF Cons] by (simp_all add: v_def)
    have IH: "argv_split_loop malloc_ok t d e argc' argv' = extend argv' (split_result e d t)"
      for argc' argv'
      using 1 v(2) by simp
    show ?thesis
      using IH unfolding v(2) split_loop_step [OF v(1)] split_result_delim [OF v(1)]
      by (auto simp: extend_def)
  qed
qed

lemma split_loop_success:
  "argv_split_loop alloc s d e argc argv = None \<or>
   argv_split_loop alloc s d e argc argv = argv_split_loop malloc_ok s d e argc argv"
proof (induction s arbitrary: argc argv rule: length_induct)
  case (1 s)
  show ?case
  proof (cases "dropWhile (\<lambda>c. c \<noteq> d) s")
    case Nil
    then have "d \<notin> set s"
      by (auto simp: dropWhile_eq_Nil_conv)
    then show ?thesis
      by (auto simp: argv_split_loop.simps split: prod.splits dest: append_success)
  next
    case (Cons y t)
    define v where "v = takeWhile (\<lambda>c. c \<noteq> d) s"
    have v: "d \<notin> set v" "s = v @ d # t"
      using split_at_delim [OF Cons] by (simp_all add: v_def)
    obtain rc argc' argv' where app: "opal_argv_append alloc argc argv v = (rc, argc', argv')"
      by (cases "opal_argv_append alloc argc argv v")
    have IH: "argv_split_loop alloc t d e c a = None \<or>
        argv_split_loop alloc t d e c a = argv_split_loop malloc_ok t d e c a" for c a
      using 1 v(2) by simp
    show ?thesis
      using IH [of argc argv] IH [of argc' argv'] append_success [of alloc argc argv v argc' argv'] app
      unfolding v(2) split_loop_step [OF v(1)]
      by auto
  qed
qed

section \<open>Joining\<close>

lemma join_fill_take:
  assumes "n \<le> length (intersperse_join d (v # vs))"
  shows "argv_join_fill n (Some v) vs d = Ret (take n (intersperse_join d (v # vs)))"
  using assms
proof (induction n "Some v" vs d arbitrary: v rule: argv_join_fill.induct)
  case (3 n c pp ps d)
  then show ?case
    by (cases ps) auto
qed auto

lemma argv_strlen_join:
  "vs \<noteq> [] \<Longrightarrow> argv_strlen vs = Suc (length (intersperse_join d vs))"
  by (induction d vs rule: intersperse_join.induct) (auto simp: argv_strlen_def)

lemma join_prefix:
  assumes "vs \<noteq> []"
  shows "\<exists>rest. intersperse_join d (vs @ ws) = intersperse_join d vs @ rest"
  using assms
proof (induction d vs rule: intersperse_join.induct)
  case (2 d v)
  then show ?case
    by (cases ws) auto
qed auto

lemma join_eq:
  "opal_argv_join alloc argv d =
     Ret (let vs = (case argv of None \<Rightarrow> [] | Some vs \<Rightarrow> vs) in
          if alloc (max 1 (argv_strlen vs)) then Some (intersperse_join d vs) else None)"
proof (cases "argv = None \<or> argv = Some []")
  case True
  then show ?thesis
    by (auto simp: opal_argv_join_def argv_strlen_def)
next
  case False
  then obtain v vs where "argv = Some (v # vs)"
    by (metis neq_Nil_conv not_None_eq)
  then show ?thesis
    by (simp add: opal_argv_join_def join_fill_take argv_strlen_join [of _ d])
qed

lemma join_range_eq:
  assumes "start < end'" "start < length vs" "int (length vs) \<le> INT_MAX"
  shows "opal_argv_join_range malloc_ok (Some vs) start end' d =
           Ret (Some (intersperse_join d (take (end' - start) (drop start vs))))"
proof -
  obtain q qs where q: "drop start vs = q # qs"
    using assms(2) by (metis drop_eq_Nil leD neq_Nil_conv)
  define ws where "ws = take (end' - start) (q # qs)"
  have ws: "ws \<noteq> []"
    using assms(1) by (simp add: ws_def)
  obtain rest where rest: "intersperse_join d (q # qs) = intersperse_join d ws @ rest"
    using join_prefix [OF ws, of d "drop (end' - start) (q # qs)"]
    by (metis append_take_drop_id ws_def)
  have "c_int start = int start"
    using assms by (simp add: c_int_def INT_MAX_def signed_of_nat signed_take_bit_int_eq_self)
  then show ?thesis
    using assms rest
    by (auto simp: opal_argv_join_range_def q Let_def argv_strlen_join [OF ws, of d]
        join_fill_take simp flip: ws_def)
qed

lemma fields_join:
  assumes "vs \<noteq> []" "\<forall>v\<in>set vs. d \<notin> set v"
  shows "fields d (intersperse_join d vs) = vs"
  using assms by (induction d vs rule: intersperse_join.induct) auto

lemma join_cons_hd:
  "vs \<noteq> [] \<Longrightarrow> intersperse_join d ((c # hd vs) # tl vs) = c # intersperse_join d vs"
  by (induction d vs rule: intersperse_join.induct) auto

lemma join_fields: "intersperse_join d (fields d s) = s"
proof (induction s)
  case (Cons c s)
  have "intersperse_join d ([] # fields d s) = d # s"
    using Cons by (cases "fields d s") auto
  then show ?case
    using Cons by (simp add: join_cons_hd)
qed simp

lemma fields_snoc_delim: "fields d (s @ [d]) = fields d s @ [[]]"
  by (induction s) auto

lemma last_fields: "s \<noteq> [] \<Longrightarrow> last s \<noteq> d \<Longrightarrow> last (fields d s) \<noteq> []"
proof (induction s)
  case (Cons c s)
  then show ?case
    by (cases "fields d s") (auto split: if_splits)
qed simp

lemma join_split_result:
  assumes "s \<noteq> []"
  shows "intersperse_join d (split_result True d s) = (if last s = d then butlast s else s)"
proof (cases "last s = d")
  case True
  then obtain t where "s = t @ [d]"
    using assms by (metis append_butlast_last_id)
  then show ?thesis
    by (simp add: split_result_def drop_last_empty_def fields_snoc_delim join_fields)
next
  case False
  then show ?thesis
    using assms last_fields [OF assms False]
    by (simp add: split_result_def drop_last_empty_def join_fields)
qed

section \<open>Deleting and inserting\<close>

lemma delete_eq:
  assumes "0 \<le> start" "start \<le> int (length vs)" "0 < n" "start + n \<le> INT_MAX"
  shows "opal_argv_delete argc (Some (Some vs)) start n =
           Ret (OPAL_SUCCESS, argc - n,
                Some (Some (take (nat start) vs @ drop (nat (start + n)) vs)))"
  using assms by (simp add: opal_argv_delete_def)

lemma append_all_ok:
  "argv_append_all malloc_ok count (Some vs) ss = Some (vs @ ss)"
  by (induction ss arbitrary: count vs) auto

lemma insert_eq:
  assumes "0 \<le> start"
  shows "opal_argv_insert malloc_ok (Some (Some vs)) start (Some ss) =
           Ret (OPAL_SUCCESS, Some (Some (take (nat start) vs @ ss @ drop (nat start) vs)))"
  using assms by (simp add: opal_argv_insert_def append_all_ok Let_def)

lemma insert_element_eq:
  assumes "0 \<le> location"
  shows "opal_argv_insert_element malloc_ok (Some (Some vs)) location (Some s) =
           opal_argv_insert malloc_ok (Some (Some vs)) location (Some [s])"
  using assms
  by (simp add: opal_argv_insert_element_def opal_argv_insert_def)

lemma copy_loop_ok:
  "argv_copy_loop malloc_ok vs c (Some ws) = Some (ws @ vs)"
  by (induction vs arbitrary: c ws) auto

section \<open>Properties\<close>

text \<open>
  C25: \<^verbatim>\<open>opal_argv_split_inter\<close> returns exactly the fields between delimiters: all but the empty
  ones when \<^verbatim>\<open>include_empty\<close> is 0, all but an empty last one when it is 1, and NULL when there
  is none.  Whatever the allocator does, the result is that array or NULL, never a part of it;
  the length of a field (the stack buffer has 128 bytes) makes no difference.
\<close>

theorem argv_split_correct:
  "opal_argv_split malloc_ok (Some s) d = nonempty_argv (filter (\<lambda>v. v \<noteq> []) (fields d s)) \<and>
   opal_argv_split_with_empty malloc_ok (Some s) d =
     (if s = [] then None else nonempty_argv (drop_last_empty (fields d s))) \<and>
   opal_argv_split_inter alloc (Some s) d e
     \<in> {None, opal_argv_split_inter malloc_ok (Some s) d e}"
  using split_loop_success [of alloc s d e 0 None]
  by (auto simp: opal_argv_split_def opal_argv_split_with_empty_def opal_argv_split_inter_def
      split_loop_ok split_result_def nonempty_argv_def)

text \<open>
  C26: joining what \<^verbatim>\<open>opal_argv_split_with_empty\<close> split gives the text back, without its last
  character when that is a delimiter.  The joining loop stays inside the array.
\<close>

theorem argv_join_split:
  "opal_argv_join malloc_ok (opal_argv_split_with_empty malloc_ok (Some s) d) d =
     Ret (Some (if s \<noteq> [] \<and> last s = d then butlast s else s))"
proof (cases "s = []")
  case True
  then show ?thesis
    by (simp add: opal_argv_split_with_empty_def opal_argv_split_inter_def split_loop_ok
        split_result_def nonempty_argv_def join_eq)
next
  case False
  have "(case nonempty_argv vs of None \<Rightarrow> [] | Some ws \<Rightarrow> ws) = vs" for vs
    by (simp add: nonempty_argv_def)
  then show ?thesis
    using False
    by (simp add: opal_argv_split_with_empty_def opal_argv_split_inter_def split_loop_ok
        join_eq join_split_result)
qed

text \<open>
  Splitting a joined array gives the array back, when its strings are non-empty and have no
  delimiter in them.
\<close>

theorem argv_split_join:
  assumes "vs \<noteq> []" and "\<forall>v\<in>set vs. v \<noteq> [] \<and> d \<notin> set v"
  shows "obind (opal_argv_join malloc_ok (Some vs) d) (\<lambda>s. Ret (opal_argv_split malloc_ok s d)) =
           Ret (Some vs)"
proof -
  have "filter (\<lambda>v. v \<noteq> []) vs = vs"
    using assms(2) by (simp add: filter_id_conv)
  moreover have "intersperse_join d vs \<noteq> []"
    using assms by (cases "(d, vs)" rule: intersperse_join.cases) auto
  ultimately show ?thesis
    using assms fields_join [OF assms(1), of d]
    by (simp add: join_eq opal_argv_split_def opal_argv_split_inter_def split_loop_ok
        split_result_def nonempty_argv_def)
qed

theorem argv_split_join_witness:
  "obind (opal_argv_join malloc_ok (Some [''ab'', ''c'']) CHR '','')
     (\<lambda>s. Ret (opal_argv_split malloc_ok s CHR '','')) = Ret (Some [''ab'', ''c''])"
  by (rule argv_split_join) simp_all

text \<open>
  \<^verbatim>\<open>opal_argv_delete\<close> undoes \<^verbatim>\<open>opal_argv_insert\<close>: inserting a non-empty array at a position
  of the target, its end included, and deleting as many elements there gives the target and
  its counter back.
\<close>

theorem argv_delete_insert:
  assumes "0 \<le> start" and "start \<le> int (length vs)" and "ss \<noteq> []"
    and "int (length vs + length ss) \<le> INT_MAX"
  shows "obind (opal_argv_insert malloc_ok (Some (Some vs)) start (Some ss))
           (\<lambda>(rc, t). opal_argv_delete (int (length vs + length ss)) t start (int (length ss))) =
         Ret (OPAL_SUCCESS, int (length vs), Some (Some vs))"
proof -
  have "nat (start + int (length ss)) = nat start + length ss"
    using assms(1) by simp
  moreover have "length (take (nat start) vs) = nat start"
    using assms(1,2) by simp
  ultimately show ?thesis
    using assms by (simp add: insert_eq delete_eq)
qed

theorem argv_delete_insert_witness:
  "obind (opal_argv_insert malloc_ok (Some (Some [''a'', ''b''])) 1 (Some [''x'']))
     (\<lambda>(rc, t). opal_argv_delete (int (length [''a'', ''b''] + length [''x''])) t 1
        (int (length [''x'']))) =
   Ret (OPAL_SUCCESS, int (length [''a'', ''b'']), Some (Some [''a'', ''b'']))"
  by (rule argv_delete_insert) (simp_all add: INT_MAX_def)

text \<open>
  \<^verbatim>\<open>opal_argv_delete\<close> with a range that runs past the end deletes to the end, but lowers the
  counter by the number asked for, so that \<^verbatim>\<open>*argc\<close> is then below the number of elements left.
\<close>

theorem argv_delete_counter:
  assumes "0 \<le> start" and "start \<le> int (length vs)" and "int (length vs) < start + n"
    and "0 < n" and "start + n \<le> INT_MAX"
  shows "opal_argv_delete (int (length vs)) (Some (Some vs)) start n =
           Ret (OPAL_SUCCESS, int (length vs) - n, Some (Some (take (nat start) vs))) \<and>
         int (length vs) - n < int (opal_argv_count (Some (take (nat start) vs)))"
  using assms by (simp add: delete_eq opal_argv_count_def)

theorem argv_delete_counter_witness:
  "opal_argv_delete (int (length [''a'', ''b''])) (Some (Some [''a'', ''b''])) 1 5 =
     Ret (OPAL_SUCCESS, int (length [''a'', ''b'']) - 5, Some (Some (take (nat 1) [''a'', ''b'']))) \<and>
   int (length [''a'', ''b'']) - 5 < int (opal_argv_count (Some (take (nat 1) [''a'', ''b''])))"
  by (rule argv_delete_counter) (simp_all add: INT_MAX_def)

text \<open>
  \<^verbatim>\<open>opal_argv_join_range\<close> joins the elements from \<^verbatim>\<open>start\<close> up to \<^verbatim>\<open>end\<close>; called with an empty
  range inside the array, which its guard lets through, it writes before its block.
\<close>

theorem argv_join_range_correct:
  assumes "start \<le> length vs" and "vs \<noteq> []" and "int (length vs) \<le> INT_MAX"
  shows "opal_argv_join_range malloc_ok (Some vs) start end' d =
           (if start < end' \<and> start < length vs
            then Ret (Some (intersperse_join d (take (end' - start) (drop start vs))))
            else Undef)"
proof -
  have "c_int start = int start"
    using assms by (simp add: c_int_def INT_MAX_def signed_of_nat signed_take_bit_int_eq_self)
  then show ?thesis
    using assms join_range_eq [of start end' vs d]
    by (auto simp: opal_argv_join_range_def argv_strlen_def)
qed

theorem argv_join_range_correct_witness:
  "opal_argv_join_range malloc_ok (Some [''a'', ''b'']) 2 3 CHR '','' =
     (if (2::nat) < 3 \<and> 2 < length [''a'', ''b'']
      then Ret (Some (intersperse_join CHR '','' (take (3 - 2) (drop 2 [''a'', ''b'']))))
      else Undef)"
  by (rule argv_join_range_correct) (simp_all add: INT_MAX_def)

end
