(* ===== verification/Regex.thy ===== *)
theory Regex
  imports Argv C_String
begin

text \<open>
  The compact notation for lists of node names of \<^verbatim>\<open>orte/util/regex.c\<close>: \<^verbatim>\<open>orte_regex_create\<close> turns a
  comma-separated list into a list of groups such as \<^verbatim>\<open>node[3:1-4,7]x\<close> (prefix, number of
  digits, ranges, suffix), \<^verbatim>\<open>orte_regex_extract_node_names\<close> expands it again; two more
  functions read numbers of processes per node and ranges of single characters.

  The state of \<^verbatim>\<open>errno\<close> is passed along: the code tests it for \<^verbatim>\<open>ERANGE\<close> after \<^verbatim>\<open>strtol\<close> without
  having reset it.  The number of digits of the end of a range comes from \<^verbatim>\<open>log10\<close>; the model
  takes it to be exact, which it is below \<open>10\<^sup>1\<^sup>5\<close>, and gives the conversion of \<^verbatim>\<open>log10(0)\<close> to
  \<^verbatim>\<open>int\<close> the value it has on x86-64.  Nodes are printable ASCII.
\<close>

section \<open>Expanding\<close>

definition num_max_digit :: "nat \<Rightarrow> int" where
  "num_max_digit end' = (if end' = 0 then - INT_MAX - 1 + 1 else int (length (dec end')))"

text \<open>
  One name: the base, \<^verbatim>\<open>num_digits\<close> zeros, and the decimal number written over their end.
\<close>

definition regex_name :: "string \<Rightarrow> int \<Rightarrow> string option \<Rightarrow> nat \<Rightarrow> string outcome" where
  "regex_name base num_digits suffix i =
     (let tmp = dec i; buf = base @ replicate (nat num_digits) CHR ''0'' in
      if num_digits < 0 \<or> length buf < length tmp then Undef
      else Ret (take (length buf - length tmp) buf @ tmp @
                  (case suffix of None \<Rightarrow> [] | Some s \<Rightarrow> s)))"

fun regex_append_names ::
  "allocator \<Rightarrow> string \<Rightarrow> int \<Rightarrow> string option \<Rightarrow> nat \<Rightarrow> nat \<Rightarrow> argv \<Rightarrow> (status \<times> argv) outcome" where
  "regex_append_names alloc base num_digits suffix i 0 names = Ret (OPAL_SUCCESS, names)"
| "regex_append_names alloc base num_digits suffix i (Suc k) names =
     obind (regex_name base num_digits suffix i) (\<lambda>str.
       case opal_argv_append_nosize alloc names str of
         (rc, names') \<Rightarrow>
           if rc \<noteq> OPAL_SUCCESS then Ret (rc, names')
           else regex_append_names alloc base num_digits suffix (i + 1) k names')"

definition regex_parse_node_range ::
  "allocator \<Rightarrow> string \<Rightarrow> string \<Rightarrow> int \<Rightarrow> string option \<Rightarrow> argv \<Rightarrow> bool
     \<Rightarrow> (status \<times> argv \<times> bool) outcome" where
  "regex_parse_node_range alloc base rng num_digits suffix names errno =
     (let r1 = dropWhile (\<lambda>c. \<not> isdigit c) rng in
      if r1 = [] then Ret (OPAL_ERR_NOT_FOUND, names, errno)
      else
        (let (start, _, e1) = strtol r1; errno1 = (errno \<or> e1) in
         if errno1 then Ret (OPAL_ERR_BAD_PARAM, names, errno1)
         else
           (let r2 = dropWhile isdigit r1; r3 = dropWhile (\<lambda>c. \<not> isdigit c) r2 in
            if r2 \<noteq> [] \<and> r3 = [] then Ret (OPAL_ERR_NOT_FOUND, names, errno1)
            else
              (let (end', e2) = (if r2 = [] then (start, False)
                                 else (case strtol r3 of (v, _, e) \<Rightarrow> (v, e)));
                   errno2 = (errno1 \<or> e2)
               in if errno2 then Ret (OPAL_ERR_BAD_PARAM, names, errno2)
                  else if start > end' then Ret (OPAL_ERR_BAD_PARAM, names, errno2)
                  else if num_max_digit (nat end') > num_digits
                  then Ret (OPAL_ERR_BAD_PARAM, names, errno2)
                  else if \<not> alloc (length base + nat num_digits + 32 +
                         (case suffix of None \<Rightarrow> 0 | Some s \<Rightarrow> length s))
                  then Ret (OPAL_ERR_OUT_OF_RESOURCE, names, errno2)
                  else obind (regex_append_names alloc base num_digits suffix (nat start)
                                (nat (end' - start) + 1) names)
                         (\<lambda>(rc, names'). Ret (rc, names', errno2))))))"

function regex_parse_node_ranges ::
  "allocator \<Rightarrow> string \<Rightarrow> string \<Rightarrow> int \<Rightarrow> string option \<Rightarrow> argv \<Rightarrow> bool
     \<Rightarrow> (status \<times> argv \<times> bool) outcome" where
  "regex_parse_node_ranges alloc base ranges num_digits suffix names errno =
     (if ranges = [] then Ret (OPAL_SUCCESS, names, errno)
      else
        obind (regex_parse_node_range alloc base (takeWhile (\<lambda>c. c \<noteq> CHR '','') ranges)
                 num_digits suffix names errno)
          (\<lambda>(rc, names', errno').
            if rc \<noteq> OPAL_SUCCESS then Ret (rc, names', errno')
            else if dropWhile (\<lambda>c. c \<noteq> CHR '','') ranges = [] then Ret (OPAL_SUCCESS, names', errno')
            else regex_parse_node_ranges alloc base
                   (tl (dropWhile (\<lambda>c. c \<noteq> CHR '','') ranges)) num_digits suffix names' errno'))"
  by pat_completeness auto
termination
  by (relation "measure (\<lambda>(alloc, base, ranges, rest). length ranges)")
     (auto simp: length_dropWhile_less simp del: length_tl)

definition is_special :: "char \<Rightarrow> bool" where
  "is_special c \<longleftrightarrow> c = CHR ''['' \<or> c = CHR '','' \<or> c = CHR '']''"

text \<open>
  One group \<^verbatim>\<open>base[n:ranges]suffix\<close>, from the text behind the left bracket: the text from the
  right bracket on, the text behind the group, and the expansion.
\<close>

definition regex_range_end :: "string \<Rightarrow> string" where
  "regex_range_end s =
     dropWhile (\<lambda>c. c \<noteq> CHR '']'') (tl (dropWhile (\<lambda>c. c \<noteq> CHR '':'') s))"

definition regex_after_range :: "string \<Rightarrow> string" where
  "regex_after_range s = dropWhile (\<lambda>c. c \<noteq> CHR '','') (tl (regex_range_end s))"

definition regex_extract_range ::
  "allocator \<Rightarrow> string \<Rightarrow> string \<Rightarrow> argv \<Rightarrow> bool \<Rightarrow> (status \<times> argv \<times> bool) outcome" where
  "regex_extract_range alloc base s names errno =
     (let r1 = dropWhile (\<lambda>c. c \<noteq> CHR '':'') s in
      if r1 = [] then Ret (OPAL_ERR_BAD_PARAM, names, errno)
      else
        (let (v, _, e) = strtol (takeWhile (\<lambda>c. c \<noteq> CHR '':'') s);
             num_digits = int_of_long v; errno' = (errno \<or> e)
         in if errno' then Ret (OPAL_ERR_BAD_PARAM, names, errno')
            else
              (let ranges = takeWhile (\<lambda>c. c \<noteq> CHR '']'') (tl r1); r2 = regex_range_end s in
               if r2 = [] then Ret (OPAL_ERR_BAD_PARAM, names, errno')
               else if tl r2 \<noteq> [] \<and> hd (tl r2) = CHR ''[''
               then Ret (OPAL_ERR_BAD_PARAM, names, errno')
               else
                 (let sfx = takeWhile (\<lambda>c. c \<noteq> CHR '','') (tl r2);
                      suffix = (if sfx = [] \<or> \<not> alloc (strdup_bytes sfx) then None else Some sfx)
                  in regex_parse_node_ranges alloc base ranges num_digits suffix names errno'))))"

lemma length_regex_after_range: "length (regex_after_range s) \<le> length s"
proof -
  have "length (dropWhile P (tl s)) \<le> length s" for P :: "char \<Rightarrow> bool" and s
    using length_dropWhile_le [of P "tl s"] by simp
  then show ?thesis
    unfolding regex_after_range_def regex_range_end_def
    by (meson le_trans length_dropWhile_le)
qed

lemma length_regex_after_dropWhile:
  assumes "s \<noteq> []"
  shows "length (tl (regex_after_range (tl (dropWhile P s)))) < length s"
proof -
  have "length (regex_after_range (tl (dropWhile P s))) < length s"
    using length_regex_after_range length_dropWhile_less [OF assms] by (rule le_less_trans)
  then show ?thesis
    by simp
qed

function regex_extract_loop ::
  "allocator \<Rightarrow> string \<Rightarrow> argv \<Rightarrow> bool \<Rightarrow> (status \<times> argv) outcome" where
  "regex_extract_loop alloc base names errno =
     (let name = takeWhile (\<lambda>c. \<not> is_special c) base;
          rest = dropWhile (\<lambda>c. \<not> is_special c) base
      in if name = [] then Ret (OPAL_ERR_BAD_PARAM, names)
         else if rest \<noteq> [] \<and> hd rest = CHR '']'' then Ret (OPAL_ERR_BAD_PARAM, names)
         else if rest \<noteq> [] \<and> hd rest = CHR ''['' then
           obind (regex_extract_range alloc name (tl rest) names errno)
             (\<lambda>(rc, names', errno').
               if rc \<noteq> OPAL_SUCCESS then Ret (rc, names')
               else if regex_after_range (tl rest) = [] then Ret (OPAL_SUCCESS, names')
               else regex_extract_loop alloc (tl (regex_after_range (tl rest))) names' errno')
         else
           (case opal_argv_append_nosize alloc names name of
              (rc, names') \<Rightarrow>
                if rc \<noteq> OPAL_SUCCESS then Ret (rc, names')
                else if rest = [] then Ret (OPAL_SUCCESS, names')
                else regex_extract_loop alloc (tl rest) names' errno))"
  by pat_completeness auto
termination
  by (relation "measure (\<lambda>(alloc, base, rest). length base)")
     (auto intro!: length_dropWhile_less length_regex_after_dropWhile simp del: length_tl)

declare regex_extract_loop.simps [simp del] regex_parse_node_ranges.simps [simp del]

definition orte_regex_extract_node_names ::
  "allocator \<Rightarrow> string option \<Rightarrow> argv \<Rightarrow> bool \<Rightarrow> (status \<times> argv) outcome" where
  "orte_regex_extract_node_names alloc regexp names errno =
     (case regexp of
        None \<Rightarrow> Ret (OPAL_SUCCESS, None)
      | Some s \<Rightarrow>
          if \<not> alloc (strdup_bytes s) then Ret (OPAL_ERR_OUT_OF_RESOURCE, names)
          else regex_extract_loop alloc s names errno)"

section \<open>Processes per node and character ranges\<close>

lemma strtol_rest:
  assumes "strtol s = (v, rest, e)"
  shows "length rest \<le> length s"
proof -
  have d: "length (dropWhile isdigit t) \<le> length s" if "length t \<le> length s" for t :: string
    using that length_dropWhile_le le_trans by blast
  have s1: "length (dropWhile isspace s) \<le> length s"
    by (rule length_dropWhile_le)
  then have s2: "length (tl (dropWhile isspace s)) \<le> length s"
    by simp
  show ?thesis
  proof (cases "rest = s")
    case False
    then have "rest = dropWhile isdigit (dropWhile isspace s) \<or>
        rest = dropWhile isdigit (tl (dropWhile isspace s))"
      using assms unfolding strtol_def Let_def by (simp only: prod.inject split: if_splits) blast+
    then show ?thesis
      using d [OF s1] d [OF s2] by blast
  qed simp
qed

text \<open>The value, the number of repetitions, and the text behind a \<^verbatim>\<open>count(xreps)\<close>.\<close>

definition ppn_item :: "string \<Rightarrow> int \<times> int \<times> string" where
  "ppn_item begptr =
     (case strtol begptr of
        (v, endptr, _) \<Rightarrow>
          if take 2 endptr = ''(x'' then
            (case strtol (drop 2 endptr) of
               (n, r, _) \<Rightarrow>
                 (int_of_long v, int_of_long n, if r \<noteq> [] \<and> hd r = CHR '')'' then tl r else r))
          else (int_of_long v, 1, endptr))"

lemma ppn_item_rest:
  assumes "ppn_item s = (c, n, rest)"
  shows "length rest \<le> length s"
proof -
  obtain v endptr e where s: "strtol s = (v, endptr, e)"
    by (metis surj_pair)
  obtain n' r e' where r: "strtol (drop 2 endptr) = (n', r, e')"
    by (metis surj_pair)
  show ?thesis
    using strtol_rest [OF r] strtol_rest [OF s] assms
    by (auto simp: ppn_item_def s r split: if_splits)
qed

function ppn_loop :: "nat \<Rightarrow> string \<Rightarrow> int list \<Rightarrow> status \<times> int list" where
  "ppn_loop num_nodes begptr tmp =
     (case ppn_item begptr of
        (count, reps, endptr) \<Rightarrow>
          (let tmp' = tmp @ replicate (min (nat reps) (num_nodes - length tmp)) count in
           if endptr \<noteq> [] \<and> hd endptr = CHR '','' then ppn_loop num_nodes (tl endptr) tmp'
           else if endptr = [] \<or> num_nodes \<le> length tmp' then (OPAL_SUCCESS, tmp')
           else (OPAL_ERR_BAD_PARAM, tmp')))"
  by pat_completeness auto
termination
proof (relation "measure (\<lambda>(n, s, t). length s)", goal_cases)
  case (2 num_nodes begptr tmp count x reps endptr)
  then have "length endptr \<le> length begptr" "endptr \<noteq> []"
    using ppn_item_rest [of begptr count reps endptr] by auto
  then show ?case
    by (cases endptr) auto
qed simp

declare ppn_loop.simps [simp del]

definition orte_regex_extract_ppn ::
  "allocator \<Rightarrow> nat \<Rightarrow> string \<Rightarrow> status \<times> int list option" where
  "orte_regex_extract_ppn alloc num_nodes regexp =
     (if \<not> alloc (4 * num_nodes) \<or> \<not> alloc (strdup_bytes regexp) then (OPAL_ERR_OUT_OF_RESOURCE, None)
      else
        (case ppn_loop num_nodes regexp [] of
           (rc, tmp) \<Rightarrow>
             if rc \<noteq> OPAL_SUCCESS then (rc, None)
             else (OPAL_SUCCESS, Some (tmp @ replicate (num_nodes - length tmp) 0))))"

text \<open>
  \<^verbatim>\<open>orte_regex_extract_name_range\<close>.  The left bracket is overwritten before the right one is
  looked for, so that behind a non-empty prefix the search sees only that prefix.  The
  unchecked uses are undefined: of an empty list between the brackets, and of a third
  character that is not there.  A range up to the largest character would not end.
\<close>

definition name_with :: "string option \<Rightarrow> string \<Rightarrow> string option \<Rightarrow> string" where
  "name_with pre s post =
     (case pre of None \<Rightarrow> [] | Some p \<Rightarrow> p) @ s @ (case post of None \<Rightarrow> [] | Some p \<Rightarrow> p)"

definition schar :: "char \<Rightarrow> int" where
  "schar c = (let n = of_char c :: int in if n < 128 then n else n - 256)"

definition c_str :: "string \<Rightarrow> string" where
  "c_str s = takeWhile (\<lambda>c. c \<noteq> char_of (0 :: nat)) s"

definition name_range_item :: "string option \<Rightarrow> string option \<Rightarrow> string \<Rightarrow> string list outcome" where
  "name_range_item pre post rng =
     (if CHR ''-'' \<notin> set rng then Ret [name_with pre rng post]
      else if length rng < 2 then Undef
      else
        (let lo = schar (rng ! 0); hi = (if length rng = 2 then 0 else schar (rng ! 2)) in
         if hi = 127 then Diverge
         else Ret (map (\<lambda>c. c_str (name_with pre [char_of c] post)) [lo..hi])))"

fun name_range_items :: "string option \<Rightarrow> string option \<Rightarrow> string list \<Rightarrow> string list outcome" where
  "name_range_items pre post [] = Ret []"
| "name_range_items pre post (r # rs) =
     obind (name_range_item pre post r) (\<lambda>xs.
       obind (name_range_items pre post rs) (\<lambda>ys. Ret (xs @ ys)))"

fun append_all :: "argv \<Rightarrow> string list \<Rightarrow> argv" where
  "append_all names [] = names"
| "append_all names (t # ts) = append_all (snd (opal_argv_append_nosize malloc_ok names t)) ts"

definition orte_regex_extract_name_range :: "string \<Rightarrow> argv \<Rightarrow> (status \<times> argv) outcome" where
  "orte_regex_extract_name_range regexp names =
     (if CHR ''['' \<notin> set regexp then Ret (OPAL_SUCCESS, append_all names [regexp])
      else
        (let head = takeWhile (\<lambda>c. c \<noteq> CHR ''['') regexp;
             b = tl (dropWhile (\<lambda>c. c \<noteq> CHR ''['') regexp);
             tmp = (if head = [] then b else head)
         in if CHR '']'' \<notin> set tmp then Ret (OPAL_ERR_BAD_PARAM, names)
            else
              (let before = rev (tl (dropWhile (\<lambda>c. c \<noteq> CHR '']'') (rev tmp)));
                   tail = rev (takeWhile (\<lambda>c. c \<noteq> CHR '']'') (rev tmp));
                   pre = (if head = [] then None else Some before);
                   post = (if tail = [] then None else Some tail)
               in case opal_argv_split malloc_ok (Some (if head = [] then before else b)) CHR '','' of
                    None \<Rightarrow> Undef
                  | Some rngs \<Rightarrow>
                      obind (name_range_items pre post rngs)
                        (\<lambda>ts. Ret (OPAL_SUCCESS, append_all names ts)))))"

section \<open>Compressing\<close>

text \<open>
  \<^verbatim>\<open>orte_regex_create\<close>, with allocations that succeed (their results are not tested).  Its buffer
  for the prefix has 50 bytes: writing a 51st is undefined, and so is using a prefix of 50
  letters, which has no terminator.
\<close>

definition ORTE_MAX_NODE_PREFIX :: nat where
  "ORTE_MAX_NODE_PREFIX = 50"

record orte_regex_range =
  rr_start :: int
  rr_cnt :: int

record orte_regex_node =
  rn_prefix :: "string option"
  rn_suffix :: "string option"
  rn_num_digits :: int
  rn_ranges :: "orte_regex_range list"

text \<open>The scan of one name: \<open>(fullname, prefix, startnum, numdigits)\<close>.\<close>

fun regex_scan ::
  "string \<Rightarrow> nat \<Rightarrow> string \<Rightarrow> nat option \<Rightarrow> nat \<Rightarrow> (bool \<times> string \<times> nat option \<times> nat) outcome" where
  "regex_scan [] i prefix startnum numdigits = Ret (False, prefix, startnum, numdigits)"
| "regex_scan (c # cs) i prefix startnum numdigits =
     (if \<not> isalpha c then
        (if \<not> isdigit c then Ret (True, prefix, startnum, numdigits)
         else regex_scan cs (Suc i) prefix
                (case startnum of None \<Rightarrow> Some i | Some k \<Rightarrow> Some k) (Suc numdigits))
      else if startnum = None then
        (if ORTE_MAX_NODE_PREFIX \<le> length prefix then Undef
         else regex_scan cs (Suc i) (prefix @ [c]) startnum numdigits)
      else regex_scan cs (Suc i) prefix startnum numdigits)"

definition regex_node_match :: "string \<Rightarrow> string \<Rightarrow> nat \<Rightarrow> orte_regex_node \<Rightarrow> bool" where
  "regex_node_match prefix suffix numdigits ndreg \<longleftrightarrow>
     (case rn_prefix ndreg of None \<Rightarrow> prefix = [] | Some p \<Rightarrow> prefix \<noteq> [] \<and> prefix = p) \<and>
     rn_suffix ndreg = Some suffix \<and> int numdigits = rn_num_digits ndreg"

text \<open>
  The last range of a matching node.  \<^verbatim>\<open>opal_list_get_last\<close> of an empty list is the list's own
  sentinel and not NULL, so that an empty list would be undefined; nodes with a suffix have a
  range.
\<close>

definition regex_add_number :: "int \<Rightarrow> orte_regex_range list \<Rightarrow> orte_regex_range list outcome" where
  "regex_add_number nodenum ranges =
     (if ranges = [] then Undef
      else
        (let r = last ranges in
         if INT_MAX < rr_start r + rr_cnt r then Undef
         else if nodenum \<noteq> rr_start r + rr_cnt r
         then Ret (ranges @ [\<lparr>rr_start = nodenum, rr_cnt = 1\<rparr>])
         else Ret (butlast ranges @ [r\<lparr>rr_cnt := rr_cnt r + 1\<rparr>])))"

fun regex_record ::
  "string \<Rightarrow> string \<Rightarrow> nat \<Rightarrow> int \<Rightarrow> orte_regex_node list \<Rightarrow> orte_regex_node list outcome" where
  "regex_record prefix suffix numdigits nodenum [] =
     Ret [\<lparr>rn_prefix = (if prefix = [] then None else Some prefix), rn_suffix = Some suffix,
           rn_num_digits = int numdigits, rn_ranges = [\<lparr>rr_start = nodenum, rr_cnt = 1\<rparr>]\<rparr>]"
| "regex_record prefix suffix numdigits nodenum (ndreg # ids) =
     (if regex_node_match prefix suffix numdigits ndreg then
        obind (regex_add_number nodenum (rn_ranges ndreg)) (\<lambda>rs. Ret (ndreg\<lparr>rn_ranges := rs\<rparr> # ids))
      else obind (regex_record prefix suffix numdigits nodenum ids) (\<lambda>ids'. Ret (ndreg # ids')))"

definition regex_add_node :: "string \<Rightarrow> orte_regex_node list \<Rightarrow> orte_regex_node list outcome" where
  "regex_add_node node nodeids =
     obind (regex_scan node 0 [] None 0) (\<lambda>(fullname, prefix, startnum, numdigits).
       case (fullname, startnum) of
         (False, Some k) \<Rightarrow>
           if length prefix = ORTE_MAX_NODE_PREFIX then Undef
           else
             (case strtol (drop k node) of
                (v, sfx, _) \<Rightarrow> regex_record prefix sfx numdigits (int_of_long v) nodeids)
       | _ \<Rightarrow> Ret (nodeids @ [\<lparr>rn_prefix = Some node, rn_suffix = None, rn_num_digits = 0,
                              rn_ranges = []\<rparr>]))"

function regex_create_loop :: "string \<Rightarrow> orte_regex_node list \<Rightarrow> orte_regex_node list outcome" where
  "regex_create_loop node nodeids =
     (if node = [] then Ret nodeids
      else
        obind (regex_add_node (takeWhile (\<lambda>c. c \<noteq> CHR '','') node) nodeids) (\<lambda>ids.
          if dropWhile (\<lambda>c. c \<noteq> CHR '','') node = [] then Ret ids
          else regex_create_loop (tl (dropWhile (\<lambda>c. c \<noteq> CHR '','') node)) ids))"
  by pat_completeness auto
termination
  by (relation "measure (\<lambda>(node, ids). length node)")
     (auto simp: length_dropWhile_less simp del: length_tl)

declare regex_create_loop.simps [simp del]

definition fmt_d :: "int \<Rightarrow> string" where
  "fmt_d i = (if i < 0 then CHR ''-'' # dec (nat (- i)) else dec (nat i))"

definition regex_show_range :: "orte_regex_range \<Rightarrow> string" where
  "regex_show_range r =
     (if rr_cnt r = 1 then fmt_d (rr_start r)
      else fmt_d (rr_start r) @ CHR ''-'' # fmt_d (rr_start r + rr_cnt r - 1))"

definition regex_show_node :: "orte_regex_node \<Rightarrow> string option" where
  "regex_show_node ndreg =
     (if rn_ranges ndreg = [] then rn_prefix ndreg
      else Some (name_with (rn_prefix ndreg)
             (CHR ''['' # fmt_d (rn_num_digits ndreg) @ CHR '':'' #
              butlast (concat (map (\<lambda>r. regex_show_range r @ '','') (rn_ranges ndreg))) @ '']'')
             (rn_suffix ndreg)))"

definition orte_regex_create :: "string \<Rightarrow> (status \<times> string option) outcome" where
  "orte_regex_create nodelist =
     (if CHR '','' \<notin> set nodelist then Ret (OPAL_SUCCESS, Some nodelist)
      else
        obind (regex_create_loop nodelist []) (\<lambda>nodeids.
          if list_ex (\<lambda>n. list_ex (\<lambda>r. rr_cnt r \<noteq> 1 \<and> INT_MAX < rr_start r + rr_cnt r) (rn_ranges n)) nodeids
          then Undef
          else obind (opal_argv_join malloc_ok
                   (append_all None (concat (map (\<lambda>n. case regex_show_node n of
                      None \<Rightarrow> [] | Some t \<Rightarrow> [t]) nodeids))) CHR '','')
            (\<lambda>regexp. Ret (OPAL_SUCCESS, regexp))))"

end
