(* ===== verification/Analytics_Base.thy ===== *)
theory Analytics_Base
  imports C_Float Hash_Table_Map Regex
begin

text \<open>
  What the analytics plug-ins share: values with their units (\<^verbatim>\<open>orcm/util/utils.c\<close>), workflows, the
  attributes of their steps, events and their storage (\<^verbatim>\<open>orcm/mca/analytics/base\<close>).

  A plug-in gets a caddy with the value to analyze and returns what it hands on: events, and the value for the
  next step of the workflow.  Doubles are finite and rational, every operation rounds to the nearest double.
  Reading a member of the union of a value that another type has is undefined.  Allocation succeeds, the time
  of day is an argument, and strings have no NUL.
\<close>

section \<open>Values\<close>

text \<open>
  \<open>V_opaque\<close> stands for the types that can be copied but are not numbers (booleans, bytes, sizes, process ids, byte
  objects, pointers), \<open>V_unsupported\<close> for all others.
\<close>

datatype val_data =
    V_int "32 word"
  | V_int8 "8 word"
  | V_int16 "16 word"
  | V_int32 "32 word"
  | V_int64 "64 word"
  | V_uint "32 word"
  | V_uint8 "8 word"
  | V_uint16 "16 word"
  | V_uint32 "32 word"
  | V_uint64 "64 word"
  | V_float rat
  | V_double rat
  | V_string "string option"
  | V_timeval int int
  | V_opaque
  | V_unsupported

record orcm_value =
  ov_name :: "string option"
  ov_val :: val_data
  ov_units :: "string option"

record orcm_analytics_value =
  an_key :: "orcm_value list option"
  an_non_compute :: "orcm_value list option"
  an_compute :: "orcm_value list option"

text \<open>The case of an unsigned 64-bit value reads the signed member of the union.\<close>

definition orcm_util_get_number_orcm_value :: "orcm_value \<Rightarrow> rat" where
  "orcm_util_get_number_orcm_value v =
     (case ov_val v of
        V_int w \<Rightarrow> of_int (sint w)
      | V_int8 w \<Rightarrow> of_int (sint w)
      | V_int16 w \<Rightarrow> of_int (sint w)
      | V_int32 w \<Rightarrow> of_int (sint w)
      | V_int64 w \<Rightarrow> double_round (of_int (sint w))
      | V_uint w \<Rightarrow> of_int (uint w)
      | V_uint8 w \<Rightarrow> of_int (uint w)
      | V_uint16 w \<Rightarrow> of_int (uint w)
      | V_uint32 w \<Rightarrow> of_int (uint w)
      | V_uint64 w \<Rightarrow> double_round (of_int (sint w))
      | V_float q \<Rightarrow> q
      | V_double q \<Rightarrow> q
      | _ \<Rightarrow> 0)"

definition orcm_util_copy_orcm_value :: "orcm_value \<Rightarrow> orcm_value option" where
  "orcm_util_copy_orcm_value v = (if ov_val v = V_unsupported then None else Some v)"

primrec copy_items :: "orcm_value list \<Rightarrow> orcm_value list \<Rightarrow> status \<times> orcm_value list" where
  "copy_items [] dest = (OPAL_SUCCESS, dest)"
| "copy_items (v # vs) dest =
     (case orcm_util_copy_orcm_value v of
        None \<Rightarrow> (OPAL_ERR_OUT_OF_RESOURCE, dest)
      | Some w \<Rightarrow> copy_items vs (dest @ [w]))"

definition orcm_util_copy_list_items :: "orcm_value list option \<Rightarrow> orcm_value list \<Rightarrow> status \<times> orcm_value list" where
  "orcm_util_copy_list_items src dest =
     (case src of None \<Rightarrow> (OPAL_ERROR, dest) | Some vs \<Rightarrow> copy_items vs dest)"

section \<open>Text\<close>

text \<open>\<^verbatim>\<open>strncmp\<close> gives 0.\<close>

definition strneq :: "string \<Rightarrow> string \<Rightarrow> nat \<Rightarrow> bool" where
  "strneq s t n \<longleftrightarrow> take n s = take n t"

text \<open>\<^verbatim>\<open>%s\<close>, as the GNU library prints a NULL pointer.\<close>

definition fmt_s :: "string option \<Rightarrow> string" where
  "fmt_s s = (case s of None \<Rightarrow> ''(null)'' | Some t \<Rightarrow> t)"

definition get_seconds_multiplier :: "char \<Rightarrow> int" where
  "get_seconds_multiplier c =
     (if c = CHR ''d'' then 86400 else if c = CHR ''h'' then 3600 else if c = CHR ''m'' then 60 else 1)"

definition check_numeric :: "string \<Rightarrow> status" where
  "check_numeric s = (if list_all isdigit s then OPAL_SUCCESS else OPAL_ERR_BAD_PARAM)"

text \<open>\<^verbatim>\<open>strtol\<close> with base 0 on a string of digits: a leading zero makes it octal.\<close>

definition oct_val :: "string \<Rightarrow> nat" where
  "oct_val s = foldl (\<lambda>n c. n * 8 + digit_val c) 0 (takeWhile (\<lambda>c. isdigit c \<and> digit_val c < 8) s)"

definition strtol_digits0 :: "string \<Rightarrow> int" where
  "strtol_digits0 s = min LONG_MAX (int (if s \<noteq> [] \<and> hd s = CHR ''0'' then oct_val s else dec_val s))"

definition orcm_util_get_time_in_sec :: "string option \<Rightarrow> 64 word outcome" where
  "orcm_util_get_time_in_sec time =
     (case time of
        None \<Rightarrow> Ret 0
      | Some s \<Rightarrow>
          if s = [] then Undef
          else
            (let timeval = (if isdigit (last s) then s else butlast s);
                 seconds = strtol_digits0 timeval * get_seconds_multiplier (last s)
             in if check_numeric timeval \<noteq> OPAL_SUCCESS then Ret 0
                else if LONG_MAX < seconds then Undef
                else Ret (of_int seconds)))"

definition ORCM_UTIL_HASH_MULTIPLIER :: "64 word" where
  "ORCM_UTIL_HASH_MULTIPLIER = 31"

text \<open>The key is hashed with its terminator.\<close>

definition orcm_util_create_hash_key :: "string \<Rightarrow> 64 word" where
  "orcm_util_create_hash_key key =
     foldl (\<lambda>hash b. ORCM_UTIL_HASH_MULTIPLIER * hash + b) 0 (map (\<lambda>c. of_nat (of_char c)) key @ [0])"

section \<open>Workflows\<close>

type_synonym attribute = "string option \<times> string option"

record orcm_workflow_step =
  ws_attributes :: "attribute list"
  ws_analytic :: "string option"
  ws_step_id :: int

record orcm_workflow =
  wf_name :: "string option"
  wf_hostname_regex :: "string option"
  wf_workflow_id :: int

record orcm_workflow_caddy =
  cd_wf :: orcm_workflow
  cd_wf_step :: orcm_workflow_step
  cd_hash_key :: "64 word"
  cd_value :: orcm_analytics_value

definition orcm_analytics_base_timeval_to_uint64 :: "int \<Rightarrow> int \<Rightarrow> 64 word" where
  "orcm_analytics_base_timeval_to_uint64 sec usec =
     (let time_usec = double_round (of_int usec / 10000000) in
      if 1 / 2 \<le> time_usec then of_int sec + 1 else of_int sec)"

text \<open>\<^verbatim>\<open>strstr\<close> finds the text.\<close>

definition contains :: "string \<Rightarrow> string \<Rightarrow> bool" where
  "contains s t \<longleftrightarrow> list_ex (\<lambda>n. take (length t) (drop n s) = t) [0..<length s + 1]"

primrec orcm_analytics_base_get_sample_time :: "orcm_value list \<Rightarrow> (status \<times> 64 word option) outcome" where
  "orcm_analytics_base_get_sample_time [] = Ret (OPAL_ERR_BAD_PARAM, None)"
| "orcm_analytics_base_get_sample_time (v # vs) =
     (case ov_name v of
        None \<Rightarrow> Ret (OPAL_ERR_BAD_PARAM, None)
      | Some k \<Rightarrow>
          if contains k ''time'' then
            (case ov_val v of
               V_timeval sec usec \<Rightarrow> Ret (OPAL_SUCCESS, Some (orcm_analytics_base_timeval_to_uint64 sec usec))
             | _ \<Rightarrow> Undef)
          else orcm_analytics_base_get_sample_time vs)"

primrec db_check_loop :: "attribute list \<Rightarrow> bool outcome" where
  "db_check_loop [] = Ret False"
| "db_check_loop (a # as) =
     (case a of
        (None, _) \<Rightarrow> Undef
      | (Some k, s) \<Rightarrow>
          if k = ''db'' then (case s of None \<Rightarrow> Undef | Some t \<Rightarrow> Ret (t = ''yes''))
          else db_check_loop as)"

definition orcm_analytics_base_db_check :: "orcm_workflow_step \<Rightarrow> bool outcome" where
  "orcm_analytics_base_db_check wf_step = db_check_loop (ws_attributes wf_step)"

primrec hostname_loop :: "orcm_value list \<Rightarrow> string option outcome" where
  "hostname_loop [] = Ret None"
| "hostname_loop (v # vs) =
     (if ov_name v = Some ''hostname''
      then (case ov_val v of V_string (Some s) \<Rightarrow> Ret (Some s) | _ \<Rightarrow> Undef)
      else hostname_loop vs)"

definition orcm_analytics_get_hostname_from_attributes :: "orcm_value list \<Rightarrow> string outcome" where
  "orcm_analytics_get_hostname_from_attributes attributes =
     obind (hostname_loop attributes) (\<lambda>h. Ret (case h of None \<Rightarrow> ''All'' | Some s \<Rightarrow> s))"

definition orcm_analytics_base_data_key :: "string option \<Rightarrow> orcm_workflow \<Rightarrow> orcm_workflow_step \<Rightarrow> string" where
  "orcm_analytics_base_data_key key flow step =
     fmt_s (wf_name flow) @ ''_workflow'' @ fmt_d (wf_workflow_id flow) @ ''-step'' @ fmt_d (ws_step_id step) @ ''_'' @
     fmt_s (ws_analytic step) @ '':'' @ fmt_s key @ ''_'' @ fmt_s (wf_hostname_regex flow)"

section \<open>Events\<close>

record orcm_ras_event =
  re_type :: int
  re_severity :: int
  re_timestamp :: int
  re_reporter :: "orcm_value list"
  re_description :: "orcm_value list"
  re_data :: "orcm_value list"

definition ORCM_RAS_SEVERITY_INFO :: int where "ORCM_RAS_SEVERITY_INFO = 6"

definition ORCM_RAS_SEVERITY_ERROR :: int where "ORCM_RAS_SEVERITY_ERROR = 3"

definition ORCM_RAS_SEVERITY_UNKNOWN :: int where "ORCM_RAS_SEVERITY_UNKNOWN = 8"

definition ORCM_RAS_EVENT_SENSOR :: int where "ORCM_RAS_EVENT_SENSOR = 0"

definition ORCM_RAS_EVENT_EXCEPTION :: int where "ORCM_RAS_EVENT_EXCEPTION = 1"

definition ORCM_STORAGE_TYPE_DATABASE :: nat where "ORCM_STORAGE_TYPE_DATABASE = 0"

definition ORCM_STORAGE_TYPE_NOTIFICATION :: nat where "ORCM_STORAGE_TYPE_NOTIFICATION = 1"

definition ORCM_STORAGE_TYPE_UNDEFINED :: nat where "ORCM_STORAGE_TYPE_UNDEFINED = 3"

definition orcm_analytics_event_get_severity :: "string \<Rightarrow> int" where
  "orcm_analytics_event_get_severity severity =
     (case map_of
        [(''emerg'', 0), (''alert'', 1), (''crit'', 2), (''error'', 3), (''warn'', 4), (''notice'', 5), (''info'', 6),
         (''debug'', 7)] severity of
        None \<Rightarrow> ORCM_RAS_SEVERITY_UNKNOWN
      | Some n \<Rightarrow> n)"

primrec orcm_analytics_base_event_set_time :: "orcm_value list \<Rightarrow> int outcome" where
  "orcm_analytics_base_event_set_time [] = Ret 0"
| "orcm_analytics_base_event_set_time (v # vs) =
     (case ov_name v of
        None \<Rightarrow> Undef
      | Some k \<Rightarrow>
          if k = ''ctime'' then (case ov_val v of V_timeval sec usec \<Rightarrow> Ret sec | _ \<Rightarrow> Undef)
          else orcm_analytics_base_event_set_time vs)"

text \<open>\<^verbatim>\<open>NULL\<close> when a list is missing or cannot be copied.\<close>

definition orcm_analytics_base_event_create ::
  "orcm_analytics_value \<Rightarrow> int \<Rightarrow> int \<Rightarrow> orcm_ras_event option outcome" where
  "orcm_analytics_base_event_create v type severity =
     (case orcm_util_copy_list_items (an_key v) [] of (rc1, reporter) \<Rightarrow>
      case orcm_util_copy_list_items (an_compute v) [] of (rc2, data) \<Rightarrow>
        if rc1 \<noteq> OPAL_SUCCESS \<or> rc2 \<noteq> OPAL_SUCCESS then Ret None
        else
          (case an_non_compute v of
             None \<Rightarrow> Undef
           | Some nc \<Rightarrow>
               obind (orcm_analytics_base_event_set_time nc) (\<lambda>ts.
                 case (if 0 < ts \<and> length nc = 1 then (OPAL_SUCCESS, []) else copy_items nc []) of
                   (rc3, descr) \<Rightarrow>
                     Ret (if rc3 \<noteq> OPAL_SUCCESS then None
                          else Some \<lparr>re_type = type, re_severity = severity, re_timestamp = ts, re_reporter = reporter,
                                     re_description = descr, re_data = data\<rparr>))))"

definition orcm_analytics_base_event_set_description ::
  "orcm_ras_event \<Rightarrow> string \<Rightarrow> val_data \<Rightarrow> orcm_ras_event" where
  "orcm_analytics_base_event_set_description ev key data =
     ev\<lparr>re_description := re_description ev @ [\<lparr>ov_name = Some key, ov_val = data, ov_units = None\<rparr>]\<rparr>"

definition orcm_analytics_base_event_set_storage :: "orcm_ras_event \<Rightarrow> nat \<Rightarrow> status \<times> orcm_ras_event" where
  "orcm_analytics_base_event_set_storage ev storage_type =
     (if ORCM_STORAGE_TYPE_UNDEFINED \<le> storage_type then (OPAL_ERROR, ev)
      else (OPAL_SUCCESS, orcm_analytics_base_event_set_description ev ''storage_type'' (V_uint (of_nat storage_type))))"

definition orcm_analytics_base_log_to_database_event ::
  "orcm_analytics_value \<Rightarrow> (status \<times> orcm_ras_event list) outcome" where
  "orcm_analytics_base_log_to_database_event v =
     obind (orcm_analytics_base_event_create v ORCM_RAS_EVENT_SENSOR ORCM_RAS_SEVERITY_INFO) (\<lambda>ev.
       case ev of
         None \<Rightarrow> Ret (OPAL_ERROR, [])
       | Some e \<Rightarrow>
           (case orcm_analytics_base_event_set_storage e ORCM_STORAGE_TYPE_DATABASE of
              (rc, e') \<Rightarrow> Ret (rc, if rc \<noteq> OPAL_SUCCESS then [] else [e'])))"

section \<open>Values for the next step\<close>

definition orcm_util_load_orcm_analytics_value_compute ::
  "orcm_value list option \<Rightarrow> orcm_value list option \<Rightarrow> orcm_value list option \<Rightarrow> orcm_analytics_value" where
  "orcm_util_load_orcm_analytics_value_compute key non_compute compute =
     \<lparr>an_key = key, an_non_compute = non_compute, an_compute = compute\<rparr>"

definition orcm_util_load_orcm_analytics_value ::
  "orcm_value list option \<Rightarrow> orcm_value list option \<Rightarrow> orcm_value list option \<Rightarrow> orcm_analytics_value" where
  "orcm_util_load_orcm_analytics_value key non_compute compute =
     (let list_or_new = (\<lambda>l. case l of None \<Rightarrow> Some [] | Some vs \<Rightarrow> Some vs) in
      \<lparr>an_key = list_or_new key, an_non_compute = list_or_new non_compute, an_compute = list_or_new compute\<rparr>)"

text \<open>Everything but the times, and the current time behind it; \<^verbatim>\<open>NULL\<close> if a value cannot be copied.\<close>

definition orcm_util_update_analytics_time :: "int \<times> int \<Rightarrow> orcm_value list option \<Rightarrow> orcm_value list option" where
  "orcm_util_update_analytics_time now non_compute =
     (let old = (case non_compute of None \<Rightarrow> [] | Some vs \<Rightarrow> vs);
          keep = [v \<leftarrow> old. case ov_name v of None \<Rightarrow> True | Some k \<Rightarrow> \<not> strneq k ''ctime'' 5]
      in case copy_items keep [] of (rc, new) \<Rightarrow>
           if rc \<noteq> OPAL_SUCCESS then None
           else Some (new @ [\<lparr>ov_name = Some ''ctime'', ov_val = V_timeval (fst now) (snd now), ov_units = None\<rparr>]))"

definition orcm_util_load_analytics_time_compute ::
  "int \<times> int \<Rightarrow> orcm_value list option \<Rightarrow> orcm_value list option \<Rightarrow> orcm_value list option \<Rightarrow> orcm_analytics_value" where
  "orcm_util_load_analytics_time_compute now key non_compute compute =
     \<lparr>an_key = key, an_non_compute = orcm_util_update_analytics_time now non_compute, an_compute = compute\<rparr>"

text \<open>What a plug-in hands on: events, and values for the next step with the hash key.\<close>

datatype wf_output = Out_event orcm_ras_event | Out_next "64 word" orcm_analytics_value

end
