(* ===== verification/Analytics_Window.thy ===== *)
theory Analytics_Window
  imports Analytics_Base
begin

text \<open>
  The window plug-in, \<^verbatim>\<open>orcm/mca/analytics/window/analytics_window.c\<close>: average, minimum, maximum or standard deviation
  over windows of a number of samples or of a span of time.
\<close>

section \<open>Doubles\<close>

definition DBL_MAX :: rat where
  "DBL_MAX = (2 - 1 / 2 ^ 52) * 2 ^ 1023"

definition DBL_MIN :: rat where
  "DBL_MIN = 1 / 2 ^ 1022"

definition dadd :: "rat \<Rightarrow> rat \<Rightarrow> rat" where "dadd x y = double_round (x + y)"

definition dsub :: "rat \<Rightarrow> rat \<Rightarrow> rat" where "dsub x y = double_round (x - y)"

definition dmul :: "rat \<Rightarrow> rat \<Rightarrow> rat" where "dmul x y = double_round (x * y)"

definition ddiv :: "rat \<Rightarrow> rat \<Rightarrow> rat" where "ddiv x y = double_round (x / y)"

definition double_of_uint64 :: "64 word \<Rightarrow> rat" where
  "double_of_uint64 w = double_round (of_int (uint w))"

text \<open>\<^verbatim>\<open>sqrt\<close>: the integer square root bit by bit, and the nearest number with 53 significant bits.\<close>

primrec isqrt_bits :: "nat \<Rightarrow> nat \<Rightarrow> nat \<Rightarrow> nat" where
  "isqrt_bits 0 r n = r"
| "isqrt_bits (Suc k) r n = isqrt_bits k (if (r + 2 ^ k) * (r + 2 ^ k) \<le> n then r + 2 ^ k else r) n"

definition double_sqrt :: "rat \<Rightarrow> rat" where
  "double_sqrt q =
     (if q \<le> 0 then 0
      else
        (let u = 2 powi (ilog2 q div 2 - 52);
             m = q / (u * u);
             r = isqrt_bits (floorlog 2 (nat \<lfloor>m\<rfloor>)) 0 (nat \<lfloor>m\<rfloor>)
         in (if (of_nat r + 1 / 2) ^ 2 \<le> m then of_nat (r + 1) else of_nat r) * u))"

section \<open>State\<close>

record win_statistics =
  win_size :: "64 word"
  win_left :: "64 word"
  win_right :: "64 word"
  num_sample_recv :: "64 word"
  num_data_point :: "64 word"
  sum_min_max :: rat
  sum_square :: rat
  compute_type :: "string option"
  win_type :: "string option"

definition win_statistics_con :: win_statistics where
  "win_statistics_con =
     \<lparr>win_size = 0, win_left = 0, win_right = 0, num_sample_recv = 0, num_data_point = 0, sum_min_max = 0,
      sum_square = 0, compute_type = None, win_type = None\<rparr>"

text \<open>The comparisons with the names of the types are comparisons of prefixes.\<close>

definition is_kind :: "string \<Rightarrow> string \<Rightarrow> bool" where
  "is_kind s name \<longleftrightarrow> strneq s name (length name)"

definition reset_window :: "win_statistics \<Rightarrow> 64 word \<Rightarrow> 64 word \<Rightarrow> win_statistics outcome" where
  "reset_window w left incre =
     (case compute_type w of
        None \<Rightarrow> Undef
      | Some c \<Rightarrow>
          Ret (w\<lparr>win_left := left, win_right := left + incre, num_sample_recv := 0, num_data_point := 0,
                 sum_min_max := (if is_kind c ''min'' then DBL_MAX else if is_kind c ''max'' then DBL_MIN else 0),
                 sum_square := 0\<rparr>))"

definition fill_win_statistics :: "win_statistics \<Rightarrow> (status \<times> win_statistics) outcome" where
  "fill_win_statistics w =
     (if win_size w = 0 then Ret (OPAL_ERR_BAD_PARAM, w)
      else
        (let t = (case win_type w of None \<Rightarrow> ''time'' | Some t \<Rightarrow> t);
             w1 = w\<lparr>win_type := Some t\<rparr>
         in if \<not> is_kind t ''time'' \<and> \<not> is_kind t ''counter'' then Ret (OPAL_ERR_BAD_PARAM, w)
            else
              (case compute_type w of
                 None \<Rightarrow> Ret (OPAL_ERR_BAD_PARAM, w1)
               | Some c \<Rightarrow>
                   if \<not> is_kind c ''average'' \<and> \<not> is_kind c ''min'' \<and> \<not> is_kind c ''max'' \<and> \<not> is_kind c ''sd''
                   then Ret (OPAL_ERR_BAD_PARAM, w1)
                   else obind (reset_window w1 0 (if is_kind t ''time'' then 0 else win_size w))
                          (\<lambda>w2. Ret (OPAL_SUCCESS, w2)))))"

primrec fill_loop :: "attribute list \<Rightarrow> win_statistics \<Rightarrow> (status \<times> win_statistics) outcome" where
  "fill_loop [] w = Ret (OPAL_SUCCESS, w)"
| "fill_loop (a # as) w =
     (case a of
        (Some k, Some s) \<Rightarrow>
          if k = ''win_size'' then
            obind (orcm_util_get_time_in_sec (Some s)) (\<lambda>n. fill_loop as (w\<lparr>win_size := n\<rparr>))
          else if k = ''compute'' then
            fill_loop as (if compute_type w = None then w\<lparr>compute_type := Some s\<rparr> else w)
          else if k = ''type'' then
            fill_loop as (if win_type w = None then w\<lparr>win_type := Some s\<rparr> else w)
          else fill_loop as w
      | _ \<Rightarrow> Ret (OPAL_ERR_BAD_PARAM, w))"

definition fill_attributes :: "win_statistics \<Rightarrow> attribute list \<Rightarrow> (status \<times> win_statistics) outcome" where
  "fill_attributes w attributes =
     obind (fill_loop attributes w) (\<lambda>(rc, w1).
       if rc \<noteq> OPAL_SUCCESS then Ret (rc, w1) else fill_win_statistics w1)"

section \<open>Samples\<close>

definition accumulate_data_average :: "rat \<Rightarrow> win_statistics \<Rightarrow> win_statistics" where
  "accumulate_data_average num w = w\<lparr>sum_min_max := dadd (sum_min_max w) num\<rparr>"

definition accumulate_data_min :: "rat \<Rightarrow> win_statistics \<Rightarrow> win_statistics" where
  "accumulate_data_min num w = (if num < sum_min_max w then w\<lparr>sum_min_max := num\<rparr> else w)"

definition accumulate_data_max :: "rat \<Rightarrow> win_statistics \<Rightarrow> win_statistics" where
  "accumulate_data_max num w = (if sum_min_max w < num then w\<lparr>sum_min_max := num\<rparr> else w)"

definition accumulate_data_sd :: "rat \<Rightarrow> win_statistics \<Rightarrow> win_statistics" where
  "accumulate_data_sd num w =
     (accumulate_data_average num w)\<lparr>sum_square := dadd (sum_square w) (dmul num num)\<rparr>"

definition accumulate_number :: "string \<Rightarrow> rat \<Rightarrow> win_statistics \<Rightarrow> win_statistics" where
  "accumulate_number c =
     (if is_kind c ''average'' then accumulate_data_average
      else if is_kind c ''min'' then accumulate_data_min
      else if is_kind c ''max'' then accumulate_data_max
      else accumulate_data_sd)"

definition accumulate_data :: "win_statistics \<Rightarrow> orcm_value list \<Rightarrow> (status \<times> win_statistics) outcome" where
  "accumulate_data w data_list =
     (let w1 = w\<lparr>num_sample_recv := num_sample_recv w + 1,
                 num_data_point := num_data_point w + of_nat (length data_list)\<rparr>
      in case compute_type w of
           None \<Rightarrow> if data_list = [] then Ret (OPAL_SUCCESS, w1) else Undef
         | Some c \<Rightarrow>
             Ret (OPAL_SUCCESS, fold (\<lambda>v. accumulate_number c (orcm_util_get_number_orcm_value v)) data_list w1))"

text \<open>Without data points the average is a NaN, which has no representation here.\<close>

definition computing :: "win_statistics \<Rightarrow> rat outcome" where
  "computing w =
     (case compute_type w of
        None \<Rightarrow> Undef
      | Some c \<Rightarrow>
          if is_kind c ''average'' then
            (if num_data_point w = 0 then Undef else Ret (ddiv (sum_min_max w) (double_of_uint64 (num_data_point w))))
          else if is_kind c ''min'' \<or> is_kind c ''max'' then Ret (sum_min_max w)
          else if 1 < num_data_point w then
            (let n = num_data_point w;
                 temp = dsub (dmul (double_of_uint64 n) (sum_square w)) (dmul (sum_min_max w) (sum_min_max w))
             in Ret (if 0 \<le> temp then double_sqrt (ddiv temp (double_of_uint64 (n * (n - 1)))) else 0))
          else Ret 0)"

section \<open>Full windows\<close>

definition set_window_description :: "win_statistics \<Rightarrow> orcm_ras_event \<Rightarrow> orcm_ras_event" where
  "set_window_description w ev =
     foldl (\<lambda>e (k, d). orcm_analytics_base_event_set_description e k d) ev
       [(''win_size'', V_uint64 (win_size w)), (''win_type'', V_string (win_type w)),
        (''compute_type'', V_string (compute_type w)), (''num_sample_recv'', V_uint64 (num_sample_recv w)),
        (''num_data_point'', V_uint64 (num_data_point w))]"

definition send_data_to_dispatch ::
  "win_statistics \<Rightarrow> orcm_analytics_value \<Rightarrow> (status \<times> wf_output list) outcome" where
  "send_data_to_dispatch w v =
     obind (orcm_analytics_base_event_create v ORCM_RAS_EVENT_SENSOR ORCM_RAS_SEVERITY_INFO) (\<lambda>ev.
       case ev of
         None \<Rightarrow> Ret (OPAL_ERROR, [])
       | Some e \<Rightarrow>
           (case orcm_analytics_base_event_set_storage e ORCM_STORAGE_TYPE_DATABASE of
              (rc, e1) \<Rightarrow>
                if rc \<noteq> OPAL_SUCCESS then Ret (rc, [])
                else Ret (OPAL_SUCCESS, [Out_event (set_window_description w e1)])))"

definition handle_full_window ::
  "int \<times> int \<Rightarrow> win_statistics \<Rightarrow> orcm_workflow_caddy \<Rightarrow> (status \<times> wf_output list) outcome" where
  "handle_full_window now w caddy =
     (if num_sample_recv w = 0 then Ret (OPAL_SUCCESS, [])
      else
        (case an_compute (cd_value caddy) of
           None \<Rightarrow> Undef
         | Some [] \<Rightarrow> Undef
         | Some (current # _) \<Rightarrow>
             obind (computing w) (\<lambda>result.
               let data_key = orcm_analytics_base_data_key (compute_type w) (cd_wf caddy) (cd_wf_step caddy);
                   item = \<lparr>ov_name = Some data_key, ov_val = V_double result, ov_units = ov_units current\<rparr>;
                   to_next = orcm_util_load_analytics_time_compute now (an_key (cd_value caddy))
                               (an_non_compute (cd_value caddy)) (Some [item])
               in obind (orcm_analytics_base_db_check (cd_wf_step caddy)) (\<lambda>db.
                    obind (if db then send_data_to_dispatch w to_next else Ret (OPAL_SUCCESS, [])) (\<lambda>(rc, outs).
                      if rc \<noteq> OPAL_SUCCESS then Ret (rc, outs)
                      else Ret (OPAL_SUCCESS, outs @ [Out_next (cd_hash_key caddy) to_next]))))))"

definition do_compute_time_window ::
  "int \<times> int \<Rightarrow> win_statistics \<Rightarrow> orcm_workflow_caddy \<Rightarrow> (status \<times> win_statistics \<times> wf_output list) outcome" where
  "do_compute_time_window now w caddy =
     (case (an_non_compute (cd_value caddy), an_compute (cd_value caddy)) of
        (Some nc, Some data) \<Rightarrow>
          obind (orcm_analytics_base_get_sample_time nc) (\<lambda>(rc, t).
            case t of
              None \<Rightarrow> Ret (rc, w, [])
            | Some sample_time \<Rightarrow>
                if sample_time < win_left w then Ret (ORCM_ERR_RECV_MORE_THAN_POSTED, w, [])
                else if win_left w = win_right w then
                  obind (accumulate_data (w\<lparr>win_left := sample_time, win_right := sample_time + win_size w\<rparr>) data)
                    (\<lambda>(rc', w'). Ret (rc', w', []))
                else if win_right w \<le> sample_time then
                  obind (handle_full_window now w caddy) (\<lambda>(rc', outs).
                    if rc' \<noteq> OPAL_SUCCESS then Ret (rc', w, outs)
                    else
                      obind (if win_right w + win_size w \<le> sample_time
                             then reset_window w (sample_time - sample_time mod win_size w) (win_size w)
                             else reset_window w (win_right w) (win_size w)) (\<lambda>w1.
                        obind (accumulate_data w1 data) (\<lambda>(rc'', w'). Ret (rc'', w', outs))))
                else obind (accumulate_data w data) (\<lambda>(rc', w'). Ret (rc', w', [])))
      | _ \<Rightarrow> Undef)"

definition do_compute_counter_window ::
  "int \<times> int \<Rightarrow> win_statistics \<Rightarrow> orcm_workflow_caddy \<Rightarrow> (status \<times> win_statistics \<times> wf_output list) outcome" where
  "do_compute_counter_window now w caddy =
     (case an_compute (cd_value caddy) of
        None \<Rightarrow> Undef
      | Some data \<Rightarrow>
          obind (accumulate_data w data) (\<lambda>(rc, w1).
            if rc \<noteq> OPAL_SUCCESS then Ret (rc, w1, [])
            else if win_right w1 \<le> num_sample_recv w1 then
              obind (handle_full_window now w1 caddy) (\<lambda>(rc', outs).
                if rc' \<noteq> OPAL_SUCCESS then Ret (rc', w1, outs)
                else obind (reset_window w1 0 (win_size w1)) (\<lambda>w2. Ret (OPAL_SUCCESS, w2, outs)))
            else Ret (OPAL_SUCCESS, w1, [])))"

definition do_compute ::
  "int \<times> int \<Rightarrow> win_statistics \<Rightarrow> orcm_workflow_caddy \<Rightarrow> (status \<times> win_statistics \<times> wf_output list) outcome" where
  "do_compute now w caddy =
     (let v = cd_value caddy in
      if an_key v = None \<or> an_non_compute v = None \<or> an_compute v = None \<or> an_key v = Some [] \<or> an_compute v = Some []
      then Ret (OPAL_ERR_BAD_PARAM, w, [])
      else
        (case win_type w of
           None \<Rightarrow> Undef
         | Some t \<Rightarrow>
             if is_kind t ''time'' then do_compute_time_window now w caddy
             else do_compute_counter_window now w caddy))"

definition fill_first_sample ::
  "int \<times> int \<Rightarrow> win_statistics \<Rightarrow> orcm_workflow_caddy \<Rightarrow> (status \<times> win_statistics \<times> wf_output list) outcome" where
  "fill_first_sample now w caddy =
     obind (fill_attributes w (ws_attributes (cd_wf_step caddy))) (\<lambda>(rc, w1).
       if rc \<noteq> OPAL_SUCCESS then Ret (rc, w1, []) else do_compute now w1 caddy)"

definition window_analyze ::
  "int \<times> int \<Rightarrow> win_statistics \<Rightarrow> orcm_workflow_caddy \<Rightarrow> (status \<times> win_statistics \<times> wf_output list) outcome" where
  "window_analyze now w caddy =
     (if num_sample_recv w = 0 then fill_first_sample now w caddy else do_compute now w caddy)"

end
