(* ===== verification/Analytics_Window_Spec.thy ===== *)
theory Analytics_Window_Spec
  imports Analytics_Window
begin

text \<open>
  The window plug-in computes, sample by sample, what a function of all numbers of a window gives: for windows of a
  number of samples, and for windows of a span of time, whose limits are those of an abstract window.
\<close>

section \<open>Whole windows\<close>

text \<open>The result for the numbers of a window.\<close>

definition batch :: "string \<Rightarrow> rat list \<Rightarrow> rat" where
  "batch c xs =
     (let n = of_nat (length xs) :: 64 word in
      if is_kind c ''average'' then ddiv (foldl dadd 0 xs) (double_of_uint64 n)
      else if is_kind c ''min'' then Min (insert DBL_MAX (set xs))
      else if is_kind c ''max'' then Max (insert DBL_MIN (set xs))
      else if 1 < n then
        (let temp = dsub (dmul (double_of_uint64 n) (foldl dadd 0 (map (\<lambda>x. dmul x x) xs)))
                      (dmul (foldl dadd 0 xs) (foldl dadd 0 xs))
         in if 0 \<le> temp then double_sqrt (ddiv temp (double_of_uint64 (n * (n - 1)))) else 0)
      else 0)"

text \<open>The sums that are kept for a window.\<close>

definition acc_sum :: "string \<Rightarrow> rat list \<Rightarrow> rat" where
  "acc_sum c xs =
     (if is_kind c ''min'' then foldl (\<lambda>m x. if x < m then x else m) DBL_MAX xs
      else if is_kind c ''max'' then foldl (\<lambda>m x. if m < x then x else m) DBL_MIN xs
      else foldl dadd 0 xs)"

definition acc_square :: "string \<Rightarrow> rat list \<Rightarrow> rat" where
  "acc_square c xs =
     (if is_kind c ''average'' \<or> is_kind c ''min'' \<or> is_kind c ''max'' then 0
      else foldl dadd 0 (map (\<lambda>x. dmul x x) xs))"

lemma kinds_exclusive:
  "is_kind c ''average'' \<Longrightarrow> \<not> is_kind c ''min'' \<and> \<not> is_kind c ''max''"
  "is_kind c ''min'' \<Longrightarrow> \<not> is_kind c ''max''"
  by (cases c rule: list.exhaust; cases "tl c"; auto simp: is_kind_def strneq_def)+

lemma foldl_min: "foldl (\<lambda>m x. if x < m then x else m) a xs = Min (insert a (set xs :: rat set))"
proof (induction xs arbitrary: a)
  case (Cons x xs)
  have "Min (insert (if x < a then x else a) (set xs)) = Min (insert a (set (x # xs)))"
    by (cases "xs = []") (auto simp: min_def)
  then show ?case
    using Cons by simp
qed simp

lemma foldl_max: "foldl (\<lambda>m x. if m < x then x else m) a xs = Max (insert a (set xs :: rat set))"
proof (induction xs arbitrary: a)
  case (Cons x xs)
  have "Max (insert (if a < x then x else a) (set xs)) = Max (insert a (set (x # xs)))"
    by (cases "xs = []") (auto simp: max_def)
  then show ?case
    using Cons by simp
qed simp

section \<open>An open window\<close>

definition open_win :: "win_statistics \<Rightarrow> string \<Rightarrow> rat list list \<Rightarrow> win_statistics" where
  "open_win w c ps =
     w\<lparr>compute_type := Some c, num_sample_recv := of_nat (length ps), num_data_point := of_nat (length (concat ps)),
       sum_min_max := acc_sum c (concat ps), sum_square := acc_square c (concat ps)\<rparr>"

abbreviation numbers :: "orcm_value list \<Rightarrow> rat list" where
  "numbers \<equiv> map orcm_util_get_number_orcm_value"

lemma fold_accumulate:
  "sum_min_max w = acc_sum c xs \<Longrightarrow> sum_square w = acc_square c xs \<Longrightarrow>
   fold (\<lambda>v. accumulate_number c (orcm_util_get_number_orcm_value v)) data w =
     w\<lparr>sum_min_max := acc_sum c (xs @ numbers data), sum_square := acc_square c (xs @ numbers data)\<rparr>"
proof (induction data arbitrary: w xs)
  case (Cons v data)
  let ?x = "orcm_util_get_number_orcm_value v"
  have "accumulate_number c ?x w = w\<lparr>sum_min_max := acc_sum c (xs @ [?x]), sum_square := acc_square c (xs @ [?x])\<rparr>"
    using Cons.prems kinds_exclusive [of c]
    by (cases w) (auto simp: accumulate_number_def accumulate_data_average_def accumulate_data_min_def accumulate_data_max_def
        accumulate_data_sd_def acc_sum_def acc_square_def)
  then show ?case
    using Cons.IH [of "accumulate_number c ?x w" "xs @ [?x]"] by simp
qed (cases w; simp)

lemma accumulate_open [simp]:
  "accumulate_data (open_win w c ps) data = Ret (OPAL_SUCCESS, open_win w c (ps @ [numbers data]))"
  by (simp add: accumulate_data_def open_win_def Let_def fold_accumulate [of _ c "concat ps"] algebra_simps)

lemma reset_open:
  assumes "compute_type w = Some c"
  shows "reset_window w left incre = Ret (open_win (w\<lparr>win_left := left, win_right := left + incre\<rparr>) c [])"
  using assms by (cases w) (auto simp: reset_window_def open_win_def acc_sum_def acc_square_def)

lemma computing_open:
  assumes "concat ps \<noteq> []" "length (concat ps) < 2 ^ 64"
  shows "computing (open_win w c ps) = Ret (batch c (concat ps))"
proof -
  have "(of_nat (length (concat ps)) :: 64 word) \<noteq> 0"
    using assms by (auto simp: word_of_nat_eq_0_iff dest: dvd_imp_le)
  then show ?thesis
    using kinds_exclusive [of c]
    by (auto simp: computing_def open_win_def batch_def Let_def acc_sum_def acc_square_def foldl_min foldl_max)
qed

lemma unat64_less: "unat (w :: 64 word) < 2 ^ 64"
  by (rule order.strict_trans2 [OF unsigned_less]) simp

section \<open>Configuration\<close>

lemma fill_loop_again:
  assumes "fill_loop attrs w = Ret (OPAL_SUCCESS, w1)" "compute_type w' \<noteq> None" "win_type w' \<noteq> None"
  shows "\<exists>n. fill_loop attrs w' = Ret (OPAL_SUCCESS, w'\<lparr>win_size := n\<rparr>) \<and>
           (n = win_size w1 \<or> n = win_size w' \<and> win_size w1 = win_size w)"
  using assms
proof (induction attrs arbitrary: w w')
  case (Cons a as)
  obtain k s where a: "a = (Some k, Some s)"
    using Cons.prems(1) by (cases a; cases "fst a"; cases "snd a"; auto)
  show ?case
  proof (cases "k = ''win_size''")
    case True
    then obtain n where n: "orcm_util_get_time_in_sec (Some s) = Ret n" "fill_loop as (w\<lparr>win_size := n\<rparr>) = Ret (OPAL_SUCCESS, w1)"
      using Cons.prems(1) a by (auto simp: outcome_simps)
    show ?thesis
      using Cons.IH [OF n(2), of "w'\<lparr>win_size := n\<rparr>"] Cons.prems(2,3) n(1) a True by auto
  next
    case False
    then obtain v where v: "fill_loop as v = Ret (OPAL_SUCCESS, w1)" "win_size v = win_size w"
      using Cons.prems(1) a that by (auto split: if_splits)
    obtain c t where "compute_type w' = Some c" "win_type w' = Some t"
      using Cons.prems(2,3) by blast
    then have "fill_loop (a # as) w' = fill_loop as w'"
      using False a by simp
    then show ?thesis
      using Cons.IH [OF v(1) Cons.prems(2,3)] unfolding v(2) by simp
  qed
qed (metis fill_loop.simps(1) outcome.inject prod.inject win_statistics.surjective win_statistics.update_convs(1))

lemma fill_win_ok:
  assumes "fill_win_statistics w = Ret (OPAL_SUCCESS, w0)"
  obtains c t where "compute_type w = Some c" "compute_type w0 = Some c" "win_type w0 = Some t"
    "win_type w = None \<and> t = ''time'' \<or> win_type w = Some t" "is_kind t ''time'' \<or> is_kind t ''counter''"
    "win_size w0 = win_size w" "win_size w \<noteq> 0"
    "w0 = open_win (w\<lparr>win_type := Some t, win_left := 0, win_right := if is_kind t ''time'' then 0 else win_size w\<rparr>) c []"
proof -
  obtain c where c: "compute_type w = Some c" "win_size w \<noteq> 0"
    using assms by (cases "compute_type w") (auto simp: fill_win_statistics_def Let_def split: if_splits)
  define t where "t = (case win_type w of None \<Rightarrow> ''time'' | Some t \<Rightarrow> t)"
  have w0: "w0 = open_win (w\<lparr>win_type := Some t, win_left := 0, win_right := if is_kind t ''time'' then 0 else win_size w\<rparr>) c []"
    and t: "is_kind t ''time'' \<or> is_kind t ''counter''"
    using assms c by (auto simp: fill_win_statistics_def Let_def t_def [symmetric] reset_open split: if_splits)
  then show ?thesis
    using that [of c t] c by (auto simp: open_win_def t_def split: option.splits)
qed

lemma fill_again:
  assumes "fill_attributes win_statistics_con attrs = Ret (OPAL_SUCCESS, w0)"
    and w: "compute_type w = compute_type w0" "win_type w = win_type w0"
  shows "fill_attributes w attrs = Ret (OPAL_SUCCESS, w0)"
proof -
  obtain w1 where w1: "fill_loop attrs win_statistics_con = Ret (OPAL_SUCCESS, w1)" "fill_win_statistics w1 = Ret (OPAL_SUCCESS, w0)"
    using assms(1) by (auto simp: fill_attributes_def outcome_simps split: if_splits)
  obtain c t where f: "compute_type w1 = Some c" "compute_type w0 = Some c" "win_type w0 = Some t"
    "is_kind t ''time'' \<or> is_kind t ''counter''" "win_size w1 \<noteq> 0"
    "w0 = open_win (w1\<lparr>win_type := Some t, win_left := 0, win_right := if is_kind t ''time'' then 0 else win_size w1\<rparr>) c []"
    using w1(2) by (rule fill_win_ok)
  have kind: "is_kind c ''average'' \<or> is_kind c ''min'' \<or> is_kind c ''max'' \<or> is_kind c ''sd''"
    using w1(2) f(1) by (auto simp: fill_win_statistics_def Let_def split: if_splits)
  have "fill_loop attrs w = Ret (OPAL_SUCCESS, w\<lparr>win_size := win_size w1\<rparr>)"
    using fill_loop_again [OF w1(1), of w] w f(2,3,5) by (auto simp: win_statistics_con_def)
  moreover have "fill_win_statistics (w\<lparr>win_size := win_size w1\<rparr>) = Ret (OPAL_SUCCESS, w0)"
    using f(4,5) kind w f(2,3) reset_open [of "w\<lparr>win_size := win_size w1, win_type := Some t\<rparr>" c]
    by (cases w, cases w1) (auto simp: fill_win_statistics_def f(6) open_win_def)
  ultimately show ?thesis
    by (simp add: fill_attributes_def)
qed

section \<open>Samples\<close>

text \<open>A value with keys and numbers, for a step with the given attributes.\<close>

definition sample_ok :: "attribute list \<Rightarrow> orcm_workflow_caddy \<Rightarrow> bool" where
  "sample_ok attrs caddy \<longleftrightarrow>
     ws_attributes (cd_wf_step caddy) = attrs \<and>
     (case an_key (cd_value caddy) of None \<Rightarrow> False | Some k \<Rightarrow> k \<noteq> []) \<and> an_non_compute (cd_value caddy) \<noteq> None \<and>
     (case an_compute (cd_value caddy) of None \<Rightarrow> False | Some d \<Rightarrow> d \<noteq> [])"

definition sample_numbers :: "orcm_workflow_caddy \<Rightarrow> rat list" where
  "sample_numbers caddy = numbers (the (an_compute (cd_value caddy)))"

text \<open>The numbers that go to the next step.\<close>

fun result_of :: "wf_output \<Rightarrow> rat list" where
  "result_of (Out_next h v) =
     (case an_compute v of Some [i] \<Rightarrow> (case ov_val i of V_double q \<Rightarrow> [q] | _ \<Rightarrow> []) | _ \<Rightarrow> [])"
| "result_of (Out_event e) = []"

definition results :: "wf_output list \<Rightarrow> rat list" where
  "results outs = concat (map result_of outs)"

primrec window_run ::
  "win_statistics \<Rightarrow> ((int \<times> int) \<times> orcm_workflow_caddy) list \<Rightarrow> (status list \<times> win_statistics \<times> wf_output list) outcome" where
  "window_run w [] = Ret ([], w, [])"
| "window_run w (x # xs) =
     obind (window_analyze (fst x) w (snd x)) (\<lambda>(rc, w1, outs).
       obind (window_run w1 xs) (\<lambda>(rcs, w2, outs'). Ret (rc # rcs, w2, outs @ outs')))"

lemma handle_full_open:
  assumes "sample_ok attrs caddy" "db_check_loop attrs = Ret False" "ps \<noteq> []" "length ps < 2 ^ 64"
    "concat ps \<noteq> []" "length (concat ps) < 2 ^ 64"
  shows "\<exists>outs. handle_full_window now (open_win w c ps) caddy = Ret (OPAL_SUCCESS, outs) \<and> results outs = [batch c (concat ps)]"
proof -
  have n: "num_sample_recv (open_win w c ps) \<noteq> 0"
    using assms(3,4) by (auto simp: open_win_def word_of_nat_eq_0_iff dest: dvd_imp_le)
  obtain v vs where "an_compute (cd_value caddy) = Some (v # vs)"
    using assms(1) by (auto simp: sample_ok_def neq_Nil_conv split: option.splits)
  moreover have "orcm_analytics_base_db_check (cd_wf_step caddy) = Ret False"
    using assms(1,2) by (simp add: orcm_analytics_base_db_check_def sample_ok_def)
  ultimately show ?thesis
    using n computing_open [OF assms(5,6), of w c]
    by (simp add: handle_full_window_def orcm_util_load_analytics_time_compute_def results_def)
qed

section \<open>Windows of a number of samples\<close>

text \<open>A configuration with windows of \<open>n\<close> samples whose results are not stored in the database.\<close>

definition counter_config :: "attribute list \<Rightarrow> win_statistics \<Rightarrow> string \<Rightarrow> nat \<Rightarrow> bool" where
  "counter_config attrs w0 c n \<longleftrightarrow>
     fill_attributes win_statistics_con attrs = Ret (OPAL_SUCCESS, w0) \<and> compute_type w0 = Some c \<and>
     (case win_type w0 of None \<Rightarrow> False | Some t \<Rightarrow> \<not> is_kind t ''time'') \<and> unat (win_size w0) = n \<and>
     db_check_loop attrs = Ret False"

lemma config_filled:
  assumes "fill_attributes win_statistics_con attrs = Ret (OPAL_SUCCESS, w0)" "compute_type w0 = Some c" "win_type w0 = Some t"
  shows "open_win w0 c [] = w0" "win_left w0 = 0" "win_right w0 = (if is_kind t ''time'' then 0 else win_size w0)"
    "0 < unat (win_size w0)"
proof -
  obtain w1 where w1: "fill_win_statistics w1 = Ret (OPAL_SUCCESS, w0)"
    using assms(1) by (auto simp: fill_attributes_def outcome_simps split: if_splits)
  obtain c' t' where f: "compute_type w0 = Some c'" "win_type w0 = Some t'" "win_size w0 = win_size w1" "win_size w1 \<noteq> 0"
    "w0 = open_win (w1\<lparr>win_type := Some t', win_left := 0, win_right := if is_kind t' ''time'' then 0 else win_size w1\<rparr>) c' []"
    using w1 by (rule fill_win_ok)
  have eq: "c' = c" "t' = t"
    using f(1,2) assms(2,3) by simp_all
  have "win_left w0 = 0 \<and> win_right w0 = (if is_kind t ''time'' then 0 else win_size w1)"
    by (subst (1 2) f(5)) (simp add: open_win_def eq)
  then show "win_left w0 = 0" "win_right w0 = (if is_kind t ''time'' then 0 else win_size w0)"
    using f(3) by simp_all
  show "open_win w0 c [] = w0"
    by (subst (1 2) f(5)) (simp add: open_win_def eq)
  show "0 < unat (win_size w0)"
    using f(3,4) by (metis neq0_conv unat_eq_zero)
qed

lemma counter_configD:
  assumes "counter_config attrs w0 c n"
  obtains t where "win_type w0 = Some t" "\<not> is_kind t ''time''" "open_win w0 c [] = w0" "win_left w0 = 0"
    "win_right w0 = win_size w0" "0 < n" "compute_type w0 = Some c"
    "fill_attributes win_statistics_con attrs = Ret (OPAL_SUCCESS, w0)"
  using assms config_filled [of attrs w0 c] by (auto simp: counter_config_def split: option.splits)

lemma counter_step:
  assumes conf: "counter_config attrs w0 c n" and ok: "sample_ok attrs caddy"
    and ps: "length ps < n" "concat (ps @ [sample_numbers caddy]) \<noteq> []" "length (concat (ps @ [sample_numbers caddy])) < 2 ^ 64"
  shows "\<exists>outs. do_compute now (open_win w0 c ps) caddy =
           Ret (OPAL_SUCCESS, open_win w0 c (if Suc (length ps) = n then [] else ps @ [sample_numbers caddy]), outs) \<and>
           results outs = (if Suc (length ps) = n then [batch c (concat (ps @ [sample_numbers caddy]))] else [])"
proof -
  obtain t where d: "win_type w0 = Some t" "\<not> is_kind t ''time''" "win_left w0 = 0" "win_right w0 = win_size w0"
    using conf by (rule counter_configD)
  obtain data where data: "an_compute (cd_value caddy) = Some data" "sample_numbers caddy = numbers data"
    using ok by (auto simp: sample_ok_def sample_numbers_def split: option.splits)
  have n: "n < 2 ^ 64"
    using conf unat64_less [of "win_size w0"] by (simp add: counter_config_def)
  let ?w = "open_win w0 c (ps @ [numbers data])"
  have "unat (num_sample_recv ?w) = Suc (length ps)"
    using ps(1) n by (simp add: open_win_def unat_of_nat take_bit_nat_eq_self flip: of_nat_Suc)
  then have full: "win_right ?w \<le> num_sample_recv ?w \<longleftrightarrow> Suc (length ps) = n"
    using conf d(4) ps(1) by (auto simp: word_le_nat_alt open_win_def counter_config_def)
  have run: "do_compute now (open_win w0 c ps) caddy = do_compute_counter_window now (open_win w0 c ps) caddy"
    using d(1,2) ok by (auto simp: do_compute_def open_win_def sample_ok_def split: option.splits)
  show ?thesis
  proof (cases "Suc (length ps) = n")
    case True
    obtain outs where outs: "handle_full_window now ?w caddy = Ret (OPAL_SUCCESS, outs)"
        "results outs = [batch c (concat (ps @ [numbers data]))]"
      using handle_full_open [OF ok, of "ps @ [numbers data]" now w0 c] conf True n ps(2,3) data(2)
      by (auto simp: counter_config_def)
    have "reset_window ?w 0 (win_size ?w) = Ret (open_win w0 c [])"
      using d(3,4) by (subst reset_open [of _ c]) (simp_all add: open_win_def)
    then show ?thesis
      using outs full True data(2) by (simp add: run do_compute_counter_window_def data(1))
  next
    case False
    then show ?thesis
      using full data(2) by (simp add: run do_compute_counter_window_def data(1) results_def)
  qed
qed

lemma analyze_open:
  assumes "counter_config attrs w0 c n" "sample_ok attrs caddy" "length ps < n"
  shows "window_analyze now (open_win w0 c ps) caddy = do_compute now (open_win w0 c ps) caddy"
    "window_analyze now win_statistics_con caddy = do_compute now (open_win w0 c []) caddy"
proof -
  have fill: "fill_attributes win_statistics_con attrs = Ret (OPAL_SUCCESS, w0)" and open0: "open_win w0 c [] = w0"
    and c: "compute_type w0 = Some c"
    using assms(1) by (auto elim: counter_configD)
  have "length ps < 2 ^ 64"
    using assms(1,3) unat64_less [of "win_size w0"] by (simp add: counter_config_def)
  then have zero: "num_sample_recv (open_win w0 c ps) = 0 \<longleftrightarrow> ps = []"
    by (auto simp: open_win_def word_of_nat_eq_0_iff dest: dvd_imp_le)
  have "fill_attributes (open_win w0 c ps) attrs = Ret (OPAL_SUCCESS, w0)"
    by (rule fill_again [OF fill]) (use c in \<open>simp_all add: open_win_def\<close>)
  then show "window_analyze now (open_win w0 c ps) caddy = do_compute now (open_win w0 c ps) caddy"
    using assms(2) zero open0 by (cases "ps = []") (simp_all add: window_analyze_def fill_first_sample_def sample_ok_def)
  have "num_sample_recv win_statistics_con = 0"
    by (simp add: win_statistics_con_def)
  then show "window_analyze now win_statistics_con caddy = do_compute now (open_win w0 c []) caddy"
    using assms(2) open0 fill by (simp add: window_analyze_def fill_first_sample_def sample_ok_def)
qed

text \<open>The results of the windows that get full, from a window with some samples on.\<close>

primrec chunk_results :: "string \<Rightarrow> nat \<Rightarrow> rat list list \<Rightarrow> rat list list \<Rightarrow> rat list" where
  "chunk_results c n ps [] = []"
| "chunk_results c n ps (x # xs) =
     (if Suc (length ps) = n then batch c (concat (ps @ [x])) # chunk_results c n [] xs else chunk_results c n (ps @ [x]) xs)"

lemma chunk_results_eq:
  assumes "length ps < n"
  shows "chunk_results c n ps xs =
    map (\<lambda>k. batch c (concat (take n (drop (k * n) (ps @ xs))))) [0..<(length ps + length xs) div n]"
  using assms
proof (induction xs arbitrary: ps)
  case (Cons x xs)
  show ?case
  proof (cases "Suc (length ps) = n")
    case True
    then have div: "(length ps + length (x # xs)) div n = Suc (length xs div n)"
      by (auto simp: add_Suc [symmetric] simp del: add_Suc)
    have "drop (Suc k * n) (ps @ x # xs) = drop (k * n) xs" for k
      using True by (auto simp: drop_Cons')
    moreover have "n - length ps = 1"
      using True by simp
    ultimately show ?thesis
      using Cons.IH [of "[]"] True unfolding div
      by (simp add: upt_conv_Cons map_Suc_upt [symmetric] comp_def del: upt_Suc)
  next
    case False
    then show ?thesis
      using Cons.IH [of "ps @ [x]"] Cons.prems by simp
  qed
qed simp

lemma counter_run:
  assumes conf: "counter_config attrs w0 c n" and "\<forall>x\<in>set xs. sample_ok attrs (snd x)" "length ps < n"
    "length (concat (ps @ map (sample_numbers \<circ> snd) xs)) < 2 ^ 64"
  shows "\<exists>w' outs. window_run (open_win w0 c ps) xs = Ret (replicate (length xs) OPAL_SUCCESS, w', outs) \<and>
           results outs = chunk_results c n ps (map (sample_numbers \<circ> snd) xs)"
  using assms(2-)
proof (induction xs arbitrary: ps)
  case (Cons x xs)
  obtain now caddy where x: "x = (now, caddy)"
    by (cases x)
  let ?v = "sample_numbers caddy"
  let ?ps = "if Suc (length ps) = n then [] else ps @ [?v]"
  have ok: "sample_ok attrs caddy" "?v \<noteq> []"
    using Cons.prems(1) x by (auto simp: sample_ok_def sample_numbers_def split: option.splits)
  obtain outs where outs: "window_analyze now (open_win w0 c ps) caddy = Ret (OPAL_SUCCESS, open_win w0 c ?ps, outs)"
      "results outs = (if Suc (length ps) = n then [batch c (concat (ps @ [?v]))] else [])"
    using counter_step [OF conf ok(1) Cons.prems(2), of now] analyze_open(1) [OF conf ok(1) Cons.prems(2), of now] ok(2)
      Cons.prems(3) x by auto
  have "length ?ps < n"
    using Cons.prems(2) by auto
  moreover have "length (concat (?ps @ map (sample_numbers \<circ> snd) xs)) < 2 ^ 64"
    using Cons.prems(3) x by (auto simp: comp_def)
  ultimately obtain w' outs' where "window_run (open_win w0 c ?ps) xs = Ret (replicate (length xs) OPAL_SUCCESS, w', outs')"
      "results outs' = chunk_results c n ?ps (map (sample_numbers \<circ> snd) xs)"
    using Cons.IH [of ?ps] Cons.prems(1) by (auto simp: comp_def)
  then show ?case
    using outs x by (auto simp: results_def comp_def)
qed (simp add: results_def)

lemma counter_results:
  assumes "counter_config attrs w0 c n" "\<forall>x\<in>set xs. sample_ok attrs (snd x)"
    "length (concat (map (sample_numbers \<circ> snd) xs)) < 2 ^ 64"
  shows "\<exists>w outs. window_run win_statistics_con xs = Ret (replicate (length xs) OPAL_SUCCESS, w, outs) \<and>
           results outs = map (\<lambda>k. batch c (concat (take n (drop (k * n) (map (sample_numbers \<circ> snd) xs))))) [0..<length xs div n]"
proof -
  have n: "length [] < n"
    using assms(1) by (auto elim: counter_configD)
  have "window_run win_statistics_con xs = window_run (open_win w0 c []) xs" if "xs \<noteq> []"
    using that assms(1,2) n by (cases xs) (simp_all add: analyze_open [OF assms(1) _ n])
  then show ?thesis
    using counter_run [OF assms(1,2) n] assms(3) chunk_results_eq [OF n, of c "map (sample_numbers \<circ> snd) xs"]
    by (cases "xs = []") (auto simp: results_def)
qed

section \<open>Windows of a span of time\<close>

text \<open>
  An abstract window: its left limit and its samples with their times.  A sample behind the right limit closes the
  window; the next one follows it or, after a gap, starts at a multiple of the size.
\<close>

type_synonym time_win = "nat \<times> (nat \<times> rat list) list"

definition time_step ::
  "nat \<Rightarrow> time_win option \<Rightarrow> nat \<times> rat list \<Rightarrow> status \<times> time_win list \<times> time_win option" where
  "time_step width st x =
     (case st of
        None \<Rightarrow> (OPAL_SUCCESS, [], Some (fst x, [x]))
      | Some (l, S) \<Rightarrow>
          if fst x < l then (ORCM_ERR_RECV_MORE_THAN_POSTED, [], st)
          else if fst x < l + width then (OPAL_SUCCESS, [], Some (l, S @ [x]))
          else (OPAL_SUCCESS, [(l, S)], Some (if l + 2 * width \<le> fst x then fst x - fst x mod width else l + width, [x])))"

primrec time_run ::
  "nat \<Rightarrow> time_win option \<Rightarrow> (nat \<times> rat list) list \<Rightarrow> status list \<times> time_win list \<times> time_win option" where
  "time_run width st [] = ([], [], st)"
| "time_run width st (x # xs) =
     (case time_step width st x of (rc, full, st1) \<Rightarrow>
      case time_run width st1 xs of (rcs, full', st2) \<Rightarrow> (rc # rcs, full @ full', st2))"

definition in_window :: "nat \<Rightarrow> time_win \<Rightarrow> bool" where
  "in_window width = (\<lambda>(l, S). \<forall>(t, x)\<in>set S. l \<le> t \<and> t < l + width)"

definition content :: "time_win option \<Rightarrow> (nat \<times> rat list) list" where
  "content st = (case st of None \<Rightarrow> [] | Some (l, S) \<Rightarrow> S)"

lemma time_step_ok:
  assumes "0 < width" "case st of None \<Rightarrow> True | Some w \<Rightarrow> in_window width w" "time_step width st x = (rc, full, st1)"
  shows "case st1 of None \<Rightarrow> False | Some w \<Rightarrow> in_window width w" "full \<noteq> [] \<Longrightarrow> full = [the st] \<and> st \<noteq> None"
    "concat (map snd full) @ content st1 = content st @ (if rc = OPAL_SUCCESS then [x] else [])"
    "st \<noteq> None \<Longrightarrow> fst (the st) \<le> fst (the st1) \<and> (full \<noteq> [] \<longrightarrow> fst (the st) + width \<le> fst (the st1))"
proof -
  obtain t v where x: "x = (t, v)"
    by (cases x)
  have mod: "t - t mod width \<le> t" "t < t - t mod width + width" "l + 2 * width \<le> t \<Longrightarrow> l + width \<le> t - t mod width" for l
    using mod_less_divisor [OF assms(1), of t] mod_less_eq_dividend [of t width] by linarith+
  show "case st1 of None \<Rightarrow> False | Some w \<Rightarrow> in_window width w" "full \<noteq> [] \<Longrightarrow> full = [the st] \<and> st \<noteq> None"
    "concat (map snd full) @ content st1 = content st @ (if rc = OPAL_SUCCESS then [x] else [])"
    "st \<noteq> None \<Longrightarrow> fst (the st) \<le> fst (the st1) \<and> (full \<noteq> [] \<longrightarrow> fst (the st) + width \<le> fst (the st1))"
    using assms mod by (auto simp: time_step_def in_window_def content_def x split: option.splits if_splits)
qed

lemma time_run_ok:
  assumes "0 < width" "case st of None \<Rightarrow> True | Some w \<Rightarrow> in_window width w" "time_run width st xs = (rcs, full, st')"
  shows "(\<forall>w\<in>set full. in_window width w) \<and> sorted_wrt (\<lambda>w w'. fst w + width \<le> fst w') full \<and>
    concat (map snd full) @ content st' = content st @ map fst (filter (\<lambda>(x, rc). rc = OPAL_SUCCESS) (zip xs rcs)) \<and>
    (st \<noteq> None \<longrightarrow> (\<forall>w\<in>set full. fst (the st) \<le> fst w))"
  using assms(2,3)
proof (induction xs arbitrary: st rcs full)
  case (Cons x xs)
  obtain rc full1 st1 where 1: "time_step width st x = (rc, full1, st1)"
    by (cases "time_step width st x")
  obtain rcs2 full2 where 2: "time_run width st1 xs = (rcs2, full2, st')"
    and eq: "rcs = rc # rcs2" "full = full1 @ full2"
    using Cons.prems(2) 1 by (auto split: prod.splits)
  note s = time_step_ok [OF assms(1) Cons.prems(1) 1]
  have st1: "case st1 of None \<Rightarrow> True | Some w \<Rightarrow> in_window width w" "st1 \<noteq> None"
    using s(1) by (auto split: option.splits)
  have IH: "\<forall>w\<in>set full2. in_window width w" "sorted_wrt (\<lambda>w w'. fst w + width \<le> fst w') full2"
    "concat (map snd full2) @ content st' = content st1 @ map fst (filter (\<lambda>(x, rc). rc = OPAL_SUCCESS) (zip xs rcs2))"
    "\<forall>w\<in>set full2. fst (the st1) \<le> fst w"
    using Cons.IH [OF st1(1) 2] st1(2) by blast+
  have first: "full1 = [] \<or> full1 = [the st] \<and> st \<noteq> None \<and> in_window width (the st) \<and> fst (the st) + width \<le> fst (the st1)"
    using s(2,4) Cons.prems(1) by (cases "full1 = []") auto
  have "\<forall>w\<in>set full. in_window width w"
    using IH(1) first eq(2) by auto
  moreover have "\<forall>w\<in>set full2. fst (the st) + width \<le> fst w" if "full1 \<noteq> []"
    using first IH(4) that by (meson order.trans)
  then have "sorted_wrt (\<lambda>w w'. fst w + width \<le> fst w') full"
    using IH(2) first eq(2) by auto
  moreover have "concat (map snd full) @ content st' =
      (concat (map snd full1) @ content st1) @ map fst (filter (\<lambda>(x, rc). rc = OPAL_SUCCESS) (zip xs rcs2))"
    using IH(3) eq(2) by simp
  then have "concat (map snd full) @ content st' = content st @ map fst (filter (\<lambda>(x, rc). rc = OPAL_SUCCESS) (zip (x # xs) rcs))"
    unfolding s(3) eq(1) by simp
  moreover have "\<forall>w\<in>set full. fst (the st) \<le> fst w" if "st \<noteq> None"
    using IH(4) first s(4) [OF that] eq(2) by (auto intro: order.trans)
  ultimately show ?case
    by blast
qed simp

section \<open>Refinement\<close>

definition time_config :: "attribute list \<Rightarrow> win_statistics \<Rightarrow> string \<Rightarrow> nat \<Rightarrow> bool" where
  "time_config attrs w0 c width \<longleftrightarrow>
     fill_attributes win_statistics_con attrs = Ret (OPAL_SUCCESS, w0) \<and> compute_type w0 = Some c \<and>
     (case win_type w0 of None \<Rightarrow> False | Some t \<Rightarrow> is_kind t ''time'') \<and> unat (win_size w0) = width \<and>
     db_check_loop attrs = Ret False"

lemma time_configD:
  assumes "time_config attrs w0 c width"
  obtains t where "win_type w0 = Some t" "is_kind t ''time''" "open_win w0 c [] = w0" "win_left w0 = 0"
    "win_right w0 = 0" "0 < width" "compute_type w0 = Some c"
    "fill_attributes win_statistics_con attrs = Ret (OPAL_SUCCESS, w0)"
  using assms config_filled [of attrs w0 c] by (auto simp: time_config_def split: option.splits)

text \<open>The state of the plug-in for an abstract window.\<close>

definition time_state :: "win_statistics \<Rightarrow> string \<Rightarrow> time_win option \<Rightarrow> win_statistics" where
  "time_state w0 c st =
     (case st of
        None \<Rightarrow> w0
      | Some (l, S) \<Rightarrow>
          open_win (w0\<lparr>win_left := of_nat l, win_right := of_nat l + win_size w0\<rparr>) c (map snd S))"

text \<open>A sample with a time.\<close>

definition sample_time :: "orcm_workflow_caddy \<Rightarrow> nat option" where
  "sample_time caddy =
     (case an_non_compute (cd_value caddy) of
        None \<Rightarrow> None
      | Some nc \<Rightarrow>
          (case orcm_analytics_base_get_sample_time nc of Ret (rc, Some t) \<Rightarrow> Some (unat t) | _ \<Rightarrow> None))"

definition timed_ok :: "attribute list \<Rightarrow> nat \<Rightarrow> orcm_workflow_caddy \<Rightarrow> bool" where
  "timed_ok attrs width caddy \<longleftrightarrow>
     sample_ok attrs caddy \<and> (case sample_time caddy of None \<Rightarrow> False | Some t \<Rightarrow> t + 2 * width < 2 ^ 64)"

definition timed :: "orcm_workflow_caddy \<Rightarrow> nat \<times> rat list" where
  "timed caddy = (the (sample_time caddy), sample_numbers caddy)"

text \<open>The window is within the range of the times and its samples have numbers.\<close>

definition time_inv :: "nat \<Rightarrow> time_win option \<Rightarrow> bool" where
  "time_inv width st \<longleftrightarrow>
     (case st of None \<Rightarrow> True | Some (l, S) \<Rightarrow> S \<noteq> [] \<and> l + 2 * width < 2 ^ 64 \<and> (\<forall>x\<in>set S. snd x \<noteq> []))"

lemma open_limits: "open_win (w\<lparr>win_left := a, win_right := b\<rparr>) c ps = (open_win w c ps)\<lparr>win_left := a, win_right := b\<rparr>"
  by (simp add: open_win_def)

lemma open_fields [simp]:
  "win_left (open_win w c ps) = win_left w" "win_right (open_win w c ps) = win_right w"
  "win_size (open_win w c ps) = win_size w" "win_type (open_win w c ps) = win_type w"
  "compute_type (open_win w c ps) = Some c"
  by (simp_all add: open_win_def)

lemma time_words:
  assumes "unat z = width" "0 < width" "l + 2 * width < 2 ^ 64" "t < 2 ^ 64"
  defines "L \<equiv> of_nat l :: 64 word" and "T \<equiv> of_nat t :: 64 word"
  shows "T < L \<longleftrightarrow> t < l" "L \<noteq> L + z" "L + z \<le> T \<longleftrightarrow> l + width \<le> t" "L + z + z \<le> T \<longleftrightarrow> l + 2 * width \<le> t"
    "L + z = of_nat (l + width)" "T - T mod z = of_nat (t - t mod width)"
proof -
  have z: "z = of_nat width"
    using assms(1) by auto
  have u: "unat (of_nat k :: 64 word) = k" if "k < 2 ^ 64" for k
    using that by (simp add: unat_of_nat take_bit_nat_eq_self)
  show sum: "L + z = of_nat (l + width)"
    by (simp add: L_def z)
  have sum2: "L + z + z = of_nat (l + 2 * width)"
    by (simp add: L_def z algebra_simps)
  have "unat L = l" "unat T = t" "unat (L + z) = l + width" "unat (L + z + z) = l + 2 * width"
    unfolding sum2 unfolding sum unfolding L_def T_def using assms(3,4) by (intro u; simp)+
  then show "T < L \<longleftrightarrow> t < l" "L + z \<le> T \<longleftrightarrow> l + width \<le> t" "L + z + z \<le> T \<longleftrightarrow> l + 2 * width \<le> t"
    by (simp_all add: word_less_nat_alt word_le_nat_alt)
  show "L \<noteq> L + z"
    using assms(1,2) by auto
  have "unat (T mod z) = t mod width"
    using assms(1,4) by (simp add: T_def unat_mod_distrib u)
  then have "T mod z = of_nat (t mod width)"
    by (metis of_nat_unat ucast_id)
  then show "T - T mod z = of_nat (t - t mod width)"
    by (simp add: T_def of_nat_diff)
qed

text \<open>What is done with the numbers of a sample with a time.\<close>

definition time_turn ::
  "int \<times> int \<Rightarrow> win_statistics \<Rightarrow> orcm_workflow_caddy \<Rightarrow> 64 word \<Rightarrow> orcm_value list \<Rightarrow>
     (status \<times> win_statistics \<times> wf_output list) outcome" where
  "time_turn now w caddy T data =
     (if T < win_left w then Ret (ORCM_ERR_RECV_MORE_THAN_POSTED, w, [])
      else if win_left w = win_right w then
        obind (accumulate_data (w\<lparr>win_left := T, win_right := T + win_size w\<rparr>) data) (\<lambda>(rc', w'). Ret (rc', w', []))
      else if win_right w \<le> T then
        obind (handle_full_window now w caddy) (\<lambda>(rc', outs).
          if rc' \<noteq> OPAL_SUCCESS then Ret (rc', w, outs)
          else
            obind (if win_right w + win_size w \<le> T
                   then reset_window w (T - T mod win_size w) (win_size w)
                   else reset_window w (win_right w) (win_size w)) (\<lambda>w1.
              obind (accumulate_data w1 data) (\<lambda>(rc'', w'). Ret (rc'', w', outs))))
      else obind (accumulate_data w data) (\<lambda>(rc', w'). Ret (rc', w', [])))"

lemma timed_run:
  assumes "time_config attrs w0 c width" "timed_ok attrs width caddy"
  obtains data t where "an_compute (cd_value caddy) = Some data" "data \<noteq> []" "timed caddy = (t, numbers data)"
    "t + 2 * width < 2 ^ 64"
    "\<forall>now w. win_type w = win_type w0 \<longrightarrow> do_compute now w caddy = time_turn now w caddy (of_nat t) data"
proof -
  obtain ty where ty: "win_type w0 = Some ty" "is_kind ty ''time''"
    using assms(1) by (auto elim: time_configD)
  obtain data where data: "an_compute (cd_value caddy) = Some data" "data \<noteq> []"
    using assms(2) by (auto simp: timed_ok_def sample_ok_def split: option.splits)
  obtain nc rc T where nc: "an_non_compute (cd_value caddy) = Some nc" "orcm_analytics_base_get_sample_time nc = Ret (rc, Some T)"
      "unat T + 2 * width < 2 ^ 64"
    using assms(2) by (auto simp: timed_ok_def sample_time_def split: option.splits outcome.splits prod.splits)
  have "timed caddy = (unat T, numbers data)"
    using data(1) nc(1,2) by (simp add: timed_def sample_time_def sample_numbers_def)
  moreover have "\<exists>k. an_key (cd_value caddy) = Some k \<and> k \<noteq> []"
    using assms(2) by (auto simp: timed_ok_def sample_ok_def split: option.splits)
  ultimately show thesis
    using that [of data "unat T"] ty data nc
    by (auto simp: do_compute_def do_compute_time_window_def time_turn_def [abs_def])
qed

lemma time_step_sim:
  assumes conf: "time_config attrs w0 c width" and ok: "timed_ok attrs width caddy" and inv: "time_inv width st"
    and room: "length (concat (map snd (content st))) < 2 ^ 64" "length (content st) < 2 ^ 64"
    and step: "time_step width st (timed caddy) = (rc, full, st1)"
  shows "\<exists>outs. do_compute now (time_state w0 c st) caddy = Ret (rc, time_state w0 c st1, outs) \<and>
           results outs = map (\<lambda>w. batch c (concat (map snd (snd w)))) full \<and> time_inv width st1"
proof -
  obtain ty where d: "open_win w0 c [] = w0" "win_left w0 = 0" "win_right w0 = 0" "0 < width"
    using conf by (rule time_configD)
  have z: "unat (win_size w0) = width" and db: "db_check_loop attrs = Ret False" and sok: "sample_ok attrs caddy"
    using conf ok by (simp_all add: time_config_def timed_ok_def)
  obtain data t where "an_compute (cd_value caddy) = Some data" and data: "data \<noteq> []" "timed caddy = (t, numbers data)" "t + 2 * width < 2 ^ 64"
    and run: "\<forall>now w. win_type w = win_type w0 \<longrightarrow> do_compute now w caddy = time_turn now w caddy (of_nat t) data"
    using conf ok by (rule timed_run)
  show ?thesis
  proof (cases st)
    case None
    have w0: "w0\<lparr>win_left := a, win_right := b\<rparr> = open_win (w0\<lparr>win_left := a, win_right := b\<rparr>) c []" for a b
      by (simp add: open_limits d(1))
    have "time_turn now w0 caddy (of_nat t) data = Ret (OPAL_SUCCESS, time_state w0 c (Some (t, [(t, numbers data)])), [])"
      by (simp add: time_turn_def d(2,3) time_state_def) (subst w0, simp)
    moreover have "do_compute now w0 caddy = time_turn now w0 caddy (of_nat t) data"
      using run by blast
    ultimately show ?thesis
      using None step data by (auto simp: time_step_def time_state_def time_inv_def results_def)
  next
    case (Some w)
    obtain l S where w: "w = (l, S)"
      by (cases w)
    let ?W = "time_state w0 c (Some (l, S))"
    have S: "S \<noteq> []" "l + 2 * width < 2 ^ 64" "\<forall>x\<in>set S. snd x \<noteq> []"
      using inv Some w by (auto simp: time_inv_def)
    have W: "?W = open_win (w0\<lparr>win_left := of_nat l, win_right := of_nat l + win_size w0\<rparr>) c (map snd S)"
      by (simp add: time_state_def)
    note words = time_words [OF z d(4) S(2), of t]
    have turn: "do_compute now ?W caddy = time_turn now ?W caddy (of_nat t) data"
      by (rule run [rule_format]) (simp add: W)
    consider "t < l" | "l \<le> t" "t < l + width" | "l + width \<le> t"
      by linarith
    then show ?thesis
    proof cases
      case 1
      then have "time_turn now ?W caddy (of_nat t) data = Ret (ORCM_ERR_RECV_MORE_THAN_POSTED, ?W, [])"
        using words(1) data(3) by (simp add: time_turn_def W)
      then show ?thesis
        using 1 Some w step data turn inv by (auto simp: time_step_def results_def)
    next
      case 2
      then have "time_turn now ?W caddy (of_nat t) data = Ret (OPAL_SUCCESS, time_state w0 c (Some (l, S @ [(t, numbers data)])), [])"
        using words(1-3) data(3) by (simp add: time_turn_def W time_state_def)
      then show ?thesis
        using 2 Some w step data turn S by (auto simp: time_step_def results_def time_inv_def)
    next
      case 3
      let ?l = "if l + 2 * width \<le> t then t - t mod width else l + width"
      have content: "content st = S"
        using Some w by (simp add: content_def)
      have "concat (map snd S) \<noteq> []"
        using S(1,3) by (cases S) auto
      then obtain outs where outs: "handle_full_window now ?W caddy = Ret (OPAL_SUCCESS, outs)"
          "results outs = [batch c (concat (map snd S))]"
        using handle_full_open [OF sok db, of "map snd S" now "w0\<lparr>win_left := of_nat l, win_right := of_nat l + win_size w0\<rparr>" c]
          S(1) room content by (auto simp: W)
      have reset: "(if win_right ?W + win_size ?W \<le> of_nat t then reset_window ?W (of_nat t - of_nat t mod win_size ?W) (win_size ?W)
             else reset_window ?W (win_right ?W) (win_size ?W)) = Ret (time_state w0 c (Some (?l, [])))"
        using words(4-6) data(3) by (auto simp: W reset_open open_win_def time_state_def)
      have guards: "\<not> of_nat t < win_left ?W" "win_left ?W \<noteq> win_right ?W" "win_right ?W \<le> of_nat t"
        using 3 words(1-3) data(3) by (simp_all add: W)
      have acc: "accumulate_data (time_state w0 c (Some (?l, []))) data =
          Ret (OPAL_SUCCESS, time_state w0 c (Some (?l, [(t, numbers data)])))"
        by (simp add: time_state_def)
      have "time_turn now ?W caddy (of_nat t) data = Ret (OPAL_SUCCESS, time_state w0 c (Some (?l, [(t, numbers data)])), outs)"
        using guards by (simp only: time_turn_def outs(1) obind.simps prod.case simp_thms if_False if_True reset acc)
      then show ?thesis
        using 3 Some w step data turn outs by (auto simp: time_step_def time_inv_def)
    qed
  qed
qed

lemma analyze_time:
  assumes "time_config attrs w0 c width" "timed_ok attrs width caddy" "time_inv width st" "length (content st) < 2 ^ 64"
  shows "window_analyze now (time_state w0 c st) caddy = do_compute now (time_state w0 c st) caddy"
    "window_analyze now win_statistics_con caddy = do_compute now w0 caddy"
proof -
  have fill: "fill_attributes win_statistics_con attrs = Ret (OPAL_SUCCESS, w0)" and open0: "open_win w0 c [] = w0"
    and c: "compute_type w0 = Some c"
    using assms(1) by (auto elim: time_configD)
  have attrs: "ws_attributes (cd_wf_step caddy) = attrs"
    using assms(2) by (simp add: timed_ok_def sample_ok_def)
  have "num_sample_recv win_statistics_con = 0"
    by (simp add: win_statistics_con_def)
  then show "window_analyze now win_statistics_con caddy = do_compute now w0 caddy"
    using attrs fill by (simp add: window_analyze_def fill_first_sample_def)
  show "window_analyze now (time_state w0 c st) caddy = do_compute now (time_state w0 c st) caddy"
  proof (cases st)
    case None
    have "fill_attributes w0 attrs = Ret (OPAL_SUCCESS, w0)"
      by (rule fill_again [OF fill]) simp_all
    moreover have "num_sample_recv w0 = 0"
      by (subst open0 [symmetric]) (simp add: open_win_def)
    ultimately show ?thesis
      using attrs None by (simp add: window_analyze_def fill_first_sample_def time_state_def)
  next
    case (Some w)
    then have "num_sample_recv (time_state w0 c st) \<noteq> 0"
      using assms(3,4) by (auto simp: time_state_def time_inv_def content_def open_win_def word_of_nat_eq_0_iff
          split: prod.splits dest: dvd_imp_le)
    then show ?thesis
      by (simp add: window_analyze_def)
  qed
qed

lemma time_step_length:
  assumes "time_step width st x = (rc, full, st1)"
  shows "length (content st1) \<le> length (content st) + 1"
    "length (concat (map snd (content st1))) \<le> length (concat (map snd (content st))) + length (snd x)"
  using assms by (auto simp: time_step_def content_def split: option.splits if_splits prod.splits)

lemma time_run_sim:
  assumes conf: "time_config attrs w0 c width" and "\<forall>x\<in>set xs. timed_ok attrs width (snd x)" "time_inv width st"
    "length (concat (map snd (content st) @ map (sample_numbers \<circ> snd) xs)) < 2 ^ 64" "length (content st) + length xs < 2 ^ 64"
    "time_run width st (map (timed \<circ> snd) xs) = (rcs, full, st')"
  shows "\<exists>w' outs. window_run (time_state w0 c st) xs = Ret (rcs, w', outs) \<and>
           results outs = map (\<lambda>w. batch c (concat (map snd (snd w)))) full"
  using assms(2-)
proof (induction xs arbitrary: st rcs full)
  case (Cons x xs)
  obtain now caddy where x: "x = (now, caddy)"
    by (cases x)
  have ok: "timed_ok attrs width caddy"
    using Cons.prems(1) x by simp
  obtain rc full1 st1 where 1: "time_step width st (timed caddy) = (rc, full1, st1)"
    by (cases "time_step width st (timed caddy)")
  obtain rcs2 full2 where 2: "time_run width st1 (map (timed \<circ> snd) xs) = (rcs2, full2, st')"
    and eq: "rcs = rc # rcs2" "full = full1 @ full2"
    using Cons.prems(5) 1 x by (auto simp: comp_def split: prod.splits)
  have len: "length (concat (map snd (content st))) < 2 ^ 64" "length (content st) < 2 ^ 64"
    using Cons.prems(3,4) by simp_all
  obtain outs where outs: "window_analyze now (time_state w0 c st) caddy = Ret (rc, time_state w0 c st1, outs)"
      "results outs = map (\<lambda>w. batch c (concat (map snd (snd w)))) full1" "time_inv width st1"
    using time_step_sim [OF conf ok Cons.prems(2) len 1, of now] analyze_time(1) [OF conf ok Cons.prems(2) len(2), of now] by auto
  have "length (concat (map snd (content st1) @ map (sample_numbers \<circ> snd) xs)) < 2 ^ 64" "length (content st1) + length xs < 2 ^ 64"
    using time_step_length [OF 1] Cons.prems(3,4) x by (auto simp: timed_def comp_def)
  then obtain w' outs' where "window_run (time_state w0 c st1) xs = Ret (rcs2, w', outs')"
      "results outs' = map (\<lambda>w. batch c (concat (map snd (snd w)))) full2"
    using Cons.IH [OF _ outs(3) _ _ 2] Cons.prems(1) by (auto simp: comp_def)
  then show ?case
    using outs x eq by (auto simp: results_def)
qed (simp add: results_def)

section \<open>Examples\<close>

definition example_attrs :: "string \<Rightarrow> string \<Rightarrow> string \<Rightarrow> attribute list" where
  "example_attrs n c t = [(Some ''win_size'', Some n), (Some ''compute'', Some c), (Some ''type'', Some t)]"

definition example_value :: "string \<Rightarrow> val_data \<Rightarrow> orcm_value" where
  "example_value key d = \<lparr>ov_name = Some key, ov_val = d, ov_units = None\<rparr>"

definition example_caddy :: "attribute list \<Rightarrow> int \<Rightarrow> rat list \<Rightarrow> orcm_workflow_caddy" where
  "example_caddy attrs sec xs =
     \<lparr>cd_wf = \<lparr>wf_name = Some ''flow'', wf_hostname_regex = None, wf_workflow_id = 1\<rparr>,
      cd_wf_step = \<lparr>ws_attributes = attrs, ws_analytic = Some ''window'', ws_step_id = 1\<rparr>,
      cd_hash_key = 0,
      cd_value = \<lparr>an_key = Some [example_value ''hostname'' (V_string (Some ''n1''))],
        an_non_compute = Some [example_value ''ctime'' (V_timeval sec 0)],
        an_compute = Some (map (\<lambda>x. example_value ''temp'' (V_double x)) xs)\<rparr>\<rparr>"

definition example_state :: "64 word \<Rightarrow> string \<Rightarrow> string \<Rightarrow> 64 word \<Rightarrow> win_statistics" where
  "example_state n c t r =
     \<lparr>win_size = n, win_left = 0, win_right = r, num_sample_recv = 0, num_data_point = 0,
      sum_min_max = (if is_kind c ''min'' then DBL_MAX else if is_kind c ''max'' then DBL_MIN else 0), sum_square = 0,
      compute_type = Some c, win_type = Some t\<rparr>"

lemma example_fill:
  assumes "orcm_util_get_time_in_sec (Some n) = Ret k" "k \<noteq> 0" "is_kind t ''time'' \<or> is_kind t ''counter''"
    "is_kind c ''average'' \<or> is_kind c ''min'' \<or> is_kind c ''max'' \<or> is_kind c ''sd''"
  shows "fill_attributes win_statistics_con (example_attrs n c t) =
    Ret (OPAL_SUCCESS, example_state k c t (if is_kind t ''time'' then 0 else k))"
  using assms by (auto simp: example_attrs_def example_state_def fill_attributes_def fill_win_statistics_def win_statistics_con_def
      reset_window_def)

lemma example_sample [simp]:
  "sample_ok attrs (example_caddy attrs sec xs) \<longleftrightarrow> xs \<noteq> []" "sample_numbers (example_caddy attrs sec xs) = xs"
  by (auto simp: sample_ok_def sample_numbers_def example_caddy_def example_value_def orcm_util_get_number_orcm_value_def comp_def)

lemma example_seconds:
  "orcm_util_get_time_in_sec (Some ''2'') = Ret 2" "orcm_util_get_time_in_sec (Some ''1'') = Ret 1"
  "orcm_util_get_time_in_sec (Some ''10'') = Ret 10"
  by (simp_all add: orcm_util_get_time_in_sec_def check_numeric_def strtol_digits0_def get_seconds_multiplier_def dec_val_def
      digit_val_def isdigit_def LONG_MAX_def)

lemma example_time:
  assumes "0 \<le> sec" "sec < 2 ^ 64"
  shows "sample_time (example_caddy attrs sec xs) = Some (nat sec)"
proof -
  have "double_round 0 = 0"
    by (simp add: double_round_def fp_round_def)
  moreover have "contains ''ctime'' ''time''"
    by (simp add: contains_def upt_rec)
  moreover have "unat (of_int sec :: 64 word) = nat sec"
    using assms by (simp add: unsigned_of_int take_bit_int_eq_self)
  ultimately show ?thesis
    by (simp add: sample_time_def example_caddy_def example_value_def orcm_analytics_base_timeval_to_uint64_def)
qed

lemma DBL_MIN_pos: "0 < DBL_MIN"
  by (simp add: DBL_MIN_def)

section \<open>Properties\<close>

text \<open>
  C19: Windows of \<open>n\<close> samples: whatever the samples, each is accepted, every \<open>n\<close> samples give one result, and the
  result of a window is that of the function over all its numbers (average, minimum, maximum or standard deviation).
\<close>

theorem window_counter_results:
  assumes "counter_config attrs w0 c n" "\<forall>x\<in>set xs. sample_ok attrs (snd x)"
    "length (concat (map (sample_numbers \<circ> snd) xs)) < 2 ^ 64"
  shows "\<exists>w outs. window_run win_statistics_con xs = Ret (replicate (length xs) OPAL_SUCCESS, w, outs) \<and>
           results outs = map (\<lambda>k. batch c (concat (take n (drop (k * n) (map (sample_numbers \<circ> snd) xs))))) [0..<length xs div n]"
  using assms by (rule counter_results)

text \<open>Windows of two samples: the minimum of the first two of three.\<close>

theorem window_counter_results_witness:
  "\<exists>w outs. window_run win_statistics_con
       [((0, 0), example_caddy (example_attrs ''2'' ''min'' ''counter'') 1 [5]),
        ((0, 0), example_caddy (example_attrs ''2'' ''min'' ''counter'') 2 [3, 4]),
        ((0, 0), example_caddy (example_attrs ''2'' ''min'' ''counter'') 3 [7])] =
     Ret ([OPAL_SUCCESS, OPAL_SUCCESS, OPAL_SUCCESS], w, outs) \<and> results outs = [3]"
proof -
  let ?attrs = "example_attrs ''2'' ''min'' ''counter''"
  have conf: "counter_config ?attrs (example_state 2 ''min'' ''counter'' 2) ''min'' 2"
    by (simp add: counter_config_def example_fill [OF example_seconds(1)] example_state_def is_kind_def strneq_def DBL_MAX_def)
      (simp add: example_attrs_def)
  have "batch ''min'' [5, 3, 4] = 3"
    by (simp add: batch_def is_kind_def strneq_def DBL_MAX_def)
  then show ?thesis
    using window_counter_results [OF conf, of "[((0, 0), example_caddy ?attrs 1 [5]), ((0, 0), example_caddy ?attrs 2 [3, 4]),
        ((0, 0), example_caddy ?attrs 3 [7])]"]
    by (simp add: upt_rec take_Cons')
qed

text \<open>
  C18: Windows of a span of time: the plug-in closes the windows of the abstract run and gives the result of each; a
  sample that comes before the window is refused, every other one is in exactly one window, in the order of arrival;
  all samples of a window lie within its limits, and the windows follow one another without overlap.
\<close>

theorem window_time_results:
  assumes "time_config attrs w0 c width" "\<forall>x\<in>set xs. timed_ok attrs width (snd x)"
    "length (concat (map (sample_numbers \<circ> snd) xs)) < 2 ^ 64" "length xs < 2 ^ 64"
  shows "\<exists>rcs full last w outs. time_run width None (map (timed \<circ> snd) xs) = (rcs, full, last) \<and>
           window_run win_statistics_con xs = Ret (rcs, w, outs) \<and>
           results outs = map (\<lambda>w. batch c (concat (map snd (snd w)))) full \<and>
           (\<forall>w\<in>set full. in_window width w) \<and> sorted_wrt (\<lambda>w w'. fst w + width \<le> fst w') full \<and>
           concat (map snd full) @ content last =
             map fst (filter (\<lambda>(x, rc). rc = OPAL_SUCCESS) (zip (map (timed \<circ> snd) xs) rcs))"
proof -
  obtain rcs full last where r: "time_run width None (map (timed \<circ> snd) xs) = (rcs, full, last)"
    by (cases "time_run width None (map (timed \<circ> snd) xs)")
  have w0: "time_state w0 c None = w0" and width: "0 < width"
    using assms(1) by (auto simp: time_state_def elim: time_configD)
  have inv: "time_inv width None" "content None = []"
    by (simp_all add: time_inv_def content_def)
  obtain w outs where run: "window_run w0 xs = Ret (rcs, w, outs)"
      "results outs = map (\<lambda>w. batch c (concat (map snd (snd w)))) full"
    using time_run_sim [OF assms(1,2) inv(1) _ _ r] assms(3,4) w0 inv(2) by auto
  have len: "length (content None) < 2 ^ 64"
    by (simp add: inv(2))
  have "window_run win_statistics_con xs = window_run w0 xs" if "xs \<noteq> []"
    using that assms(2) analyze_time [OF assms(1) _ inv(1) len] w0 by (cases xs) auto
  then have "\<exists>w. window_run win_statistics_con xs = Ret (rcs, w, outs)"
    using run(1) by (cases "xs = []") auto
  then show ?thesis
    using r run(2) time_run_ok [OF width _ r] inv(2) by (intro exI [of _ rcs] exI [of _ full] exI [of _ last]) auto
qed


text \<open>Windows of ten seconds: the maximum of the samples at 3 and 7; the sample at 5 comes too late.\<close>

theorem window_time_results_witness:
  "\<exists>w outs. window_run win_statistics_con
       [((0, 0), example_caddy (example_attrs ''10'' ''max'' ''time'') 3 [5]),
        ((0, 0), example_caddy (example_attrs ''10'' ''max'' ''time'') 7 [9]),
        ((0, 0), example_caddy (example_attrs ''10'' ''max'' ''time'') 14 [1]),
        ((0, 0), example_caddy (example_attrs ''10'' ''max'' ''time'') 5 [8])] =
     Ret ([OPAL_SUCCESS, OPAL_SUCCESS, OPAL_SUCCESS, ORCM_ERR_RECV_MORE_THAN_POSTED], w, outs) \<and> results outs = [9]"
proof -
  let ?attrs = "example_attrs ''10'' ''max'' ''time''"
  have conf: "time_config ?attrs (example_state 10 ''max'' ''time'' 0) ''max'' 10"
    by (simp add: time_config_def example_fill [OF example_seconds(3)] example_state_def is_kind_def strneq_def DBL_MIN_def)
      (simp add: example_attrs_def)
  have "batch ''max'' [5, 9] = 9"
    by (simp add: batch_def is_kind_def strneq_def DBL_MIN_def)
  then show ?thesis
    using window_time_results [OF conf, of "[((0, 0), example_caddy ?attrs 3 [5]), ((0, 0), example_caddy ?attrs 7 [9]),
        ((0, 0), example_caddy ?attrs 14 [1]), ((0, 0), example_caddy ?attrs 5 [8])]"]
    by (auto simp: timed_ok_def timed_def example_time time_step_def)
qed

text \<open>
  C38: The maximum of a window starts at the smallest positive double: over numbers that are all negative every window
  gives that positive number, which none of the samples has.
\<close>

theorem window_max_negative:
  assumes "counter_config attrs w0 c n" "is_kind c ''max''" "\<forall>x\<in>set xs. sample_ok attrs (snd x)"
    "length (concat (map (sample_numbers \<circ> snd) xs)) < 2 ^ 64" "\<forall>x\<in>set xs. \<forall>q\<in>set (sample_numbers (snd x)). q < 0"
  shows "\<exists>rcs w outs. window_run win_statistics_con xs = Ret (rcs, w, outs) \<and>
           results outs = replicate (length xs div n) DBL_MIN"
proof -
  have "batch c (concat (take n (drop k (map (sample_numbers \<circ> snd) xs)))) = DBL_MIN" for k
  proof -
    have "\<forall>q\<in>set (concat (take n (drop k (map (sample_numbers \<circ> snd) xs)))). q < 0"
      using assms(5) by (auto dest!: in_set_takeD in_set_dropD)
    then have "Max (insert DBL_MIN (set (concat (take n (drop k (map (sample_numbers \<circ> snd) xs)))))) = DBL_MIN"
      using DBL_MIN_pos by (intro Max_eqI) force+
    then show ?thesis
      using assms(2) kinds_exclusive [of c] by (auto simp: batch_def Let_def)
  qed
  then show ?thesis
    using counter_results [OF assms(1,3,4)] by (auto simp: map_replicate_const)
qed

theorem window_max_negative_witness:
  "\<exists>rcs w outs. window_run win_statistics_con
       [((0, 0), example_caddy (example_attrs ''1'' ''max'' ''counter'') 1 [- 5])] = Ret (rcs, w, outs) \<and> results outs = [DBL_MIN]"
proof -
  let ?attrs = "example_attrs ''1'' ''max'' ''counter''"
  have conf: "counter_config ?attrs (example_state 1 ''max'' ''counter'' 1) ''max'' 1"
    by (simp add: counter_config_def example_fill [OF example_seconds(2)] example_state_def is_kind_def strneq_def DBL_MIN_def)
      (simp add: example_attrs_def)
  show ?thesis
    using window_max_negative [OF conf, of "[((0, 0), example_caddy ?attrs 1 [- 5])]"] by (simp add: is_kind_def strneq_def)
qed

text \<open>
  The time of a sample is never rounded up: the microseconds are divided by ten million, so any valid time gives
  its seconds.
\<close>

theorem timeval_never_rounds_up:
  assumes "0 \<le> usec" "usec < 1000000"
  shows "orcm_analytics_base_timeval_to_uint64 sec usec = of_int sec"
proof -
  have q: "0 \<le> (of_int usec / 10000000 :: rat)" "(of_int usec / 10000000 :: rat) < 1 / 10"
    using assms by (auto simp: field_simps)
  then have "\<bar>double_round (of_int usec / 10000000) - of_int usec / 10000000\<bar> \<le> 1 / 2 ^ 53"
    by (intro double_round_small) auto
  moreover have "1 / 2 ^ 53 < (1 / 10 :: rat)"
    by simp
  ultimately have "double_round (of_int usec / 10000000) < 1 / 2"
    using q by (simp only: abs_le_iff) linarith
  then show ?thesis
    by (simp add: orcm_analytics_base_timeval_to_uint64_def Let_def)
qed

theorem timeval_never_rounds_up_witness: "orcm_analytics_base_timeval_to_uint64 7 999999 = 7"
  using timeval_never_rounds_up [of 999999 7] by simp

end
