(* ===== verification/Analytics_Aggregate.thy ===== *)
theory Analytics_Aggregate
  imports Analytics_Window_Spec
begin

text \<open>
  The aggregate plug-in, \<^verbatim>\<open>orcm/mca/analytics/aggregate/analytics_aggregate.c\<close>: the average, the minimum or the maximum of
  all numbers so far.
\<close>

section \<open>Definitions\<close>

record aggregate =
  ag_average :: rat
  ag_min :: rat
  ag_max :: rat
  ag_num_sample :: "32 word"

definition aggregate_con :: aggregate where
  "aggregate_con = \<lparr>ag_average = 0, ag_min = DBL_MAX, ag_max = - DBL_MAX, ag_num_sample = 0\<rparr>"

text \<open>The first item of an empty list is the head of the list, which is not an attribute.\<close>

definition get_operation_name :: "attribute list \<Rightarrow> string option outcome" where
  "get_operation_name attributes =
     (case attributes of
        [] \<Rightarrow> Undef
      | (None, _) # _ \<Rightarrow> Undef
      | (Some k, s) # _ \<Rightarrow> Ret (if k = ''compute'' then s else None))"

definition compute_average :: "aggregate \<Rightarrow> orcm_value list \<Rightarrow> (rat \<times> aggregate) outcome" where
  "compute_average ag compute =
     (let sum = foldl (\<lambda>s v. dadd s (orcm_util_get_number_orcm_value v)) 0 compute;
          size = length compute;
          total = ucast (ag_num_sample ag) + of_nat size :: 64 word;
          average = ddiv (dadd (dmul (ag_average ag) (of_int (uint (ag_num_sample ag)))) sum) (double_of_uint64 total)
      in if total = 0 then Undef
         else Ret (average, ag\<lparr>ag_average := average, ag_num_sample := ag_num_sample ag + of_nat size\<rparr>))"

definition compute_min :: "aggregate \<Rightarrow> orcm_value list \<Rightarrow> rat \<times> aggregate" where
  "compute_min ag compute =
     foldl (\<lambda>(dval, ag) v. let val = orcm_util_get_number_orcm_value v in
        if val < ag_min ag then (val, ag\<lparr>ag_min := val\<rparr>) else (dval, ag)) (ag_min ag, ag) compute"

definition compute_max :: "aggregate \<Rightarrow> orcm_value list \<Rightarrow> rat \<times> aggregate" where
  "compute_max ag compute =
     foldl (\<lambda>(dval, ag) v. let val = orcm_util_get_number_orcm_value v in
        if ag_max ag < val then (val, ag\<lparr>ag_max := val\<rparr>) else (dval, ag)) (ag_max ag, ag) compute"

text \<open>The operation is compared up to its own length.\<close>

definition compute_agg ::
  "string \<Rightarrow> string \<Rightarrow> orcm_value list \<Rightarrow> aggregate \<Rightarrow> (orcm_value option \<times> aggregate) outcome" where
  "compute_agg op data_key compute ag =
     (case compute of
        [] \<Rightarrow> Undef
      | temp # _ \<Rightarrow>
          let agg_value = (\<lambda>(dval, ag). (Some \<lparr>ov_name = Some data_key, ov_val = V_double dval, ov_units = ov_units temp\<rparr>, ag)) in
          if strneq op ''average'' (length op) then obind (compute_average ag compute) (\<lambda>r. Ret (agg_value r))
          else if strneq op ''min'' (length op) then Ret (agg_value (compute_min ag compute))
          else if strneq op ''max'' (length op) then Ret (agg_value (compute_max ag compute))
          else Ret (None, ag))"

definition aggregate_analyze ::
  "int \<times> int \<Rightarrow> aggregate \<Rightarrow> orcm_workflow_caddy \<Rightarrow> (status \<times> aggregate \<times> wf_output list) outcome" where
  "aggregate_analyze now ag caddy =
     (case an_compute (cd_value caddy) of
        None \<Rightarrow> Undef
      | Some [] \<Rightarrow> Ret (OPAL_SUCCESS, ag, [])
      | Some (c # cs) \<Rightarrow>
          obind (get_operation_name (ws_attributes (cd_wf_step caddy))) (\<lambda>op.
            case op of
              None \<Rightarrow> Ret (OPAL_ERR_BAD_PARAM, ag, [])
            | Some operation \<Rightarrow>
                let data_key = orcm_analytics_base_data_key (Some operation) (cd_wf caddy) (cd_wf_step caddy) in
                obind (compute_agg operation data_key (c # cs) ag) (\<lambda>(aggregate_value, ag1).
                  case aggregate_value of
                    None \<Rightarrow> Ret (OPAL_ERR_BAD_PARAM, ag1, [])
                  | Some v \<Rightarrow>
                      let to_next = orcm_util_load_analytics_time_compute now (an_key (cd_value caddy))
                                      (an_non_compute (cd_value caddy)) (Some [v])
                      in obind (orcm_analytics_base_db_check (cd_wf_step caddy)) (\<lambda>db.
                           obind (if db then orcm_analytics_base_log_to_database_event to_next else Ret (OPAL_SUCCESS, [])) (\<lambda>(rc, logged).
                             if rc \<noteq> OPAL_SUCCESS then Ret (rc, ag1, map Out_event logged)
                             else Ret (OPAL_SUCCESS, ag1, map Out_event logged @ [Out_next (cd_hash_key caddy) to_next]))))))"

primrec aggregate_run ::
  "aggregate \<Rightarrow> ((int \<times> int) \<times> orcm_workflow_caddy) list \<Rightarrow> (status list \<times> aggregate \<times> wf_output list) outcome" where
  "aggregate_run ag [] = Ret ([], ag, [])"
| "aggregate_run ag (x # xs) =
     obind (aggregate_analyze (fst x) ag (snd x)) (\<lambda>(rc, ag1, outs).
       obind (aggregate_run ag1 xs) (\<lambda>(rcs, ag2, outs'). Ret (rc # rcs, ag2, outs @ outs')))"

section \<open>Running results\<close>

lemma compute_min_eq: "compute_min ag vs = (Min (insert (ag_min ag) (set (numbers vs))), ag\<lparr>ag_min := Min (insert (ag_min ag) (set (numbers vs)))\<rparr>)"
proof -
  have "foldl (\<lambda>(dval, ag) v. let val = orcm_util_get_number_orcm_value v in
        if val < ag_min ag then (val, ag\<lparr>ag_min := val\<rparr>) else (dval, ag)) (ag_min ag, ag) vs =
    (let m = foldl (\<lambda>m x. if x < m then x else m) (ag_min ag) (numbers vs) in (m, ag\<lparr>ag_min := m\<rparr>))"
  proof (induction vs arbitrary: ag)
    case (Cons v vs)
    show ?case
      using Cons.IH [of ag] Cons.IH [of "ag\<lparr>ag_min := orcm_util_get_number_orcm_value v\<rparr>"] by (simp add: Let_def)
  qed simp
  then show ?thesis
    by (simp add: compute_min_def foldl_min Let_def)
qed

lemma compute_max_eq: "compute_max ag vs = (Max (insert (ag_max ag) (set (numbers vs))), ag\<lparr>ag_max := Max (insert (ag_max ag) (set (numbers vs)))\<rparr>)"
proof -
  have "foldl (\<lambda>(dval, ag) v. let val = orcm_util_get_number_orcm_value v in
        if ag_max ag < val then (val, ag\<lparr>ag_max := val\<rparr>) else (dval, ag)) (ag_max ag, ag) vs =
    (let m = foldl (\<lambda>m x. if m < x then x else m) (ag_max ag) (numbers vs) in (m, ag\<lparr>ag_max := m\<rparr>))"
  proof (induction vs arbitrary: ag)
    case (Cons v vs)
    show ?case
      using Cons.IH [of ag] Cons.IH [of "ag\<lparr>ag_max := orcm_util_get_number_orcm_value v\<rparr>"] by (simp add: Let_def)
  qed simp
  then show ?thesis
    by (simp add: compute_max_def foldl_max Let_def)
qed

text \<open>The extremes of what has been seen, for the two operations.\<close>

definition extreme :: "bool \<Rightarrow> rat \<Rightarrow> rat list \<Rightarrow> rat" where
  "extreme is_min a xs = (if is_min then Min (insert a (set xs)) else Max (insert a (set xs)))"

definition ag_extreme :: "bool \<Rightarrow> aggregate \<Rightarrow> rat" where
  "ag_extreme is_min ag = (if is_min then ag_min ag else ag_max ag)"

definition aggregate_config :: "attribute list \<Rightarrow> bool \<Rightarrow> bool" where
  "aggregate_config attrs is_min \<longleftrightarrow>
     db_check_loop attrs = Ret False \<and> get_operation_name attrs = Ret (Some (if is_min then ''min'' else ''max''))"

lemma extreme_append: "extreme m (extreme m a xs) ys = extreme m a (xs @ ys)"
proof -
  have "Min (insert (Min (insert a (set xs))) (set ys)) = Min (insert a (set xs) \<union> set ys)"
    "Max (insert (Max (insert a (set xs))) (set ys)) = Max (insert a (set xs) \<union> set ys)"
    by (cases "ys = []"; simp add: Min_Un Max_Un del: Un_insert_left)+
  then show ?thesis
    by (simp add: extreme_def)
qed

lemma aggregate_step:
  assumes "aggregate_config attrs m" "sample_ok attrs caddy"
  shows "\<exists>ag' outs. aggregate_analyze now ag caddy = Ret (OPAL_SUCCESS, ag', outs) \<and>
           ag_extreme m ag' = extreme m (ag_extreme m ag) (sample_numbers caddy) \<and> results outs = [ag_extreme m ag']"
proof -
  obtain c cs where c: "an_compute (cd_value caddy) = Some (c # cs)"
    using assms(2) by (auto simp: sample_ok_def neq_Nil_conv split: option.splits)
  have attrs: "ws_attributes (cd_wf_step caddy) = attrs" and db: "orcm_analytics_base_db_check (cd_wf_step caddy) = Ret False"
    using assms by (auto simp: sample_ok_def aggregate_config_def orcm_analytics_base_db_check_def)
  have op: "get_operation_name attrs = Ret (Some (if m then ''min'' else ''max''))"
    using assms(1) by (simp add: aggregate_config_def)
  show ?thesis
    by (cases m) (simp_all add: aggregate_analyze_def c attrs db op compute_agg_def strneq_def compute_min_eq compute_max_eq
        orcm_util_load_analytics_time_compute_def results_def ag_extreme_def extreme_def sample_numbers_def)
qed

lemma aggregate_run_ok:
  assumes "aggregate_config attrs m" "\<forall>x\<in>set xs. sample_ok attrs (snd x)"
  shows "\<exists>ag' outs. aggregate_run ag xs = Ret (replicate (length xs) OPAL_SUCCESS, ag', outs) \<and>
    results outs = map (\<lambda>k. extreme m (ag_extreme m ag) (concat (take (Suc k) (map (sample_numbers \<circ> snd) xs)))) [0..<length xs]"
  using assms(2)
proof (induction xs arbitrary: ag)
  case (Cons x xs)
  obtain ag1 outs where 1: "aggregate_analyze (fst x) ag (snd x) = Ret (OPAL_SUCCESS, ag1, outs)"
      "ag_extreme m ag1 = extreme m (ag_extreme m ag) (sample_numbers (snd x))" "results outs = [ag_extreme m ag1]"
    using aggregate_step [OF assms(1)] Cons.prems by (metis list.set_intros(1))
  obtain ag2 outs' where 2: "aggregate_run ag1 xs = Ret (replicate (length xs) OPAL_SUCCESS, ag2, outs')"
      "results outs' = map (\<lambda>k. extreme m (ag_extreme m ag1) (concat (take (Suc k) (map (sample_numbers \<circ> snd) xs)))) [0..<length xs]"
    using Cons.IH [of ag1] Cons.prems by (auto simp: comp_def)
  have "results (outs @ outs') = results outs @ results outs'"
    by (simp add: results_def)
  then show ?case
    using 1 2 by (simp add: extreme_append upt_conv_Cons map_Suc_upt [symmetric] comp_def del: upt_Suc)
qed (simp add: results_def)

section \<open>Properties\<close>

text \<open>
  C29: The minimum and the maximum run over all samples since the start: after every sample the result is the extreme
  number of all samples so far (or the bound of the doubles).
\<close>

theorem aggregate_running:
  assumes "aggregate_config attrs is_min" "\<forall>x\<in>set xs. sample_ok attrs (snd x)"
  shows "\<exists>ag outs. aggregate_run aggregate_con xs = Ret (replicate (length xs) OPAL_SUCCESS, ag, outs) \<and>
           results outs = map (\<lambda>k. extreme is_min (if is_min then DBL_MAX else - DBL_MAX)
             (concat (take (Suc k) (map (sample_numbers \<circ> snd) xs)))) [0..<length xs]"
  using aggregate_run_ok [OF assms, of aggregate_con] by (auto simp: ag_extreme_def aggregate_con_def)

theorem aggregate_running_witness:
  "\<exists>attrs ag outs. aggregate_run aggregate_con
      [((0, 0), example_caddy attrs 1 [- 5]), ((0, 0), example_caddy attrs 2 [- 7, 3]), ((0, 0), example_caddy attrs 3 [1])] =
     Ret ([OPAL_SUCCESS, OPAL_SUCCESS, OPAL_SUCCESS], ag, outs) \<and> results outs = [- 5, 3, 3]"
proof -
  let ?attrs = "[(Some ''compute'', Some ''max'')]"
  have conf: "aggregate_config ?attrs False"
    by (simp add: aggregate_config_def get_operation_name_def)
  have "extreme False (- DBL_MAX) [- 5] = - 5" "extreme False (- DBL_MAX) [- 5, - 7, 3] = 3"
    "extreme False (- DBL_MAX) [- 5, - 7, 3, 1] = 3"
    by (simp_all add: extreme_def DBL_MAX_def)
  then show ?thesis
    using aggregate_running [OF conf, of "[((0, 0), example_caddy ?attrs 1 [- 5]), ((0, 0), example_caddy ?attrs 2 [- 7, 3]),
        ((0, 0), example_caddy ?attrs 3 [1])]"]
    by (intro exI [of _ ?attrs]) (simp add: upt_rec del: aggregate_run.simps)
qed

end
