(* ===== verification/Logical_Group.thy ===== *)
theory Logical_Group
  imports Hash_Table_Map Regex
begin

text \<open>
  Logical groups of nodes, \<^verbatim>\<open>orcm/util/logical_group.c\<close>: a hash table from tags to lists of members,
  which may be tags of other groups.  The table holds addresses of lists, and the lists are in an
  explicit heap, since the code changes lists in place and frees lists that the table still holds.
  A released address is not in the heap, and using it is undefined behaviour.

  The modelled parts are adding, removing, listing, reading the parsed configuration file, splitting
  a list of members into lines, producing the input for the writer of the file, and expanding
  expressions with nested groups.  Allocation succeeds; the table that is passed is not NULL; \<open>debug\<close> is
  \<^verbatim>\<open>OPAL_ENABLE_DEBUG\<close>, and \<open>errno\<close> whether \<^verbatim>\<open>errno\<close> is \<^verbatim>\<open>ERANGE\<close> on entry.  Opening, locking and
  writing the file is left to the XML parser, which is not modelled.
\<close>

section \<open>State\<close>

record lg_state =
  lg_groups :: "nat opal_hash_table_t"
  lg_heap :: "nat \<rightharpoonup> string list"
  lg_next :: nat
  lg_current_tag :: "string option"

definition HASH_SIZE :: nat where
  "HASH_SIZE = 1000"

definition MAX_LINE_LENGTH :: nat where
  "MAX_LINE_LENGTH = 1024"

text \<open>The key of a tag: its \<^verbatim>\<open>strlen(tag) + 1\<close> bytes.\<close>

definition tag_key :: "string \<Rightarrow> 8 word list" where
  "tag_key tag = map (\<lambda>c. of_nat (of_char c)) tag @ [0]"

definition lg_alloc :: "string list \<Rightarrow> lg_state \<Rightarrow> nat \<times> lg_state" where
  "lg_alloc ms st =
     (lg_next st, st\<lparr>lg_heap := (lg_heap st)(lg_next st \<mapsto> ms), lg_next := lg_next st + 1\<rparr>)"

definition lg_release :: "nat \<Rightarrow> lg_state \<Rightarrow> lg_state" where
  "lg_release a st = st\<lparr>lg_heap := (lg_heap st)(a := None)\<rparr>"

definition orcm_logical_group_init :: "(status \<times> lg_state) outcome" where
  "orcm_logical_group_init =
     obind (opal_hash_table_init malloc_ok opal_hash_table_construct HASH_SIZE) (\<lambda>(rc, ht).
       Ret (rc, \<lparr>lg_groups = ht, lg_heap = Map.empty, lg_next = 0, lg_current_tag = None\<rparr>))"

section \<open>Adding\<close>

definition orcm_logical_group_hash_table_get ::
  "bool \<Rightarrow> lg_state \<Rightarrow> string \<Rightarrow> (nat \<times> lg_state) outcome" where
  "orcm_logical_group_hash_table_get debug st tag =
     obind (opal_hash_table_get_value_ptr debug (lg_groups st) (tag_key tag)) (\<lambda>(rc, v, ht).
       case v of
         Some a \<Rightarrow> Ret (a, st\<lparr>lg_groups := ht\<rparr>)
       | None \<Rightarrow> Ret (lg_alloc [] (st\<lparr>lg_groups := ht\<rparr>)))"

text \<open>\<^verbatim>\<open>strncmp\<close> over the length of a string and its terminator compares whole strings.\<close>

definition member_exist :: "string list \<Rightarrow> string \<Rightarrow> bool" where
  "member_exist group_members new_member = list_ex (\<lambda>m. m = new_member) group_members"

definition orcm_logical_group_list_append :: "string \<Rightarrow> nat \<Rightarrow> lg_state \<Rightarrow> lg_state outcome" where
  "orcm_logical_group_list_append member a st =
     (case lg_heap st a of
        None \<Rightarrow> Undef
      | Some ms \<Rightarrow> Ret (st\<lparr>lg_heap := (lg_heap st)(a \<mapsto> ms @ [member])\<rparr>))"

primrec add_members :: "string list \<Rightarrow> nat \<Rightarrow> lg_state \<Rightarrow> lg_state outcome" where
  "add_members [] a st = Ret st"
| "add_members (m # ms) a st =
     (case lg_heap st a of
        None \<Rightarrow> Undef
      | Some cur \<Rightarrow>
          if member_exist cur m then add_members ms a st
          else obind (orcm_logical_group_list_append m a st) (add_members ms a))"

definition orcm_logical_group_add_internal ::
  "bool \<Rightarrow> string \<Rightarrow> string list \<Rightarrow> nat \<Rightarrow> lg_state \<Rightarrow> (status \<times> lg_state) outcome" where
  "orcm_logical_group_add_internal debug tag new_members a st =
     obind (add_members new_members a st) (\<lambda>st1.
       obind (opal_hash_table_set_value_ptr debug malloc_ok (lg_groups st1) (tag_key tag) a) (\<lambda>(rc, ht).
         Ret (rc, st1\<lparr>lg_groups := ht\<rparr>)))"

definition argv_members :: "argv \<Rightarrow> string list" where
  "argv_members argv = (case argv of None \<Rightarrow> [] | Some ms \<Rightarrow> ms)"

definition orcm_logical_group_add ::
  "bool \<Rightarrow> bool \<Rightarrow> string option \<Rightarrow> string option \<Rightarrow> lg_state \<Rightarrow> (status \<times> lg_state) outcome" where
  "orcm_logical_group_add debug errno tag regex st =
     (case tag of
        None \<Rightarrow> Undef
      | Some t \<Rightarrow>
          obind (orcm_logical_group_hash_table_get debug st t) (\<lambda>(a, st1).
            obind (orte_regex_extract_node_names malloc_ok regex None errno) (\<lambda>(rc, names).
              if rc \<noteq> OPAL_SUCCESS then Ret (rc, lg_release a st1)
              else
                obind (orcm_logical_group_add_internal debug t (argv_members names) a st1) (\<lambda>(rc', st2).
                  Ret (rc', if rc' \<noteq> OPAL_SUCCESS then lg_release a st2 else st2)))))"

section \<open>Removing\<close>

definition is_do_all_wildcard :: "string option \<Rightarrow> bool" where
  "is_do_all_wildcard text = (text = Some ''*'')"

primrec orcm_logical_group_all_members_exist_one_tag :: "string list \<Rightarrow> string list \<Rightarrow> status" where
  "orcm_logical_group_all_members_exist_one_tag val [] = OPAL_SUCCESS"
| "orcm_logical_group_all_members_exist_one_tag val (m # members) =
     (if \<not> member_exist val m then ORCM_ERR_NODE_NOT_EXIST
      else orcm_logical_group_all_members_exist_one_tag val members)"

text \<open>
  The loops over the table; a step finds the next valid element, so that as many steps as the table has
  elements, and one to see the end, are enough.
\<close>

primrec all_exist_loop :: "nat \<Rightarrow> lg_state \<Rightarrow> string list \<Rightarrow> nat option \<Rightarrow> status outcome" where
  "all_exist_loop 0 st members node = Diverge"
| "all_exist_loop (Suc fuel) st members node =
     obind (opal_hash_table_get_next_key_ptr (lg_groups st) node) (\<lambda>(rc, r).
       case r of
         None \<Rightarrow> Ret OPAL_SUCCESS
       | Some (key, a, node') \<Rightarrow>
           (case lg_heap st a of
              None \<Rightarrow> Undef
            | Some val \<Rightarrow>
                (let erri = orcm_logical_group_all_members_exist_one_tag val members in
                 if erri \<noteq> OPAL_SUCCESS then Ret erri else all_exist_loop fuel st members (Some node'))))"

definition orcm_logical_group_all_members_exist_all_tags :: "lg_state \<Rightarrow> string list \<Rightarrow> status outcome" where
  "orcm_logical_group_all_members_exist_all_tags st members =
     all_exist_loop (ht_capacity (lg_groups st) + 1) st members None"

definition orcm_logical_group_hash_table_remove_members ::
  "bool \<Rightarrow> 8 word list \<Rightarrow> nat \<Rightarrow> string list \<Rightarrow> lg_state \<Rightarrow> (status \<times> lg_state) outcome" where
  "orcm_logical_group_hash_table_remove_members debug key a members st =
     (case lg_heap st a of
        None \<Rightarrow> Undef
      | Some val \<Rightarrow>
          (let val' = foldl (\<lambda>ms m. remove1 m ms) val members;
               st1 = st\<lparr>lg_heap := (lg_heap st)(a \<mapsto> val')\<rparr>
           in if val' = []
              then obind (opal_hash_table_remove_value_ptr debug (lg_groups st1) key) (\<lambda>(rc, ht).
                     Ret (rc, st1\<lparr>lg_groups := ht\<rparr>))
              else obind (opal_hash_table_set_value_ptr debug malloc_ok (lg_groups st1) key a) (\<lambda>(rc, ht).
                     Ret (rc, st1\<lparr>lg_groups := ht\<rparr>))))"

primrec remove_all_loop :: "bool \<Rightarrow> nat \<Rightarrow> lg_state \<Rightarrow> string list \<Rightarrow> nat option \<Rightarrow> (status \<times> lg_state) outcome" where
  "remove_all_loop debug 0 st members node = Diverge"
| "remove_all_loop debug (Suc fuel) st members node =
     obind (opal_hash_table_get_next_key_ptr (lg_groups st) node) (\<lambda>(rc, r).
       case r of
         None \<Rightarrow> Ret (OPAL_SUCCESS, st)
       | Some (key, a, node') \<Rightarrow>
           obind (orcm_logical_group_hash_table_remove_members debug key a members st) (\<lambda>(erri, st1).
             if erri \<noteq> OPAL_SUCCESS then Ret (erri, st1)
             else remove_all_loop debug fuel st1 members (Some node')))"

definition orcm_logical_group_remove_all_tags ::
  "bool \<Rightarrow> string list \<Rightarrow> bool \<Rightarrow> lg_state \<Rightarrow> (status \<times> lg_state) outcome" where
  "orcm_logical_group_remove_all_tags debug members do_all_member st =
     (if do_all_member then
        (case opal_hash_table_remove_all (lg_groups st) of (rc, ht) \<Rightarrow> Ret (rc, st\<lparr>lg_groups := ht\<rparr>))
      else
        obind (orcm_logical_group_all_members_exist_all_tags st members) (\<lambda>erri.
          if erri \<noteq> OPAL_SUCCESS then Ret (erri, st)
          else remove_all_loop debug (ht_capacity (lg_groups st) + 1) st members None))"

definition orcm_logical_group_remove_a_tag ::
  "bool \<Rightarrow> string \<Rightarrow> string list \<Rightarrow> bool \<Rightarrow> lg_state \<Rightarrow> (status \<times> lg_state) outcome" where
  "orcm_logical_group_remove_a_tag debug tag members do_all_member st =
     obind (opal_hash_table_get_value_ptr debug (lg_groups st) (tag_key tag)) (\<lambda>(rc, v, ht).
       let st1 = st\<lparr>lg_groups := ht\<rparr> in
       if rc = OPAL_SUCCESS then
         (if do_all_member then
            obind (opal_hash_table_remove_value_ptr debug (lg_groups st1) (tag_key tag)) (\<lambda>(rc', ht').
              Ret (rc', st1\<lparr>lg_groups := ht'\<rparr>))
          else
            (case v of
               None \<Rightarrow> Undef
             | Some a \<Rightarrow>
                 (case lg_heap st1 a of
                    None \<Rightarrow> Undef
                  | Some val \<Rightarrow>
                      (let erri = orcm_logical_group_all_members_exist_one_tag val members in
                       if erri \<noteq> OPAL_SUCCESS then Ret (erri, st1)
                       else orcm_logical_group_hash_table_remove_members debug (tag_key tag) a members st1))))
       else if rc = OPAL_ERR_NOT_FOUND then Ret (ORCM_ERR_GROUP_NOT_EXIST, st1)
       else Ret (rc, st1))"

definition orcm_logical_group_remove_internal ::
  "bool \<Rightarrow> string \<Rightarrow> bool \<Rightarrow> string list \<Rightarrow> bool \<Rightarrow> lg_state \<Rightarrow> (status \<times> lg_state) outcome" where
  "orcm_logical_group_remove_internal debug tag do_all_tag members do_all_member st =
     (if do_all_tag then orcm_logical_group_remove_all_tags debug members do_all_member st
      else orcm_logical_group_remove_a_tag debug tag members do_all_member st)"

definition orcm_logical_group_remove ::
  "bool \<Rightarrow> bool \<Rightarrow> string \<Rightarrow> string option \<Rightarrow> lg_state \<Rightarrow> (status \<times> lg_state) outcome" where
  "orcm_logical_group_remove debug errno tag regex st =
     (if ht_size (lg_groups st) = 0 then Ret (ORCM_ERR_NO_ANY_GROUP, st)
      else if is_do_all_wildcard regex
      then orcm_logical_group_remove_internal debug tag (is_do_all_wildcard (Some tag)) [] True st
      else
        obind (orte_regex_extract_node_names malloc_ok regex None errno) (\<lambda>(rc, names).
          if rc \<noteq> OPAL_SUCCESS then Ret (rc, st)
          else orcm_logical_group_remove_internal debug tag (is_do_all_wildcard (Some tag))
                 (argv_members names) False st))"

section \<open>Listing\<close>

text \<open>The members that are in the list, in the order asked for; \<^verbatim>\<open>NULL\<close> when there are none.\<close>

definition orcm_logical_group_list_specific_members :: "string list \<Rightarrow> string list \<Rightarrow> string list option" where
  "orcm_logical_group_list_specific_members val members =
     (if members = [] then None
      else
        (let new_value = filter (member_exist val) members in
         if new_value = [] then None else Some new_value))"

primrec list_all_loop ::
  "bool \<Rightarrow> nat \<Rightarrow> lg_state \<Rightarrow> string list \<Rightarrow> nat opal_hash_table_t \<Rightarrow> nat option
     \<Rightarrow> (nat opal_hash_table_t \<times> lg_state) outcome" where
  "list_all_loop debug 0 st members o_groups node = Diverge"
| "list_all_loop debug (Suc fuel) st members o_groups node =
     obind (opal_hash_table_get_next_key_ptr (lg_groups st) node) (\<lambda>(rc, r).
       case r of
         None \<Rightarrow> Ret (o_groups, st)
       | Some (key, a, node') \<Rightarrow>
           (case lg_heap st a of
              None \<Rightarrow> Undef
            | Some val \<Rightarrow>
                (case orcm_logical_group_list_specific_members val members of
                   None \<Rightarrow> list_all_loop debug fuel st members o_groups (Some node')
                 | Some new_value \<Rightarrow>
                     (let (b, st1) = lg_alloc new_value st in
                      obind (opal_hash_table_set_value_ptr debug malloc_ok o_groups key b) (\<lambda>(_, o_groups').
                        list_all_loop debug fuel st1 members o_groups' (Some node'))))))"

definition orcm_logical_group_list_all_tags ::
  "bool \<Rightarrow> string list \<Rightarrow> bool \<Rightarrow> lg_state \<Rightarrow> (nat opal_hash_table_t option \<times> lg_state) outcome" where
  "orcm_logical_group_list_all_tags debug members do_all_member st =
     (if do_all_member then Ret (Some (lg_groups st), st)
      else
        obind (opal_hash_table_init malloc_ok opal_hash_table_construct HASH_SIZE) (\<lambda>(_, o_groups).
          obind (list_all_loop debug (ht_capacity (lg_groups st) + 1) st members o_groups None)
            (\<lambda>(o_groups', st1). Ret (Some o_groups', st1))))"

definition orcm_logical_group_list_a_tag ::
  "bool \<Rightarrow> string \<Rightarrow> string list \<Rightarrow> bool \<Rightarrow> lg_state \<Rightarrow> (nat opal_hash_table_t option \<times> lg_state) outcome" where
  "orcm_logical_group_list_a_tag debug tag members do_all_member st =
     obind (opal_hash_table_get_value_ptr debug (lg_groups st) (tag_key tag)) (\<lambda>(rc, v, ht).
       let st1 = st\<lparr>lg_groups := ht\<rparr> in
       if rc \<noteq> OPAL_SUCCESS then Ret (None, st1)
       else
         obind (opal_hash_table_init malloc_ok opal_hash_table_construct HASH_SIZE) (\<lambda>(_, o_groups).
           case v of
             None \<Rightarrow> Undef
           | Some a \<Rightarrow>
               if do_all_member then
                 obind (opal_hash_table_set_value_ptr debug malloc_ok o_groups (tag_key tag) a) (\<lambda>(_, o_groups').
                   Ret (Some o_groups', st1))
               else
                 (case lg_heap st1 a of
                    None \<Rightarrow> Undef
                  | Some val \<Rightarrow>
                      (case orcm_logical_group_list_specific_members val members of
                         None \<Rightarrow> Ret (Some o_groups, st1)
                       | Some new_value \<Rightarrow>
                           (let (b, st2) = lg_alloc new_value st1 in
                            obind (opal_hash_table_set_value_ptr debug malloc_ok o_groups (tag_key tag) b)
                              (\<lambda>(_, o_groups'). Ret (Some o_groups', st2)))))))"

definition orcm_logical_group_list_internal ::
  "bool \<Rightarrow> string \<Rightarrow> bool \<Rightarrow> string list \<Rightarrow> bool \<Rightarrow> lg_state
     \<Rightarrow> (nat opal_hash_table_t option \<times> lg_state) outcome" where
  "orcm_logical_group_list_internal debug tag do_all_tag members do_all_member st =
     (if do_all_tag then orcm_logical_group_list_all_tags debug members do_all_member st
      else orcm_logical_group_list_a_tag debug tag members do_all_member st)"

definition orcm_logical_group_list ::
  "bool \<Rightarrow> bool \<Rightarrow> string \<Rightarrow> string option \<Rightarrow> lg_state \<Rightarrow> (nat opal_hash_table_t option \<times> lg_state) outcome" where
  "orcm_logical_group_list debug errno tag regex st =
     (if is_do_all_wildcard regex
      then orcm_logical_group_list_internal debug tag (is_do_all_wildcard (Some tag)) [] True st
      else
        obind (orte_regex_extract_node_names malloc_ok regex None errno) (\<lambda>(rc, names).
          if rc \<noteq> OPAL_SUCCESS then Ret (None, st)
          else orcm_logical_group_list_internal debug tag (is_do_all_wildcard (Some tag))
                 (argv_members names) False st))"

section \<open>The configuration file\<close>

text \<open>
  The values of the parser: strings and nested lists with their keys, and values of other types.
\<close>

datatype cfg_item =
    Cfg_string string "string option"
  | Cfg_list string "cfg_item list"
  | Cfg_other string

definition orcm_logical_group_process_tag_line :: "string option \<Rightarrow> lg_state \<Rightarrow> (status \<times> lg_state) outcome" where
  "orcm_logical_group_process_tag_line tag st =
     (case tag of
        None \<Rightarrow> Undef
      | Some t \<Rightarrow>
          Ret (OPAL_SUCCESS,
               if lg_current_tag st = None \<or> lg_current_tag st \<noteq> Some t then st\<lparr>lg_current_tag := Some t\<rparr>
               else st))"

text \<open>
  An error of an entry does not end the loop: only the code of the last entry is returned.
\<close>

fun parse_items :: "bool \<Rightarrow> bool \<Rightarrow> status \<Rightarrow> cfg_item list \<Rightarrow> lg_state \<Rightarrow> (status \<times> lg_state) outcome" where
  "parse_items debug errno erri [] st = Ret (erri, st)"
| "parse_items debug errno erri (Cfg_string key s # items) st =
     obind
       (if key = ''name'' then orcm_logical_group_process_tag_line s st
        else if key = ''members'' then orcm_logical_group_add debug errno (lg_current_tag st) s st
        else Ret (OPAL_ERR_BAD_PARAM, st))
       (\<lambda>(erri', st1). parse_items debug errno erri' items st1)"
| "parse_items debug errno erri (Cfg_list key sub # items) st =
     (if key = ''group'' then
        obind (parse_items debug errno OPAL_SUCCESS sub st) (\<lambda>(rc, st1).
          if rc \<noteq> OPAL_SUCCESS then Ret (rc, st1) else parse_items debug errno erri items st1)
      else Ret (OPAL_ERR_BAD_PARAM, st))"
| "parse_items debug errno erri (Cfg_other key # items) st = Ret (OPAL_ERR_BAD_PARAM, st)"

definition orcm_logical_group_parsing ::
  "bool \<Rightarrow> bool \<Rightarrow> cfg_item list \<Rightarrow> lg_state \<Rightarrow> (status \<times> lg_state) outcome" where
  "orcm_logical_group_parsing debug errno result_list st = parse_items debug errno OPAL_SUCCESS result_list st"

primrec parse_sections :: "bool \<Rightarrow> bool \<Rightarrow> cfg_item list \<Rightarrow> lg_state \<Rightarrow> (status \<times> lg_state) outcome" where
  "parse_sections debug errno [] st = Ret (OPAL_SUCCESS, st)"
| "parse_sections debug errno (item # items) st =
     (case item of
        Cfg_list key sub \<Rightarrow>
          if key = ''logicalgroup'' then
            obind (orcm_logical_group_parsing debug errno sub st) (\<lambda>(rc, st1).
              if rc \<noteq> OPAL_SUCCESS then Ret (rc, st1) else parse_sections debug errno items st1)
          else parse_sections debug errno items st
      | _ \<Rightarrow> Ret (OPAL_ERROR, st))"

text \<open>\<open>section\<close> is what the parser retrieves, \<^verbatim>\<open>NULL\<close> when there is no such section.\<close>

definition orcm_logical_group_parse_from_file ::
  "bool \<Rightarrow> bool \<Rightarrow> cfg_item list option \<Rightarrow> lg_state \<Rightarrow> (status \<times> lg_state) outcome" where
  "orcm_logical_group_parse_from_file debug errno sect st =
     (case sect of
        None \<Rightarrow> Ret (OPAL_ERR_NOT_FOUND, st)
      | Some items \<Rightarrow> parse_sections debug errno items st)"

text \<open>
  Packing members into lines of at most \<^verbatim>\<open>reserved_size\<close> bytes.  The buffer has that many bytes, and a
  line of \<^verbatim>\<open>reserved_size\<close> characters has its terminator behind it.
\<close>

primrec convertion_loop :: "nat \<Rightarrow> string \<Rightarrow> string list \<Rightarrow> string list \<Rightarrow> string list outcome" where
  "convertion_loop reserved_size memberlist [] new_members_list = Ret new_members_list"
| "convertion_loop reserved_size memberlist (m # ms) new_members_list =
     (let flush = reserved_size < length memberlist + length m + 1;
          lines = (if flush then new_members_list @ [memberlist] else new_members_list);
          line = (if flush then [] else memberlist);
          line' = (if line \<noteq> [] then line @ '','' else line) @ m
      in if reserved_size \<le> length line' then Undef
         else convertion_loop reserved_size line' ms
                (if ms = [] \<and> line' \<noteq> [] then lines @ [line'] else lines))"

definition orcm_logical_group_do_convertion :: "string list \<Rightarrow> nat \<Rightarrow> string list outcome" where
  "orcm_logical_group_do_convertion members_list reserved_size =
     convertion_loop reserved_size [] members_list []"

definition orcm_logical_group_convert_members_list :: "string list \<Rightarrow> nat \<Rightarrow> string list option outcome" where
  "orcm_logical_group_convert_members_list members_list max_size =
     (if members_list = [] \<or> max_size = 0 then Ret None
      else obind (orcm_logical_group_do_convertion members_list max_size) (\<lambda>lines. Ret (Some lines)))"

definition orcm_logical_group_save_to_file_concat ::
  "cfg_item list \<Rightarrow> string \<Rightarrow> string list \<Rightarrow> cfg_item list outcome" where
  "orcm_logical_group_save_to_file_concat parser_input tag members_list =
     obind (orcm_logical_group_convert_members_list members_list (MAX_LINE_LENGTH - length ''member list=''))
       (\<lambda>new_members_list.
         case new_members_list of
           None \<Rightarrow> Ret parser_input
         | Some lines \<Rightarrow>
             Ret (parser_input @
                  [Cfg_list ''group''
                     (Cfg_string ''name'' (Some tag) # map (\<lambda>l. Cfg_string ''members'' (Some l)) lines)]))"

text \<open>The key in the table is the string with its terminator.\<close>

definition tag_of_key :: "8 word list \<Rightarrow> string" where
  "tag_of_key key = map (\<lambda>b. char_of (unat b)) (takeWhile (\<lambda>b. b \<noteq> 0) key)"

primrec save_loop :: "nat \<Rightarrow> lg_state \<Rightarrow> cfg_item list \<Rightarrow> nat option \<Rightarrow> cfg_item list outcome" where
  "save_loop 0 st parser_input node = Diverge"
| "save_loop (Suc fuel) st parser_input node =
     obind (opal_hash_table_get_next_key_ptr (lg_groups st) node) (\<lambda>(rc, r).
       case r of
         None \<Rightarrow> Ret parser_input
       | Some (key, a, node') \<Rightarrow>
           (case lg_heap st a of
              None \<Rightarrow> Undef
            | Some val \<Rightarrow>
                obind (orcm_logical_group_save_to_file_concat parser_input (tag_of_key key) val) (\<lambda>parser_input'.
                  save_loop fuel st parser_input' (Some node'))))"

text \<open>What is handed to the writer of the section; \<^verbatim>\<open>NULL\<close> when there are no groups.\<close>

definition orcm_logical_group_save_to_file_internal :: "lg_state \<Rightarrow> cfg_item list option outcome" where
  "orcm_logical_group_save_to_file_internal st =
     (if ht_size (lg_groups st) = 0 then Ret None
      else obind (save_loop (ht_capacity (lg_groups st) + 1) st [] None) (\<lambda>items. Ret (Some items)))"

section \<open>Expressions\<close>

definition is_blank :: "char \<Rightarrow> bool" where
  "is_blank c \<longleftrightarrow> c = CHR '' '' \<or> c = CHR 0x09"

text \<open>
  The trimmed string, which is a part of the argument, and what the argument is afterwards: the blanks at its end are
  overwritten with NUL, those at its beginning stay.
\<close>

definition orcm_logical_group_trim_string :: "string \<Rightarrow> string \<times> string" where
  "orcm_logical_group_trim_string string =
     (let o_string = (case dropWhile is_blank string of
                        [] \<Rightarrow> []
                      | c # cs \<Rightarrow> c # rev (dropWhile is_blank (rev cs)))
      in (o_string, takeWhile is_blank string @ o_string))"

text \<open>
  One group: its members that are tags go to the queue of tags, the others to the result.  \<open>cnt\<close> is
  raised for every tag, whether the queue had it already or not.
\<close>

primrec nested_members ::
  "bool \<Rightarrow> lg_state \<Rightarrow> string list \<Rightarrow> argv \<Rightarrow> argv \<Rightarrow> int \<Rightarrow> (argv \<times> argv \<times> int \<times> lg_state) outcome" where
  "nested_members debug st [] tags out cnt = Ret (tags, out, cnt, st)"
| "nested_members debug st (m # ms) tags out cnt =
     obind (opal_hash_table_get_value_ptr debug (lg_groups st) (tag_key m)) (\<lambda>(rc, v, ht).
       let st1 = st\<lparr>lg_groups := ht\<rparr> in
       if rc = OPAL_SUCCESS
       then nested_members debug st1 ms (snd (opal_argv_append_unique_nosize malloc_ok tags m False)) out (cnt + 1)
       else nested_members debug st1 ms tags (snd (opal_argv_append_unique_nosize malloc_ok out m False)) cnt)"

primrec nested_loop ::
  "bool \<Rightarrow> nat \<Rightarrow> lg_state \<Rightarrow> argv \<Rightarrow> argv \<Rightarrow> int \<Rightarrow> (status \<times> argv \<times> lg_state) outcome" where
  "nested_loop debug 0 st tags out cnt = Diverge"
| "nested_loop debug (Suc fuel) st tags out cnt =
     (if cnt \<le> 0 then Ret (OPAL_SUCCESS, out, st)
      else
        (case argv_members tags of
           [] \<Rightarrow> Undef
         | tag # _ \<Rightarrow>
             obind (opal_hash_table_get_value_ptr debug (lg_groups st) (tag_key tag)) (\<lambda>(rc, v, ht).
               let st1 = st\<lparr>lg_groups := ht\<rparr> in
               obind
                 (case v of
                    None \<Rightarrow> Ret (tags, out, cnt, st1)
                  | Some a \<Rightarrow>
                      (case lg_heap st1 a of
                         None \<Rightarrow> Undef
                       | Some val \<Rightarrow> nested_members debug st1 val tags out cnt))
                 (\<lambda>(tags', out', cnt', st2).
                   obind (opal_argv_delete cnt' (Some tags') 0 1) (\<lambda>(rc', cnt'', tags'').
                     if rc' \<noteq> OPAL_SUCCESS then Ret (rc', out', st2)
                     else nested_loop debug fuel st2 (case tags'' of None \<Rightarrow> None | Some t \<Rightarrow> t) out' cnt'')))))"

definition orcm_logical_group_tag_to_members_nested ::
  "bool \<Rightarrow> nat \<Rightarrow> lg_state \<Rightarrow> argv \<Rightarrow> argv \<Rightarrow> (status \<times> argv \<times> lg_state) outcome" where
  "orcm_logical_group_tag_to_members_nested debug fuel st tag_array out =
     nested_loop debug fuel st tag_array out (int (opal_argv_count tag_array))"

definition split_tags :: "string list \<Rightarrow> argv \<Rightarrow> argv \<Rightarrow> argv \<times> argv" where
  "split_tags names tags out =
     foldl (\<lambda>(tags, out) name.
         if name \<noteq> [] \<and> hd name = CHR ''$''
         then (snd (opal_argv_append_unique_nosize malloc_ok tags (tl name) False), out)
         else (tags, snd (opal_argv_append_unique_nosize malloc_ok out name False)))
       (tags, out) names"

text \<open>The third result is the string of the caller, which has been trimmed in place.\<close>

definition orcm_logical_group_parse_array_string ::
  "bool \<Rightarrow> bool \<Rightarrow> nat \<Rightarrow> string option \<Rightarrow> lg_state \<Rightarrow> (status \<times> argv \<times> string option \<times> lg_state) outcome" where
  "orcm_logical_group_parse_array_string debug errno fuel regex st =
     (case map_option orcm_logical_group_trim_string regex of
        None \<Rightarrow> Ret (OPAL_SUCCESS, None, None, st)
      | Some (o_regex, regex') \<Rightarrow>
          if o_regex = [] then Ret (OPAL_SUCCESS, None, Some regex', st)
          else
            obind (orte_regex_extract_node_names malloc_ok (Some o_regex) None errno) (\<lambda>(rc, names).
              if rc \<noteq> OPAL_SUCCESS then Ret (rc, None, Some regex', st)
              else
                (case split_tags (argv_members names) None None of
                   (tags, out) \<Rightarrow>
                     obind (orcm_logical_group_tag_to_members_nested debug fuel st tags out) (\<lambda>(rc', out', st1).
                       Ret (rc', if rc' \<noteq> OPAL_SUCCESS then None else out', Some regex', st1)))))"

definition orcm_logical_group_argv_addup_size :: "argv \<Rightarrow> nat" where
  "orcm_logical_group_argv_addup_size argv = sum_list (map (\<lambda>s. length s + 1) (argv_members argv)) mod 2 ^ 32"

definition orcm_logical_group_arraystring_to_string :: "argv \<Rightarrow> (status \<times> string option) outcome" where
  "orcm_logical_group_arraystring_to_string array_string =
     (let size = orcm_logical_group_argv_addup_size array_string;
          joined = intersperse_join CHR '','' (argv_members array_string)
      in if size = 0 then Ret (OPAL_ERR_BAD_PARAM, None)
         else if size \<le> length joined then Undef
         else Ret (OPAL_SUCCESS, Some joined))"

definition orcm_logical_group_parse_string ::
  "bool \<Rightarrow> bool \<Rightarrow> nat \<Rightarrow> string option \<Rightarrow> lg_state \<Rightarrow> (status \<times> string option \<times> string option \<times> lg_state) outcome" where
  "orcm_logical_group_parse_string debug errno fuel regex st =
     obind (orcm_logical_group_parse_array_string debug errno fuel regex st) (\<lambda>(erri, arr, regex', st1).
       if erri \<noteq> OPAL_SUCCESS then Ret (erri, None, regex', st1)
       else obind (orcm_logical_group_arraystring_to_string arr) (\<lambda>(rc, s). Ret (rc, s, regex', st1)))"

end
