(* ===== verification/Regex_Round_Trip.thy ===== *)
theory Regex_Round_Trip
  imports Regex "HOL-Library.Multiset"
begin

text \<open>
  Expanding inverts compressing.  \<open>expand_node\<close> says which names a group stands for; compressing a
  name adds exactly that name to what the groups stand for, and expanding the printed groups
  gives what they stand for, group by group.  Together: the list of nodes survives, as a
  multiset, for the two kinds of names \<open>regular_name\<close> and \<open>plain_name\<close>.  The last section shows
  names for which it does not.
\<close>

section \<open>What a group stands for\<close>

definition opt_str :: "string option \<Rightarrow> string" where
  "opt_str s = (case s of None \<Rightarrow> [] | Some t \<Rightarrow> t)"

definition numbered :: "string \<Rightarrow> int \<Rightarrow> string option \<Rightarrow> nat \<Rightarrow> string" where
  "numbered base nd suffix k = base @ pad (nat nd) k @ opt_str suffix"

definition expand_range :: "string \<Rightarrow> int \<Rightarrow> string option \<Rightarrow> orte_regex_range \<Rightarrow> string list" where
  "expand_range base nd suffix r =
     map (numbered base nd suffix) [nat (rr_start r)..<nat (rr_start r + rr_cnt r)]"

definition expand_node :: "orte_regex_node \<Rightarrow> string list" where
  "expand_node n =
     (if rn_ranges n = [] then [opt_str (rn_prefix n)]
      else concat (map (expand_range (opt_str (rn_prefix n)) (rn_num_digits n) (rn_suffix n))
                     (rn_ranges n)))"

definition range_ok :: "int \<Rightarrow> orte_regex_range \<Rightarrow> bool" where
  "range_ok nd r \<longleftrightarrow> 0 \<le> rr_start r \<and> 1 \<le> rr_cnt r \<and> rr_start r + rr_cnt r \<le> INT_MAX \<and>
     int (length (dec (nat (rr_start r + rr_cnt r - 1)))) \<le> nd"

definition node_ok :: "orte_regex_node \<Rightarrow> bool" where
  "node_ok n \<longleftrightarrow>
     (\<exists>p. rn_prefix n = Some p \<and> p \<noteq> [] \<and> (\<forall>c\<in>set p. \<not> is_special c)) \<and>
     (rn_ranges n \<noteq> [] \<longrightarrow> rn_num_digits n \<le> INT_MAX \<and>
        (\<exists>s. rn_suffix n = Some s \<and> (\<forall>c\<in>set s. isalpha c)) \<and>
        (\<forall>r\<in>set (rn_ranges n). range_ok (rn_num_digits n) r))"

lemma dec_mono: "i \<le> j \<Longrightarrow> length (dec i) \<le> length (dec j)"
  using dec_length [of i "length (dec j)"] dec_val_less [of "dec j"] dec_digits by force

section \<open>Expanding a printed range\<close>

lemma regex_name_ok:
  assumes "int (length (dec i)) \<le> nd"
  shows "regex_name base nd suffix i = Ret (numbered base nd suffix i)"
  using assms
  by (auto simp: regex_name_def Let_def numbered_def pad_def opt_str_def min_def)

lemma regex_append_names_ok:
  assumes "\<And>j. i \<le> j \<Longrightarrow> j < i + k \<Longrightarrow> int (length (dec j)) \<le> nd"
  shows "regex_append_names malloc_ok base nd suffix i k names =
           Ret (OPAL_SUCCESS, Argv.extend names (map (numbered base nd suffix) [i..<i + k]))"
  using assms
proof (induction k arbitrary: i names)
  case (Suc k)
  have "[i..<i + Suc k] = i # [Suc i..<Suc i + k]"
    by (simp add: upt_conv_Cons)
  moreover have "int (length (dec i)) \<le> nd"
    using Suc.prems by simp
  ultimately show ?case
    using Suc by (simp add: regex_name_ok Argv.extend_def)
qed (simp add: Argv.extend_def)

lemma fmt_d_nat: "0 \<le> i \<Longrightarrow> fmt_d i = dec (nat i)"
  by (simp add: fmt_d_def)

lemma dropWhile_not_digit_dec [simp]: "dropWhile (\<lambda>c. \<not> isdigit c) (dec n @ s) = dec n @ s"
  using dec_digits [of "hd (dec n)" n] by (cases "dec n") auto

lemma num_max_digit_le: "num_max_digit n \<le> nd" if "int (length (dec n)) \<le> nd"
proof -
  have "0 \<le> nd"
    using that by linarith
  then show ?thesis
    using that by (simp add: num_max_digit_def INT_MAX_def)
qed

lemma parse_node_range_ok:
  assumes "range_ok nd r"
  shows "regex_parse_node_range malloc_ok base (regex_show_range r) nd suffix names False =
           Ret (OPAL_SUCCESS, Argv.extend names (expand_range base nd suffix r), False)"
proof -
  define a where "a = nat (rr_start r)"
  define b where "b = nat (rr_start r + rr_cnt r - 1)"
  have start: "rr_start r = int a" and last: "rr_start r + rr_cnt r - 1 = int b" and ab: "a \<le> b"
    and le: "int a \<le> LONG_MAX" "int b \<le> LONG_MAX" and nd: "int (length (dec b)) \<le> nd"
    using assms by (auto simp: range_ok_def a_def b_def LONG_MAX_def INT_MAX_def)
  have rng: "[nat (rr_start r)..<nat (rr_start r + rr_cnt r)] = [a..<a + (nat (int b - int a) + 1)]"
    using start last ab by (intro arg_cong2 [where f = upt]) auto
  have names: "regex_append_names malloc_ok base nd suffix a (nat (int b - int a) + 1) names =
      Ret (OPAL_SUCCESS, Argv.extend names (expand_range base nd suffix r))"
    unfolding expand_range_def rng
  proof (rule regex_append_names_ok)
    fix j assume "a \<le> j" "j < a + (nat (int b - int a) + 1)"
    then have "length (dec j) \<le> length (dec b)"
      using ab by (intro dec_mono) linarith
    then show "int (length (dec j)) \<le> nd"
      using nd by linarith
  qed
  have digits: "num_max_digit b \<le> nd"
    by (rule num_max_digit_le [OF nd])
  show ?thesis
  proof (cases "rr_cnt r = 1")
    case True
    then have "b = a" "regex_show_range r = dec a @ []"
      using start last by (simp_all add: regex_show_range_def fmt_d_nat)
    then show ?thesis
      using names digits le strtol_dec [of "[]" a] takeWhile_isdigit_dec [of "[]" a]
      by (simp add: regex_parse_node_range_def dropWhile_not_digit_dec [of _ "[]", simplified] flip: not_le)
  next
    case False
    then have "regex_show_range r = dec a @ CHR ''-'' # dec b"
      using start last by (simp add: regex_show_range_def fmt_d_nat)
    then show ?thesis
      using names digits le ab strtol_dec [of "CHR ''-'' # dec b" a]
        takeWhile_isdigit_dec [of "CHR ''-'' # dec b" a] strtol_dec [of "[]" b]
      by (simp add: regex_parse_node_range_def Let_def dropWhile_not_digit_dec [of _ "[]", simplified]
          del: dropWhile_eq_Nil_conv flip: not_le)
  qed
qed

section \<open>Expanding a printed group\<close>

lemma butlast_concat_commas:
  assumes "vs \<noteq> []"
  shows "butlast (concat (map (\<lambda>v. v @ '','') vs)) = intersperse_join CHR '','' vs"
  using assms
  by (induction "CHR '',''" vs rule: intersperse_join.induct) (auto simp: butlast_append)

lemma show_range_chars:
  assumes "range_ok nd r" "c \<in> set (regex_show_range r)"
  shows "isdigit c \<or> c = CHR ''-''"
  using assms by (auto simp: regex_show_range_def range_ok_def fmt_d_def dest: dec_digits split: if_splits)

lemma show_range_ne: "regex_show_range r \<noteq> []"
  by (simp add: regex_show_range_def fmt_d_def)

lemma show_range_not:
  assumes "range_ok nd r" "\<not> isdigit d" "d \<noteq> CHR ''-''"
  shows "d \<notin> set (regex_show_range r)"
  using show_range_chars [OF assms(1)] assms(2,3) by blast

lemma extend_extend [simp]: "Argv.extend (Argv.extend a xs) ys = Argv.extend a (xs @ ys)"
  by (cases a) (auto simp: Argv.extend_def)

lemma extend_Nil [simp]: "Argv.extend a [] = a"
  by (simp add: Argv.extend_def)

lemma parse_node_ranges_ok:
  assumes "\<forall>r\<in>set rs. range_ok nd r"
  shows "regex_parse_node_ranges malloc_ok base (intersperse_join CHR '','' (map regex_show_range rs))
           nd suffix names False =
         Ret (OPAL_SUCCESS, Argv.extend names (concat (map (expand_range base nd suffix) rs)), False)"
  using assms
proof (induction rs arbitrary: names)
  case Nil
  then show ?case
    by (subst regex_parse_node_ranges.simps) simp
next
  case (Cons r rs)
  have r: "range_ok nd r" "CHR '','' \<notin> set (regex_show_range r)"
    using Cons.prems show_range_not by auto
  show ?case
  proof (cases rs)
    case Nil
    then show ?thesis
      using r by (subst regex_parse_node_ranges.simps)
        (auto simp: show_range_ne parse_node_range_ok takeWhile_neq_append dropWhile_eq_Nil_conv)
  next
    case (Cons r' rs')
    let ?rest = "intersperse_join CHR '','' (map regex_show_range rs)"
    have "intersperse_join CHR '','' (map regex_show_range (r # rs)) =
        regex_show_range r @ CHR '','' # ?rest"
      using Cons by simp
    then show ?thesis
      using r Cons.IH [of "Argv.extend names (expand_range base nd suffix r)"] Cons.prems
      by (subst regex_parse_node_ranges.simps)
        (simp add: show_range_ne parse_node_range_ok takeWhile_neq_append)
  qed
qed

text \<open>The text of a node's group behind its prefix, and what follows it.\<close>

definition group_text :: "orte_regex_node \<Rightarrow> string" where
  "group_text n = dec (nat (rn_num_digits n)) @ CHR '':'' #
     intersperse_join CHR '','' (map regex_show_range (rn_ranges n)) @ CHR '']'' # opt_str (rn_suffix n)"

lemma join_chars:
  "c \<in> set (intersperse_join d vs) \<Longrightarrow> c = d \<or> (\<exists>v\<in>set vs. c \<in> set v)"
  by (induction d vs rule: intersperse_join.induct) auto

lemma ranges_not:
  assumes "\<forall>r\<in>set rs. range_ok nd r" "\<not> isdigit d" "d \<noteq> CHR ''-''" "d \<noteq> CHR '',''"
  shows "d \<notin> set (intersperse_join CHR '','' (map regex_show_range rs))"
  using join_chars [of d "CHR '',''" "map regex_show_range rs"] show_range_not [OF _ assms(2,3)] assms(1,4)
  by auto

lemma dec_not: "\<not> isdigit d \<Longrightarrow> d \<notin> set (dec n)"
  using dec_digits by blast

lemma expand_range_no_suffix: "expand_range base nd (Some []) = expand_range base nd None"
  by (simp add: expand_range_def numbered_def opt_str_def fun_eq_iff)

lemma extract_range_ok:
  assumes ok: "node_ok n" and ne: "rn_ranges n \<noteq> []" and rest: "rest = [] \<or> hd rest = CHR '',''"
  shows "regex_extract_range malloc_ok (opt_str (rn_prefix n)) (group_text n @ rest) names False =
           Ret (OPAL_SUCCESS, Argv.extend names (expand_node n), False)"
    and "regex_after_range (group_text n @ rest) = rest"
proof -
  obtain s where s: "rn_suffix n = Some s" "\<forall>c\<in>set s. isalpha c"
    and rs: "\<forall>r\<in>set (rn_ranges n). range_ok (rn_num_digits n) r"
    and nd: "rn_num_digits n \<le> INT_MAX"
    using ok ne by (auto simp: node_ok_def)
  obtain r where "r \<in> set (rn_ranges n)"
    using ne by (cases "rn_ranges n") auto
  then have nd0: "0 \<le> rn_num_digits n"
    using rs by (force simp: range_ok_def)
  let ?d = "dec (nat (rn_num_digits n))"
  let ?rs = "intersperse_join CHR '','' (map regex_show_range (rn_ranges n))"
  have gt: "group_text n @ rest = ?d @ CHR '':'' # ?rs @ CHR '']'' # s @ rest"
    by (simp add: group_text_def s opt_str_def)
  have no: "CHR '':'' \<notin> set ?d" "CHR '']'' \<notin> set ?rs" "CHR '','' \<notin> set s"
    using dec_not ranges_not [OF rs] s(2) by auto
  have strtol: "strtol ?d = (rn_num_digits n, [], False)"
    using strtol_dec [of "[]" "nat (rn_num_digits n)"] nd nd0
    by (simp add: INT_MAX_def LONG_MAX_def)
  have sfx: "takeWhile (\<lambda>c. c \<noteq> CHR '','') (s @ rest) = s"
      "dropWhile (\<lambda>c. c \<noteq> CHR '','') (s @ rest) = rest"
    using no(3) rest by (cases rest; simp)+
  have "\<not> (s @ rest \<noteq> [] \<and> hd (s @ rest) = CHR ''['')"
    using s(2) rest by (cases s; cases rest; auto)
  then show "regex_extract_range malloc_ok (opt_str (rn_prefix n)) (group_text n @ rest) names False =
           Ret (OPAL_SUCCESS, Argv.extend names (expand_node n), False)"
    using no(1,2) strtol sfx parse_node_ranges_ok [OF rs] nd nd0 ne s(1)
    by (simp add: regex_extract_range_def regex_range_end_def gt Let_def int_of_long_small expand_node_def
        expand_range_no_suffix)
  show "regex_after_range (group_text n @ rest) = rest"
    using no sfx by (simp add: regex_after_range_def regex_range_end_def gt)
qed

definition node_text :: "orte_regex_node \<Rightarrow> string" where
  "node_text n = opt_str (rn_prefix n) @ (if rn_ranges n = [] then [] else CHR ''['' # group_text n)"

lemma takeWhile_not_special:
  assumes "\<forall>c\<in>set p. \<not> is_special c" "rest = [] \<or> is_special (hd rest)"
  shows "takeWhile (\<lambda>c. \<not> is_special c) (p @ rest) = p" "dropWhile (\<lambda>c. \<not> is_special c) (p @ rest) = rest"
  using assms by (cases rest; auto simp: takeWhile_append dropWhile_append takeWhile_eq_all_conv)+

lemma extract_loop_step:
  assumes ok: "node_ok n" and rest: "rest = [] \<or> hd rest = CHR '',''"
  shows "regex_extract_loop malloc_ok (node_text n @ rest) names False =
           (if rest = [] then Ret (OPAL_SUCCESS, Argv.extend names (expand_node n))
            else regex_extract_loop malloc_ok (tl rest) (Argv.extend names (expand_node n)) False)"
proof -
  obtain p where p: "rn_prefix n = Some p" "p \<noteq> []" "\<forall>c\<in>set p. \<not> is_special c"
    using ok by (auto simp: node_ok_def)
  then have pre: "opt_str (rn_prefix n) = p"
    by (simp add: opt_str_def)
  show ?thesis
  proof (cases "rn_ranges n = []")
    case True
    have tw: "takeWhile (\<lambda>c. \<not> is_special c) (p @ rest) = p"
        "dropWhile (\<lambda>c. \<not> is_special c) (p @ rest) = rest"
      using takeWhile_not_special [OF p(3), of rest] rest by (auto simp: is_special_def)
    have "node_text n = p" "expand_node n = [p]"
      using True pre by (simp_all add: node_text_def expand_node_def)
    moreover have "\<not> (rest \<noteq> [] \<and> hd rest = CHR '']'')" "\<not> (rest \<noteq> [] \<and> hd rest = CHR ''['')"
      using rest by auto
    ultimately show ?thesis
      using p(2) by (subst regex_extract_loop.simps) (simp add: tw Argv.extend_def Let_def, blast)
  next
    case False
    have "is_special (hd (CHR ''['' # group_text n @ rest))"
      by (simp add: is_special_def)
    moreover have "node_text n @ rest = p @ CHR ''['' # group_text n @ rest"
      using False pre by (simp add: node_text_def)
    ultimately show ?thesis
      using takeWhile_not_special [OF p(3), of "CHR ''['' # group_text n @ rest"] p(2)
        extract_range_ok [OF ok False rest] pre
      by (subst regex_extract_loop.simps) simp
  qed
qed

lemma extract_loop_ok:
  assumes "\<forall>n\<in>set ids. node_ok n" "ids \<noteq> []"
  shows "regex_extract_loop malloc_ok (intersperse_join CHR '','' (map node_text ids)) names False =
           Ret (OPAL_SUCCESS, Argv.extend names (concat (map expand_node ids)))"
  using assms
proof (induction ids arbitrary: names)
  case (Cons n ids)
  show ?case
  proof (cases "ids = []")
    case True
    then show ?thesis
      using Cons.prems extract_loop_step [of n "[]" names] by simp
  next
    case False
    then have "intersperse_join CHR '','' (map node_text (n # ids)) =
        node_text n @ CHR '','' # intersperse_join CHR '','' (map node_text ids)"
      by (cases ids) auto
    then show ?thesis
      using Cons False extract_loop_step [of n "CHR '','' # intersperse_join CHR '','' (map node_text ids)" names]
      by simp
  qed
qed simp

lemma show_node_ok:
  assumes "node_ok n"
  shows "regex_show_node n = Some (node_text n)"
proof (cases "rn_ranges n = []")
  case True
  then show ?thesis
    using assms by (auto simp: regex_show_node_def node_text_def node_ok_def opt_str_def)
next
  case False
  then obtain r where "r \<in> set (rn_ranges n)"
    by (cases "rn_ranges n") auto
  then have "0 \<le> rn_num_digits n"
    using assms by (force simp: range_ok_def node_ok_def)
  moreover have "butlast (concat (map (\<lambda>r. regex_show_range r @ '','') (rn_ranges n))) =
      intersperse_join CHR '','' (map regex_show_range (rn_ranges n))"
    using False butlast_concat_commas [of "map regex_show_range (rn_ranges n)"] by (simp add: comp_def)
  ultimately show ?thesis
    using False assms
    by (auto simp: regex_show_node_def node_text_def group_text_def name_with_def opt_str_def fmt_d_nat node_ok_def)
qed

section \<open>Compressing a name\<close>

lemma scan_alpha:
  assumes "\<forall>c\<in>set p. isalpha c" "length pre + length p \<le> ORTE_MAX_NODE_PREFIX"
  shows "regex_scan (p @ r) i pre None m = regex_scan r (i + length p) (pre @ p) None m"
  using assms by (induction p arbitrary: i pre) auto

lemma scan_digits:
  assumes "\<forall>c\<in>set ds. isdigit c"
  shows "regex_scan (ds @ r) i pre (Some k) m = regex_scan r (i + length ds) pre (Some k) (m + length ds)"
  using assms by (induction ds arbitrary: i m) (auto simp: isdigit_not_isalpha)

lemma scan_suffix:
  assumes "\<forall>c\<in>set s. isalpha c"
  shows "regex_scan s i pre (Some k) m = Ret (False, pre, Some k, m)"
  using assms by (induction s arbitrary: i) auto

lemma scan_other:
  assumes "\<exists>c\<in>set s. \<not> isalpha c \<and> \<not> isdigit c"
  shows "\<exists>m'. regex_scan s i pre (Some k) m = Ret (True, pre, Some k, m')"
  using assms by (induction s arbitrary: i m) auto

text \<open>
  The names that compressing keeps: letters, digits, letters with a number below the largest
  \<^verbatim>\<open>int\<close>; or names without digits or with another character, which are not compressed.
\<close>

definition regular_name :: "string \<Rightarrow> bool" where
  "regular_name name \<longleftrightarrow>
     (let p = takeWhile isalpha name; r = dropWhile isalpha name;
          ds = takeWhile isdigit r; s = dropWhile isdigit r
      in p \<noteq> [] \<and> length p < ORTE_MAX_NODE_PREFIX \<and> ds \<noteq> [] \<and> list_all isalpha s \<and>
         int (dec_val ds) < INT_MAX \<and> int (length ds) \<le> INT_MAX)"

definition plain_name :: "string \<Rightarrow> bool" where
  "plain_name name \<longleftrightarrow>
     name \<noteq> [] \<and> list_all (\<lambda>c. \<not> is_special c) name \<and>
     length (takeWhile isalpha name) \<le> ORTE_MAX_NODE_PREFIX \<and>
     (list_all isalpha name \<or> list_ex (\<lambda>c. \<not> isalpha c \<and> \<not> isdigit c) name)"

lemma regular_nameE:
  assumes "regular_name name"
  obtains p ds s where "name = p @ ds @ s" "p \<noteq> []" "\<forall>c\<in>set p. isalpha c"
    "length p < ORTE_MAX_NODE_PREFIX" "ds \<noteq> []" "\<forall>c\<in>set ds. isdigit c" "\<forall>c\<in>set s. isalpha c"
    "int (dec_val ds) < INT_MAX" "int (length ds) \<le> INT_MAX"
proof -
  let ?p = "takeWhile isalpha name" and ?r = "dropWhile isalpha name"
  have "\<forall>c\<in>set ?p. isalpha c" "\<forall>c\<in>set (takeWhile isdigit ?r). isdigit c"
    by (auto dest: set_takeWhileD)
  moreover have "name = ?p @ takeWhile isdigit ?r @ dropWhile isdigit ?r"
    by simp
  ultimately show thesis
    using assms unfolding regular_name_def Let_def list_all_iff by (elim conjE) (rule that)
qed

lemma scan_regular:
  assumes "\<forall>c\<in>set p. isalpha c" "length p < ORTE_MAX_NODE_PREFIX" "ds \<noteq> []"
    "\<forall>c\<in>set ds. isdigit c" "\<forall>c\<in>set s. isalpha c"
  shows "regex_scan (p @ ds @ s) 0 [] None 0 = Ret (False, p, Some (length p), length ds)"
proof -
  obtain d ds' where ds: "ds = d # ds'"
    using assms(3) by (cases ds) auto
  then show ?thesis
    using assms scan_alpha [OF assms(1), of "[]"] scan_digits [of ds'] scan_suffix [OF assms(5)]
    by (simp add: isdigit_not_isalpha)
qed

lemma scan_plain:
  assumes "plain_name name"
  shows "\<exists>f p st m. regex_scan name 0 [] None 0 = Ret (f, p, st, m) \<and> (f \<or> st = None)"
proof -
  let ?p = "takeWhile isalpha name" and ?r = "dropWhile isalpha name"
  have "regex_scan name 0 [] None 0 = regex_scan ?r (length ?p) ?p None 0"
    using scan_alpha [of ?p "[]" ?r 0 0] assms by (auto simp: plain_name_def dest: set_takeWhileD)
  moreover have "\<exists>c\<in>set cs. \<not> isalpha c \<and> \<not> isdigit c" if "?r = d # cs" "isdigit d" for d cs
  proof -
    have "\<not> list_all isalpha name"
      using that by (metis dropWhile_eq_Nil_conv list.distinct(1) list_all_iff)
    then have "\<exists>c\<in>set name. \<not> isalpha c \<and> \<not> isdigit c"
      using assms by (auto simp: plain_name_def list_ex_iff)
    then have "\<exists>c\<in>set (?p @ d # cs). \<not> isalpha c \<and> \<not> isdigit c"
      using that by (metis takeWhile_dropWhile_id)
    then show ?thesis
      using that(2) by (auto dest: set_takeWhileD)
  qed
  moreover have "\<not> isalpha d" if "?r = d # cs" for d cs
    using that by (metis hd_dropWhile list.distinct(1) list.sel(1))
  ultimately have scan: "regex_scan name 0 [] None 0 = regex_scan ?r (length ?p) ?p None 0"
    and other: "\<And>d cs. ?r = d # cs \<Longrightarrow> isdigit d \<Longrightarrow> \<exists>c\<in>set cs. \<not> isalpha c \<and> \<not> isdigit c"
    and first: "\<And>d cs. ?r = d # cs \<Longrightarrow> \<not> isalpha d"
    by blast+
  show ?thesis
  proof (cases ?r)
    case Nil
    show ?thesis
      unfolding scan Nil by auto
  next
    case (Cons d cs)
    show ?thesis
      unfolding scan Cons
      using first [OF Cons] scan_other [OF other [OF Cons], of "Suc (length ?p)" ?p "length ?p" "Suc 0"]
      by (cases "isdigit d") auto
  qed
qed

section \<open>Compressing adds exactly the name\<close>

abbreviation names_of :: "orte_regex_node list \<Rightarrow> string list" where
  "names_of ids \<equiv> concat (map expand_node ids)"

lemma add_number_ok:
  assumes "\<forall>r\<in>set rs. range_ok nd r" "int v < INT_MAX" "int (length (dec v)) \<le> nd" "rs \<noteq> []"
  obtains rs' where "regex_add_number (int v) rs = Ret rs'" "rs' \<noteq> []" "\<forall>r\<in>set rs'. range_ok nd r"
    "concat (map (expand_range p nd s) rs') = concat (map (expand_range p nd s) rs) @ [numbered p nd s v]"
proof -
  let ?new = "\<lparr>rr_start = int v, rr_cnt = 1\<rparr>"
  have new: "range_ok nd ?new" "expand_range p nd s ?new = [numbered p nd s v]"
    using assms(2,3) by (simp_all add: range_ok_def expand_range_def nat_add_distrib)
  show thesis
  proof (cases rs rule: rev_cases)
    case Nil
    then show ?thesis
      using assms(4) by simp
  next
    case (snoc qs r)
    have r: "range_ok nd r"
      using assms(1) snoc by simp
    show ?thesis
    proof (cases "int v = rr_start r + rr_cnt r")
      case True
      let ?r = "r\<lparr>rr_cnt := rr_cnt r + 1\<rparr>"
      have nats: "nat (rr_start r + (rr_cnt r + 1)) = Suc v" "nat (rr_start r + rr_cnt r) = v"
          "nat (rr_start r) \<le> v"
        using True r by (auto simp: range_ok_def)
      have "expand_range p nd s ?r = expand_range p nd s r @ [numbered p nd s v]"
        using nats by (simp add: expand_range_def)
      moreover have "range_ok nd ?r"
        using True r assms(2,3) nats(2) by (simp add: range_ok_def)
      ultimately show ?thesis
        using that [of "qs @ [?r]"] snoc True r assms(1)
        by (simp add: regex_add_number_def range_ok_def)
    next
      case False
      then show ?thesis
        using that [of "rs @ [?new]"] snoc r assms(1) new
        by (simp add: regex_add_number_def range_ok_def)
    qed
  qed
qed

lemma match_node:
  assumes "regex_node_match p s m n" "p \<noteq> []"
  shows "rn_prefix n = Some p" "rn_suffix n = Some s" "rn_num_digits n = int m"
  using assms by (auto simp: regex_node_match_def split: option.splits)

definition nodes_inv :: "orte_regex_node list \<Rightarrow> bool" where
  "nodes_inv ids \<longleftrightarrow> (\<forall>n\<in>set ids. node_ok n \<and> (rn_suffix n \<noteq> None \<longrightarrow> rn_ranges n \<noteq> []))"

lemma nodes_inv_Cons [simp]:
  "nodes_inv (n # ids) \<longleftrightarrow> node_ok n \<and> (rn_suffix n \<noteq> None \<longrightarrow> rn_ranges n \<noteq> []) \<and> nodes_inv ids"
  by (auto simp: nodes_inv_def)

lemma nodes_inv_Nil [simp]: "nodes_inv []"
  by (simp add: nodes_inv_def)

lemma record_ok:
  assumes p: "p \<noteq> []" "\<forall>c\<in>set p. isalpha c" and s: "\<forall>c\<in>set s. isalpha c"
    and v: "int v < INT_MAX" "length (dec v) \<le> m" "int m \<le> INT_MAX"
    and inv: "nodes_inv ids"
  shows "\<exists>ids'. regex_record p s m (int v) ids = Ret ids' \<and> nodes_inv ids' \<and>
           mset (names_of ids') = add_mset (p @ pad m v @ s) (mset (names_of ids))"
  using inv
proof (induction ids)
  case Nil
  let ?r = "\<lparr>rr_start = int v, rr_cnt = 1\<rparr>"
  let ?n = "\<lparr>rn_prefix = Some p, rn_suffix = Some s, rn_num_digits = int m, rn_ranges = [?r]\<rparr>"
  have "range_ok (int m) ?r"
    using v by (simp add: range_ok_def)
  moreover have "\<forall>c\<in>set p. \<not> is_special c"
    using p(2) by (auto simp: is_special_def)
  ultimately have "node_ok ?n"
    using p(1) s v(3) by (simp add: node_ok_def)
  moreover have "expand_node ?n = [p @ pad m v @ s]"
    by (simp add: expand_node_def expand_range_def numbered_def opt_str_def nat_add_distrib)
  ultimately show ?case
    using p(1) by simp
next
  case (Cons n ids)
  show ?case
  proof (cases "regex_node_match p s m n")
    case True
    note n = match_node [OF True p(1)]
    have ranges: "rn_ranges n \<noteq> []" "\<forall>r\<in>set (rn_ranges n). range_ok (int m) r"
      using Cons.prems n by (auto simp: node_ok_def)
    obtain rs' where "regex_add_number (int v) (rn_ranges n) = Ret rs'" "rs' \<noteq> []"
      "\<forall>r\<in>set rs'. range_ok (int m) r"
      "concat (map (expand_range p (int m) (Some s)) rs') =
         concat (map (expand_range p (int m) (Some s)) (rn_ranges n)) @ [numbered p (int m) (Some s) v]"
      using add_number_ok [OF ranges(2) v(1), of p "Some s"] v(2) ranges(1) by auto
    then show ?thesis
      using Cons.prems n True ranges(1) v p s
      by (simp add: expand_node_def node_ok_def opt_str_def numbered_def)
  next
    case False
    obtain ids' where "regex_record p s m (int v) ids = Ret ids'" "nodes_inv ids'"
      "mset (names_of ids') = add_mset (p @ pad m v @ s) (mset (names_of ids))"
      using Cons by auto
    then show ?thesis
      using Cons.prems False by (intro exI [of _ "n # ids'"]) simp
  qed
qed

lemma add_node_regular:
  assumes "regular_name name" "nodes_inv ids"
  shows "\<exists>ids'. regex_add_node name ids = Ret ids' \<and> nodes_inv ids' \<and>
           mset (names_of ids') = add_mset name (mset (names_of ids))"
  using assms(1)
proof (rule regular_nameE)
  fix p ds s assume n: "name = p @ ds @ s" and p: "p \<noteq> []" "\<forall>c\<in>set p. isalpha c"
    "length p < ORTE_MAX_NODE_PREFIX" and ds: "ds \<noteq> []" "\<forall>c\<in>set ds. isdigit c"
    and s: "\<forall>c\<in>set s. isalpha c" and v: "int (dec_val ds) < INT_MAX" "int (length ds) \<le> INT_MAX"
  have "s = [] \<or> \<not> isdigit (hd s)"
    using s isdigit_not_isalpha by (cases s) auto
  then have "strtol (ds @ s) = (int (dec_val ds), s, False)"
    using strtol_digits [OF ds(2,1)] v by (simp add: INT_MAX_def LONG_MAX_def)
  then have add: "regex_add_node name ids = regex_record p s (length ds) (int (dec_val ds)) ids"
    using scan_regular [OF p(2,3) ds s] n p v by (simp add: regex_add_node_def int_of_long_small)
  have "length (dec (dec_val ds)) \<le> length ds"
    using dec_length [OF dec_val_less [OF ds(2)]] ds(1) by simp
  moreover have "p @ pad (length ds) (dec_val ds) @ s = name"
    using pad_dec_val [OF ds(2,1)] n by simp
  ultimately show ?thesis
    using record_ok [OF p(1,2) s v(1) _ v(2), of ids] assms(2) by (simp add: add)
qed

lemma add_node_plain:
  assumes "plain_name name" "nodes_inv ids"
  shows "\<exists>ids'. regex_add_node name ids = Ret ids' \<and> nodes_inv ids' \<and>
           mset (names_of ids') = add_mset name (mset (names_of ids))"
proof -
  obtain f p st m where scan: "regex_scan name 0 [] None 0 = Ret (f, p, st, m)" "f \<or> st = None"
    using scan_plain [OF assms(1)] by blast
  let ?n = "\<lparr>rn_prefix = Some name, rn_suffix = None, rn_num_digits = 0, rn_ranges = []\<rparr>"
  have "regex_add_node name ids = Ret (ids @ [?n])"
    using scan by (cases f; cases st) (auto simp: regex_add_node_def)
  moreover have "nodes_inv (ids @ [?n])"
    using assms by (auto simp: nodes_inv_def node_ok_def plain_name_def list_all_iff)
  ultimately show ?thesis
    by (simp add: expand_node_def opt_str_def)
qed

definition node_name :: "string \<Rightarrow> bool" where
  "node_name name \<longleftrightarrow> regular_name name \<or> plain_name name"

lemma regular_name_no_comma:
  assumes "regular_name name"
  shows "CHR '','' \<notin> set name \<and> name \<noteq> []"
  using assms
proof (rule regular_nameE)
  fix p ds s assume "name = p @ ds @ s" "p \<noteq> []" and all: "\<forall>c\<in>set p. isalpha c" "\<forall>c\<in>set ds. isdigit c"
    "\<forall>c\<in>set s. isalpha c"
  moreover have "CHR '','' \<notin> set p" "CHR '','' \<notin> set ds" "CHR '','' \<notin> set s"
    using all isalpha_literals(1) isdigit_literals(1) by blast+
  ultimately show ?thesis
    by simp
qed

lemma node_name_no_comma:
  assumes "node_name name"
  shows "CHR '','' \<notin> set name \<and> name \<noteq> []"
proof (cases "regular_name name")
  case True
  then show ?thesis
    by (rule regular_name_no_comma)
next
  case False
  then have "name \<noteq> []" "\<forall>c\<in>set name. \<not> is_special c"
    using assms by (simp_all add: node_name_def plain_name_def list_all_iff)
  then show ?thesis
    unfolding is_special_def by blast
qed

lemma add_node_name:
  assumes "node_name name" "nodes_inv ids"
  shows "\<exists>ids'. regex_add_node name ids = Ret ids' \<and> nodes_inv ids' \<and>
           mset (names_of ids') = add_mset name (mset (names_of ids))"
  using assms add_node_regular add_node_plain unfolding node_name_def by blast

lemma create_loop_ok:
  assumes "\<forall>v\<in>set vs. node_name v" "nodes_inv ids"
  shows "\<exists>ids'. regex_create_loop (intersperse_join CHR '','' vs) ids = Ret ids' \<and> nodes_inv ids' \<and>
           mset (names_of ids') = mset (names_of ids) + mset vs"
  using assms
proof (induction vs arbitrary: ids)
  case Nil
  then show ?case
    by (simp add: regex_create_loop.simps)
next
  case (Cons v vs)
  have v: "CHR '','' \<notin> set v" "v \<noteq> []"
    using Cons.prems node_name_no_comma by auto
  obtain ids1 where ids1: "regex_add_node v ids = Ret ids1" "nodes_inv ids1"
    "mset (names_of ids1) = add_mset v (mset (names_of ids))"
    using add_node_name [of v ids] Cons.prems by auto
  show ?case
  proof (cases "vs = []")
    case True
    then show ?thesis
      using v ids1 regex_create_loop.simps [of v ids] by simp
  next
    case False
    then have "intersperse_join CHR '','' (v # vs) = v @ CHR '','' # intersperse_join CHR '','' vs"
      by (cases vs) auto
    moreover obtain ids2 where "regex_create_loop (intersperse_join CHR '','' vs) ids1 = Ret ids2"
      "nodes_inv ids2" "mset (names_of ids2) = mset (names_of ids1) + mset vs"
      using Cons.IH [of ids1] Cons.prems(1) ids1(2) by auto
    ultimately show ?thesis
      using v ids1 regex_create_loop.simps [of "v @ CHR '','' # intersperse_join CHR '','' vs" ids]
      by simp
  qed
qed

section \<open>The round trip\<close>

lemma append_all_eq: "append_all names ts = Argv.extend names ts"
  by (induction names ts rule: append_all.induct) (auto simp: Argv.extend_def)

lemma join_has_comma: "2 \<le> length vs \<Longrightarrow> d \<in> set (intersperse_join d vs)"
  by (induction d vs rule: intersperse_join.induct) auto



text \<open>
  Digits behind the first letter of a suffix are counted into the number of digits of the
  group but kept in the suffix, so that expanding pads too much: \<^verbatim>\<open>a1b2\<close> comes back as \<^verbatim>\<open>a01b2\<close>.
\<close>

theorem regex_suffix_digits:
  "orte_regex_create ''a1b2,c'' = Ret (OPAL_SUCCESS, Some ''a[2:1]b2,c'') \<and>
   orte_regex_extract_node_names malloc_ok (Some ''a[2:1]b2,c'') None False =
     Ret (OPAL_SUCCESS, Some [''a01b2'', ''c''])"
  by code_simp

text \<open>
  \<^verbatim>\<open>orte_regex_extract_name_range\<close> rejects every bracketed range behind a non-empty prefix:
  the prefix is terminated before the right bracket is searched from the start of the text.
\<close>

theorem name_range_prefix_rejected:
  assumes "pre \<noteq> []" "CHR ''['' \<notin> set pre" "CHR '']'' \<notin> set pre"
  shows "orte_regex_extract_name_range (pre @ CHR ''['' # rest) names = Ret (OPAL_ERR_BAD_PARAM, names)"
  using assms by (simp add: orte_regex_extract_name_range_def)

theorem name_range_prefix_rejected_witness:
  "orte_regex_extract_name_range (''n'' @ CHR ''['' # ''a-c]'') None = Ret (OPAL_ERR_BAD_PARAM, None)"
  by (rule name_range_prefix_rejected) simp_all

section \<open>Processes per node\<close>

definition show_ppn :: "nat \<times> nat \<Rightarrow> string" where
  "show_ppn item = (case item of (cnt, reps) \<Rightarrow> dec cnt @ ''(x'' @ dec reps @ '')'')"

lemma ppn_item_show:
  assumes "int c \<le> INT_MAX" "int r \<le> INT_MAX"
  shows "ppn_item (show_ppn (c, r) @ rest) = (int c, int r, rest)"
proof -
  have long: "int c \<le> LONG_MAX" "int r \<le> LONG_MAX"
    using assms by (simp_all add: INT_MAX_def LONG_MAX_def)
  have "strtol (dec c @ ''(x'' @ dec r @ CHR '')'' # rest) = (int c, ''(x'' @ dec r @ CHR '')'' # rest, False)"
      "strtol (dec r @ CHR '')'' # rest) = (int r, CHR '')'' # rest, False)"
    using long by (auto intro!: strtol_dec simp: isdigit_def)
  then show ?thesis
    using assms by (simp add: ppn_item_def show_ppn_def int_of_long_small)
qed

definition ppn_list :: "(nat \<times> nat) list \<Rightarrow> int list" where
  "ppn_list items = concat (map (\<lambda>(c, r). replicate r (int c)) items)"

lemma ppn_loop_show:
  assumes "\<forall>(c, r)\<in>set items. int c \<le> INT_MAX \<and> int r \<le> INT_MAX" "items \<noteq> []" "length tmp \<le> k"
  shows "ppn_loop k (intersperse_join CHR '','' (map show_ppn items)) tmp =
           (OPAL_SUCCESS, tmp @ take (k - length tmp) (ppn_list items))"
  using assms
proof (induction items arbitrary: tmp)
  case (Cons it items)
  obtain c r where it: "it = (c, r)" "int c \<le> INT_MAX" "int r \<le> INT_MAX"
    using Cons.prems(1) by (cases it) auto
  let ?tmp = "tmp @ replicate (min r (k - length tmp)) (int c)"
  have take: "?tmp @ take (k - length ?tmp) xs = tmp @ take (k - length tmp) (replicate r (int c) @ xs)" for xs
    using Cons.prems(3) by (auto simp: min_def)
  show ?case
  proof (cases "items = []")
    case True
    then show ?thesis
      using ppn_item_show [OF it(2,3), of "[]"] Cons.prems(3)
      by (subst ppn_loop.simps) (simp add: it(1) ppn_list_def min.commute)
  next
    case False
    then have "intersperse_join CHR '','' (map show_ppn (it # items)) =
        show_ppn (c, r) @ CHR '','' # intersperse_join CHR '','' (map show_ppn items)"
      using it(1) by (cases items) auto
    moreover have "length ?tmp \<le> k"
      using Cons.prems(3) by simp
    ultimately show ?thesis
      using ppn_item_show [OF it(2,3)] Cons.IH [of ?tmp] Cons.prems(1) False take [of "ppn_list items"]
      by (subst ppn_loop.simps) (simp add: it(1) ppn_list_def Let_def)
  qed
qed simp

text \<open>
  C31: \<^verbatim>\<open>orte_regex_extract_ppn\<close> on a list of items \<^verbatim>\<open>count(xreps)\<close> returns \<^verbatim>\<open>num_nodes\<close> numbers:
  each count as often as its repetitions say, cut off after \<^verbatim>\<open>num_nodes\<close> and filled up with
  zeros.
\<close>

theorem regex_extract_ppn_correct:
  assumes "\<forall>(c, r)\<in>set items. int c \<le> INT_MAX \<and> int r \<le> INT_MAX" "items \<noteq> []"
  shows "orte_regex_extract_ppn malloc_ok num_nodes (intersperse_join CHR '','' (map show_ppn items)) =
           (OPAL_SUCCESS, Some (take num_nodes (ppn_list items @ replicate num_nodes 0)))"
  using ppn_loop_show [OF assms, of "[]" num_nodes]
  by (simp add: orte_regex_extract_ppn_def take_append min_def)

theorem regex_extract_ppn_correct_witness:
  "orte_regex_extract_ppn malloc_ok 5 (intersperse_join CHR '','' (map show_ppn [(4, 2), (1, 1)])) =
     (OPAL_SUCCESS, Some (take 5 (ppn_list [(4, 2), (1, 1)] @ replicate 5 0)))"
  by (rule regex_extract_ppn_correct) (simp_all add: INT_MAX_def)

end
