(* ===== verification/Logical_Group_Map.thy ===== *)
theory Logical_Group_Map
  imports Logical_Group Regex_Round_Trip
begin

text \<open>
  Logical groups as a map from tags to lists of members: what adding and removing do to it, when lists
  stay valid, and what is written to the file and read back.
\<close>

section \<open>Abstraction and invariant\<close>

definition grp :: "lg_state \<Rightarrow> 8 word list \<rightharpoonup> nat" where
  "grp st k = ht_map (lg_groups st) (KPtr k)"

definition lg_abs :: "lg_state \<Rightarrow> string \<rightharpoonup> string list" where
  "lg_abs st t = (case grp st (tag_key t) of None \<Rightarrow> None | Some a \<Rightarrow> lg_heap st a)"

text \<open>
  Every key is that of a tag, every address in the table is allocated, and no two tags share a list.
\<close>

definition is_tag_key :: "8 word list \<Rightarrow> bool" where
  "is_tag_key k \<longleftrightarrow> (\<exists>t. k = tag_key t \<and> CHR 0x00 \<notin> set t)"

definition lg_inv :: "lg_state \<Rightarrow> bool" where
  "lg_inv st \<longleftrightarrow>
     ht_inv Methods_ptr (lg_groups st) \<and>
     (\<forall>k a. grp st k = Some a \<longrightarrow> lg_heap st a \<noteq> None \<and> a < lg_next st \<and> is_tag_key k) \<and>
     (\<forall>k k' a. grp st k = Some a \<longrightarrow> grp st k' = Some a \<longrightarrow> k = k')"

definition merge_members :: "string list \<Rightarrow> string list \<Rightarrow> string list" where
  "merge_members = foldl (\<lambda>cur m. if m \<in> set cur then cur else cur @ [m])"

definition remove_members :: "string list \<Rightarrow> string list \<Rightarrow> string list" where
  "remove_members = foldl (\<lambda>ms m. remove1 m ms)"

lemma of_char_inj: "(of_nat (of_char c) :: 8 word) = of_nat (of_char d) \<longleftrightarrow> c = d"
proof -
  have "unat (of_nat (of_char e) :: 8 word) = of_char e" for e :: char
    by (simp add: unat_of_nat)
  then show ?thesis
    by (metis of_char_eq_iff)
qed

lemma tag_key_inj [simp]: "tag_key s = tag_key t \<longleftrightarrow> s = t"
proof -
  have "inj (\<lambda>c. of_nat (of_char c) :: 8 word)"
    by (auto intro!: injI simp: of_char_inj)
  then show ?thesis
    by (auto simp: tag_key_def dest: map_injective)
qed

lemma member_exist_iff [simp]: "member_exist ms m \<longleftrightarrow> m \<in> set ms"
  by (auto simp: member_exist_def list_ex_iff)

lemma merge_members_simps [simp]:
  "merge_members cur [] = cur"
  "merge_members cur (m # ms) = merge_members (if m \<in> set cur then cur else cur @ [m]) ms"
  by (simp_all add: merge_members_def)

lemma set_merge_members [simp]: "set (merge_members cur ms) = set cur \<union> set ms"
  by (induction ms arbitrary: cur) auto

lemma distinct_merge_members: "distinct cur \<Longrightarrow> distinct (merge_members cur ms)"
  by (induction ms arbitrary: cur) auto

lemma merge_members_new: "distinct (cur @ ms) \<Longrightarrow> merge_members cur ms = cur @ ms"
  by (induction ms arbitrary: cur) auto

lemma merge_members_append: "merge_members cur (xs @ ys) = merge_members (merge_members cur xs) ys"
  by (simp add: merge_members_def)

section \<open>Operations of the table\<close>

text \<open>The contract of the hash table, in terms of \<open>grp\<close>.\<close>

lemma lg_get:
  assumes "lg_inv st"
  obtains ht where
    "opal_hash_table_get_value_ptr debug (lg_groups st) k = Ret (found_code (grp st k), grp st k, ht)"
    "lg_inv (st\<lparr>lg_groups := ht\<rparr>)" "grp (st\<lparr>lg_groups := ht\<rparr>) = grp st"
    "lg_abs (st\<lparr>lg_groups := ht\<rparr>) = lg_abs st" "ht_size ht = ht_size (lg_groups st)"
proof -
  obtain ht where ht: "opal_hash_table_get_value_ptr debug (lg_groups st) k = Ret (found_code (grp st k), grp st k, ht)"
      "ht_inv Methods_ptr ht" "\<forall>k. ht_map ht (KPtr k) = grp st k"
    using ptr.get_law [of "lg_groups st" debug k] assms by (auto simp: lg_inv_def grp_def [abs_def] fun_eq_iff)
  then have g: "grp (st\<lparr>lg_groups := ht\<rparr>) = grp st"
    by (simp add: grp_def fun_eq_iff)
  have "ht_size ht = ht_size (lg_groups st)"
    by (rule ptr_sized.get_size [OF _ ht(1)]) (use assms in \<open>simp add: lg_inv_def\<close>)
  then show ?thesis
    by (intro that [OF ht(1) _ g]) (use assms ht(2) g in \<open>simp_all add: lg_inv_def lg_abs_def fun_eq_iff split: option.split\<close>)
qed

lemma lg_put:
  assumes "ht_inv Methods_ptr (lg_groups st)" "ht_size (lg_groups st) < 2 ^ 50"
  obtains ht where
    "opal_hash_table_set_value_ptr debug malloc_ok (lg_groups st) k a = Ret (OPAL_SUCCESS, ht)"
    "grp (st\<lparr>lg_groups := ht\<rparr>) = (grp st)(k \<mapsto> a)" "ht_inv Methods_ptr ht" "ht_size ht \<le> ht_size (lg_groups st) + 1"
proof -
  obtain ht where "opal_hash_table_set_value_ptr debug malloc_ok (lg_groups st) k a = Ret (OPAL_SUCCESS, ht)"
    "(\<lambda>k. ht_map ht (KPtr k)) = (grp st)(k \<mapsto> a)" "ht_inv Methods_ptr ht" "ht_size ht \<le> ht_size (lg_groups st) + 1"
    using ptr_sized.put_room [OF assms, of debug k a] by (auto simp: grp_def [abs_def])
  then show ?thesis
    by (intro that [of ht]) (simp_all add: grp_def [abs_def])
qed

lemma lg_del:
  assumes "ht_inv Methods_ptr (lg_groups st)"
  obtains ht where
    "opal_hash_table_remove_value_ptr debug (lg_groups st) k = Ret (found_code (grp st k), ht)"
    "ht_inv Methods_ptr ht" "grp (st\<lparr>lg_groups := ht\<rparr>) = (grp st)(k := None)" "ht_size ht \<le> ht_size (lg_groups st)"
proof -
  obtain ht where ht: "opal_hash_table_remove_value_ptr debug (lg_groups st) k = Ret (found_code (grp st k), ht)"
    "ht_inv Methods_ptr ht" "(\<lambda>k. ht_map ht (KPtr k)) = (grp st)(k := None)"
    using ptr.del_law [OF assms, of debug k] by (auto simp: grp_def [abs_def])
  then show ?thesis
    using ptr_sized.del_size [OF assms ht(1)] by (intro that [of ht]) (simp_all add: grp_def [abs_def])
qed

section \<open>Adding\<close>

lemma add_members_ok:
  "lg_heap st a = Some cur \<Longrightarrow>
     add_members ms a st = Ret (st\<lparr>lg_heap := (lg_heap st)(a \<mapsto> merge_members cur ms)\<rparr>)"
proof (induction ms arbitrary: st cur)
  case Nil
  then show ?case
    by (simp add: fun_upd_idem)
next
  case (Cons m ms)
  show ?case
  proof (cases "m \<in> set cur")
    case True
    then show ?thesis
      using Cons by simp
  next
    case False
    then show ?thesis
      using Cons.prems Cons.IH [of "st\<lparr>lg_heap := (lg_heap st)(a \<mapsto> cur @ [m])\<rparr>" "cur @ [m]"]
      by (simp add: orcm_logical_group_list_append_def fun_upd_same del: fun_upd_apply)
  qed
qed

text \<open>The list for a tag: the one in the table, or a new one.\<close>

lemma hash_table_get_ok:
  assumes "lg_inv st"
  obtains a st1 where "orcm_logical_group_hash_table_get debug st t = Ret (a, st1)"
    "lg_inv st1" "lg_abs st1 = lg_abs st" "lg_heap st1 a = Some (case lg_abs st t of None \<Rightarrow> [] | Some ms \<Rightarrow> ms)"
    "a < lg_next st1" "grp st1 = grp st" "grp st (tag_key t) = None \<or> grp st (tag_key t) = Some a"
    "\<forall>k. grp st k = Some a \<longrightarrow> k = tag_key t" "lg_current_tag st1 = lg_current_tag st"
    "ht_size (lg_groups st1) = ht_size (lg_groups st)"
proof (rule lg_get [OF assms, of debug "tag_key t"])
  fix ht
  let ?st = "st\<lparr>lg_groups := ht\<rparr>"
  assume get: "opal_hash_table_get_value_ptr debug (lg_groups st) (tag_key t) =
      Ret (found_code (grp st (tag_key t)), grp st (tag_key t), ht)"
    and inv: "lg_inv ?st" and g: "grp ?st = grp st" and abs: "lg_abs ?st = lg_abs st"
    and size: "ht_size ht = ht_size (lg_groups st)"
  show ?thesis
  proof (cases "grp st (tag_key t)")
    case None
    let ?n = "lg_next st" and ?new = "snd (lg_alloc [] ?st)"
    have new: "\<forall>k. grp st k \<noteq> Some ?n"
      using assms by (auto simp: lg_inv_def)
    have g': "grp ?new = grp st"
      using g by (simp add: grp_def [abs_def] lg_alloc_def)
    show ?thesis
    proof (rule that [of ?n ?new])
      show "orcm_logical_group_hash_table_get debug st t = Ret (?n, ?new)"
        using get None by (simp add: orcm_logical_group_hash_table_get_def lg_alloc_def)
      show "lg_inv ?new"
        using inv g g' new by (auto simp: lg_inv_def lg_alloc_def less_SucI)
      show "lg_abs ?new = lg_abs st"
        using abs new g g' by (auto simp: lg_abs_def lg_alloc_def fun_eq_iff split: option.splits)
      show "lg_heap ?new ?n = Some (case lg_abs st t of None \<Rightarrow> [] | Some ms \<Rightarrow> ms)"
        using None by (simp add: lg_alloc_def lg_abs_def)
    qed (use None new g' size in \<open>auto simp: lg_alloc_def\<close>)
  next
    case (Some a)
    then have a: "lg_heap st a \<noteq> None" "a < lg_next st" "\<forall>k. grp st k = Some a \<longrightarrow> k = tag_key t"
      using assms unfolding lg_inv_def by blast+
    show ?thesis
    proof (rule that [of a ?st])
      show "orcm_logical_group_hash_table_get debug st t = Ret (a, ?st)"
        using get Some by (simp add: orcm_logical_group_hash_table_get_def)
      show "lg_heap ?st a = Some (case lg_abs st t of None \<Rightarrow> [] | Some ms \<Rightarrow> ms)"
        using a(1) Some by (auto simp: lg_abs_def)
      show "\<forall>k. grp st k = Some a \<longrightarrow> k = tag_key t"
        by (rule a(3))
    qed (use inv abs g a(2) Some size in simp_all)
  qed
qed

lemma lg_abs_upd:
  assumes "grp st' = (grp st)(tag_key t \<mapsto> a)" "lg_heap st' = (lg_heap st)(a \<mapsto> ms)"
    "\<forall>k. grp st k = Some a \<longrightarrow> k = tag_key t"
  shows "lg_abs st' = (lg_abs st)(t \<mapsto> ms)"
proof
  fix s
  have "grp st (tag_key s) \<noteq> Some a" if "s \<noteq> t"
    using assms(3) that tag_key_inj by blast
  then show "lg_abs st' s = ((lg_abs st)(t \<mapsto> ms)) s"
    using assms(1,2) by (cases "s = t") (auto simp: lg_abs_def split: option.splits)
qed

lemma lg_inv_upd:
  assumes "lg_inv st" "grp st' = (grp st)(key \<mapsto> a)" "lg_heap st' = (lg_heap st)(a \<mapsto> ms)" "a < lg_next st'"
    "lg_next st \<le> lg_next st'" "\<forall>k. grp st k = Some a \<longrightarrow> k = key" "ht_inv Methods_ptr (lg_groups st')"
    "is_tag_key key"
  shows "lg_inv st'"
  unfolding lg_inv_def
proof (intro conjI allI impI)
  fix k b
  assume "grp st' k = Some b"
  then have "b = a \<and> k = key \<or> lg_heap st b \<noteq> None \<and> b < lg_next st \<and> is_tag_key k"
    using assms(1,2) by (auto simp: lg_inv_def split: if_splits)
  then show "lg_heap st' b \<noteq> None" "b < lg_next st'" "is_tag_key k"
    using assms(3-5,8) by auto
next
  fix k k' b
  assume k: "grp st' k = Some b" "grp st' k' = Some b"
  show "k = k'"
  proof (cases "b = a")
    case True
    then have "k = key" "k' = key"
      using k assms(2,6) by (metis fun_upd_apply)+
    then show ?thesis
      by simp
  next
    case False
    then have "grp st k = Some b" "grp st k' = Some b"
      using k assms(2) by (auto split: if_splits)
    then show ?thesis
      using assms(1) unfolding lg_inv_def by blast
  qed
qed (rule assms(7))

lemma lg_add_ok:
  assumes inv: "lg_inv st"
    and tag_ok: "CHR 0x00 \<notin> set t"
    and names: "orte_regex_extract_node_names malloc_ok regex None errno = Ret (OPAL_SUCCESS, names)"
    and room: "ht_size (lg_groups st) < 2 ^ 50"
  shows "\<exists>st'. orcm_logical_group_add debug errno (Some t) regex st = Ret (OPAL_SUCCESS, st') \<and>
           lg_inv st' \<and> lg_current_tag st' = lg_current_tag st \<and> ht_size (lg_groups st') \<le> ht_size (lg_groups st) + 1 \<and>
           lg_abs st' = (lg_abs st)(t \<mapsto> merge_members (case lg_abs st t of None \<Rightarrow> [] | Some ms \<Rightarrow> ms)
                                         (argv_members names))"
proof (rule hash_table_get_ok [OF inv, of debug t])
  fix a and st1 :: lg_state
  let ?cur = "case lg_abs st t of None \<Rightarrow> [] | Some ms \<Rightarrow> ms"
  let ?ms = "merge_members ?cur (argv_members names)"
  let ?st2 = "st1\<lparr>lg_heap := (lg_heap st1)(a \<mapsto> ?ms)\<rparr>"
  assume get: "orcm_logical_group_hash_table_get debug st t = Ret (a, st1)"
    and st1: "lg_inv st1" "lg_abs st1 = lg_abs st" "lg_heap st1 a = Some ?cur" "a < lg_next st1" "grp st1 = grp st"
    and a: "grp st (tag_key t) = None \<or> grp st (tag_key t) = Some a" "\<forall>k. grp st k = Some a \<longrightarrow> k = tag_key t"
    and tag: "lg_current_tag st1 = lg_current_tag st" and size: "ht_size (lg_groups st1) = ht_size (lg_groups st)"
  have ht: "ht_inv Methods_ptr (lg_groups ?st2)" and g2: "grp ?st2 = grp st"
    using st1(1,5) by (simp_all add: lg_inv_def grp_def [abs_def])
  show ?thesis
  proof (rule lg_put [OF ht, of debug "tag_key t" a])
    show "ht_size (lg_groups ?st2) < 2 ^ 50"
      using room size by simp
    fix ht
    let ?st3 = "?st2\<lparr>lg_groups := ht\<rparr>"
    assume put: "opal_hash_table_set_value_ptr debug malloc_ok (lg_groups ?st2) (tag_key t) a = Ret (OPAL_SUCCESS, ht)"
      and g: "grp ?st3 = (grp ?st2)(tag_key t \<mapsto> a)"
      and h: "ht_inv Methods_ptr ht" "ht_size ht \<le> ht_size (lg_groups ?st2) + 1"
    have run: "orcm_logical_group_add debug errno (Some t) regex st = Ret (OPAL_SUCCESS, ?st3)"
      using get names add_members_ok [OF st1(3)] put
      by (simp add: orcm_logical_group_add_def orcm_logical_group_add_internal_def)
    have "lg_abs ?st3 = (lg_abs st1)(t \<mapsto> ?ms)"
    proof (rule lg_abs_upd [of _ _ _ a])
      show "\<forall>k. grp st1 k = Some a \<longrightarrow> k = tag_key t"
        unfolding st1(5) by (rule a(2))
    qed (use g g2 st1(5) in simp_all)
    moreover have "lg_inv ?st3"
    proof (rule lg_inv_upd [OF st1(1)])
      show "grp ?st3 = (grp st1)(tag_key t \<mapsto> a)"
        using g g2 st1(5) by simp
      show "\<forall>k. grp st1 k = Some a \<longrightarrow> k = tag_key t"
        unfolding st1(5) by (rule a(2))
    qed (use h st1(4) tag_ok in \<open>auto simp: is_tag_key_def\<close>)
    ultimately show ?thesis
      using run st1(2) tag size h(2) by auto
  qed
qed

section \<open>Removing\<close>

lemma all_exist_iff:
  "orcm_logical_group_all_members_exist_one_tag val ms =
     (if set ms \<subseteq> set val then OPAL_SUCCESS else ORCM_ERR_NODE_NOT_EXIST)"
  by (induction ms) auto

lemma lg_inv_shrink:
  assumes "lg_inv st" "grp st' = (grp st)(key := None)" "\<forall>a. lg_heap st a \<noteq> None \<longrightarrow> lg_heap st' a \<noteq> None"
    "lg_next st' = lg_next st" "ht_inv Methods_ptr (lg_groups st')"
  shows "lg_inv st'"
  unfolding lg_inv_def
proof (intro conjI allI impI)
  fix k a
  assume "grp st' k = Some a"
  then have "grp st k = Some a"
    using assms(2) by (simp split: if_splits)
  then show "lg_heap st' a \<noteq> None" "a < lg_next st'" "is_tag_key k"
    using assms(1,3,4) unfolding lg_inv_def by auto
next
  fix k k' a
  assume "grp st' k = Some a" "grp st' k' = Some a"
  then have "grp st k = Some a" "grp st k' = Some a"
    using assms(2) by (simp_all split: if_splits)
  then show "k = k'"
    using assms(1) unfolding lg_inv_def by blast
qed (rule assms(5))

lemma lg_abs_del:
  assumes "grp st' = (grp st)(tag_key t := None)" "grp st (tag_key t) = Some a"
    "\<forall>b. b \<noteq> a \<longrightarrow> lg_heap st' b = lg_heap st b" "lg_inv st"
  shows "lg_abs st' = (lg_abs st)(t := None)"
proof
  fix s
  have "grp st (tag_key s) \<noteq> Some a" if "s \<noteq> t"
    using assms(2,4) that tag_key_inj unfolding lg_inv_def by blast
  then show "lg_abs st' s = ((lg_abs st)(t := None)) s"
    using assms(1,3) by (cases "s = t") (auto simp: lg_abs_def split: option.splits)
qed

lemma remove_members_ok:
  assumes inv: "lg_inv st" and a: "grp st (tag_key t) = Some a" "lg_heap st a = Some val"
    and room: "ht_size (lg_groups st) < 2 ^ 50"
  shows "\<exists>st'. orcm_logical_group_hash_table_remove_members debug (tag_key t) a ms st = Ret (OPAL_SUCCESS, st') \<and>
           lg_inv st' \<and> ht_size (lg_groups st') \<le> ht_size (lg_groups st) + 1 \<and>
           lg_abs st' = (lg_abs st)(t := (if remove_members val ms = [] then None else Some (remove_members val ms)))"
proof -
  let ?rest = "remove_members val ms"
  let ?st1 = "st\<lparr>lg_heap := (lg_heap st)(a \<mapsto> ?rest)\<rparr>"
  have ht: "ht_inv Methods_ptr (lg_groups ?st1)" and g: "grp ?st1 = grp st"
    and next_a: "a < lg_next st" "is_tag_key (tag_key t)"
    using inv a by (auto simp: lg_inv_def grp_def [abs_def])
  have uniq: "\<forall>k. grp st k = Some a \<longrightarrow> k = tag_key t"
    using inv a(1) unfolding lg_inv_def by blast
  show ?thesis
  proof (cases "?rest = []")
    case True
    show ?thesis
    proof (rule lg_del [OF ht, of debug "tag_key t"])
      fix ht'
      let ?st2 = "?st1\<lparr>lg_groups := ht'\<rparr>"
      assume del: "opal_hash_table_remove_value_ptr debug (lg_groups ?st1) (tag_key t) =
          Ret (found_code (grp ?st1 (tag_key t)), ht')"
        and h: "ht_inv Methods_ptr ht'" and g2: "grp ?st2 = (grp ?st1)(tag_key t := None)"
        and size: "ht_size ht' \<le> ht_size (lg_groups ?st1)"
      have "orcm_logical_group_hash_table_remove_members debug (tag_key t) a ms st = Ret (OPAL_SUCCESS, ?st2)"
        using del a g True by (simp add: orcm_logical_group_hash_table_remove_members_def remove_members_def found_code_def)
      moreover have "lg_inv ?st2"
        by (rule lg_inv_shrink [OF inv]) (use g2 g h in simp_all)
      moreover have "lg_abs ?st2 = (lg_abs st)(t := None)"
        by (rule lg_abs_del [OF _ a(1) _ inv]) (use g2 g in simp_all)
      ultimately show ?thesis
        using True size by simp
    qed
  next
    case False
    show ?thesis
    proof (rule lg_put [OF ht, of debug "tag_key t" a])
      show "ht_size (lg_groups ?st1) < 2 ^ 50"
        using room by simp
      fix ht'
      let ?st2 = "?st1\<lparr>lg_groups := ht'\<rparr>"
      assume put: "opal_hash_table_set_value_ptr debug malloc_ok (lg_groups ?st1) (tag_key t) a = Ret (OPAL_SUCCESS, ht')"
        and g2: "grp ?st2 = (grp ?st1)(tag_key t \<mapsto> a)"
        and h: "ht_inv Methods_ptr ht'" "ht_size ht' \<le> ht_size (lg_groups ?st1) + 1"
      have "orcm_logical_group_hash_table_remove_members debug (tag_key t) a ms st = Ret (OPAL_SUCCESS, ?st2)"
        using put a False by (simp add: orcm_logical_group_hash_table_remove_members_def remove_members_def)
      moreover have "lg_inv ?st2"
        by (rule lg_inv_upd [OF inv _ _ _ _ uniq]) (use g g2 next_a h in simp_all)
      moreover have "lg_abs ?st2 = (lg_abs st)(t \<mapsto> ?rest)"
        by (rule lg_abs_upd [OF _ _ uniq]) (use g g2 in simp_all)
      ultimately show ?thesis
        using h False by auto
    qed
  qed
qed

text \<open>What removing members from one group does; \<open>None\<close> stands for all members.\<close>

definition spec_remove :: "string \<Rightarrow> string list option \<Rightarrow> (string \<rightharpoonup> string list) \<Rightarrow> status \<times> (string \<rightharpoonup> string list)" where
  "spec_remove t ms G =
     (if G = Map.empty then (ORCM_ERR_NO_ANY_GROUP, G)
      else
        (case G t of
           None \<Rightarrow> (ORCM_ERR_GROUP_NOT_EXIST, G)
         | Some val \<Rightarrow>
             (case ms of
                None \<Rightarrow> (OPAL_SUCCESS, G(t := None))
              | Some xs \<Rightarrow>
                  if set xs \<subseteq> set val
                  then (OPAL_SUCCESS, G(t := (if remove_members val xs = [] then None else Some (remove_members val xs))))
                  else (ORCM_ERR_NODE_NOT_EXIST, G))))"

lemma remove_a_tag_ok:
  assumes inv: "lg_inv st" and ne: "lg_abs st \<noteq> Map.empty" and room: "ht_size (lg_groups st) < 2 ^ 50"
  shows "\<exists>rc st'. orcm_logical_group_remove_a_tag debug t (case ms of None \<Rightarrow> [] | Some xs \<Rightarrow> xs) (ms = None) st = Ret (rc, st') \<and>
           lg_inv st' \<and> ht_size (lg_groups st') \<le> ht_size (lg_groups st) + 1 \<and>
           (rc, lg_abs st') = spec_remove t ms (lg_abs st)"
proof (rule lg_get [OF inv, of debug "tag_key t"])
  fix ht
  let ?st1 = "st\<lparr>lg_groups := ht\<rparr>"
  assume get: "opal_hash_table_get_value_ptr debug (lg_groups st) (tag_key t) =
      Ret (found_code (grp st (tag_key t)), grp st (tag_key t), ht)"
    and st1: "lg_inv ?st1" "grp ?st1 = grp st" "lg_abs ?st1 = lg_abs st" "ht_size ht = ht_size (lg_groups st)"
  show ?thesis
  proof (cases "grp st (tag_key t)")
    case None
    then have "lg_abs st t = None"
      by (simp add: lg_abs_def)
    then show ?thesis
      using get None st1 ne by (simp add: orcm_logical_group_remove_a_tag_def spec_remove_def found_code_def)
  next
    case (Some a)
    then obtain val where val: "lg_heap st a = Some val"
      using inv unfolding lg_inv_def by blast
    then have abs: "lg_abs st t = Some val"
      using Some by (simp add: lg_abs_def)
    show ?thesis
    proof (cases ms)
      case None
      have "ht_inv Methods_ptr (lg_groups ?st1)"
        using st1(1) by (simp add: lg_inv_def)
      then show ?thesis
      proof (rule lg_del [of _ debug "tag_key t"])
        fix ht'
        let ?st2 = "?st1\<lparr>lg_groups := ht'\<rparr>"
        assume del: "opal_hash_table_remove_value_ptr debug (lg_groups ?st1) (tag_key t) =
            Ret (found_code (grp ?st1 (tag_key t)), ht')"
          and h: "ht_inv Methods_ptr ht'" "grp ?st2 = (grp ?st1)(tag_key t := None)" "ht_size ht' \<le> ht_size (lg_groups ?st1)"
        have "orcm_logical_group_remove_a_tag debug t [] True st = Ret (OPAL_SUCCESS, ?st2)"
          using get del Some st1(2) by (simp add: orcm_logical_group_remove_a_tag_def found_code_def)
        moreover have "lg_inv ?st2"
          by (rule lg_inv_shrink [OF st1(1)]) (use h in simp_all)
        moreover have "lg_abs ?st2 = (lg_abs ?st1)(t := None)"
          by (rule lg_abs_del [OF _ _ _ st1(1), of _ _ a]) (use h st1(2) Some in simp_all)
        ultimately show ?thesis
          using None abs ne st1(3,4) h(3) by (simp add: spec_remove_def)
      qed
    next
      case (Some xs)
      have run: "orcm_logical_group_remove_a_tag debug t xs False st =
          (if set xs \<subseteq> set val then orcm_logical_group_hash_table_remove_members debug (tag_key t) a xs ?st1
           else Ret (ORCM_ERR_NODE_NOT_EXIST, ?st1))"
        using get \<open>grp st (tag_key t) = Some a\<close> val
        by (simp add: orcm_logical_group_remove_a_tag_def all_exist_iff found_code_def)
      have "\<exists>st'. orcm_logical_group_hash_table_remove_members debug (tag_key t) a xs ?st1 = Ret (OPAL_SUCCESS, st') \<and>
          lg_inv st' \<and> ht_size (lg_groups st') \<le> ht_size (lg_groups ?st1) + 1 \<and>
          lg_abs st' = (lg_abs ?st1)(t := (if remove_members val xs = [] then None else Some (remove_members val xs)))"
        by (rule remove_members_ok [OF st1(1)]) (use st1(2,4) \<open>grp st (tag_key t) = Some a\<close> val room in simp_all)
      then show ?thesis
        using run abs ne Some st1 by (auto simp: spec_remove_def simp del: fun_upd_apply)
    qed
  qed
qed

text \<open>The size of the table is the number of groups.\<close>

lemma lg_finite_size:
  assumes "lg_inv st"
  shows "finite (dom (lg_abs st))" "ht_size (lg_groups st) = card (dom (lg_abs st))"
proof -
  have inv: "ht_inv Methods_ptr (lg_groups st)"
    using assms by (simp add: lg_inv_def)
  have grp: "grp st = (\<lambda>k. ht_map (lg_groups st) (KPtr k))"
    by (simp add: grp_def fun_eq_iff)
  have "dom (grp st) = tag_key ` dom (lg_abs st)"
  proof (intro set_eqI iffI)
    fix k
    assume "k \<in> dom (grp st)"
    then obtain a where a: "grp st k = Some a"
      by blast
    then obtain t where "k = tag_key t" "lg_heap st a \<noteq> None"
      using assms unfolding lg_inv_def is_tag_key_def by blast
    then show "k \<in> tag_key ` dom (lg_abs st)"
      using a by (auto simp: lg_abs_def)
  qed (auto simp: lg_abs_def split: option.splits)
  moreover have "finite (dom (grp st))" "ht_size (lg_groups st) = card (dom (grp st))"
    unfolding grp by (rule ptr_sized.finite_law [OF inv] ptr_sized.size_law [OF inv])+
  moreover have "inj_on tag_key (dom (lg_abs st))"
    by (simp add: inj_on_def)
  ultimately show "finite (dom (lg_abs st))" "ht_size (lg_groups st) = card (dom (lg_abs st))"
    by (auto simp: card_image dest: finite_imageD)
qed

lemmas lg_finite = lg_finite_size(1)

lemmas lg_size = lg_finite_size(2)

lemma size_zero_iff:
  assumes "lg_inv st"
  shows "ht_size (lg_groups st) = 0 \<longleftrightarrow> lg_abs st = Map.empty"
proof
  let ?es = "entries (ht_table (lg_groups st))"
  have base: "ht_base Methods_ptr (lg_groups st)"
    using assms by (simp add: lg_inv_def ht_inv_def)
  then have size: "ht_size (lg_groups st) = length ?es" and ptr: "\<forall>e\<in>set ?es. methods_of (fst e) = Methods_ptr"
    by (simp_all add: ht_base_def elts_ok_def)
  {
    assume "ht_size (lg_groups st) = 0"
    then show "lg_abs st = Map.empty"
      using size by (auto simp: lg_abs_def grp_def ht_map_def)
  next
    assume empty: "lg_abs st = Map.empty"
    show "ht_size (lg_groups st) = 0"
    proof (rule ccontr)
      assume "ht_size (lg_groups st) \<noteq> 0"
      then obtain k v where kv: "(k, v) \<in> set ?es"
        using size by (cases ?es) auto
      then obtain bs where bs: "k = KPtr bs"
        using ptr by (cases k) auto
      then have g: "grp st bs = Some v"
        using kv base by (simp add: grp_def ht_map_Some)
      then obtain t where "bs = tag_key t" "lg_heap st v \<noteq> None"
        using assms unfolding lg_inv_def is_tag_key_def by blast
      then show False
        using g empty by (auto simp: lg_abs_def fun_eq_iff split: option.splits)
    qed
  }
qed

lemma init_ok_state:
  assumes "orcm_logical_group_init = Ret (OPAL_SUCCESS, st)"
  shows "lg_inv st" "lg_abs st = Map.empty" "lg_current_tag st = None"
proof -
  obtain ht :: "nat opal_hash_table_t" where
    ht: "opal_hash_table_init malloc_ok opal_hash_table_construct HASH_SIZE = Ret (OPAL_SUCCESS, ht)"
    and st: "st = \<lparr>lg_groups = ht, lg_heap = Map.empty, lg_next = 0, lg_current_tag = None\<rparr>"
    using assms by (auto simp: orcm_logical_group_init_def outcome_simps)
  have "ht_inv Methods_ptr ht" "ht_map ht = Map.empty"
    using init_inv [OF _ ht] by (simp_all add: HASH_SIZE_def)
  then show "lg_inv st" "lg_abs st = Map.empty" "lg_current_tag st = None"
    using st by (simp_all add: lg_inv_def lg_abs_def grp_def fun_eq_iff)
qed

section \<open>Sequences of requests\<close>

datatype lg_op = Lg_add string string | Lg_remove string string

definition expand :: "string \<Rightarrow> string list option" where
  "expand regex =
     (case orte_regex_extract_node_names malloc_ok (Some regex) None False of
        Ret (rc, names) \<Rightarrow> if rc = OPAL_SUCCESS then Some (argv_members names) else None
      | _ \<Rightarrow> None)"

definition op_ok :: "lg_op \<Rightarrow> bool" where
  "op_ok x =
     (case x of
        Lg_add t r \<Rightarrow> CHR 0x00 \<notin> set t \<and> expand r \<noteq> None
      | Lg_remove t r \<Rightarrow> t \<noteq> ''*'' \<and> (r = ''*'' \<or> expand r \<noteq> None))"

definition lg_step :: "bool \<Rightarrow> lg_op \<Rightarrow> lg_state \<Rightarrow> (status \<times> lg_state) outcome" where
  "lg_step debug x st =
     (case x of
        Lg_add t r \<Rightarrow> orcm_logical_group_add debug False (Some t) (Some r) st
      | Lg_remove t r \<Rightarrow> orcm_logical_group_remove debug False t (Some r) st)"

definition spec_step :: "lg_op \<Rightarrow> (string \<rightharpoonup> string list) \<Rightarrow> status \<times> (string \<rightharpoonup> string list)" where
  "spec_step x G =
     (case x of
        Lg_add t r \<Rightarrow>
          (OPAL_SUCCESS, G(t \<mapsto> merge_members (case G t of None \<Rightarrow> [] | Some ms \<Rightarrow> ms) (the (expand r))))
      | Lg_remove t r \<Rightarrow> spec_remove t (if r = ''*'' then None else expand r) G)"

primrec lg_run :: "bool \<Rightarrow> lg_op list \<Rightarrow> lg_state \<Rightarrow> (status list \<times> lg_state) outcome" where
  "lg_run debug [] st = Ret ([], st)"
| "lg_run debug (x # xs) st =
     obind (lg_step debug x st) (\<lambda>(rc, st1).
       obind (lg_run debug xs st1) (\<lambda>(rcs, st2). Ret (rc # rcs, st2)))"

primrec spec_run :: "lg_op list \<Rightarrow> (string \<rightharpoonup> string list) \<Rightarrow> status list \<times> (string \<rightharpoonup> string list)" where
  "spec_run [] G = ([], G)"
| "spec_run (x # xs) G =
     (case spec_step x G of (rc, G') \<Rightarrow> (case spec_run xs G' of (rcs, G'') \<Rightarrow> (rc # rcs, G'')))"

lemma expandE:
  assumes "expand r = Some ms"
  obtains names where "orte_regex_extract_node_names malloc_ok (Some r) None False = Ret (OPAL_SUCCESS, names)"
    "argv_members names = ms"
  using assms by (auto simp: expand_def split: outcome.splits prod.splits if_splits)

lemma lg_step_ok:
  assumes inv: "lg_inv st" and ok: "op_ok x" and room: "ht_size (lg_groups st) < 2 ^ 50"
  shows "\<exists>rc st'. lg_step debug x st = Ret (rc, st') \<and> lg_inv st' \<and>
           ht_size (lg_groups st') \<le> ht_size (lg_groups st) + 1 \<and> (rc, lg_abs st') = spec_step x (lg_abs st)"
proof (cases x)
  case (Lg_add t r)
  then obtain ms where ms: "expand r = Some ms"
    using ok by (auto simp: op_ok_def)
  then obtain names where names: "orte_regex_extract_node_names malloc_ok (Some r) None False = Ret (OPAL_SUCCESS, names)"
    "argv_members names = ms"
    by (rule expandE)
  have "CHR 0x00 \<notin> set t"
    using ok Lg_add by (simp add: op_ok_def)
  from lg_add_ok [OF inv this names(1) room, of debug] show ?thesis
    using Lg_add ms names(2) by (auto simp: lg_step_def spec_step_def simp del: fun_upd_apply)
next
  case (Lg_remove t r)
  then have t: "\<not> is_do_all_wildcard (Some t)"
    using ok by (simp add: op_ok_def is_do_all_wildcard_def)
  show ?thesis
  proof (cases "ht_size (lg_groups st) = 0")
    case True
    then show ?thesis
      using Lg_remove inv size_zero_iff [OF inv]
      by (simp add: lg_step_def spec_step_def spec_remove_def orcm_logical_group_remove_def)
  next
    case False
    then have ne: "lg_abs st \<noteq> Map.empty"
      using size_zero_iff [OF inv] by simp
    define ms where "ms = (if r = ''*'' then None else expand r)"
    have "orcm_logical_group_remove debug False t (Some r) st =
        orcm_logical_group_remove_a_tag debug t (case ms of None \<Rightarrow> [] | Some xs \<Rightarrow> xs) (ms = None) st"
    proof (cases "r = ''*''")
      case True
      then show ?thesis
        using False t by (simp add: orcm_logical_group_remove_def orcm_logical_group_remove_internal_def ms_def
            is_do_all_wildcard_def)
    next
      case r: False
      then obtain xs where xs: "expand r = Some xs"
        using ok Lg_remove by (auto simp: op_ok_def)
      then obtain names where "orte_regex_extract_node_names malloc_ok (Some r) None False = Ret (OPAL_SUCCESS, names)"
        "argv_members names = xs"
        by (rule expandE)
      then show ?thesis
        using False t r xs by (simp add: orcm_logical_group_remove_def orcm_logical_group_remove_internal_def ms_def
            is_do_all_wildcard_def)
    qed
    then show ?thesis
      using remove_a_tag_ok [OF inv ne room, of debug t ms] Lg_remove by (simp add: lg_step_def spec_step_def ms_def)
  qed
qed

lemma lg_run_ok:
  assumes "lg_inv st" "list_all op_ok xs" "ht_size (lg_groups st) + length xs \<le> 2 ^ 50"
  shows "\<exists>rcs st'. lg_run debug xs st = Ret (rcs, st') \<and> lg_inv st' \<and>
           (rcs, lg_abs st') = spec_run xs (lg_abs st)"
  using assms
proof (induction xs arbitrary: st)
  case (Cons x xs)
  obtain rc st1 where st1: "lg_step debug x st = Ret (rc, st1)" "lg_inv st1"
      "ht_size (lg_groups st1) \<le> ht_size (lg_groups st) + 1" "spec_step x (lg_abs st) = (rc, lg_abs st1)"
    using lg_step_ok [OF Cons.prems(1), of x debug] Cons.prems(2,3) by auto
  obtain rcs st2 where st2: "lg_run debug xs st1 = Ret (rcs, st2)" "lg_inv st2"
    "spec_run xs (lg_abs st1) = (rcs, lg_abs st2)"
    using Cons.IH [OF st1(2)] Cons.prems(2,3) st1(3) by auto
  then show ?case
    using st1 by simp
qed simp

text \<open>A session: the requests, from the start.\<close>

definition lg_session :: "bool \<Rightarrow> lg_op list \<Rightarrow> (status list \<times> lg_state) outcome" where
  "lg_session debug xs = obind orcm_logical_group_init (\<lambda>(rc, st). lg_run debug xs st)"

lemma init_total: "\<exists>st. orcm_logical_group_init = Ret (OPAL_SUCCESS, st)"
  by (simp add: orcm_logical_group_init_def HASH_SIZE_def opal_hash_table_init_def opal_hash_table_init2_def
      opal_hash_round_capacity_up_def size_of_int_def calloc_ok_def size_t_def)

lemma lg_session_ok:
  assumes "list_all op_ok xs" "length xs \<le> 2 ^ 50"
  obtains rcs st where "lg_session debug xs = Ret (rcs, st)" "lg_inv st" "(rcs, lg_abs st) = spec_run xs Map.empty"
proof -
  obtain st0 where st0: "orcm_logical_group_init = Ret (OPAL_SUCCESS, st0)"
    using init_total by blast
  note i = init_ok_state [OF st0]
  have "ht_size (lg_groups st0) = 0"
    using size_zero_iff [OF i(1)] i(2) by simp
  then obtain rcs st where "lg_run debug xs st0 = Ret (rcs, st)" "lg_inv st" "(rcs, lg_abs st) = spec_run xs Map.empty"
    using lg_run_ok [OF i(1) assms(1), of debug] assms(2) i(2) by auto
  then show ?thesis
    by (intro that) (simp_all add: lg_session_def st0)
qed

section \<open>Plain names\<close>

text \<open>A list of names without brackets and commas expands to these names.\<close>

abbreviation comma_join :: "string list \<Rightarrow> string" where
  "comma_join \<equiv> intersperse_join CHR '',''"

definition plain :: "string \<Rightarrow> bool" where
  "plain m \<longleftrightarrow> m \<noteq> [] \<and> (\<forall>c\<in>set m. \<not> is_special c)"

lemma expand_plain:
  assumes "\<forall>m\<in>set g. plain m" "g \<noteq> []"
  shows "orte_regex_extract_node_names malloc_ok (Some (comma_join g)) None False = Ret (OPAL_SUCCESS, Some g)"
proof -
  define node where "node = (\<lambda>m. \<lparr>rn_prefix = Some m, rn_suffix = None, rn_num_digits = 0, rn_ranges = []\<rparr>)"
  have "node_ok (node m)" if "plain m" for m
    using that by (auto simp: node_def node_ok_def plain_def)
  then have "\<forall>n\<in>set (map node g). node_ok n"
    using assms(1) by auto
  from extract_loop_ok [OF this] show ?thesis
    using assms(2) by (simp add: orte_regex_extract_node_names_def node_def node_text_def expand_node_def opt_str_def
        comp_def Argv.extend_def)
qed


lemma expand_comma_join [simp]: "\<forall>m\<in>set g. plain m \<Longrightarrow> g \<noteq> [] \<Longrightarrow> expand (comma_join g) = Some g"
  by (simp add: expand_def expand_plain argv_members_def)

section \<open>Properties\<close>



text \<open>
  C34: Adding an expression that cannot be expanded to a group that exists returns the error and frees the list of the
  group, which the table still holds: the next addition of a member to the group uses memory that was freed.
\<close>

theorem logical_group_add_error_dangling:
  assumes "lg_inv st" "lg_abs st t = Some ms"
    and "orte_regex_extract_node_names malloc_ok regex None errno = Ret (rc, names)" "rc \<noteq> OPAL_SUCCESS"
    and "orte_regex_extract_node_names malloc_ok regex' None errno' = Ret (OPAL_SUCCESS, Some (m # ms'))"
  shows "obind (orcm_logical_group_add debug errno (Some t) regex st) (\<lambda>(rc', st').
           if rc' = rc then orcm_logical_group_add debug errno' (Some t) regex' st' else Ret (rc', st')) = Undef"
proof -
  obtain a where a: "grp st (tag_key t) = Some a"
    using assms(2) by (auto simp: lg_abs_def split: option.splits)
  obtain ht where ht: "opal_hash_table_get_value_ptr debug (lg_groups st) (tag_key t) = Ret (OPAL_SUCCESS, Some a, ht)"
      "lg_inv (st\<lparr>lg_groups := ht\<rparr>)" "grp (st\<lparr>lg_groups := ht\<rparr>) (tag_key t) = Some a"
    by (rule lg_get [OF assms(1), of debug "tag_key t"]) (simp add: a found_code_def)
  obtain ht' where ht': "opal_hash_table_get_value_ptr debug ht (tag_key t) = Ret (OPAL_SUCCESS, Some a, ht')"
    by (rule lg_get [OF ht(2), of debug "tag_key t"]) (use ht(3) in \<open>simp add: found_code_def\<close>)
  show ?thesis
    using assms(3-5) ht(1) ht'
    by (simp add: orcm_logical_group_add_def orcm_logical_group_hash_table_get_def orcm_logical_group_add_internal_def
        lg_release_def argv_members_def)
qed

text \<open>A group with one member, and an expression without the right bracket.\<close>

theorem logical_group_add_error_dangling_witness:
  "\<exists>st. lg_session False [Lg_add ''a'' ''x''] = Ret ([OPAL_SUCCESS], st) \<and>
    obind (orcm_logical_group_add False False (Some ''a'') (Some ''n[2:1'') st) (\<lambda>(rc', st').
      if rc' = OPAL_ERR_BAD_PARAM then orcm_logical_group_add False False (Some ''a'') (Some ''y'') st' else Ret (rc', st')) = Undef"
proof -
  have e: "expand ''x'' = Some [''x'']"
    using expand_comma_join [of "[''x'']"] by (simp add: plain_def is_special_def)
  have op: "list_all op_ok [Lg_add ''a'' ''x'']"
    by (simp add: op_ok_def e)
  obtain rcs st where st: "lg_session False [Lg_add ''a'' ''x''] = Ret (rcs, st)" "lg_inv st"
      "(rcs, lg_abs st) = spec_run [Lg_add ''a'' ''x''] Map.empty"
    by (rule lg_session_ok [OF op, of False]) simp_all
  then have abs: "lg_abs st ''a'' = Some [''x'']" "rcs = [OPAL_SUCCESS]"
    using e by (simp_all add: spec_step_def merge_members_def)
  have y: "orte_regex_extract_node_names malloc_ok (Some ''y'') None False = Ret (OPAL_SUCCESS, Some [''y''])"
    using expand_plain [of "[''y'']"] by (simp add: plain_def is_special_def)
  have "case orte_regex_extract_node_names malloc_ok (Some ''n[2:1'') None False of
      Ret r \<Rightarrow> fst r = OPAL_ERR_BAD_PARAM | _ \<Rightarrow> False"
    by code_simp
  then obtain names where "orte_regex_extract_node_names malloc_ok (Some ''n[2:1'') None False = Ret (OPAL_ERR_BAD_PARAM, names)"
    by (auto split: outcome.splits)
  then show ?thesis
    using logical_group_add_error_dangling [OF st(2) abs(1) _ _ y, of _ False OPAL_ERR_BAD_PARAM _ False] st(1) abs(2) by auto
qed

end
