(* ===== verification/Logical_Group_Nesting.thy ===== *)
theory Logical_Group_Nesting
  imports Logical_Group_Map
begin

text \<open>
  Expanding nested groups: when every group is a member of at most one group, the loop over the queue of tags ends and
  the result holds exactly the members that are not groups, each once.
\<close>

section \<open>The graph of the groups\<close>

definition members_of :: "(string \<rightharpoonup> string list) \<Rightarrow> string \<Rightarrow> string list" where
  "members_of G t = (case G t of None \<Rightarrow> [] | Some ms \<Rightarrow> ms)"

definition edge :: "(string \<rightharpoonup> string list) \<Rightarrow> string \<Rightarrow> string \<Rightarrow> bool" where
  "edge G t m \<longleftrightarrow> m \<in> set (members_of G t) \<and> G m \<noteq> None"

text \<open>
  The groups hang together as a forest with the given roots: no group is a member of two groups, or twice of one, and
  no root is a member of a group.
\<close>

definition forest :: "(string \<rightharpoonup> string list) \<Rightarrow> string set \<Rightarrow> bool" where
  "forest G roots \<longleftrightarrow>
     (\<forall>t ms. G t = Some ms \<longrightarrow> distinct ms) \<and>
     (\<forall>t t' m. edge G t m \<longrightarrow> edge G t' m \<longrightarrow> t = t') \<and> (\<forall>t m. edge G t m \<longrightarrow> m \<notin> roots)"

text \<open>The members of the groups below a tag that are not groups.\<close>

definition leaves :: "(string \<rightharpoonup> string list) \<Rightarrow> string list \<Rightarrow> string set" where
  "leaves G roots = {m. \<exists>r\<in>set roots. \<exists>t. (edge G)\<^sup>*\<^sup>* r t \<and> m \<in> set (members_of G t) \<and> G m = None}"

lemma leaves_append [simp]: "leaves G (xs @ ys) = leaves G xs \<union> leaves G ys"
  by (auto simp: leaves_def)

lemma leaves_Nil [simp]: "leaves G [] = {}"
  by (simp add: leaves_def)

text \<open>The leaves below a tag are its own and those below its groups.\<close>

lemma leaves_Cons:
  "leaves G (t # ts) =
     {m \<in> set (members_of G t). G m = None} \<union> leaves G (ts @ [m \<leftarrow> members_of G t. G m \<noteq> None])"
  (is "?l = ?own \<union> ?r")
proof -
  have "leaves G [t] = ?own \<union> leaves G [m \<leftarrow> members_of G t. G m \<noteq> None]"
  proof (intro set_eqI iffI)
    fix m
    assume "m \<in> leaves G [t]"
    then obtain u where u: "(edge G)\<^sup>*\<^sup>* t u" "m \<in> set (members_of G u)" "G m = None"
      by (auto simp: leaves_def)
    from u(1) show "m \<in> ?own \<union> leaves G [m \<leftarrow> members_of G t. G m \<noteq> None]"
      by (cases rule: converse_rtranclpE) (use u(2,3) in \<open>auto simp: leaves_def edge_def\<close>)
  next
    fix m
    assume "m \<in> ?own \<union> leaves G [m \<leftarrow> members_of G t. G m \<noteq> None]"
    then consider "m \<in> ?own" | r u where "edge G t r" "(edge G)\<^sup>*\<^sup>* r u" "m \<in> set (members_of G u)" "G m = None"
      by (auto simp: leaves_def edge_def)
    then show "m \<in> leaves G [t]"
      by cases (auto simp: leaves_def dest: converse_rtranclp_into_rtranclp)
  qed
  moreover have "leaves G (t # ts) = leaves G [t] \<union> leaves G ts"
    by (auto simp: leaves_def)
  ultimately show ?thesis
    by auto
qed

section \<open>One group\<close>

definition push_unique :: "string list \<Rightarrow> string \<Rightarrow> string list" where
  "push_unique xs x = (if x \<in> set xs then xs else xs @ [x])"

lemma append_unique_members [simp]:
  "argv_members (snd (opal_argv_append_unique_nosize malloc_ok argv m False)) = push_unique (argv_members argv) m"
  by (cases argv) (auto simp: argv_members_def opal_argv_append_unique_nosize_def push_unique_def)

lemma nested_members_ok:
  assumes "lg_inv st"
  shows "\<exists>tags' out' st'. nested_members debug st ms tags out cnt =
           Ret (tags', out', cnt + int (length [m \<leftarrow> ms. lg_abs st m \<noteq> None]), st') \<and> lg_inv st' \<and>
           lg_abs st' = lg_abs st \<and>
           argv_members tags' = foldl push_unique (argv_members tags) [m \<leftarrow> ms. lg_abs st m \<noteq> None] \<and>
           argv_members out' = foldl push_unique (argv_members out) [m \<leftarrow> ms. lg_abs st m = None]"
  using assms
proof (induction ms arbitrary: st tags out cnt)
  case (Cons m ms)
  obtain ht where ht: "opal_hash_table_get_value_ptr debug (lg_groups st) (tag_key m) =
        Ret (found_code (grp st (tag_key m)), grp st (tag_key m), ht)"
      "lg_inv (st\<lparr>lg_groups := ht\<rparr>)" "lg_abs (st\<lparr>lg_groups := ht\<rparr>) = lg_abs st"
    by (rule lg_get [OF Cons.prems, of debug "tag_key m"]) simp
  have none: "grp st (tag_key m) = None \<longleftrightarrow> lg_abs st m = None"
    using Cons.prems by (auto simp: lg_abs_def lg_inv_def split: option.splits)
  show ?case
  proof (cases "lg_abs st m")
    case None
    then show ?thesis
      using ht none Cons.IH [OF ht(2), of tags "snd (opal_argv_append_unique_nosize malloc_ok out m False)" cnt]
      by (simp add: found_code_def)
  next
    case (Some ms')
    then show ?thesis
      using ht none Cons.IH [OF ht(2), of "snd (opal_argv_append_unique_nosize malloc_ok tags m False)" out "cnt + 1"]
      by (simp add: found_code_def algebra_simps)
  qed
qed simp

lemma set_push_all [simp]: "set (foldl push_unique xs ys) = set xs \<union> set ys"
  by (induction ys arbitrary: xs) (auto simp: push_unique_def)

lemma distinct_push_all: "distinct xs \<Longrightarrow> distinct (foldl push_unique xs ys)"
  by (induction ys arbitrary: xs) (auto simp: push_unique_def)

lemma push_all_new: "distinct (xs @ ys) \<Longrightarrow> foldl push_unique xs ys = xs @ ys"
  by (induction ys arbitrary: xs) (auto simp: push_unique_def)

text \<open>One turn of the loop: the counter goes up for every group among the members and down for the deleted tag.\<close>

lemma nested_turn:
  assumes inv: "lg_inv st" and tags: "argv_members tags = t # ts" and cnt: "0 < cnt"
  defines "kids \<equiv> [m \<leftarrow> members_of (lg_abs st) t. lg_abs st m \<noteq> None]"
  obtains tags' out' st' where
    "nested_loop debug (Suc fuel) st tags out cnt = nested_loop debug fuel st' tags' out' (cnt + int (length kids) - 1)"
    "lg_inv st'" "lg_abs st' = lg_abs st" "argv_members tags' = tl (foldl push_unique (t # ts) kids)"
    "argv_members out' = foldl push_unique (argv_members out) [m \<leftarrow> members_of (lg_abs st) t. lg_abs st m = None]"
proof -
  obtain ht where ht: "opal_hash_table_get_value_ptr debug (lg_groups st) (tag_key t) =
        Ret (found_code (grp st (tag_key t)), grp st (tag_key t), ht)"
      "lg_inv (st\<lparr>lg_groups := ht\<rparr>)" "lg_abs (st\<lparr>lg_groups := ht\<rparr>) = lg_abs st"
    by (rule lg_get [OF inv, of debug "tag_key t"]) simp
  let ?st1 = "st\<lparr>lg_groups := ht\<rparr>"
  let ?visit = "case grp st (tag_key t) of None \<Rightarrow> Ret (tags, out, cnt, ?st1)
      | Some a \<Rightarrow> (case lg_heap ?st1 a of None \<Rightarrow> Undef | Some val \<Rightarrow> nested_members debug ?st1 val tags out cnt)"
  have "\<exists>tags' out' st'. ?visit = Ret (tags', out', cnt + int (length kids), st') \<and> lg_inv st' \<and> lg_abs st' = lg_abs st \<and>
      argv_members tags' = foldl push_unique (t # ts) kids \<and>
      argv_members out' = foldl push_unique (argv_members out) [m \<leftarrow> members_of (lg_abs st) t. lg_abs st m = None]"
  proof (cases "grp st (tag_key t)")
    case None
    then have "members_of (lg_abs st) t = []"
      by (simp add: members_of_def lg_abs_def)
    then show ?thesis
      using None tags ht by (simp add: kids_def)
  next
    case (Some a)
    then obtain val where val: "lg_heap st a = Some val" "members_of (lg_abs st) t = val"
      using inv by (fastforce simp: lg_inv_def members_of_def lg_abs_def)
    then show ?thesis
      using nested_members_ok [OF ht(2), of debug val tags out cnt] ht(3) tags Some by (simp add: kids_def)
  qed
  then obtain tags' out' st' where visit: "?visit = Ret (tags', out', cnt + int (length kids), st')" "lg_inv st'"
      "lg_abs st' = lg_abs st" "argv_members tags' = foldl push_unique (t # ts) kids"
      "argv_members out' = foldl push_unique (argv_members out) [m \<leftarrow> members_of (lg_abs st) t. lg_abs st m = None]"
    by blast
  have "foldl push_unique (t # ts) kids \<noteq> []"
    by (metis set_push_all Un_empty list.set(1) list.distinct(1) set_empty)
  then obtain v vs where vs: "tags' = Some (v # vs)"
    using visit(4) by (cases tags') (auto simp: argv_members_def neq_Nil_conv)
  have "nested_loop debug (Suc fuel) st tags out cnt = nested_loop debug fuel st' (Some vs) out' (cnt + int (length kids) - 1)"
    using visit(1) cnt vs delete_eq [of 0 "v # vs" 1 "cnt + int (length kids)"]
    by (simp only: nested_loop.simps tags ht(1) obind.simps prod.case list.case Let_def) (simp add: INT_MAX_def)
  moreover have "argv_members (Some vs) = tl (foldl push_unique (t # ts) kids)"
    using visit(4) vs by (simp add: argv_members_def flip: visit(4))
  ultimately show thesis
    using visit(2,3,5) that by blast
qed

section \<open>The loop\<close>

text \<open>
  The tags in the queue and those that were expanded (\<open>D\<close>) are roots or members of groups that were expanded, so that no
  group meets its members again.
\<close>

definition visited :: "(string \<rightharpoonup> string list) \<Rightarrow> string set \<Rightarrow> string set \<Rightarrow> string list \<Rightarrow> bool" where
  "visited G roots D q \<longleftrightarrow>
     distinct q \<and> set q \<inter> D = {} \<and> D \<union> set q \<subseteq> dom G \<union> roots \<and>
     (\<forall>x\<in>D \<union> set q. x \<in> roots \<or> (\<exists>p\<in>D. edge G p x))"

lemma visited_turn:
  assumes "forest G roots" "visited G roots D (t # ts)"
  shows "distinct (t # ts @ [m \<leftarrow> members_of G t. G m \<noteq> None])"
    "visited G roots (insert t D) (ts @ [m \<leftarrow> members_of G t. G m \<noteq> None])"
proof -
  let ?kids = "[m \<leftarrow> members_of G t. G m \<noteq> None]"
  have kid: "edge G t m" "m \<notin> D \<union> set (t # ts)" "m \<in> dom G" if "m \<in> set ?kids" for m
  proof -
    show e: "edge G t m"
      using that by (simp add: edge_def)
    show "m \<in> dom G"
      using that by auto
    show "m \<notin> D \<union> set (t # ts)"
    proof
      assume "m \<in> D \<union> set (t # ts)"
      then obtain p where "p \<in> D" "edge G p m"
        using assms e unfolding visited_def forest_def by blast
      then have "t \<in> D"
        using assms(1) e unfolding forest_def by metis
      then show False
        using assms(2) by (auto simp: visited_def)
    qed
  qed
  have "distinct ?kids"
    using assms(1) by (auto simp: forest_def members_of_def split: option.split)
  moreover have sep: "set ?kids \<inter> (D \<union> set (t # ts)) = {}" "set ?kids \<subseteq> dom G"
    using kid(2,3) by blast+
  moreover have old: "distinct (t # ts)" "set (t # ts) \<inter> D = {}" "D \<union> set (t # ts) \<subseteq> dom G \<union> roots"
    using assms(2) unfolding visited_def by blast+
  ultimately show d: "distinct (t # ts @ ?kids)"
    unfolding append_Cons [symmetric] distinct_append by blast
  have "x \<in> roots \<or> (\<exists>p\<in>insert t D. edge G p x)" if "x \<in> insert t D \<union> set (ts @ ?kids)" for x
  proof (cases "x \<in> set ?kids")
    case False
    then show ?thesis
      using that assms(2) unfolding visited_def by auto
  qed (use kid(1) in blast)
  moreover have "set (ts @ ?kids) \<inter> insert t D = {}" "insert t D \<union> set (ts @ ?kids) \<subseteq> dom G \<union> roots"
    unfolding set_append using sep old(1) old(2,3) by (simp_all only: list.set distinct.simps) blast+
  ultimately show "visited G roots (insert t D) (ts @ ?kids)"
    unfolding visited_def using d by simp
qed

lemma nested_loop_forest:
  assumes "forest G roots" "finite (dom G \<union> roots)"
    and "lg_inv st" "lg_abs st = G" "visited G roots D (argv_members tags)" "card (dom G \<union> roots - D) < fuel"
    and "distinct (argv_members out)"
  shows "\<exists>out' st'. nested_loop debug fuel st tags out (int (length (argv_members tags))) = Ret (OPAL_SUCCESS, out', st') \<and>
           lg_inv st' \<and> lg_abs st' = G \<and> distinct (argv_members out') \<and>
           set (argv_members out') = set (argv_members out) \<union> leaves G (argv_members tags)"
  using assms(3-)
proof (induction fuel arbitrary: st tags out D)
  case (Suc fuel)
  show ?case
  proof (cases "argv_members tags")
    case Nil
    then show ?thesis
      using Suc.prems by simp
  next
    case (Cons t ts)
    let ?kids = "[m \<leftarrow> members_of G t. G m \<noteq> None]"
    have vis: "visited G roots D (t # ts)"
      using Suc.prems(3) Cons by simp
    note turn = visited_turn [OF assms(1) vis]
    have new: "foldl push_unique (t # ts) ?kids = t # ts @ ?kids"
      using push_all_new [of "t # ts" ?kids] turn(1) by simp
    note G = Suc.prems(2) [symmetric]
    obtain tags' out1 st1 where t1: "nested_loop debug (Suc fuel) st tags out (int (length (t # ts))) =
           nested_loop debug fuel st1 tags' out1 (int (length (t # ts)) + int (length ?kids) - 1)" "lg_inv st1" "lg_abs st1 = G"
           "argv_members tags' = tl (foldl push_unique (t # ts) ?kids)"
           "argv_members out1 = foldl push_unique (argv_members out) [m \<leftarrow> members_of G t. G m = None]"
      unfolding G by (rule nested_turn [OF Suc.prems(1) Cons, of "int (length (t # ts))" debug fuel out]) simp_all
    have tags': "argv_members tags' = ts @ ?kids" "int (length (t # ts)) + int (length ?kids) - 1 = int (length (argv_members tags'))"
      unfolding t1(4) new by simp_all
    have "t \<in> dom G \<union> roots - D"
      using vis by (auto simp: visited_def)
    then have "card (dom G \<union> roots - insert t D) < fuel"
      using Suc.prems(4) assms(2) card_Diff1_less [of "dom G \<union> roots - D" t] by (simp add: Diff_insert [symmetric])
    then obtain out' st' where "nested_loop debug fuel st1 tags' out1 (int (length (argv_members tags'))) = Ret (OPAL_SUCCESS, out', st')"
           "lg_inv st'" "lg_abs st' = G" "distinct (argv_members out')"
           "set (argv_members out') = set (argv_members out1) \<union> leaves G (argv_members tags')"
      using Suc.IH [OF t1(2,3), of "insert t D" tags' out1] turn(2) tags'(1) t1(5) Suc.prems(5)
      by (auto simp: distinct_push_all)
    then show ?thesis
      using t1(1,5) tags'(1) unfolding tags'(2) by (simp add: Cons leaves_Cons [of G t] Un_assoc [symmetric])
  qed
qed simp

section \<open>Expressions\<close>

definition is_tag_ref :: "string \<Rightarrow> bool" where
  "is_tag_ref name \<longleftrightarrow> name \<noteq> [] \<and> hd name = CHR ''$''"

text \<open>The tags that the names of an expression refer to.\<close>

definition tag_refs :: "string list \<Rightarrow> string list" where
  "tag_refs names = map tl [n \<leftarrow> names. is_tag_ref n]"

lemma split_tags_ok:
  assumes "split_tags names tags out = (tags', out')"
  shows "argv_members tags' = foldl push_unique (argv_members tags) (tag_refs names)"
    "argv_members out' = foldl push_unique (argv_members out) [n \<leftarrow> names. \<not> is_tag_ref n]"
  using assms
  by (induction names arbitrary: tags out) (auto simp: split_tags_def tag_refs_def is_tag_ref_def split: if_splits)

lemma leaves_cong: "set xs = set ys \<Longrightarrow> leaves G xs = leaves G ys"
  by (simp add: leaves_def)

lemma opal_argv_count_members: "opal_argv_count argv = length (argv_members argv)"
  by (cases argv) (simp_all add: opal_argv_count_def argv_members_def)

lemma expand_forest_ok:
  assumes inv: "lg_inv st" and trim: "orcm_logical_group_trim_string regex = (expr, regex')"
    and names: "expand expr = Some names" and ne: "expr \<noteq> []"
    and forest: "forest (lg_abs st) (set (tag_refs names))"
    and fuel: "card (dom (lg_abs st)) + length (tag_refs names) < fuel"
  shows "\<exists>out st'. orcm_logical_group_parse_array_string debug False fuel (Some regex) st =
             Ret (OPAL_SUCCESS, out, Some regex', st') \<and>
           lg_inv st' \<and> lg_abs st' = lg_abs st \<and> distinct (argv_members out) \<and>
           set (argv_members out) = {n \<in> set names. \<not> is_tag_ref n} \<union> leaves (lg_abs st) (tag_refs names)"
proof -
  obtain ns where ns: "orte_regex_extract_node_names malloc_ok (Some expr) None False =
      Ret (OPAL_SUCCESS, ns)" "argv_members ns = names"
    using names by (rule expandE)
  obtain tags out where split: "split_tags names None None = (tags, out)"
    by (cases "split_tags names None None")
  note sp = split_tags_ok [OF split]
  have tags: "set (argv_members tags) = set (tag_refs names)" "distinct (argv_members tags)"
    and out: "set (argv_members out) = {n \<in> set names. \<not> is_tag_ref n}" "distinct (argv_members out)"
    using sp by (auto simp: argv_members_def [of None] distinct_push_all)
  have fin: "finite (dom (lg_abs st) \<union> set (tag_refs names))"
    using lg_finite [OF inv] by simp
  have "card (dom (lg_abs st) \<union> set (tag_refs names)) \<le> card (dom (lg_abs st)) + length (tag_refs names)"
    by (rule order.trans [OF card_Un_le]) (simp add: card_length)
  then have room: "card (dom (lg_abs st) \<union> set (tag_refs names) - {}) < fuel"
    using fuel by simp
  have "visited (lg_abs st) (set (tag_refs names)) {} (argv_members tags)"
    using tags by (auto simp: visited_def)
  from nested_loop_forest [OF forest fin inv refl this room out(2), of debug]
  obtain out' st' where "nested_loop debug fuel st tags out (int (length (argv_members tags))) = Ret (OPAL_SUCCESS, out', st')"
      "lg_inv st'" "lg_abs st' = lg_abs st" "distinct (argv_members out')"
      "set (argv_members out') = set (argv_members out) \<union> leaves (lg_abs st) (argv_members tags)"
    by blast
  then show ?thesis
    using ns split trim ne out(1) leaves_cong [OF tags(1), of "lg_abs st"]
    by (simp add: orcm_logical_group_parse_array_string_def orcm_logical_group_tag_to_members_nested_def
        opal_argv_count_members)
qed

section \<open>Groups that are not a forest\<close>

lemma cycle_loop:
  assumes "lg_inv st" "lg_abs st a = Some [b]" "lg_abs st b = Some [a]" "a \<noteq> b" "argv_members tags = [a]"
  shows "nested_loop debug fuel st tags out 1 = Diverge"
  using assms
proof (induction fuel arbitrary: st tags out a b)
  case (Suc fuel)
  show ?case
    by (rule nested_turn [OF Suc.prems(1,5), of 1 debug fuel out])
      (use Suc.prems(2-4) Suc.IH in \<open>auto simp: members_of_def push_unique_def\<close>)
qed simp

text \<open>Two groups that share a member group: the counter is one more than the number of tags.\<close>

lemma nested_step:
  assumes "lg_inv st" "lg_abs st = G" "argv_members tags = t # ts" "0 < cnt"
    and "[m \<leftarrow> members_of G t. G m \<noteq> None] = kids" "cnt' = cnt + int (length kids) - 1"
    and "tl (foldl push_unique (t # ts) kids) = ts'"
  shows "\<exists>tags' out' st'. nested_loop debug (Suc fuel) st tags out cnt = nested_loop debug fuel st' tags' out' cnt' \<and>
           lg_inv st' \<and> lg_abs st' = G \<and> argv_members tags' = ts'"
  by (rule nested_turn [OF assms(1,3,4), of debug fuel out]) (use assms(2,5-7) in blast)

lemma diamond_loop:
  assumes "lg_inv st" "distinct [a, b, c, d, x]" "argv_members tags = [a]"
    and abs: "lg_abs st = G" and G: "G = [a \<mapsto> [b, c], b \<mapsto> [d], c \<mapsto> [d], d \<mapsto> [x]]"
  shows "nested_loop debug (Suc (Suc (Suc (Suc (Suc fuel))))) st tags out 1 = Undef"
proof -
  have kids: "[m \<leftarrow> members_of G a. G m \<noteq> None] = [b, c]" "[m \<leftarrow> members_of G b. G m \<noteq> None] = [d]"
      "[m \<leftarrow> members_of G c. G m \<noteq> None] = [d]" "[m \<leftarrow> members_of G d. G m \<noteq> None] = []"
    using assms(2) by (auto simp: G members_of_def)
  have queue: "tl (foldl push_unique [a] [b, c]) = [b, c]" "tl (foldl push_unique [b, c] [d]) = [c, d]"
      "tl (foldl push_unique [c, d] [d]) = [d]" "tl (foldl push_unique [d] []) = []"
    using assms(2) by (auto simp: push_unique_def)
  obtain tags1 out1 st1 where 1: "nested_loop debug (Suc (Suc (Suc (Suc (Suc fuel))))) st tags out 1 =
      nested_loop debug (Suc (Suc (Suc (Suc fuel)))) st1 tags1 out1 2" "lg_inv st1" "lg_abs st1 = G" "argv_members tags1 = [b, c]"
    using nested_step [OF assms(1) abs assms(3) _ kids(1) _ queue(1), of 1 2 debug "Suc (Suc (Suc (Suc fuel)))" out] by (auto simp del: nested_loop.simps)
  obtain tags2 out2 st2 where 2: "nested_loop debug (Suc (Suc (Suc (Suc fuel)))) st1 tags1 out1 2 =
      nested_loop debug (Suc (Suc (Suc fuel))) st2 tags2 out2 2" "lg_inv st2" "lg_abs st2 = G" "argv_members tags2 = [c, d]"
    using nested_step [OF 1(2-4) _ kids(2) _ queue(2), of 2 2 debug "Suc (Suc (Suc fuel))" out1] by (auto simp del: nested_loop.simps)
  obtain tags3 out3 st3 where 3: "nested_loop debug (Suc (Suc (Suc fuel))) st2 tags2 out2 2 =
      nested_loop debug (Suc (Suc fuel)) st3 tags3 out3 2" "lg_inv st3" "lg_abs st3 = G" "argv_members tags3 = [d]"
    using nested_step [OF 2(2-4) _ kids(3) _ queue(3), of 2 2 debug "Suc (Suc fuel)" out2] by (auto simp del: nested_loop.simps)
  obtain tags4 out4 st4 where "nested_loop debug (Suc (Suc fuel)) st3 tags3 out3 2 =
      nested_loop debug (Suc fuel) st4 tags4 out4 1" "argv_members tags4 = []"
    using nested_step [OF 3(2-4) _ kids(4) _ queue(4), of 2 1 debug "Suc fuel" out3] by (auto simp del: nested_loop.simps)
  then have "nested_loop debug (Suc (Suc fuel)) st3 tags3 out3 2 = Undef"
    by simp
  then show ?thesis
    unfolding 1(1) 2(1) 3(1) .
qed

lemma parse_array_string_tag:
  assumes "is_tag_ref s" "plain s" "orcm_logical_group_trim_string s = (s, s)"
  shows "orcm_logical_group_parse_array_string debug False fuel (Some s) st =
           obind (nested_loop debug fuel st (Some [tl s]) None 1) (\<lambda>(rc, out, st1).
             Ret (rc, if rc \<noteq> OPAL_SUCCESS then None else out, Some s, st1))"
proof -
  have "orte_regex_extract_node_names malloc_ok (Some s) None False = Ret (OPAL_SUCCESS, Some [s])"
    using expand_plain [of "[s]"] assms(2) by simp
  moreover have "split_tags [s] None None = (Some [tl s], None)"
    using assms(1) by (simp add: split_tags_def is_tag_ref_def opal_argv_append_unique_nosize_def)
  ultimately show ?thesis
    using assms by (simp add: orcm_logical_group_parse_array_string_def orcm_logical_group_tag_to_members_nested_def
        is_tag_ref_def argv_members_def opal_argv_count_def)
qed

lemma trim_tag_a: "orcm_logical_group_trim_string ''$a'' = (''$a'', ''$a'')"
  by code_simp

section \<open>Properties\<close>

text \<open>
  C12: Expanding an expression over nested groups ends: when no group is a member of two groups and no group of the
  expression is a member of a group, the loop returns after at most as many turns as there are groups and tags, and the
  result holds, each once, the names of the expression that are not tags and exactly the members below the tags that
  are not groups themselves.  The expression of the caller has lost the blanks at its end.
\<close>

theorem logical_group_expansion_ends:
  assumes "lg_inv st" "orcm_logical_group_trim_string regex = (expr, regex')"
    and "expand expr = Some names" and "expr \<noteq> []"
    and "forest (lg_abs st) (set (tag_refs names))"
    and "card (dom (lg_abs st)) + length (tag_refs names) < fuel"
  shows "\<exists>out st'. orcm_logical_group_parse_array_string debug False fuel (Some regex) st =
             Ret (OPAL_SUCCESS, out, Some regex', st') \<and>
           lg_abs st' = lg_abs st \<and> distinct (argv_members out) \<and>
           set (argv_members out) = {n \<in> set names. \<not> is_tag_ref n} \<union> leaves (lg_abs st) (tag_refs names)"
  using expand_forest_ok [OF assms, of debug] by blast

text \<open>A group with a member and a group, and a name beside it.\<close>

theorem logical_group_expansion_ends_witness:
  "\<exists>st out st'. lg_session False [Lg_add ''a'' ''x,b'', Lg_add ''b'' ''y''] = Ret ([OPAL_SUCCESS, OPAL_SUCCESS], st) \<and>
     orcm_logical_group_parse_array_string False False 4 (Some ''$a,z '') st = Ret (OPAL_SUCCESS, out, Some ''$a,z'', st') \<and>
     set (argv_members out) = {''z''} \<union> leaves [''a'' \<mapsto> [''x'', ''b''], ''b'' \<mapsto> [''y'']] [''a'']"
proof -
  let ?ops = "[Lg_add ''a'' ''x,b'', Lg_add ''b'' ''y'']"
  have e: "expand ''x,b'' = Some [''x'', ''b'']" "expand ''y'' = Some [''y'']" "expand ''$a,z'' = Some [''$a'', ''z'']"
    using expand_comma_join [of "[''x'', ''b'']"] expand_comma_join [of "[''y'']"] expand_comma_join [of "[''$a'', ''z'']"]
    by (simp_all add: plain_def is_special_def)
  have trim: "orcm_logical_group_trim_string ''$a,z '' = (''$a,z'', ''$a,z'')"
    by code_simp
  obtain rcs st where st: "lg_session False ?ops = Ret (rcs, st)" "lg_inv st" "(rcs, lg_abs st) = spec_run ?ops Map.empty"
    by (rule lg_session_ok [of ?ops False]) (simp_all add: op_ok_def e)
  then have abs: "lg_abs st = [''a'' \<mapsto> [''x'', ''b''], ''b'' \<mapsto> [''y'']]" "rcs = [OPAL_SUCCESS, OPAL_SUCCESS]"
    using e by (simp_all add: spec_step_def merge_members_def)
  have refs: "tag_refs [''$a'', ''z''] = [''a'']" "{n \<in> set [''$a'', ''z'']. \<not> is_tag_ref n} = {''z''}"
    by (auto simp: tag_refs_def is_tag_ref_def)
  have "forest (lg_abs st) (set [''a''])"
    by (auto simp: abs(1) forest_def edge_def members_of_def split: if_splits)
  then show ?thesis
    using logical_group_expansion_ends [OF st(2) trim e(3), of 4 False] refs st(1) abs
    by auto
qed

text \<open>
  C35: Two groups that are members of each other: expanding one of them never ends, whatever the number of turns.
\<close>

theorem logical_group_cycle_diverges:
  "obind (lg_session debug [Lg_add ''a'' ''b'', Lg_add ''b'' ''a'']) (\<lambda>(rcs, st).
     orcm_logical_group_parse_array_string debug False fuel (Some ''$a'') st) = Diverge"
proof -
  let ?ops = "[Lg_add ''a'' ''b'', Lg_add ''b'' ''a'']"
  have e: "expand ''a'' = Some [''a'']" "expand ''b'' = Some [''b'']"
    using expand_comma_join [of "[''a'']"] expand_comma_join [of "[''b'']"] by (simp_all add: plain_def is_special_def)
  obtain rcs st where st: "lg_session debug ?ops = Ret (rcs, st)" "lg_inv st" "(rcs, lg_abs st) = spec_run ?ops Map.empty"
    by (rule lg_session_ok [of ?ops debug]) (simp_all add: op_ok_def e)
  then have "lg_abs st ''a'' = Some [''b'']" "lg_abs st ''b'' = Some [''a'']"
    using e by (simp_all add: spec_step_def merge_members_def)
  from cycle_loop [OF st(2) this, of "Some [''a'']" debug fuel None] show ?thesis
    using st(1) by (simp add: parse_array_string_tag is_tag_ref_def plain_def is_special_def argv_members_def
        trim_tag_a)
qed

text \<open>
  C36: Two groups that have a group in common: the counter of the tags goes up for it twice, the queue holds it once, and
  the expansion reads behind the end of the queue.
\<close>

theorem logical_group_diamond_undefined:
  "obind (lg_session debug [Lg_add ''a'' ''b,c'', Lg_add ''b'' ''d'', Lg_add ''c'' ''d'', Lg_add ''d'' ''x'']) (\<lambda>(rcs, st).
     orcm_logical_group_parse_array_string debug False (fuel + 5) (Some ''$a'') st) = Undef"
proof -
  let ?ops = "[Lg_add ''a'' ''b,c'', Lg_add ''b'' ''d'', Lg_add ''c'' ''d'', Lg_add ''d'' ''x'']"
  have e: "expand ''b,c'' = Some [''b'', ''c'']" "expand ''d'' = Some [''d'']" "expand ''x'' = Some [''x'']"
    using expand_comma_join [of "[''b'', ''c'']"] expand_comma_join [of "[''d'']"] expand_comma_join [of "[''x'']"]
    by (simp_all add: plain_def is_special_def)
  obtain rcs st where st: "lg_session debug ?ops = Ret (rcs, st)" "lg_inv st" "(rcs, lg_abs st) = spec_run ?ops Map.empty"
    by (rule lg_session_ok [of ?ops debug]) (simp_all add: op_ok_def e)
  then have abs: "lg_abs st = [''a'' \<mapsto> [''b'', ''c''], ''b'' \<mapsto> [''d''], ''c'' \<mapsto> [''d''], ''d'' \<mapsto> [''x'']]"
    using e by (simp add: spec_step_def merge_members_def)
  have "nested_loop debug (fuel + 5) st (Some [''a'']) None 1 = Undef"
    using diamond_loop [OF st(2) _ _ abs refl, of "Some [''a'']" debug fuel None] by (simp add: argv_members_def eval_nat_numeral)
  then show ?thesis
    using st(1) by (simp add: parse_array_string_tag is_tag_ref_def plain_def is_special_def
        trim_tag_a)
qed

end
