(* ===== verification/Analytics_Filter.thy ===== *)
theory Analytics_Filter
  imports Analytics_Base Logical_Group_Nesting
begin

text \<open>
  The filter plug-in, \<^verbatim>\<open>orcm/mca/analytics/filter/analytics_filter.c\<close>: a sample passes when its keys are among the names
  that the attributes of the step give, and the data whose names other attributes give are handed on.  The names are
  expressions over logical groups.

  The flag \<open>errno\<close> and the fuel are those of the expansion of groups.  Expanding an attribute cuts the blanks at the end of its
  text, which stays so in the step; the functions return the attributes as they leave them.
\<close>

section \<open>Definitions\<close>

record filter_key =
  fk_unique_id :: "64 word"
  fk_unique_id_generated :: bool

definition filter_init :: filter_key where
  "filter_init = \<lparr>fk_unique_id = 0, fk_unique_id_generated = False\<rparr>"

definition HASH_KEY_LENGTH :: nat where
  "HASH_KEY_LENGTH = 1000"

definition find_match :: "string option \<Rightarrow> argv \<Rightarrow> status outcome" where
  "find_match target candidate =
     (if opal_argv_count candidate = 0 then Ret OPAL_ERR_NOT_FOUND
      else
        (case target of
           None \<Rightarrow> Undef
         | Some t \<Rightarrow> Ret (if t \<in> set (argv_members candidate) then OPAL_SUCCESS else OPAL_ERR_NOT_FOUND)))"

definition filter_match_value ::
  "bool \<Rightarrow> bool \<Rightarrow> nat \<Rightarrow> string option \<Rightarrow> string option \<Rightarrow> lg_state \<Rightarrow> (status \<times> string option \<times> lg_state) outcome" where
  "filter_match_value debug errno fuel key_value attribute_value st =
     obind (orcm_logical_group_parse_array_string debug errno fuel attribute_value st)
       (\<lambda>(rc, source_value, attribute_value', st1).
         if rc \<noteq> OPAL_SUCCESS then Ret (rc, attribute_value', st1)
         else obind (find_match key_value source_value) (\<lambda>rc1. Ret (rc1, attribute_value', st1)))"

primrec match_compute_loop ::
  "argv \<Rightarrow> orcm_value list \<Rightarrow> status \<Rightarrow> bool \<Rightarrow> orcm_value list \<Rightarrow> (status \<times> orcm_value list) outcome" where
  "match_compute_loop names [] rc found_data filter_list = Ret (rc, filter_list)"
| "match_compute_loop names (v # vs) rc found_data filter_list =
     obind (find_match (ov_name v) names) (\<lambda>rc1.
       if rc1 = OPAL_SUCCESS then
         (case orcm_util_copy_orcm_value v of
            None \<Rightarrow> Ret (OPAL_ERR_OUT_OF_RESOURCE, filter_list)
          | Some w \<Rightarrow> match_compute_loop names vs OPAL_SUCCESS True (filter_list @ [w]))
       else match_compute_loop names vs (if found_data then OPAL_SUCCESS else rc1) found_data filter_list)"

definition filter_match_compute ::
  "bool \<Rightarrow> bool \<Rightarrow> nat \<Rightarrow> attribute \<Rightarrow> orcm_value list option \<Rightarrow> orcm_value list \<Rightarrow> lg_state \<Rightarrow>
     (status \<times> orcm_value list \<times> attribute \<times> lg_state) outcome" where
  "filter_match_compute debug errno fuel attribute compute_data filter_list st =
     obind (orcm_logical_group_parse_array_string debug errno fuel (snd attribute) st)
       (\<lambda>(rc, wf_attri_value, value', st1).
         let attribute' = (fst attribute, value') in
         if rc \<noteq> OPAL_SUCCESS then Ret (rc, filter_list, attribute', st1)
         else
           (case compute_data of
              None \<Rightarrow> Ret (OPAL_ERROR, filter_list, attribute', st1)
            | Some data \<Rightarrow>
                obind (match_compute_loop wf_attri_value data rc False filter_list) (\<lambda>(rc1, filter_list1).
                  Ret (rc1, filter_list1, attribute', st1))))"

text \<open>The first key whose name begins the name of the attribute, and its value, which is read as a string.\<close>

primrec find_key :: "string \<Rightarrow> orcm_value list \<Rightarrow> string option option outcome" where
  "find_key k [] = Ret None"
| "find_key k (v # vs) =
     (case ov_name v of
        None \<Rightarrow> Undef
      | Some n \<Rightarrow>
          if strneq n k (length n) then (case ov_val v of V_string s \<Rightarrow> Ret (Some s) | _ \<Rightarrow> Undef)
          else find_key k vs)"

primrec filter_data_loop ::
  "bool \<Rightarrow> bool \<Rightarrow> nat \<Rightarrow> orcm_analytics_value \<Rightarrow> attribute list \<Rightarrow> bool \<Rightarrow> orcm_value list option \<Rightarrow> lg_state \<Rightarrow>
     (status \<times> orcm_value list option \<times> attribute list \<times> lg_state) outcome" where
  "filter_data_loop debug errno fuel filter_data [] found filter_list st =
     Ret (if found then OPAL_SUCCESS else OPAL_ERR_NOT_FOUND, filter_list, [], st)"
| "filter_data_loop debug errno fuel filter_data (a # as) found filter_list st =
     (case fst a of
        None \<Rightarrow> Undef
      | Some k \<Rightarrow>
          if k = ''db'' then
            obind (filter_data_loop debug errno fuel filter_data as found filter_list st) (\<lambda>(rc, l, as', st'). Ret (rc, l, a # as', st'))
          else
            (case an_key filter_data of
               None \<Rightarrow> Undef
             | Some key \<Rightarrow>
                 obind (find_key k key) (\<lambda>kv.
                   case kv of
                     Some s \<Rightarrow>
                       obind (filter_match_value debug errno fuel s (snd a) st) (\<lambda>(rc, value', st1).
                         if rc \<noteq> OPAL_SUCCESS then Ret (rc, filter_list, (Some k, value') # as, st1)
                         else
                           obind (filter_data_loop debug errno fuel filter_data as True filter_list st1)
                             (\<lambda>(rc, l, as', st'). Ret (rc, l, (Some k, value') # as', st')))
                   | None \<Rightarrow>
                       obind (filter_match_compute debug errno fuel a (an_compute filter_data)
                           (case filter_list of None \<Rightarrow> [] | Some l \<Rightarrow> l) st) (\<lambda>(rc, filter_list1, a', st1).
                         if rc \<noteq> OPAL_SUCCESS then Ret (rc, Some filter_list1, a' # as, st1)
                         else
                           obind (filter_data_loop debug errno fuel filter_data as True (Some filter_list1) st1)
                             (\<lambda>(rc, l, as', st'). Ret (rc, l, a' # as', st'))))))"

definition analytics_filter_data ::
  "bool \<Rightarrow> bool \<Rightarrow> nat \<Rightarrow> attribute list \<Rightarrow> orcm_analytics_value \<Rightarrow> lg_state \<Rightarrow>
     (status \<times> orcm_value list option \<times> attribute list \<times> lg_state) outcome" where
  "analytics_filter_data debug errno fuel attributes filter_data st =
     filter_data_loop debug errno fuel filter_data attributes False None st"

primrec attribute_text :: "attribute list \<Rightarrow> string outcome" where
  "attribute_text [] = Ret []"
| "attribute_text (a # as) =
     (case snd a of None \<Rightarrow> Undef | Some s \<Rightarrow> obind (attribute_text as) (\<lambda>t. Ret (s @ t)))"

definition generate_hash_key :: "attribute list \<Rightarrow> int \<Rightarrow> filter_key outcome" where
  "generate_hash_key attributes wf_id =
     obind (attribute_text attributes) (\<lambda>s.
       let hash_key = s @ fmt_d wf_id in
       if HASH_KEY_LENGTH \<le> length hash_key then Undef
       else Ret \<lparr>fk_unique_id = orcm_util_create_hash_key hash_key, fk_unique_id_generated = True\<rparr>)"

definition generate_data_to_next :: "orcm_analytics_value \<Rightarrow> orcm_value list option \<Rightarrow> orcm_analytics_value" where
  "generate_data_to_next filter_data filter_list =
     (case filter_list of
        None \<Rightarrow> orcm_util_load_orcm_analytics_value (an_key filter_data) (an_non_compute filter_data) (an_compute filter_data)
      | Some l \<Rightarrow> orcm_util_load_orcm_analytics_value_compute (an_key filter_data) (an_non_compute filter_data) (Some l))"

text \<open>The attributes of a step as values.\<close>

definition attribute_value :: "attribute \<Rightarrow> orcm_value" where
  "attribute_value a = \<lparr>ov_name = fst a, ov_val = V_string (snd a), ov_units = None\<rparr>"

text \<open>The key of the plug-in, the attributes of the step, the workflow and the groups change.\<close>

definition filter_analyze ::
  "bool \<Rightarrow> bool \<Rightarrow> nat \<Rightarrow> filter_key \<Rightarrow> orcm_workflow_caddy \<Rightarrow> lg_state \<Rightarrow>
     (status \<times> filter_key \<times> attribute list \<times> orcm_workflow \<times> lg_state \<times> wf_output list) outcome" where
  "filter_analyze debug errno fuel key caddy st =
     (let flow = cd_wf caddy; filter_data = cd_value caddy in
      obind (analytics_filter_data debug errno fuel (ws_attributes (cd_wf_step caddy)) filter_data st)
        (\<lambda>(rc, filter_list, attributes, st1).
        if rc \<noteq> OPAL_SUCCESS then Ret (rc, key, attributes, flow, st1, [])
        else
          obind (if fk_unique_id_generated key then Ret key else generate_hash_key attributes (wf_workflow_id flow)) (\<lambda>key1.
            let data_to_next = generate_data_to_next filter_data filter_list in
            obind (orcm_analytics_base_db_check ((cd_wf_step caddy)\<lparr>ws_attributes := attributes\<rparr>)) (\<lambda>db.
              obind (if db then orcm_analytics_base_log_to_database_event data_to_next else Ret (OPAL_SUCCESS, [])) (\<lambda>(rc1, logged).
                if rc1 \<noteq> OPAL_SUCCESS then Ret (rc1, key1, attributes, flow, st1, map Out_event logged)
                else
                  obind (case wf_hostname_regex flow of
                           None \<Rightarrow>
                             obind (orcm_analytics_get_hostname_from_attributes (map attribute_value attributes)) (\<lambda>h.
                               Ret (flow\<lparr>wf_hostname_regex := Some h\<rparr>))
                         | Some h \<Rightarrow> Ret flow) (\<lambda>flow1.
                    Ret (OPAL_SUCCESS, key1, attributes, flow1, st1,
                         map Out_event logged @ [Out_next (fk_unique_id key1) data_to_next])))))))"

section \<open>Specification\<close>

text \<open>The names of an expression, over groups that form a forest.\<close>

definition expr_ok :: "(string \<rightharpoonup> string list) \<Rightarrow> nat \<Rightarrow> string \<Rightarrow> bool" where
  "expr_ok G fuel s \<longleftrightarrow>
     fst (orcm_logical_group_trim_string s) \<noteq> [] \<and>
     (case expand (fst (orcm_logical_group_trim_string s)) of
        None \<Rightarrow> False
      | Some names \<Rightarrow> forest G (set (tag_refs names)) \<and> card (dom G) + length (tag_refs names) < fuel)"

definition names_of :: "(string \<rightharpoonup> string list) \<Rightarrow> string \<Rightarrow> string set" where
  "names_of G s =
     (case expand (fst (orcm_logical_group_trim_string s)) of
        None \<Rightarrow> {}
      | Some names \<Rightarrow> {n \<in> set names. \<not> is_tag_ref n} \<union> leaves G (tag_refs names))"

definition named :: "(string \<rightharpoonup> string list) \<Rightarrow> string \<Rightarrow> orcm_value \<Rightarrow> bool" where
  "named G s v \<longleftrightarrow> (case ov_name v of None \<Rightarrow> False | Some n \<Rightarrow> n \<in> names_of G s)"

text \<open>
  What passes: an attribute with a key asks for the value of the key to be among its names; every other attribute
  selects the data with its names, of which there has to be one unless the sample has no data at all.
\<close>

primrec selected ::
  "(string \<rightharpoonup> string list) \<Rightarrow> orcm_value list \<Rightarrow> orcm_value list \<Rightarrow> (string \<times> string) list \<Rightarrow> orcm_value list option \<Rightarrow>
     orcm_value list option option" where
  "selected G key data [] sel = Some sel"
| "selected G key data (a # as) sel =
     (if fst a = ''db'' then selected G key data as sel
      else
        (case find_key (fst a) key of
           Ret (Some s) \<Rightarrow> if (\<exists>n\<in>names_of G (snd a). s = Some n) then selected G key data as sel else None
         | Ret None \<Rightarrow>
             if data \<noteq> [] \<and> filter (named G (snd a)) data = [] then None
             else selected G key data as (Some ((case sel of None \<Rightarrow> [] | Some l \<Rightarrow> l) @ filter (named G (snd a)) data))
         | _ \<Rightarrow> None))"

abbreviation attrs_of :: "(string \<times> string) list \<Rightarrow> attribute list" where
  "attrs_of \<equiv> map (\<lambda>(k, s). (Some k, Some s))"

text \<open>The attributes after all of them have been expanded.\<close>

definition trimmed_attr :: "string \<times> string \<Rightarrow> string \<times> string" where
  "trimmed_attr a = (if fst a = ''db'' then a else (fst a, snd (orcm_logical_group_trim_string (snd a))))"

text \<open>A sample with string keys and data that can be copied.\<close>

definition filter_sample :: "orcm_workflow_caddy \<Rightarrow> orcm_value list \<Rightarrow> orcm_value list \<Rightarrow> bool" where
  "filter_sample caddy key data \<longleftrightarrow>
     an_key (cd_value caddy) = Some key \<and> an_compute (cd_value caddy) = Some data \<and>
     (\<forall>v\<in>set key. \<exists>n s. ov_name v = Some n \<and> ov_val v = V_string (Some s)) \<and>
     (\<forall>v\<in>set data. ov_name v \<noteq> None \<and> ov_val v \<noteq> V_unsupported)"

lemma parse_names:
  assumes "lg_inv st" "expr_ok (lg_abs st) fuel s"
  obtains out st' where "orcm_logical_group_parse_array_string debug False fuel (Some s) st =
      Ret (OPAL_SUCCESS, out, Some (snd (orcm_logical_group_trim_string s)), st')"
    "lg_inv st'" "lg_abs st' = lg_abs st" "set (argv_members out) = names_of (lg_abs st) s"
proof -
  obtain expr s' where t: "orcm_logical_group_trim_string s = (expr, s')"
    by (cases "orcm_logical_group_trim_string s")
  then obtain names where n: "expand expr = Some names" "expr \<noteq> []"
    "forest (lg_abs st) (set (tag_refs names))" "card (dom (lg_abs st)) + length (tag_refs names) < fuel"
    using assms(2) by (auto simp: expr_ok_def split: option.splits)
  then show thesis
    using that expand_forest_ok [OF assms(1) t n, of debug] t by (auto simp: names_of_def)
qed

lemma find_match_eq:
  "find_match (Some t) out = Ret (if t \<in> set (argv_members out) then OPAL_SUCCESS else OPAL_ERR_NOT_FOUND)"
  by (cases out) (auto simp: find_match_def opal_argv_count_def argv_members_def)

lemma match_compute_ok:
  assumes "\<forall>v\<in>set data. ov_name v \<noteq> None \<and> ov_val v \<noteq> V_unsupported" "set (argv_members out) = names_of G s"
  shows "match_compute_loop out data rc found acc =
    Ret (if found \<or> filter (named G s) data \<noteq> [] then (if data = [] then rc else OPAL_SUCCESS)
         else if data = [] then rc else OPAL_ERR_NOT_FOUND, acc @ filter (named G s) data)"
  using assms(1)
proof (induction data arbitrary: rc found acc)
  case (Cons v data)
  obtain n where n: "ov_name v = Some n" "orcm_util_copy_orcm_value v = Some v"
    using Cons.prems by (auto simp: orcm_util_copy_orcm_value_def)
  show ?case
    using Cons n by (auto simp: find_match_eq assms(2) named_def)
qed simp

lemma find_key_returns:
  assumes "\<forall>v\<in>set key. \<exists>n s. ov_name v = Some n \<and> ov_val v = V_string (Some s)"
  shows "find_key k key = Ret None \<or> (\<exists>s. find_key k key = Ret (Some (Some s)))"
  using assms
proof (induction key)
  case (Cons v key)
  obtain n s where "ov_name v = Some n" "ov_val v = V_string (Some s)"
    using Cons.prems by auto
  then show ?case
    using Cons by simp
qed simp

lemma filter_data_ok:
  assumes "filter_sample caddy key data" "lg_inv st" "\<forall>(k, s)\<in>set as. expr_ok (lg_abs st) fuel s"
  shows "\<exists>st' list attrs. filter_data_loop debug False fuel (cd_value caddy) (attrs_of as) found sel st =
     Ret (if selected (lg_abs st) key data as sel \<noteq> None \<and> (found \<or> (\<exists>a\<in>set as. fst a \<noteq> ''db''))
          then OPAL_SUCCESS else OPAL_ERR_NOT_FOUND, list, attrs, st') \<and>
     lg_inv st' \<and> lg_abs st' = lg_abs st \<and>
     (\<forall>r. selected (lg_abs st) key data as sel = Some r \<longrightarrow> list = r \<and> attrs = attrs_of (map trimmed_attr as))"
  using assms(2,3)
proof (induction as arbitrary: found sel st)
  case (Cons a as)
  obtain k s where a: "a = (k, s)"
    by (cases a)
  have s: "an_key (cd_value caddy) = Some key" "an_compute (cd_value caddy) = Some data"
    and keys: "\<forall>v\<in>set key. \<exists>n s. ov_name v = Some n \<and> ov_val v = V_string (Some s)"
    and vals: "\<forall>v\<in>set data. ov_name v \<noteq> None \<and> ov_val v \<noteq> V_unsupported"
    using assms(1) by (simp_all add: filter_sample_def)
  have rest: "\<forall>(k, s)\<in>set as. expr_ok (lg_abs st) fuel s" and ok: "expr_ok (lg_abs st) fuel s"
    using Cons.prems(2) a by auto
  show ?case
  proof (cases "k = ''db''")
    case True
    then have eq: "(\<exists>a\<in>set (a # as). fst a \<noteq> ''db'') \<longleftrightarrow> (\<exists>a\<in>set as. fst a \<noteq> ''db'')"
      using a by auto
    show ?thesis
      unfolding eq using Cons.IH [OF Cons.prems(1) rest, of found sel] a True
      by (auto simp: trimmed_attr_def split del: if_split)
  next
    case False
    obtain out st1 where o: "orcm_logical_group_parse_array_string debug False fuel (Some s) st =
        Ret (OPAL_SUCCESS, out, Some (snd (orcm_logical_group_trim_string s)), st1)"
      "lg_inv st1" "lg_abs st1 = lg_abs st" "set (argv_members out) = names_of (lg_abs st) s"
      using Cons.prems(1) ok by (rule parse_names)
    have IH: "\<exists>st' list attrs. filter_data_loop debug False fuel (cd_value caddy) (attrs_of as) True sel' st1 =
     Ret (if selected (lg_abs st) key data as sel' \<noteq> None then OPAL_SUCCESS else OPAL_ERR_NOT_FOUND, list, attrs, st') \<and>
     lg_inv st' \<and> lg_abs st' = lg_abs st \<and>
     (\<forall>r. selected (lg_abs st) key data as sel' = Some r \<longrightarrow> list = r \<and> attrs = attrs_of (map trimmed_attr as))" for sel'
      using Cons.IH [OF o(2), of True sel'] rest o(3) by simp
    have t: "trimmed_attr a = (k, snd (orcm_logical_group_trim_string s))"
      using a False by (simp add: trimmed_attr_def)
    consider "find_key k key = Ret None" | t where "find_key k key = Ret (Some (Some t))"
      using find_key_returns [OF keys, of k] by blast
    then show ?thesis
    proof cases
      case 1
      then show ?thesis
        using a False s o t IH [of "Some ((case sel of None \<Rightarrow> [] | Some l \<Rightarrow> l) @ filter (named (lg_abs st) s) data)"]
          match_compute_ok [OF vals o(4), of OPAL_SUCCESS False "case sel of None \<Rightarrow> [] | Some l \<Rightarrow> l"]
        by (auto simp: filter_match_compute_def)
    next
      case (2 v)
      then show ?thesis
        using a False s o t IH [of sel] by (auto simp: filter_match_value_def find_match_eq)
    qed
  qed
qed simp

lemma attribute_text_attrs: "attribute_text (attrs_of as) = Ret (concat (map snd as))"
  by (induction as) auto

lemma hostname_attrs: "\<exists>h. orcm_analytics_get_hostname_from_attributes (map attribute_value (attrs_of as)) = Ret h"
proof -
  have "\<exists>h. hostname_loop (map attribute_value (attrs_of as)) = Ret h"
    by (induction as) (auto simp: attribute_value_def)
  then show ?thesis
    by (auto simp: orcm_analytics_get_hostname_from_attributes_def)
qed

lemma db_check_trimmed: "db_check_loop (attrs_of (map trimmed_attr as)) = db_check_loop (attrs_of as)"
  by (induction as) (auto simp: trimmed_attr_def)

text \<open>The number of a filter: the hash of the texts of its attributes, once they are trimmed, and of the number of the workflow.\<close>

definition filter_number :: "filter_key \<Rightarrow> (string \<times> string) list \<Rightarrow> int \<Rightarrow> 64 word" where
  "filter_number fk as wf_id =
     (if fk_unique_id_generated fk then fk_unique_id fk
      else orcm_util_create_hash_key (concat (map (snd \<circ> trimmed_attr) as) @ fmt_d wf_id))"

section \<open>Properties\<close>


definition node_caddy :: "(string \<times> string) list \<Rightarrow> string \<Rightarrow> string list \<Rightarrow> orcm_workflow_caddy" where
  "node_caddy as host names =
     \<lparr>cd_wf = \<lparr>wf_name = Some ''flow'', wf_hostname_regex = None, wf_workflow_id = 1\<rparr>,
      cd_wf_step = \<lparr>ws_attributes = attrs_of as, ws_analytic = Some ''filter'', ws_step_id = 1\<rparr>,
      cd_hash_key = 0,
      cd_value = \<lparr>an_key = Some [\<lparr>ov_name = Some ''hostname'', ov_val = V_string (Some host), ov_units = None\<rparr>],
        an_non_compute = Some [],
        an_compute = Some (map (\<lambda>n. \<lparr>ov_name = Some n, ov_val = V_int 1, ov_units = None\<rparr>) names)\<rparr>\<rparr>"


end
