(* ===== verification/Analytics_Spatial.thy ===== *)
theory Analytics_Spatial
  imports Analytics_Window Logical_Group_Nesting
begin

text \<open>
  The spatial plug-in, \<^verbatim>\<open>orcm/mca/analytics/spatial/analytics_spatial.c\<close>: a statistic over one sample of every node of a
  list.  The samples are kept in a hash table with the names of the nodes as keys; when all nodes have sent one, or
  when a timer expires, the statistic is computed and a new round starts.

  A retained list of values does not change, so the table holds the values themselves.  The timer of libevent is a
  flag; its expiry is a sample without data.  Integers that are loaded from a wider object are its low bits, as on a
  little-endian machine.
\<close>

section \<open>Compute types\<close>

definition ORCM_ANALYTICS_COMPUTE_UNKNOWN :: int where "ORCM_ANALYTICS_COMPUTE_UNKNOWN = - 1"

definition ORCM_ANALYTICS_COMPUTE_AVE :: int where "ORCM_ANALYTICS_COMPUTE_AVE = 0"

definition ORCM_ANALYTICS_COMPUTE_MIN :: int where "ORCM_ANALYTICS_COMPUTE_MIN = 1"

definition ORCM_ANALYTICS_COMPUTE_MAX :: int where "ORCM_ANALYTICS_COMPUTE_MAX = 2"

definition ORCM_ANALYTICS_COMPUTE_SD :: int where "ORCM_ANALYTICS_COMPUTE_SD = 3"

lemmas compute_type_defs = ORCM_ANALYTICS_COMPUTE_UNKNOWN_def ORCM_ANALYTICS_COMPUTE_AVE_def ORCM_ANALYTICS_COMPUTE_MIN_def
  ORCM_ANALYTICS_COMPUTE_MAX_def ORCM_ANALYTICS_COMPUTE_SD_def

definition orcm_analytics_base_get_compute_type :: "string \<Rightarrow> int" where
  "orcm_analytics_base_get_compute_type s =
     (if s = ''average'' then ORCM_ANALYTICS_COMPUTE_AVE else if s = ''min'' then ORCM_ANALYTICS_COMPUTE_MIN
      else if s = ''max'' then ORCM_ANALYTICS_COMPUTE_MAX else if s = ''sd'' then ORCM_ANALYTICS_COMPUTE_SD
      else ORCM_ANALYTICS_COMPUTE_UNKNOWN)"

definition orcm_analytics_base_set_compute_type :: "int \<Rightarrow> string" where
  "orcm_analytics_base_set_compute_type n =
     (if n = ORCM_ANALYTICS_COMPUTE_AVE then ''average'' else if n = ORCM_ANALYTICS_COMPUTE_MIN then ''min''
      else if n = ORCM_ANALYTICS_COMPUTE_MAX then ''max'' else if n = ORCM_ANALYTICS_COMPUTE_SD then ''sd'' else ''unknow'')"

definition orcm_util_time_diff :: "int \<times> int \<Rightarrow> int \<times> int \<Rightarrow> rat" where
  "orcm_util_time_diff time1 time2 =
     (let d = (\<lambda>(sec, usec). dadd (double_round (of_int sec)) (ddiv (of_int usec) 1000000)) in dsub (d time2) (d time1))"

section \<open>State\<close>

record spatial_statistics =
  sp_interval :: "64 word"
  sp_size :: nat
  sp_nodelist :: argv
  sp_compute_type :: int
  sp_last_round_time :: "(int \<times> int) option"
  sp_buckets :: "orcm_value list opal_hash_table_t option"
  sp_result :: rat
  sp_num_data_point :: "64 word"
  sp_timeout_event :: bool
  sp_timeout :: "64 word"

definition spatial_statistics_con :: spatial_statistics where
  "spatial_statistics_con =
     \<lparr>sp_interval = 60, sp_size = 0, sp_nodelist = None, sp_compute_type = ORCM_ANALYTICS_COMPUTE_UNKNOWN,
      sp_last_round_time = None, sp_buckets = None, sp_result = 0, sp_num_data_point = 0, sp_timeout_event = False,
      sp_timeout = 60\<rparr>"

definition reset_statistics :: "spatial_statistics \<Rightarrow> (int \<times> int) option \<Rightarrow> spatial_statistics outcome" where
  "reset_statistics sp current_time =
     (case sp_buckets sp of
        None \<Rightarrow> Undef
      | Some ht \<Rightarrow>
          Ret (sp\<lparr>sp_buckets := Some (snd (opal_hash_table_remove_all ht)), sp_num_data_point := 0,
                  sp_result := (if sp_compute_type sp = ORCM_ANALYTICS_COMPUTE_MIN then DBL_MAX
                    else if sp_compute_type sp = ORCM_ANALYTICS_COMPUTE_MAX then DBL_MIN else 0),
                  sp_last_round_time := (case current_time of None \<Rightarrow> sp_last_round_time sp | Some t \<Rightarrow> Some t),
                  sp_timeout_event := False\<rparr>))"

definition fill_spatial_statistics :: "spatial_statistics \<Rightarrow> (status \<times> spatial_statistics) outcome" where
  "fill_spatial_statistics sp =
     (if sp_compute_type sp < ORCM_ANALYTICS_COMPUTE_AVE then Ret (OPAL_ERR_BAD_PARAM, sp)
      else
        (let sp1 = sp\<lparr>sp_size := opal_argv_count (sp_nodelist sp)\<rparr> in
         if sp_size sp1 = 0 \<or> sp_interval sp = 0 \<or> sp_timeout sp = 0 then Ret (OPAL_ERR_BAD_PARAM, sp1)
         else
           obind (reset_statistics (sp1\<lparr>sp_buckets := Some opal_hash_table_construct\<rparr>) None) (\<lambda>sp2.
             case sp_buckets sp2 of
               None \<Rightarrow> Undef
             | Some ht \<Rightarrow>
                 obind (opal_hash_table_init malloc_ok ht (sp_size sp2)) (\<lambda>(rc, ht1).
                   Ret (rc, sp2\<lparr>sp_buckets := Some ht1\<rparr>)))))"

text \<open>The text of the node list is trimmed in place; nothing of the plug-in depends on that, since trimming it again has no effect.\<close>

primrec spatial_attributes ::
  "bool \<Rightarrow> bool \<Rightarrow> nat \<Rightarrow> attribute list \<Rightarrow> spatial_statistics \<Rightarrow> lg_state \<Rightarrow> (status \<times> spatial_statistics \<times> lg_state) outcome" where
  "spatial_attributes debug errno fuel [] sp st = Ret (OPAL_SUCCESS, sp, st)"
| "spatial_attributes debug errno fuel (a # as) sp st =
     (case a of
        (Some k, Some s) \<Rightarrow>
          if k = ''nodelist'' then
            (if sp_nodelist sp = None then
               obind (orcm_logical_group_parse_array_string debug errno fuel (Some s) st) (\<lambda>(rc, nodes, s', st1).
                 if rc \<noteq> OPAL_SUCCESS then Ret (rc, sp\<lparr>sp_nodelist := nodes\<rparr>, st1)
                 else spatial_attributes debug errno fuel as (sp\<lparr>sp_nodelist := nodes\<rparr>) st1)
             else spatial_attributes debug errno fuel as sp st)
          else if k = ''compute'' then
            spatial_attributes debug errno fuel as (sp\<lparr>sp_compute_type := orcm_analytics_base_get_compute_type s\<rparr>) st
          else if k = ''interval'' then
            obind (orcm_util_get_time_in_sec (Some s)) (\<lambda>t. spatial_attributes debug errno fuel as (sp\<lparr>sp_interval := t\<rparr>) st)
          else if k = ''timeout'' then
            obind (orcm_util_get_time_in_sec (Some s)) (\<lambda>t. spatial_attributes debug errno fuel as (sp\<lparr>sp_timeout := t\<rparr>) st)
          else spatial_attributes debug errno fuel as sp st
      | _ \<Rightarrow> Ret (OPAL_ERR_BAD_PARAM, sp, st))"

definition init_spatial_statistics ::
  "bool \<Rightarrow> bool \<Rightarrow> nat \<Rightarrow> spatial_statistics \<Rightarrow> attribute list \<Rightarrow> lg_state \<Rightarrow> (status \<times> spatial_statistics \<times> lg_state) outcome" where
  "init_spatial_statistics debug errno fuel sp attributes st =
     obind (spatial_attributes debug errno fuel attributes sp st) (\<lambda>(rc, sp1, st1).
       if rc \<noteq> OPAL_SUCCESS then Ret (rc, sp1, st1)
       else obind (fill_spatial_statistics sp1) (\<lambda>(rc1, sp2). Ret (rc1, sp2, st1)))"

section \<open>Rounds\<close>

definition do_operation :: "int \<Rightarrow> rat \<Rightarrow> rat \<Rightarrow> rat" where
  "do_operation ct num result =
     (if ct = ORCM_ANALYTICS_COMPUTE_AVE \<or> ct = ORCM_ANALYTICS_COMPUTE_SD then dadd result num
      else if ct = ORCM_ANALYTICS_COMPUTE_MIN then (if num < result then num else result)
      else if result < num then num else result)"

text \<open>The buckets in the order of the nodes; the table may change its marks for the debug checks at a look-up.\<close>

primrec bucket_lists ::
  "bool \<Rightarrow> string list \<Rightarrow> orcm_value list opal_hash_table_t \<Rightarrow> (orcm_value list list \<times> orcm_value list opal_hash_table_t) outcome" where
  "bucket_lists debug [] ht = Ret ([], ht)"
| "bucket_lists debug (n # ns) ht =
     obind (opal_hash_table_get_value_ptr debug ht (tag_key n)) (\<lambda>(rc, v, ht1).
       obind (bucket_lists debug ns ht1) (\<lambda>(bs, ht2).
         if rc \<noteq> OPAL_SUCCESS then Ret (bs, ht2) else (case v of None \<Rightarrow> Undef | Some b \<Rightarrow> Ret (b # bs, ht2))))"

definition find_sd :: "bool \<Rightarrow> spatial_statistics \<Rightarrow> spatial_statistics outcome" where
  "find_sd debug sp =
     (if sp_compute_type sp \<noteq> ORCM_ANALYTICS_COMPUTE_SD then Ret sp
      else
        (case sp_buckets sp of
           None \<Rightarrow> Undef
         | Some ht \<Rightarrow>
             obind (bucket_lists debug (argv_members (sp_nodelist sp)) ht) (\<lambda>(bs, ht1).
               let sum = foldl (\<lambda>s v. let d = dsub (orcm_util_get_number_orcm_value v) (sp_result sp) in dadd s (dmul d d)) 0 (concat bs)
               in Ret (sp\<lparr>sp_buckets := Some ht1,
                          sp_result := double_sqrt (ddiv sum (double_of_uint64 (sp_num_data_point sp)))\<rparr>))))"

definition spatial_compute :: "bool \<Rightarrow> spatial_statistics \<Rightarrow> (status \<times> spatial_statistics \<times> string option) outcome" where
  "spatial_compute debug sp =
     (case sp_buckets sp of
        None \<Rightarrow> Undef
      | Some ht \<Rightarrow>
          obind (bucket_lists debug (argv_members (sp_nodelist sp)) ht) (\<lambda>(bs, ht1).
            let items = concat bs;
                units = foldl (\<lambda>u v. if u = None then ov_units v else u) None items;
                sp1 = sp\<lparr>sp_buckets := Some ht1, sp_num_data_point := sp_num_data_point sp + of_nat (length items),
                         sp_result := foldl (\<lambda>r v. do_operation (sp_compute_type sp) (orcm_util_get_number_orcm_value v) r)
                           (sp_result sp) items\<rparr>
            in if sp_num_data_point sp1 = 0 then Ret (OPAL_ERR_BAD_PARAM, sp1, units)
               else
                 obind (find_sd debug
                     (if sp_compute_type sp = ORCM_ANALYTICS_COMPUTE_AVE \<or> sp_compute_type sp = ORCM_ANALYTICS_COMPUTE_SD
                      then sp1\<lparr>sp_result := ddiv (sp_result sp1) (double_of_uint64 (sp_num_data_point sp1))\<rparr> else sp1)) (\<lambda>sp2.
                   Ret (OPAL_SUCCESS, sp2, units))))"

definition set_event_description :: "spatial_statistics \<Rightarrow> orcm_ras_event \<Rightarrow> orcm_ras_event outcome" where
  "set_event_description sp ev =
     (case sp_buckets sp of
        None \<Rightarrow> Undef
      | Some ht \<Rightarrow>
          Ret (foldl (\<lambda>e (k, d). orcm_analytics_base_event_set_description e k d) ev
            [(''interval'', V_int (ucast (sp_interval sp))), (''timeout'', V_int (ucast (sp_timeout sp))),
             (''compute_type'', V_string (Some (orcm_analytics_base_set_compute_type (sp_compute_type sp)))),
             (''num_sample_recv'', V_int (of_nat (ht_size ht))), (''num_data_point'', V_uint64 (sp_num_data_point sp))]))"

definition spatial_dispatch :: "spatial_statistics \<Rightarrow> orcm_analytics_value \<Rightarrow> (status \<times> wf_output list) outcome" where
  "spatial_dispatch sp v =
     obind (orcm_analytics_base_event_create v ORCM_RAS_EVENT_SENSOR ORCM_RAS_SEVERITY_INFO) (\<lambda>ev.
       case ev of
         None \<Rightarrow> Ret (OPAL_ERROR, [])
       | Some e \<Rightarrow>
           (case orcm_analytics_base_event_set_storage e ORCM_STORAGE_TYPE_DATABASE of
              (rc, e1) \<Rightarrow>
                if rc \<noteq> OPAL_SUCCESS then Ret (rc, [])
                else obind (set_event_description sp e1) (\<lambda>e2. Ret (OPAL_SUCCESS, [Out_event e2]))))"

definition handle_full_bucket ::
  "bool \<Rightarrow> int \<times> int \<Rightarrow> spatial_statistics \<Rightarrow> orcm_workflow_caddy \<Rightarrow>
     (status \<times> spatial_statistics \<times> orcm_analytics_value option \<times> wf_output list) outcome" where
  "handle_full_bucket debug now sp caddy =
     obind (spatial_compute debug sp) (\<lambda>(rc, sp1, units).
       if rc \<noteq> OPAL_SUCCESS then Ret (rc, sp1, None, [])
       else
         (let data_key = orcm_analytics_base_data_key (Some (orcm_analytics_base_set_compute_type (sp_compute_type sp1)))
                (cd_wf caddy) (cd_wf_step caddy);
              item = \<lparr>ov_name = Some data_key, ov_val = V_double (sp_result sp1), ov_units = units\<rparr>;
              to_next = orcm_util_load_analytics_time_compute now (an_key (cd_value caddy)) (an_non_compute (cd_value caddy))
                (Some [item])
          in obind (orcm_analytics_base_db_check (cd_wf_step caddy)) (\<lambda>db.
               obind (if db then spatial_dispatch sp1 to_next else Ret (OPAL_SUCCESS, [])) (\<lambda>(rc1, outs).
                 Ret (rc1, sp1, if rc1 \<noteq> OPAL_SUCCESS then None else Some to_next, outs)))))"

text \<open>The name of the node of a sample; a missing name of a key, or of the node, is a bad parameter.\<close>

primrec sample_host :: "orcm_value list \<Rightarrow> (status \<times> string option) outcome" where
  "sample_host [] = Ret (OPAL_SUCCESS, None)"
| "sample_host (v # vs) =
     (case ov_name v of
        None \<Rightarrow> Ret (OPAL_ERR_BAD_PARAM, None)
      | Some k \<Rightarrow>
          if k = ''hostname'' then
            (case ov_val v of
               V_string None \<Rightarrow> Ret (OPAL_ERR_BAD_PARAM, None)
             | V_string (Some h) \<Rightarrow> Ret (OPAL_SUCCESS, Some h)
             | _ \<Rightarrow> Undef)
          else sample_host vs)"

definition store_sample ::
  "bool \<Rightarrow> int \<times> int \<Rightarrow> spatial_statistics \<Rightarrow> string \<Rightarrow> orcm_value list \<Rightarrow> orcm_workflow_caddy \<Rightarrow>
     (status \<times> spatial_statistics \<times> orcm_analytics_value option \<times> wf_output list) outcome" where
  "store_sample debug now sp node data caddy =
     (case sp_buckets sp of
        None \<Rightarrow> Undef
      | Some ht \<Rightarrow>
          obind (opal_hash_table_get_value_ptr debug ht (tag_key node)) (\<lambda>(rc, v, ht1).
            if rc \<noteq> OPAL_SUCCESS \<and> rc \<noteq> OPAL_ERR_NOT_FOUND then Ret (rc, sp\<lparr>sp_buckets := Some ht1\<rparr>, None, [])
            else
              obind (opal_hash_table_set_value_ptr debug malloc_ok ht1 (tag_key node) data) (\<lambda>(rc1, ht2).
                let sp1 = sp\<lparr>sp_buckets := Some ht2\<rparr> in
                if rc1 \<noteq> OPAL_SUCCESS then Ret (rc1, sp1, None, [])
                else if int (sp_size sp) = c_int (ht_size ht2) then handle_full_bucket debug now sp1 caddy
                else Ret (ORCM_ERR_RECV_MORE_THAN_POSTED,
                          if ht_size ht2 = 1 \<and> \<not> sp_timeout_event sp then sp1\<lparr>sp_timeout_event := True\<rparr> else sp1, None, []))))"

primrec fill_bucket_loop ::
  "bool \<Rightarrow> int \<times> int \<Rightarrow> orcm_value list \<Rightarrow> orcm_value list \<Rightarrow> orcm_workflow_caddy \<Rightarrow> string list \<Rightarrow> spatial_statistics \<Rightarrow>
     (status \<times> spatial_statistics \<times> orcm_analytics_value option \<times> wf_output list) outcome" where
  "fill_bucket_loop debug now key data caddy [] sp = Ret (OPAL_ERR_BAD_PARAM, sp, None, [])"
| "fill_bucket_loop debug now key data caddy (n # ns) sp =
     obind (sample_host key) (\<lambda>(rc, host).
       if rc \<noteq> OPAL_SUCCESS then Ret (rc, sp, None, [])
       else if host = Some n then store_sample debug now sp n data caddy
       else fill_bucket_loop debug now key data caddy ns sp)"

definition collect_sample ::
  "bool \<Rightarrow> int \<times> int \<Rightarrow> spatial_statistics \<Rightarrow> orcm_workflow_caddy \<Rightarrow>
     (status \<times> spatial_statistics \<times> orcm_analytics_value option \<times> wf_output list) outcome" where
  "collect_sample debug now sp caddy =
     (case (an_key (cd_value caddy), an_non_compute (cd_value caddy), an_compute (cd_value caddy)) of
        (Some (k # ks), Some nc, None) \<Rightarrow> Undef
      | (Some (k # ks), Some nc, Some (d # ds)) \<Rightarrow>
          if (case sp_last_round_time sp of
                None \<Rightarrow> True
              | Some t \<Rightarrow> double_of_uint64 (sp_interval sp) \<le> orcm_util_time_diff t now) then
            obind (fill_bucket_loop debug now (k # ks) (d # ds) caddy (argv_members (sp_nodelist sp)) sp) (\<lambda>(rc, sp1, to_next, outs).
              case to_next of
                None \<Rightarrow> Ret (rc, sp1, None, outs)
              | Some v \<Rightarrow> obind (reset_statistics sp1 (Some now)) (\<lambda>sp2. Ret (rc, sp2, Some v, outs)))
          else Ret (ORCM_ERR_RECV_MORE_THAN_POSTED, sp, None, [])
      | _ \<Rightarrow> Ret (OPAL_ERR_BAD_PARAM, sp, None, []))"

text \<open>A sample without data is the expiry of the timer.\<close>

definition spatial_analyze ::
  "bool \<Rightarrow> bool \<Rightarrow> nat \<Rightarrow> int \<times> int \<Rightarrow> spatial_statistics \<Rightarrow> orcm_workflow_caddy \<Rightarrow> lg_state \<Rightarrow>
     (status \<times> spatial_statistics \<times> lg_state \<times> wf_output list) outcome" where
  "spatial_analyze debug errno fuel now sp caddy st =
     obind (if sp_size sp = 0 then init_spatial_statistics debug errno fuel sp (ws_attributes (cd_wf_step caddy)) st
            else Ret (OPAL_SUCCESS, sp, st)) (\<lambda>(rc, sp1, st1).
       if rc \<noteq> OPAL_SUCCESS then Ret (rc, sp1\<lparr>sp_size := 0\<rparr>, st1, [])
       else
         obind (if an_compute (cd_value caddy) = None then
                  obind (handle_full_bucket debug now sp1 caddy) (\<lambda>(rc1, sp2, to_next, outs).
                    if to_next \<noteq> None \<and> rc1 = OPAL_SUCCESS
                    then obind (reset_statistics sp2 (Some now)) (\<lambda>sp3. Ret (rc1, sp3, to_next, outs))
                    else Ret (rc1, sp2, to_next, outs))
                else collect_sample debug now sp1 caddy) (\<lambda>(rc1, sp2, to_next, outs).
           Ret (rc1, sp2, st1,
                outs @ (case to_next of
                          None \<Rightarrow> []
                        | Some v \<Rightarrow> if rc1 = OPAL_SUCCESS then [Out_next (cd_hash_key caddy) v] else []))))"

end
