(* ===== verification/Analytics_Spatial_Spec.thy ===== *)
theory Analytics_Spatial_Spec
  imports Analytics_Spatial Analytics_Window_Spec
begin

text \<open>
  A round of the spatial plug-in: every sample but the one that completes the round is kept, a later sample of a node
  replaces an earlier one, and the result is the statistic over the last sample of every node.
\<close>

section \<open>Specification\<close>

definition spatial_start :: "int \<Rightarrow> rat" where
  "spatial_start ct =
     (if ct = ORCM_ANALYTICS_COMPUTE_MIN then DBL_MAX else if ct = ORCM_ANALYTICS_COMPUTE_MAX then DBL_MIN else 0)"

definition spatial_batch :: "int \<Rightarrow> rat list \<Rightarrow> rat" where
  "spatial_batch ct xs =
     (let n = double_of_uint64 (of_nat (length xs)); mean = ddiv (foldl dadd 0 xs) n in
      if ct = ORCM_ANALYTICS_COMPUTE_AVE then mean
      else if ct = ORCM_ANALYTICS_COMPUTE_MIN then Min (insert DBL_MAX (set xs))
      else if ct = ORCM_ANALYTICS_COMPUTE_MAX then Max (insert DBL_MIN (set xs))
      else double_sqrt (ddiv (foldl (\<lambda>s x. dadd s (dmul (dsub x mean) (dsub x mean))) 0 xs) n))"

definition spatial_types :: "int set" where
  "spatial_types =
     {ORCM_ANALYTICS_COMPUTE_AVE, ORCM_ANALYTICS_COMPUTE_MIN, ORCM_ANALYTICS_COMPUTE_MAX, ORCM_ANALYTICS_COMPUTE_SD}"

text \<open>The values of the nodes that have sent a sample, in the order of the nodes.\<close>

definition bucket_values :: "(string \<rightharpoonup> orcm_value list) \<Rightarrow> string list \<Rightarrow> orcm_value list" where
  "bucket_values m ns = concat (map (\<lambda>n. case m n of None \<Rightarrow> [] | Some b \<Rightarrow> b) ns)"

section \<open>The table\<close>

definition buckets_ok :: "orcm_value list opal_hash_table_t \<Rightarrow> string list \<Rightarrow> (string \<rightharpoonup> orcm_value list) \<Rightarrow> bool" where
  "buckets_ok ht nodes m \<longleftrightarrow>
     ht_inv Methods_ptr ht \<and> dom m \<subseteq> set nodes \<and>
     (\<forall>k. ht_map ht (KPtr k) = (if k \<in> tag_key ` set nodes then m (inv tag_key k) else None))"

lemma inj_tag_key: "inj tag_key"
  by (simp add: inj_def)

lemma buckets_get:
  assumes "buckets_ok ht nodes m" "n \<in> set nodes"
  shows "\<exists>ht'. opal_hash_table_get_value_ptr debug ht (tag_key n) = Ret (found_code (m n), m n, ht') \<and> buckets_ok ht' nodes m"
proof -
  have inv: "ht_inv Methods_ptr ht" and map: "ht_map ht (KPtr (tag_key n)) = m n"
    using assms by (auto simp: buckets_ok_def inv_f_f [OF inj_tag_key])
  obtain ht' where "opal_hash_table_get_value_ptr debug ht (tag_key n) = Ret (found_code (m n), m n, ht')" "ht_inv Methods_ptr ht'"
      "(\<lambda>k. ht_map ht' (KPtr k)) = (\<lambda>k. ht_map ht (KPtr k))"
    using ptr.get_law [OF inv, of debug "tag_key n"] map by auto
  moreover from this have "ht_map ht' (KPtr k) = ht_map ht (KPtr k)" for k
    by metis
  ultimately show ?thesis
    using assms(1) by (auto simp: buckets_ok_def)
qed

lemma buckets_size:
  assumes "buckets_ok ht nodes m"
  shows "ht_size ht = card (dom m)"
proof -
  have "dom (\<lambda>k. ht_map ht (KPtr k)) = tag_key ` dom m"
    using assms by (auto simp: buckets_ok_def dom_def inv_f_f [OF inj_tag_key] split: if_splits)
  then have "card (dom (\<lambda>k. ht_map ht (KPtr k))) = card (dom m)"
    using inj_tag_key by (metis card_image inj_on_subset subset_UNIV)
  then show ?thesis
    using assms by (simp add: buckets_ok_def ptr_sized.size_law)
qed

lemma buckets_put:
  assumes "buckets_ok ht nodes m" "n \<in> set nodes" "length nodes < 2 ^ 31"
  shows "\<exists>ht'. opal_hash_table_set_value_ptr debug malloc_ok ht (tag_key n) v = Ret (OPAL_SUCCESS, ht') \<and>
           buckets_ok ht' nodes (m(n \<mapsto> v))"
proof -
  have inv: "ht_inv Methods_ptr ht" and dom: "dom m \<subseteq> set nodes"
    using assms(1) by (simp_all add: buckets_ok_def)
  have "card (dom m) \<le> length nodes"
    using card_mono [OF _ dom] card_length [of nodes] by simp
  then have "ht_size ht < 2 ^ 50"
    using assms(3) by (simp add: buckets_size [OF assms(1)])
  then obtain ht' where ht': "opal_hash_table_set_value_ptr debug malloc_ok ht (tag_key n) v = Ret (OPAL_SUCCESS, ht')"
      "ht_inv Methods_ptr ht'" "(\<lambda>k. ht_map ht' (KPtr k)) = (\<lambda>k. ht_map ht (KPtr k))(tag_key n \<mapsto> v)"
    using ptr_sized.put_room [OF inv, of debug "tag_key n" v] by auto
  then have "ht_map ht' (KPtr k) = (if k = tag_key n then Some v else ht_map ht (KPtr k))" for k
    by (metis fun_upd_apply)
  then have "buckets_ok ht' nodes (m(n \<mapsto> v))"
    using assms(1,2) ht'(2) inv_f_f [OF inj_tag_key] by (auto simp: buckets_ok_def)
  then show ?thesis
    using ht'(1) by blast
qed

lemma bucket_lists_ok:
  assumes "buckets_ok ht nodes m" "set ns \<subseteq> set nodes"
  shows "\<exists>bs ht'. bucket_lists debug ns ht = Ret (bs, ht') \<and> concat bs = bucket_values m ns \<and> buckets_ok ht' nodes m"
  using assms
proof (induction ns arbitrary: ht)
  case (Cons n ns)
  obtain ht1 where 1: "opal_hash_table_get_value_ptr debug ht (tag_key n) = Ret (found_code (m n), m n, ht1)" "buckets_ok ht1 nodes m"
    using buckets_get [OF Cons.prems(1), of n debug] Cons.prems(2) by auto
  obtain bs ht2 where "bucket_lists debug ns ht1 = Ret (bs, ht2)" "concat bs = bucket_values m ns" "buckets_ok ht2 nodes m"
    using Cons.IH [OF 1(2)] Cons.prems(2) by auto
  then show ?case
    using 1(1) by (cases "m n") (auto simp: found_code_def bucket_values_def)
qed (simp add: bucket_values_def)

section \<open>Rounds\<close>

definition round_state ::
  "spatial_statistics \<Rightarrow> string list \<Rightarrow> int \<Rightarrow> (int \<times> int) option \<Rightarrow> (string \<rightharpoonup> orcm_value list) \<Rightarrow> bool" where
  "round_state sp nodes ct since m \<longleftrightarrow>
     sp_nodelist sp = Some nodes \<and> sp_size sp = length nodes \<and> sp_compute_type sp = ct \<and> sp_last_round_time sp = since \<and>
     sp_result sp = spatial_start ct \<and> sp_num_data_point sp = 0 \<and>
     (case sp_buckets sp of None \<Rightarrow> False | Some ht \<Rightarrow> buckets_ok ht nodes m)"

lemma foldl_operation:
  assumes "ct \<in> spatial_types"
  shows "foldl (\<lambda>r v. do_operation ct (orcm_util_get_number_orcm_value v) r) (spatial_start ct) vs =
    (if ct = ORCM_ANALYTICS_COMPUTE_MIN then Min (insert DBL_MAX (set (numbers vs)))
     else if ct = ORCM_ANALYTICS_COMPUTE_MAX then Max (insert DBL_MIN (set (numbers vs)))
     else foldl dadd 0 (numbers vs))"
proof -
  have eq: "foldl (\<lambda>r v. do_operation ct (orcm_util_get_number_orcm_value v) r) a vs = foldl (\<lambda>r x. do_operation ct x r) a (numbers vs)" for a
    by (induction vs arbitrary: a) simp_all
  show ?thesis
    using assms unfolding eq spatial_types_def
    by (auto simp: spatial_start_def do_operation_def [abs_def] compute_type_defs foldl_min foldl_max)
qed

lemma compute_round:
  assumes "round_state sp nodes ct since m" "ct \<in> spatial_types" "bucket_values m nodes \<noteq> []" "length (bucket_values m nodes) < 2 ^ 64"
  shows "\<exists>sp' units ht. spatial_compute debug sp = Ret (OPAL_SUCCESS, sp', units) \<and>
    sp_result sp' = spatial_batch ct (numbers (bucket_values m nodes)) \<and> sp_compute_type sp' = ct \<and> sp_nodelist sp' = Some nodes \<and>
    sp_size sp' = length nodes \<and> sp_buckets sp' = Some ht \<and> ht_inv Methods_ptr ht"
proof -
  let ?vs = "bucket_values m nodes"
  obtain ht where ht: "sp_buckets sp = Some ht" "buckets_ok ht nodes m"
    using assms(1) by (auto simp: round_state_def split: option.splits)
  have sp: "sp_nodelist sp = Some nodes" "sp_size sp = length nodes" "sp_compute_type sp = ct" "sp_result sp = spatial_start ct"
      "sp_num_data_point sp = 0"
    using assms(1) by (simp_all add: round_state_def)
  obtain bs ht1 where 1: "bucket_lists debug nodes ht = Ret (bs, ht1)" "concat bs = ?vs" "buckets_ok ht1 nodes m"
    using bucket_lists_ok [OF ht(2) order.refl] by blast
  obtain bs2 ht2 where 2: "bucket_lists debug nodes ht1 = Ret (bs2, ht2)" "concat bs2 = ?vs" "buckets_ok ht2 nodes m"
    using bucket_lists_ok [OF 1(3) order.refl] by blast
  have inv: "ht_inv Methods_ptr ht1" "ht_inv Methods_ptr ht2"
    using 1(3) 2(3) by (simp_all add: buckets_ok_def)
  have n: "(of_nat (length ?vs) :: 64 word) \<noteq> 0"
    using assms(3,4) by (auto simp: word_of_nat_eq_0_iff dest: dvd_imp_le)
  have fold: "foldl (\<lambda>s v. dadd s (dmul (dsub (orcm_util_get_number_orcm_value v) mean) (dsub (orcm_util_get_number_orcm_value v) mean))) a vs =
      foldl (\<lambda>s x. dadd s (dmul (dsub x mean) (dsub x mean))) a (numbers vs)" for a mean vs
    by (induction vs arbitrary: a) simp_all
  have members: "argv_members (Some nodes) = nodes"
    by (simp add: argv_members_def)
  show ?thesis
    using assms(2) n inv unfolding spatial_types_def
    by (auto simp: spatial_compute_def ht(1) sp members 1(1,2) 2(1,2) find_sd_def Let_def spatial_batch_def fold
        foldl_operation [unfolded spatial_types_def] compute_type_defs)
qed

section \<open>Samples\<close>

definition spatial_sample :: "attribute list \<Rightarrow> orcm_workflow_caddy \<Rightarrow> string \<Rightarrow> orcm_value list \<Rightarrow> bool" where
  "spatial_sample attrs caddy host data \<longleftrightarrow>
     ws_attributes (cd_wf_step caddy) = attrs \<and> an_compute (cd_value caddy) = Some data \<and> data \<noteq> [] \<and>
     an_non_compute (cd_value caddy) \<noteq> None \<and>
     (case an_key (cd_value caddy) of
        None \<Rightarrow> False
      | Some key \<Rightarrow> key \<noteq> [] \<and> sample_host key = Ret (OPAL_SUCCESS, Some host))"

lemma fill_loop_host:
  assumes "sample_host key = Ret (OPAL_SUCCESS, Some host)" "host \<in> set ns"
  shows "fill_bucket_loop debug now key data caddy ns sp = store_sample debug now sp host data caddy"
  using assms(2) by (induction ns) (auto simp: assms(1))

lemma full_bucket:
  assumes "round_state sp nodes ct since m" "ct \<in> spatial_types" "bucket_values m nodes \<noteq> []" "length (bucket_values m nodes) < 2 ^ 64"
    "db_check_loop (ws_attributes (cd_wf_step caddy)) = Ret False"
  shows "\<exists>sp' v. handle_full_bucket debug now sp caddy = Ret (OPAL_SUCCESS, sp', Some v, []) \<and>
    results [Out_next h v] = [spatial_batch ct (numbers (bucket_values m nodes))] \<and>
    (\<exists>sp2. reset_statistics sp' (Some now) = Ret sp2 \<and> round_state sp2 nodes ct (Some now) Map.empty)"
proof -
  obtain sp' units ht where sp': "spatial_compute debug sp = Ret (OPAL_SUCCESS, sp', units)"
      "sp_result sp' = spatial_batch ct (numbers (bucket_values m nodes))"
      "sp_compute_type sp' = ct" "sp_nodelist sp' = Some nodes" "sp_size sp' = length nodes" "sp_buckets sp' = Some ht" "ht_inv Methods_ptr ht"
    using compute_round [OF assms(1-4)] by blast
  have "buckets_ok (snd (opal_hash_table_remove_all ht)) nodes Map.empty"
    using remove_all_ok(2,3) [OF sp'(7)] by (simp add: buckets_ok_def)
  then have "\<exists>sp2. reset_statistics sp' (Some now) = Ret sp2 \<and> round_state sp2 nodes ct (Some now) Map.empty"
    using sp'(3-6) by (simp add: reset_statistics_def round_state_def spatial_start_def)
  then show ?thesis
    using assms(5) sp'(1,2)
    by (simp add: handle_full_bucket_def orcm_analytics_base_db_check_def orcm_util_load_analytics_time_compute_def results_def)
qed

lemma spatial_step:
  assumes state: "round_state sp nodes ct None m" and ct: "ct \<in> spatial_types"
    and nodes: "distinct nodes" "length nodes < 2 ^ 31" and host: "host \<in> set nodes"
    and sample: "spatial_sample attrs caddy host data" and db: "db_check_loop attrs = Ret False"
  shows "dom (m(host \<mapsto> data)) \<noteq> set nodes \<Longrightarrow>
      \<exists>sp'. spatial_analyze debug errno fuel now sp caddy st = Ret (ORCM_ERR_RECV_MORE_THAN_POSTED, sp', st, []) \<and>
        round_state sp' nodes ct None (m(host \<mapsto> data))"
    "dom (m(host \<mapsto> data)) = set nodes \<Longrightarrow> length (bucket_values (m(host \<mapsto> data)) nodes) < 2 ^ 64 \<Longrightarrow>
      \<exists>sp' outs. spatial_analyze debug errno fuel now sp caddy st = Ret (OPAL_SUCCESS, sp', st, outs) \<and>
        results outs = [spatial_batch ct (numbers (bucket_values (m(host \<mapsto> data)) nodes))] \<and>
        round_state sp' nodes ct (Some now) Map.empty"
proof -
  let ?m = "m(host \<mapsto> data)"
  obtain ht where ht: "sp_buckets sp = Some ht" "buckets_ok ht nodes m"
    using state by (auto simp: round_state_def split: option.splits)
  have sp: "sp_nodelist sp = Some nodes" "sp_size sp = length nodes" "sp_last_round_time sp = None"
    using state by (simp_all add: round_state_def)
  obtain ht1 where 1: "opal_hash_table_get_value_ptr debug ht (tag_key host) = Ret (found_code (m host), m host, ht1)" "buckets_ok ht1 nodes m"
    using buckets_get [OF ht(2) host] by blast
  obtain ht2 where 2: "opal_hash_table_set_value_ptr debug malloc_ok ht1 (tag_key host) data = Ret (OPAL_SUCCESS, ht2)" "buckets_ok ht2 nodes ?m"
    using buckets_put [OF 1(2) host nodes(2)] by blast
  obtain k ks nc d ds where s: "an_key (cd_value caddy) = Some (k # ks)" "sample_host (k # ks) = Ret (OPAL_SUCCESS, Some host)"
      "an_non_compute (cd_value caddy) = Some nc" "an_compute (cd_value caddy) = Some (d # ds)" "data = d # ds"
      "ws_attributes (cd_wf_step caddy) = attrs"
    using sample by (auto simp: spatial_sample_def neq_Nil_conv split: option.splits)
  have sub: "dom ?m \<subseteq> set nodes"
    using 2(2) by (simp add: buckets_ok_def)
  have card: "card (set nodes) = length nodes"
    by (rule distinct_card [OF nodes(1)])
  have "card (dom ?m) \<le> length nodes"
    unfolding card [symmetric] by (rule card_mono [OF finite_set sub])
  moreover have "card (dom ?m) = length nodes \<longleftrightarrow> dom ?m = set nodes"
    unfolding card [symmetric] using card_subset_eq [OF finite_set sub] by metis
  ultimately have "ht_size ht2 \<le> length nodes" "ht_size ht2 = length nodes \<longleftrightarrow> dom ?m = set nodes"
    by (simp_all only: buckets_size [OF 2(2)])
  then have int: "int (length nodes) = c_int (ht_size ht2) \<longleftrightarrow> dom ?m = set nodes"
    using nodes(2) by (auto simp: c_int_small)
  define sp1 where "sp1 = sp\<lparr>sp_buckets := Some ht2\<rparr>"
  have sp1: "round_state sp1 nodes ct None ?m" "round_state (sp1\<lparr>sp_timeout_event := True\<rparr>) nodes ct None ?m"
    using state 2(2) by (simp_all add: round_state_def sp1_def)
  have nonempty: "bucket_values ?m nodes \<noteq> []" "sp_size sp \<noteq> 0"
    using host s(5) sp(2) by (auto simp: bucket_values_def)
  have "found_code (m host) = OPAL_SUCCESS \<or> found_code (m host) = OPAL_ERR_NOT_FOUND"
    by (simp add: found_code_def)
  then have store: "store_sample debug now sp host (d # ds) caddy =
      (if dom ?m = set nodes then handle_full_bucket debug now sp1 caddy
       else Ret (ORCM_ERR_RECV_MORE_THAN_POSTED,
         if ht_size ht2 = 1 \<and> \<not> sp_timeout_event sp then sp1\<lparr>sp_timeout_event := True\<rparr> else sp1, None, []))"
    using int 2(1) s(5) by (auto simp: store_sample_def ht(1) 1(1) sp(2) sp1_def Let_def)
  have analyze: "spatial_analyze debug errno fuel now sp caddy st =
      obind (obind (store_sample debug now sp host (d # ds) caddy) (\<lambda>(rc, sp1, to_next, outs).
          case to_next of
            None \<Rightarrow> Ret (rc, sp1, None, outs)
          | Some v \<Rightarrow> obind (reset_statistics sp1 (Some now)) (\<lambda>sp2. Ret (rc, sp2, Some v, outs)))) (\<lambda>(rc1, sp2, to_next, outs).
        Ret (rc1, sp2, st, outs @ (case to_next of None \<Rightarrow> [] | Some v \<Rightarrow> if rc1 = OPAL_SUCCESS then [Out_next (cd_hash_key caddy) v] else [])))"
    using nonempty(2) s fill_loop_host [OF s(2) host] by (simp add: spatial_analyze_def collect_sample_def sp argv_members_def)
  show "\<exists>sp'. spatial_analyze debug errno fuel now sp caddy st = Ret (ORCM_ERR_RECV_MORE_THAN_POSTED, sp', st, []) \<and>
      round_state sp' nodes ct None ?m" if "dom ?m \<noteq> set nodes"
    using that sp1 by (auto simp: analyze store)
  show "\<exists>sp' outs. spatial_analyze debug errno fuel now sp caddy st = Ret (OPAL_SUCCESS, sp', st, outs) \<and>
      results outs = [spatial_batch ct (numbers (bucket_values ?m nodes))] \<and> round_state sp' nodes ct (Some now) Map.empty"
    if full: "dom ?m = set nodes" and room: "length (bucket_values ?m nodes) < 2 ^ 64"
  proof -
    obtain sp' v sp2 where "handle_full_bucket debug now sp1 caddy = Ret (OPAL_SUCCESS, sp', Some v, [])"
        "results [Out_next (cd_hash_key caddy) v] = [spatial_batch ct (numbers (bucket_values ?m nodes))]"
        "reset_statistics sp' (Some now) = Ret sp2" "round_state sp2 nodes ct (Some now) Map.empty"
      using full_bucket [OF sp1(1) ct nonempty(1) room db [folded s(6)], where h = "cd_hash_key caddy"] by blast
    then show ?thesis
      using full by (simp add: analyze store)
  qed
qed

section \<open>From the first sample to the result\<close>

text \<open>A sample with the time of its arrival, its node and its data.\<close>

type_synonym timed_sample = "(int \<times> int) \<times> orcm_workflow_caddy \<times> string \<times> orcm_value list"

definition last_samples :: "timed_sample list \<Rightarrow> string \<rightharpoonup> orcm_value list" where
  "last_samples xs = map_of (rev (map (\<lambda>(now, caddy, host, data). (host, data)) xs))"

primrec spatial_run ::
  "bool \<Rightarrow> bool \<Rightarrow> nat \<Rightarrow> spatial_statistics \<Rightarrow> timed_sample list \<Rightarrow> lg_state \<Rightarrow>
     (status list \<times> spatial_statistics \<times> lg_state \<times> wf_output list) outcome" where
  "spatial_run debug errno fuel sp [] st = Ret ([], sp, st, [])"
| "spatial_run debug errno fuel sp (x # xs) st =
     (case x of
        (now, caddy, host, data) \<Rightarrow>
          obind (spatial_analyze debug errno fuel now sp caddy st) (\<lambda>(rc, sp1, st1, outs).
            obind (spatial_run debug errno fuel sp1 xs st1) (\<lambda>(rcs, sp2, st2, outs2).
              Ret (rc # rcs, sp2, st2, outs @ outs2))))"

definition samples_ok :: "attribute list \<Rightarrow> string list \<Rightarrow> timed_sample list \<Rightarrow> bool" where
  "samples_ok attrs nodes = list_all (\<lambda>(now, caddy, host, data). spatial_sample attrs caddy host data \<and> host \<in> set nodes)"

lemma last_samples_dom: "samples_ok attrs nodes xs \<Longrightarrow> dom (last_samples xs) \<subseteq> set nodes"
  by (auto simp: samples_ok_def last_samples_def dom_map_of_conv_image_fst list_all_iff)

lemma last_samples_snoc: "last_samples (xs @ [(now, caddy, host, data)]) = (last_samples xs)(host \<mapsto> data)"
  by (simp add: last_samples_def)

lemma spatial_run_snoc:
  assumes "spatial_run debug errno fuel sp xs st = Ret (rcs, sp1, st1, outs)"
    "spatial_analyze debug errno fuel now sp1 caddy st1 = Ret (rc, sp2, st2, outs2)"
  shows "spatial_run debug errno fuel sp (xs @ [(now, caddy, host, data)]) st = Ret (rcs @ [rc], sp2, st2, outs @ outs2)"
  using assms(1)
proof (induction xs arbitrary: sp st rcs outs)
  case (Cons x xs)
  obtain now caddy host data where x: "x = (now, caddy, host, data)"
    using prod_cases4 by blast
  obtain rc0 sp0 st0 outs0 rcs' outs' where "spatial_analyze debug errno fuel now sp caddy st = Ret (rc0, sp0, st0, outs0)"
      "spatial_run debug errno fuel sp0 xs st0 = Ret (rcs', sp1, st1, outs')" "rcs = rc0 # rcs'" "outs = outs0 @ outs'"
    using Cons.prems by (auto simp: x obind_eq_Ret)
  then show ?case
    using Cons.IH by (simp add: x)
qed (use assms(2) in simp)

lemma spatial_incomplete:
  assumes "round_state sp nodes ct None Map.empty" "ct \<in> spatial_types" "distinct nodes" "length nodes < 2 ^ 31"
    "db_check_loop attrs = Ret False"
    "samples_ok attrs nodes xs" "dom (last_samples xs) \<noteq> set nodes"
  shows "\<exists>sp'. spatial_run debug errno fuel sp xs st = Ret (replicate (length xs) ORCM_ERR_RECV_MORE_THAN_POSTED, sp', st, []) \<and>
    round_state sp' nodes ct None (last_samples xs)"
  using assms(6,7)
proof (induction xs rule: rev_induct)
  case (snoc x xs)
  obtain now caddy host data where x: "x = (now, caddy, host, data)"
    using prod_cases4 by blast
  have sample: "spatial_sample attrs caddy host data" "host \<in> set nodes" and xs: "samples_ok attrs nodes xs"
    using snoc.prems(1) by (simp_all add: x samples_ok_def)
  have "dom (last_samples xs) \<noteq> set nodes"
    using snoc.prems(2) insert_absorb [OF sample(2)] unfolding x last_samples_snoc by (metis dom_fun_upd option.distinct(1))
  then obtain sp1 where 1: "spatial_run debug errno fuel sp xs st = Ret (replicate (length xs) ORCM_ERR_RECV_MORE_THAN_POSTED, sp1, st, [])"
      "round_state sp1 nodes ct None (last_samples xs)"
    using snoc.IH [OF xs] by blast
  have "dom ((last_samples xs)(host \<mapsto> data)) \<noteq> set nodes"
    using snoc.prems(2) by (simp only: x last_samples_snoc not_False_eq_True)
  from spatial_step(1) [OF 1(2) assms(2-4) sample(2,1) assms(5) this]
  obtain sp2 where "spatial_analyze debug errno fuel now sp1 caddy st = Ret (ORCM_ERR_RECV_MORE_THAN_POSTED, sp2, st, [])"
      "round_state sp2 nodes ct None ((last_samples xs)(host \<mapsto> data))"
    by blast
  then show ?case
    using spatial_run_snoc [OF 1(1), of now caddy _ sp2 st "[]" host data]
    unfolding x last_samples_snoc by (intro exI conjI) (simp_all add: replicate_append_same del: fun_upd_apply)
qed (use assms(1) in \<open>simp add: last_samples_def\<close>)

text \<open>The first sample of a step reads the attributes of the step.\<close>

lemma spatial_attributes_keep:
  assumes "spatial_attributes debug errno fuel as sp st = Ret (OPAL_SUCCESS, sp', st')"
    "sp_compute_type sp \<in> insert ORCM_ANALYTICS_COMPUTE_UNKNOWN spatial_types"
  shows "sp_last_round_time sp' = sp_last_round_time sp \<and>
    sp_compute_type sp' \<in> insert ORCM_ANALYTICS_COMPUTE_UNKNOWN spatial_types"
  using assms
proof (induction as arbitrary: sp st)
  case (Cons a as)
  obtain k s where a: "a = (Some k, Some s)"
    using Cons.prems(1) by (auto split: prod.splits option.splits)
  have type: "orcm_analytics_base_get_compute_type s \<in> insert ORCM_ANALYTICS_COMPUTE_UNKNOWN spatial_types"
    by (simp add: orcm_analytics_base_get_compute_type_def spatial_types_def)
  consider (nodes) "k = ''nodelist''" | (compute) "k = ''compute''" | (interval) "k = ''interval''" | (timeout) "k = ''timeout''"
    | (other) "k \<notin> {''nodelist'', ''compute'', ''interval'', ''timeout''}"
    by blast
  then show ?case
  proof cases
    case nodes
    then obtain sp1 st1 where "spatial_attributes debug errno fuel as sp1 st1 = Ret (OPAL_SUCCESS, sp', st')"
        "sp_last_round_time sp1 = sp_last_round_time sp" "sp_compute_type sp1 = sp_compute_type sp"
      using Cons.prems(1) by (cases "sp_nodelist sp") (force simp: a obind_eq_Ret split: if_splits)+
    with Cons.IH [OF this(1)] show ?thesis
      using Cons.prems(2) by simp
  next
    case compute
    then show ?thesis
      using Cons.prems(1) Cons.IH [of "sp\<lparr>sp_compute_type := orcm_analytics_base_get_compute_type s\<rparr>" st] type
      by (simp add: a)
  next
    case interval
    then obtain t where "spatial_attributes debug errno fuel as (sp\<lparr>sp_interval := t\<rparr>) st = Ret (OPAL_SUCCESS, sp', st')"
      using Cons.prems(1) by (auto simp: a obind_eq_Ret)
    from Cons.IH [OF this] show ?thesis
      using Cons.prems(2) by simp
  next
    case timeout
    then obtain t where "spatial_attributes debug errno fuel as (sp\<lparr>sp_timeout := t\<rparr>) st = Ret (OPAL_SUCCESS, sp', st')"
      using Cons.prems(1) by (auto simp: a obind_eq_Ret)
    from Cons.IH [OF this] show ?thesis
      using Cons.prems(2) by simp
  next
    case other
    then have "spatial_attributes debug errno fuel as sp st = Ret (OPAL_SUCCESS, sp', st')"
      using Cons.prems(1) by (simp add: a)
    from Cons.IH [OF this Cons.prems(2)] show ?thesis .
  qed
qed simp

lemma init_round:
  assumes "init_spatial_statistics debug errno fuel spatial_statistics_con attrs st = Ret (OPAL_SUCCESS, sp, st1)"
    "length (argv_members (sp_nodelist sp)) < 2 ^ 31"
  shows "round_state sp (argv_members (sp_nodelist sp)) (sp_compute_type sp) None Map.empty" "sp_compute_type sp \<in> spatial_types"
    "sp_size sp \<noteq> 0"
proof -
  obtain sp1 where sp1: "spatial_attributes debug errno fuel attrs spatial_statistics_con st = Ret (OPAL_SUCCESS, sp1, st1)"
      "fill_spatial_statistics sp1 = Ret (OPAL_SUCCESS, sp)"
    using assms(1) by (auto simp: init_spatial_statistics_def obind_eq_Ret split: if_splits)
  have keep: "sp_last_round_time sp1 = None" "sp_compute_type sp1 \<in> insert ORCM_ANALYTICS_COMPUTE_UNKNOWN spatial_types"
    using spatial_attributes_keep [OF sp1(1)] by (simp_all add: spatial_statistics_con_def)
  have ct: "sp_compute_type sp1 \<in> spatial_types"
    using keep(2) sp1(2) by (auto simp: fill_spatial_statistics_def compute_type_defs)
  obtain nodes where nodes: "sp_nodelist sp1 = Some nodes" "nodes \<noteq> []"
    using sp1(2) by (cases "sp_nodelist sp1") (auto simp: fill_spatial_statistics_def opal_argv_count_def Let_def split: if_splits)
  let ?c = "snd (opal_hash_table_remove_all opal_hash_table_construct)"
  obtain ht where ht: "opal_hash_table_init malloc_ok ?c (length nodes) = Ret (OPAL_SUCCESS, ht)"
      "sp = sp1\<lparr>sp_size := length nodes, sp_buckets := Some ht, sp_num_data_point := 0, sp_result := spatial_start (sp_compute_type sp1),
        sp_timeout_event := False\<rparr>"
    using sp1(2) nodes by (auto simp: fill_spatial_statistics_def opal_argv_count_def Let_def reset_statistics_def spatial_start_def
        obind_eq_Ret split: if_splits)
  have "ht_inv Methods_ptr ht" "ht_map ht = Map.empty"
    using init_inv [of "length nodes" malloc_ok ht] ht(1) assms(2) nodes
    by (simp_all add: ht(2) argv_members_def opal_hash_table_remove_all_def opal_hash_table_construct_def)
  then show "round_state sp (argv_members (sp_nodelist sp)) (sp_compute_type sp) None Map.empty" "sp_compute_type sp \<in> spatial_types"
      "sp_size sp \<noteq> 0"
    using keep(1) ct nodes by (simp_all add: ht(2) round_state_def buckets_ok_def argv_members_def)
qed

lemma spatial_run_init:
  assumes "init_spatial_statistics debug errno fuel spatial_statistics_con attrs st = Ret (OPAL_SUCCESS, sp, st1)" "sp_size sp \<noteq> 0"
    "samples_ok attrs nodes xs" "xs \<noteq> []"
  shows "spatial_run debug errno fuel spatial_statistics_con xs st = spatial_run debug errno fuel sp xs st1"
proof -
  obtain now caddy host data ys where xs: "xs = (now, caddy, host, data) # ys"
    using assms(4) by (cases xs) auto
  have "ws_attributes (cd_wf_step caddy) = attrs"
    using assms(3) by (simp add: xs samples_ok_def spatial_sample_def)
  then have "spatial_analyze debug errno fuel now spatial_statistics_con caddy st = spatial_analyze debug errno fuel now sp caddy st1"
    using assms(1,2) by (simp add: spatial_analyze_def spatial_statistics_con_def)
  then show ?thesis
    by (simp add: xs)
qed

lemma round_early:
  assumes "round_state sp nodes ct (Some now) m" "nodes \<noteq> []" "spatial_sample attrs caddy host data"
    "orcm_util_time_diff now later < double_of_uint64 (sp_interval sp)"
  shows "spatial_analyze debug errno fuel later sp caddy st = Ret (ORCM_ERR_RECV_MORE_THAN_POSTED, sp, st, [])"
  using assms
  by (auto simp: spatial_analyze_def collect_sample_def round_state_def spatial_sample_def neq_Nil_conv split: option.splits)

section \<open>Theorem\<close>

text \<open>
  C20: A spatial step collects one sample per node of its node list.  A sample that does not complete the round is answered by
  \<^verbatim>\<open>ORCM_ERR_RECV_MORE_THAN_POSTED\<close> and produces nothing; a later sample of a node replaces the earlier one.  The sample
  that completes the round passes one value to the next step: the configured statistic over the last sample of every node.  Then
  the plug-in is ready for the next round, and a sample that arrives before the interval has passed is dropped.
\<close>

theorem spatial_round:
  assumes init: "init_spatial_statistics debug errno fuel spatial_statistics_con attrs st = Ret (OPAL_SUCCESS, sp0, st1)"
    and nodes: "nodes = argv_members (sp_nodelist sp0)" "distinct nodes" "length nodes < 2 ^ 31"
    and db: "db_check_loop attrs = Ret False"
    and samples: "samples_ok attrs nodes (xs @ [(now, caddy, host, data)])"
    and incomplete: "dom (last_samples xs) \<noteq> set nodes"
    and complete: "dom (last_samples (xs @ [(now, caddy, host, data)])) = set nodes"
    and room: "length (bucket_values (last_samples (xs @ [(now, caddy, host, data)])) nodes) < 2 ^ 64"
  shows "\<exists>sp outs. spatial_run debug errno fuel spatial_statistics_con (xs @ [(now, caddy, host, data)]) st =
      Ret (replicate (length xs) ORCM_ERR_RECV_MORE_THAN_POSTED @ [OPAL_SUCCESS], sp, st1, outs) \<and>
    results outs = [spatial_batch (sp_compute_type sp0) (numbers (bucket_values (last_samples (xs @ [(now, caddy, host, data)])) nodes))] \<and>
    round_state sp nodes (sp_compute_type sp0) (Some now) Map.empty \<and>
    (\<forall>later caddy' host' data'. spatial_sample attrs caddy' host' data' \<and>
       orcm_util_time_diff now later < double_of_uint64 (sp_interval sp) \<longrightarrow>
       spatial_analyze debug errno fuel later sp caddy' st1 = Ret (ORCM_ERR_RECV_MORE_THAN_POSTED, sp, st1, []))"
proof -
  let ?ct = "sp_compute_type sp0"
  note start = init_round [OF init, folded nodes(1), OF nodes(3)]
  have sample: "spatial_sample attrs caddy host data" "host \<in> set nodes" "samples_ok attrs nodes xs"
    using samples by (simp_all add: samples_ok_def)
  obtain sp1 where 1: "spatial_run debug errno fuel sp0 xs st1 = Ret (replicate (length xs) ORCM_ERR_RECV_MORE_THAN_POSTED, sp1, st1, [])"
      "round_state sp1 nodes ?ct None (last_samples xs)"
    using spatial_incomplete [OF start(1,2) nodes(2,3) db sample(3) incomplete] by blast
  obtain sp outs where 2: "spatial_analyze debug errno fuel now sp1 caddy st1 = Ret (OPAL_SUCCESS, sp, st1, outs)"
      "results outs = [spatial_batch ?ct (numbers (bucket_values ((last_samples xs)(host \<mapsto> data)) nodes))]"
      "round_state sp nodes ?ct (Some now) Map.empty"
    using spatial_step(2) [OF 1(2) start(2) nodes(2,3) sample(2,1) db
        complete [unfolded last_samples_snoc] room [unfolded last_samples_snoc]] by blast
  have run: "spatial_run debug errno fuel spatial_statistics_con (xs @ [(now, caddy, host, data)]) st =
      spatial_run debug errno fuel sp0 (xs @ [(now, caddy, host, data)]) st1"
    using samples by (rule spatial_run_init [OF init start(3)]) simp
  have "spatial_analyze debug errno fuel later sp caddy' st1 = Ret (ORCM_ERR_RECV_MORE_THAN_POSTED, sp, st1, [])"
    if "spatial_sample attrs caddy' host' data'" "orcm_util_time_diff now later < double_of_uint64 (sp_interval sp)"
    for later caddy' host' data'
    using round_early [OF 2(3) _ that] start(1,3) by (simp add: round_state_def)
  then show ?thesis
    using spatial_run_snoc [OF 1(1) 2(1)] 2(2,3) unfolding run last_samples_snoc by (intro exI conjI) auto
qed

lemma two_elements:
  assumes "distinct xs" "set xs = {a, b}" "a \<noteq> b"
  shows "xs = [a, b] \<or> xs = [b, a]"
proof -
  have "length xs = Suc (Suc 0)"
    using distinct_card [OF assms(1)] assms(2,3) by simp
  then obtain x y where xs: "xs = [x, y]"
    by (auto simp: length_Suc_conv)
  then have "{x, y} = {a, b}"
    using assms(2) by simp
  then show ?thesis
    unfolding doubleton_eq_iff xs by blast
qed

lemma init_two: "\<exists>ht. opal_hash_table_init malloc_ok opal_hash_table_construct 2 = Ret (OPAL_SUCCESS, ht :: 'a opal_hash_table_t)"
  by (simp add: opal_hash_table_init_def opal_hash_table_init2_def opal_hash_round_capacity_up_def size_of_int_def calloc_ok_def
      size_t_def)

lemma remove_all_construct [simp]: "snd (opal_hash_table_remove_all opal_hash_table_construct) = opal_hash_table_construct"
  by (simp add: opal_hash_table_remove_all_def opal_hash_table_construct_def)

definition max_attributes :: "attribute list" where
  "max_attributes = [(Some ''nodelist'', Some ''n1,n2''), (Some ''compute'', Some ''max'')]"

definition timed_value :: "int \<Rightarrow> string \<Rightarrow> 32 word \<Rightarrow> timed_sample" where
  "timed_value sec host v =
     (let data = [\<lparr>ov_name = Some ''temp'', ov_val = V_int v, ov_units = None\<rparr>] in
      ((sec, 0),
       \<lparr>cd_wf = \<lparr>wf_name = Some ''flow'', wf_hostname_regex = None, wf_workflow_id = 1\<rparr>,
        cd_wf_step = \<lparr>ws_attributes = max_attributes, ws_analytic = Some ''spatial'', ws_step_id = 1\<rparr>,
        cd_hash_key = 0,
        cd_value = \<lparr>an_key = Some [\<lparr>ov_name = Some ''hostname'', ov_val = V_string (Some host), ov_units = None\<rparr>],
          an_non_compute = Some [], an_compute = Some data\<rparr>\<rparr>,
       host, data))"

text \<open>The second sample of the first node replaces the first; the maximum is over 7 and 3.\<close>

theorem spatial_round_witness:
  "\<exists>st sp st1 outs. lg_session False [] = Ret ([], st) \<and>
     spatial_run False False 2 spatial_statistics_con [timed_value 1 ''n1'' 9, timed_value 2 ''n1'' 7, timed_value 3 ''n2'' 3] st =
       Ret ([ORCM_ERR_RECV_MORE_THAN_POSTED, ORCM_ERR_RECV_MORE_THAN_POSTED, OPAL_SUCCESS], sp, st1, outs) \<and> results outs = [7]"
proof -
  have e: "expand ''n1,n2'' = Some [''n1'', ''n2'']"
    using expand_comma_join [of "[''n1'', ''n2'']"] by (simp add: plain_def is_special_def)
  have trim: "orcm_logical_group_trim_string ''n1,n2'' = (''n1,n2'', ''n1,n2'')"
    by code_simp
  have refs: "tag_refs [''n1'', ''n2''] = []" "\<not> is_tag_ref ''n1''" "\<not> is_tag_ref ''n2''"
    by (simp_all add: tag_refs_def is_tag_ref_def)
  then have two: "{n. (n = ''n1'' \<or> n = ''n2'') \<and> \<not> is_tag_ref n} = {''n1'', ''n2''}"
    by auto
  obtain st where st: "lg_session False [] = Ret ([], st)" "lg_inv st" "lg_abs st = Map.empty"
    by (rule lg_session_ok [of "[]" False]) simp_all
  obtain out st1 where out: "orcm_logical_group_parse_array_string False False 2 (Some ''n1,n2'') st = Ret (OPAL_SUCCESS, out, Some ''n1,n2'', st1)"
      "distinct (argv_members out)" "set (argv_members out) = {''n1'', ''n2''}"
    using expand_forest_ok [OF st(2) trim e, of 2 False] two
    by (auto simp: refs st(3) leaves_def forest_def edge_def members_of_def)
  let ?nodes = "argv_members out"
  have nodes: "?nodes = [''n1'', ''n2''] \<or> ?nodes = [''n2'', ''n1'']"
    using out(2,3) by (rule two_elements) simp
  then obtain ns where ns: "out = Some ns"
    by (cases out) (auto simp: argv_members_def)
  have length: "length ns = 2" "length ?nodes = 2"
    using nodes by (auto simp: ns argv_members_def)
  obtain ht where "opal_hash_table_init malloc_ok opal_hash_table_construct 2 = Ret (OPAL_SUCCESS, ht :: orcm_value list opal_hash_table_t)"
    using init_two by blast
  then obtain sp where sp: "init_spatial_statistics False False 2 spatial_statistics_con max_attributes st = Ret (OPAL_SUCCESS, sp, st1)"
      "sp_nodelist sp = out" "sp_compute_type sp = ORCM_ANALYTICS_COMPUTE_MAX"
    by (simp add: init_spatial_statistics_def max_attributes_def spatial_statistics_con_def out(1) fill_spatial_statistics_def
      orcm_analytics_base_get_compute_type_def compute_type_defs reset_statistics_def opal_argv_count_def ns length Let_def)
  let ?xs = "[timed_value 1 ''n1'' 9, timed_value 2 ''n1'' 7]"
  obtain now caddy host data where y: "timed_value 3 ''n2'' 3 = (now, caddy, host, data)"
    using prod_cases4 by blast
  have db: "db_check_loop max_attributes = Ret False"
    by (simp add: max_attributes_def)
  have samples: "samples_ok max_attributes ?nodes (?xs @ [timed_value 3 ''n2'' 3])"
    using out(3) by (simp add: samples_ok_def timed_value_def Let_def spatial_sample_def)
  have dom: "dom (last_samples ?xs) \<noteq> set ?nodes" "dom (last_samples (?xs @ [timed_value 3 ''n2'' 3])) = set ?nodes"
    using out(3) by (auto simp: last_samples_def timed_value_def Let_def)
  have vals: "length (bucket_values (last_samples (?xs @ [timed_value 3 ''n2'' 3])) ?nodes) = 2"
    "set (numbers (bucket_values (last_samples (?xs @ [timed_value 3 ''n2'' 3])) ?nodes)) = {7, 3}"
    using nodes by (auto simp: bucket_values_def last_samples_def timed_value_def Let_def orcm_util_get_number_orcm_value_def)
  have "Max (insert DBL_MIN {7, 3}) = 7"
    by (simp add: DBL_MIN_def)
  then have batch: "spatial_batch (sp_compute_type sp) (numbers (bucket_values (last_samples (?xs @ [timed_value 3 ''n2'' 3])) ?nodes)) = 7"
    unfolding spatial_batch_def vals(2) sp(3) by (simp add: compute_type_defs)
  have small: "length ?nodes < 2 ^ 31"
    by (simp add: length)
  have room: "length (bucket_values (last_samples (?xs @ [timed_value 3 ''n2'' 3])) ?nodes) < 2 ^ 64"
    unfolding vals(1) by simp
  obtain sp' outs where "spatial_run False False 2 spatial_statistics_con (?xs @ [timed_value 3 ''n2'' 3]) st =
      Ret (replicate (length ?xs) ORCM_ERR_RECV_MORE_THAN_POSTED @ [OPAL_SUCCESS], sp', st1, outs)" "results outs = [7]"
    using spatial_round [OF sp(1) arg_cong [OF sp(2) [symmetric], of argv_members] out(2) small db samples [unfolded y] dom(1) dom(2) [unfolded y] room [unfolded y]]
    unfolding y batch [unfolded y] by blast
  then show ?thesis
    using st(1) by (intro exI conjI) (simp_all add: numeral_2_eq_2 del: spatial_run.simps)
qed

end
