(* ===== verification/Analytics_Events.thy ===== *)
theory Analytics_Events
  imports Analytics_Base
begin

text \<open>
  Repeated events, \<^verbatim>\<open>orcm/mca/analytics/base/analytics_base_event.c\<close>: the events of a workflow step go through a filter
  that drops an event when one with the same hash key was raised less than an interval before.

  The times of the last events are in blocks of their own: the table has their addresses, and the blocks are a list in
  the order of their allocation.  The interval of the framework parameter \<^verbatim>\<open>suppress_repeat\<close> is an argument.
\<close>

section \<open>The filter\<close>

definition KEY_SIZE :: nat where
  "KEY_SIZE = 1000"

record event_filter =
  ef_severity :: int
  ef_category :: "string option"
  ef_time :: "64 word"

definition event_filter_con :: "string option \<Rightarrow> event_filter outcome" where
  "event_filter_con suppress_repeat =
     obind (orcm_util_get_time_in_sec suppress_repeat) (\<lambda>t.
       Ret \<lparr>ef_severity = ORCM_RAS_SEVERITY_UNKNOWN, ef_category = None, ef_time = t\<rparr>)"

record event_store =
  es_table :: "nat opal_hash_table_t"
  es_heap :: "int list"

text \<open>The strings of the reporters, which are read as strings whatever their type.\<close>

primrec reporter_text :: "orcm_value list \<Rightarrow> string outcome" where
  "reporter_text [] = Ret []"
| "reporter_text (v # vs) =
     (case ov_val v of
        V_string s \<Rightarrow> obind (reporter_text vs) (\<lambda>t. Ret ((case s of None \<Rightarrow> [] | Some r \<Rightarrow> r) @ t))
      | _ \<Rightarrow> Undef)"

definition compute_text :: "orcm_value list \<Rightarrow> string" where
  "compute_text vs = concat (map (\<lambda>v. case ov_name v of None \<Rightarrow> [] | Some k \<Rightarrow> k) vs)"

definition generate_event_hashkey :: "int \<Rightarrow> int \<Rightarrow> orcm_value list \<Rightarrow> orcm_value list \<Rightarrow> 64 word outcome" where
  "generate_event_hashkey ev_type severity reporter compute_list =
     obind (reporter_text reporter) (\<lambda>r.
       let hash_key = r @ compute_text compute_list @ fmt_d ev_type @ fmt_d severity in
       if KEY_SIZE \<le> length hash_key then Undef else Ret (orcm_util_create_hash_key hash_key))"

text \<open>
  The code of the look-up is compared with the code of the insertion instead of being replaced by it: a key that is
  not found gives \<^verbatim>\<open>ORCM_ERR_NOT_FOUND\<close>, also when it could not be inserted.
\<close>

definition get_last_event_timestamp ::
  "bool \<Rightarrow> allocator \<Rightarrow> event_store \<Rightarrow> 64 word \<Rightarrow> int \<Rightarrow> (status \<times> nat option \<times> event_store) outcome" where
  "get_last_event_timestamp debug alloc st key current_ts =
     obind (opal_hash_table_get_value_uint64 debug (es_table st) key) (\<lambda>(rc, ts, tab).
       let st1 = st\<lparr>es_table := tab\<rparr> in
       if rc = OPAL_ERR_NOT_FOUND then
         (if \<not> alloc 8 then Ret (OPAL_ERR_OUT_OF_RESOURCE, ts, st1)
          else
            (let setval = length (es_heap st1) in
             obind (opal_hash_table_set_value_uint64 debug alloc (es_table st1) key setval) (\<lambda>(rc2, tab2).
               let st2 = \<lparr>es_table = tab2, es_heap = es_heap st1 @ [current_ts]\<rparr> in
               if rc \<noteq> rc2 then Ret (OPAL_ERR_NOT_FOUND, ts, st2) else Ret (OPAL_ERROR, ts, st2))))
       else if rc \<noteq> OPAL_SUCCESS then Ret (OPAL_ERROR, ts, st1)
       else Ret (OPAL_SUCCESS, ts, st1))"

text \<open>
  The categories of the description: a key is compared up to its own length, and the value of a matching key is read
  as a string.
\<close>

primrec category_loop :: "string \<Rightarrow> orcm_value list \<Rightarrow> bool \<Rightarrow> bool outcome" where
  "category_loop cat [] match_category = Ret match_category"
| "category_loop cat (v # vs) match_category =
     (case ov_name v of
        None \<Rightarrow> category_loop cat vs match_category
      | Some k \<Rightarrow>
          if strneq k ''event_category'' (length k) then
            (case ov_val v of
               V_string None \<Rightarrow> category_loop cat vs match_category
             | V_string (Some s) \<Rightarrow> category_loop cat vs (if strneq cat s (length cat) then match_category else False)
             | _ \<Rightarrow> Undef)
          else category_loop cat vs match_category)"

definition filter_max_rate :: "string option \<Rightarrow> orcm_ras_event \<Rightarrow> event_filter option \<Rightarrow> 32 word outcome" where
  "filter_max_rate suppress_repeat ev flt =
     (let dflt = obind (orcm_util_get_time_in_sec suppress_repeat) (\<lambda>t. Ret (ucast t)) in
      case flt of
        None \<Rightarrow> dflt
      | Some f \<Rightarrow>
          obind (case ef_category f of None \<Rightarrow> Ret True | Some c \<Rightarrow> category_loop c (re_description ev) True) (\<lambda>match_category.
            let match_severity = (re_severity ev = ORCM_RAS_SEVERITY_UNKNOWN \<or> re_severity ev \<le> ef_severity f) in
            if match_category \<and> match_severity then Ret (ucast (ef_time f)) else dflt))"

definition is_repeat_event ::
  "bool \<Rightarrow> allocator \<Rightarrow> string option \<Rightarrow> event_store \<Rightarrow> orcm_ras_event \<Rightarrow> event_filter option \<Rightarrow>
     (bool \<times> event_store) outcome" where
  "is_repeat_event debug alloc suppress_repeat st ev flt =
     obind (generate_event_hashkey (re_type ev) (re_severity ev) (re_reporter ev) (re_data ev)) (\<lambda>key.
       if key = 0 then Ret (False, st)
       else
         obind (get_last_event_timestamp debug alloc st key (re_timestamp ev)) (\<lambda>(rc, ts_add, st1).
           obind (filter_max_rate suppress_repeat ev flt) (\<lambda>repeat_interval.
             if rc \<noteq> OPAL_SUCCESS then Ret (False, st1)
             else
               (case ts_add of
                  None \<Rightarrow> Undef
                | Some p \<Rightarrow>
                    if length (es_heap st1) \<le> p \<or> LONG_MAX < es_heap st1 ! p + uint repeat_interval then Undef
                    else if re_timestamp ev < es_heap st1 ! p + uint repeat_interval then Ret (True, st1)
                    else Ret (False, st1\<lparr>es_heap := (es_heap st1)[p := re_timestamp ev]\<rparr>)))))"

primrec generate_loop ::
  "bool \<Rightarrow> allocator \<Rightarrow> string option \<Rightarrow> event_filter option \<Rightarrow> orcm_ras_event option list \<Rightarrow> event_store \<Rightarrow>
     (orcm_ras_event list \<times> event_store) outcome" where
  "generate_loop debug alloc suppress_repeat flt [] st = Ret ([], st)"
| "generate_loop debug alloc suppress_repeat flt (e # es) st =
     (case e of
        None \<Rightarrow> generate_loop debug alloc suppress_repeat flt es st
      | Some ev \<Rightarrow>
          obind (is_repeat_event debug alloc suppress_repeat st ev flt) (\<lambda>(repeat, st1).
            obind (generate_loop debug alloc suppress_repeat flt es st1) (\<lambda>(raised, st2).
              Ret (if repeat then raised else ev # raised, st2))))"

text \<open>The events of a list, whose entries may be empty.\<close>

primrec somes :: "'a option list \<Rightarrow> 'a list" where
  "somes [] = []"
| "somes (e # es) = (case e of None \<Rightarrow> somes es | Some x \<Rightarrow> x # somes es)"

text \<open>The events that are raised.\<close>

definition generate_events ::
  "bool \<Rightarrow> allocator \<Rightarrow> string option \<Rightarrow> event_store \<Rightarrow> orcm_ras_event option list \<Rightarrow> event_filter option \<Rightarrow> bool \<Rightarrow>
     (orcm_ras_event list \<times> event_store) outcome" where
  "generate_events debug alloc suppress_repeat st event_list flt suppress =
     (if \<not> suppress then Ret (somes event_list, st)
      else generate_loop debug alloc suppress_repeat flt event_list st)"

definition assign_filter_value ::
  "string option \<Rightarrow> string \<Rightarrow> string option \<Rightarrow> event_filter \<Rightarrow> (status \<times> event_filter) outcome" where
  "assign_filter_value suppress_repeat key val flt =
     (case val of
        None \<Rightarrow> Ret (OPAL_ERROR, flt)
      | Some s \<Rightarrow>
          if strneq key ''category'' (length key) then Ret (OPAL_SUCCESS, flt\<lparr>ef_category := Some s\<rparr>)
          else if strneq key ''severity'' (length key) then
            Ret (OPAL_SUCCESS, flt\<lparr>ef_severity := orcm_analytics_event_get_severity s\<rparr>)
          else if strneq key ''time'' (length key) then
            obind (orcm_util_get_time_in_sec (Some s)) (\<lambda>t.
              obind (if t = 0 then orcm_util_get_time_in_sec suppress_repeat else Ret t) (\<lambda>t'.
                Ret (OPAL_SUCCESS, flt\<lparr>ef_time := t'\<rparr>)))
          else Ret (OPAL_ERROR, flt))"

primrec filter_attributes ::
  "string option \<Rightarrow> attribute list \<Rightarrow> bool \<Rightarrow> event_filter option \<Rightarrow> (bool \<times> event_filter option) outcome" where
  "filter_attributes suppress_repeat [] suppress flt = Ret (suppress, flt)"
| "filter_attributes suppress_repeat (a # as) suppress flt =
     (case fst a of
        None \<Rightarrow> Ret (suppress, flt)
      | Some k \<Rightarrow>
          if k = ''suppress_repeat'' then
            (case snd a of
               None \<Rightarrow> Undef
             | Some s \<Rightarrow> filter_attributes suppress_repeat as (suppress \<or> s = ''yes'') flt)
          else if k = ''category'' \<or> k = ''severity'' \<or> k = ''time'' then
            (if \<not> suppress then Ret (suppress, flt)
             else
               obind (case flt of None \<Rightarrow> event_filter_con suppress_repeat | Some f \<Rightarrow> Ret f) (\<lambda>f.
                 obind (assign_filter_value suppress_repeat k (snd a) f) (\<lambda>(rc, f').
                   if rc \<noteq> OPAL_SUCCESS then Ret (suppress, Some f')
                   else filter_attributes suppress_repeat as suppress (Some f'))))
          else filter_attributes suppress_repeat as suppress flt)"

definition orcm_analytics_base_filter_events ::
  "bool \<Rightarrow> allocator \<Rightarrow> string option \<Rightarrow> event_store \<Rightarrow> orcm_ras_event option list \<Rightarrow> orcm_workflow_step \<Rightarrow>
     (orcm_ras_event list \<times> event_store) outcome" where
  "orcm_analytics_base_filter_events debug alloc suppress_repeat st event_list wf_step =
     obind (filter_attributes suppress_repeat (ws_attributes wf_step) False None) (\<lambda>(suppress, flt).
       generate_events debug alloc suppress_repeat st event_list flt suppress)"

section \<open>Notifier events\<close>

definition orcm_analytics_base_event_set_reporter :: "orcm_ras_event \<Rightarrow> string \<Rightarrow> val_data \<Rightarrow> orcm_ras_event" where
  "orcm_analytics_base_event_set_reporter ev key data =
     ev\<lparr>re_reporter := re_reporter ev @ [\<lparr>ov_name = Some key, ov_val = data, ov_units = None\<rparr>]\<rparr>"

definition orcm_analytics_base_event_set_category :: "orcm_ras_event \<Rightarrow> nat \<Rightarrow> status \<times> orcm_ras_event" where
  "orcm_analytics_base_event_set_category ev event_category =
     (case map_of [(0, ''SOFT_FAULT''), (1, ''HARD_FAULT''), (2, ''UNKOWN_FAULT'')] event_category of
        None \<Rightarrow> (OPAL_ERROR, ev)
      | Some s \<Rightarrow> (OPAL_SUCCESS, orcm_analytics_base_event_set_description ev ''event_category'' (V_string (Some s))))"

definition event_list_append :: "orcm_ras_event option list \<Rightarrow> orcm_ras_event \<Rightarrow> orcm_ras_event option list" where
  "event_list_append event_list ev = event_list @ [Some ev]"

primrec exec_attr_loop ::
  "attribute list \<Rightarrow> orcm_ras_event \<Rightarrow> bool \<Rightarrow> bool \<Rightarrow> status \<times> orcm_ras_event \<times> bool" where
  "exec_attr_loop [] ev exec_name_set exec_argv_set = (OPAL_SUCCESS, ev, exec_name_set)"
| "exec_attr_loop (a # as) ev exec_name_set exec_argv_set =
     (case fst a of
        None \<Rightarrow> (OPAL_ERR_BAD_PARAM, ev, exec_name_set)
      | Some k \<Rightarrow>
          let is_name = strneq k ''exec_name'' (length k);
              is_argv = (\<not> is_name \<and> strneq k ''exec_argv'' (length k));
              name_set = (exec_name_set \<or> is_name);
              argv_set = (exec_argv_set \<or> is_argv)
          in if \<not> is_name \<and> \<not> is_argv then exec_attr_loop as ev name_set argv_set
             else
               (case snd a of
                  None \<Rightarrow> (OPAL_ERR_BAD_PARAM, ev, name_set)
                | Some s \<Rightarrow>
                    let ev1 = orcm_analytics_base_event_set_description ev
                                (if is_name then ''exec_name'' else ''exec_argv'') (V_string (Some s))
                    in if name_set \<and> argv_set then (OPAL_SUCCESS, ev1, name_set) else exec_attr_loop as ev1 name_set argv_set))"

definition orcm_analytics_base_event_set_exec_attr :: "attribute list \<Rightarrow> orcm_ras_event \<Rightarrow> status \<times> orcm_ras_event" where
  "orcm_analytics_base_event_set_exec_attr wf_step_attr ras_event =
     (case exec_attr_loop wf_step_attr ras_event False False of
        (rc, ev, exec_name_set) \<Rightarrow>
          if rc \<noteq> OPAL_SUCCESS then (rc, ev)
          else if \<not> exec_name_set then (OPAL_ERR_BAD_PARAM, ev)
          else (OPAL_SUCCESS, ev))"

definition orcm_analytics_base_event_set_notifier_attr ::
  "attribute list \<Rightarrow> orcm_ras_event \<Rightarrow> string option \<Rightarrow> string \<Rightarrow> status \<times> orcm_ras_event" where
  "orcm_analytics_base_event_set_notifier_attr wf_step_attr ras_event msg action =
     (case orcm_analytics_base_event_set_storage ras_event ORCM_STORAGE_TYPE_NOTIFICATION of
        (rc, ev) \<Rightarrow>
          if rc \<noteq> OPAL_SUCCESS then (rc, ev)
          else
            (let ev1 = orcm_analytics_base_event_set_description ev ''notifier_msg'' (V_string msg);
                 ev2 = orcm_analytics_base_event_set_description ev1 ''notifier_action'' (V_string (Some action))
             in if strneq action ''exec'' (length action) then orcm_analytics_base_event_set_exec_attr wf_step_attr ev2
                else (OPAL_SUCCESS, ev2)))"

definition orcm_analytics_base_get_analytics_value :: "orcm_value \<Rightarrow> orcm_workflow_caddy \<Rightarrow> orcm_analytics_value" where
  "orcm_analytics_base_get_analytics_value current_value caddy =
     orcm_util_load_orcm_analytics_value_compute (an_key (cd_value caddy)) (an_non_compute (cd_value caddy))
       (Some (case orcm_util_copy_orcm_value current_value of None \<Rightarrow> [] | Some v \<Rightarrow> [v]))"

definition orcm_analytics_base_gen_notifier_event ::
  "orcm_value \<Rightarrow> orcm_workflow_caddy \<Rightarrow> int \<Rightarrow> string option \<Rightarrow> string option \<Rightarrow> orcm_ras_event option list \<Rightarrow>
     (status \<times> orcm_ras_event option list) outcome" where
  "orcm_analytics_base_gen_notifier_event current_value caddy severity msg action event_list =
     (case action of
        None \<Rightarrow> Ret (OPAL_ERROR, event_list)
      | Some act \<Rightarrow>
          if strneq act ''none'' (length act) then Ret (OPAL_SUCCESS, event_list)
          else
            obind (orcm_analytics_base_event_create (orcm_analytics_base_get_analytics_value current_value caddy)
                ORCM_RAS_EVENT_EXCEPTION severity) (\<lambda>ev.
              case ev of
                None \<Rightarrow> Ret (OPAL_ERR_OUT_OF_RESOURCE, event_list)
              | Some ras_event \<Rightarrow>
                  (case orcm_analytics_base_event_set_notifier_attr (ws_attributes (cd_wf_step caddy)) ras_event msg act of
                     (rc, ras_event') \<Rightarrow>
                       Ret (if rc \<noteq> OPAL_SUCCESS then (rc, event_list)
                            else (OPAL_SUCCESS, event_list_append event_list ras_event')))))"

end
