(* ===== verification/Analytics_Suppression.thy ===== *)
theory Analytics_Suppression
  imports Analytics_Events
begin

text \<open>
  The filter for repeated events raises exactly the events that no raised event with the same hash key precedes by less
  than their interval.  The table of addresses and the blocks of the times refine a history of raised events.
\<close>

section \<open>Specification\<close>

definition event_key :: "orcm_ras_event \<Rightarrow> 64 word" where
  "event_key ev =
     (case generate_event_hashkey (re_type ev) (re_severity ev) (re_reporter ev) (re_data ev) of Ret k \<Rightarrow> k | _ \<Rightarrow> 0)"

definition event_rate :: "string option \<Rightarrow> event_filter option \<Rightarrow> orcm_ras_event \<Rightarrow> int" where
  "event_rate sr f ev = (case filter_max_rate sr ev f of Ret w \<Rightarrow> uint w | _ \<Rightarrow> 0)"

text \<open>Reporters that are strings and fit into the key, an interval, and a time in the range of the sum.\<close>

definition event_ok :: "string option \<Rightarrow> event_filter option \<Rightarrow> orcm_ras_event \<Rightarrow> bool" where
  "event_ok sr f ev \<longleftrightarrow>
     returns (generate_event_hashkey (re_type ev) (re_severity ev) (re_reporter ev) (re_data ev)) \<and>
     returns (filter_max_rate sr ev f) \<and> re_timestamp ev + 2 ^ 32 \<le> LONG_MAX"

definition far_enough :: "(orcm_ras_event \<Rightarrow> int) \<Rightarrow> (64 word \<times> int) list \<Rightarrow> orcm_ras_event \<Rightarrow> bool" where
  "far_enough rate H ev \<longleftrightarrow> list_all (\<lambda>(k, t). k = event_key ev \<longrightarrow> t + rate ev \<le> re_timestamp ev) H"

text \<open>The history has the keys and times of the events that were raised.  An event with the key 0 is always raised.\<close>

primrec raised :: "(orcm_ras_event \<Rightarrow> int) \<Rightarrow> (64 word \<times> int) list \<Rightarrow> orcm_ras_event list \<Rightarrow> orcm_ras_event list" where
  "raised rate H [] = []"
| "raised rate H (ev # evs) =
     (if event_key ev = 0 then ev # raised rate H evs
      else if far_enough rate H ev then ev # raised rate ((event_key ev, re_timestamp ev) # H) evs
      else raised rate H evs)"

text \<open>The batches of events that a step hands to the filter one after the other.\<close>

primrec filter_run ::
  "bool \<Rightarrow> string option \<Rightarrow> orcm_workflow_step \<Rightarrow> orcm_ras_event option list list \<Rightarrow> event_store \<Rightarrow>
     (orcm_ras_event list \<times> event_store) outcome" where
  "filter_run debug sr step [] st = Ret ([], st)"
| "filter_run debug sr step (b # bs) st =
     obind (orcm_analytics_base_filter_events debug malloc_ok sr st b step) (\<lambda>(r, st1).
       obind (filter_run debug sr step bs st1) (\<lambda>(r', st2). Ret (r @ r', st2)))"

section \<open>The table\<close>

abbreviation table_of :: "event_store \<Rightarrow> 64 word \<rightharpoonup> nat" where
  "table_of st \<equiv> (\<lambda>k. ht_map (es_table st) (KU64 k))"

definition last_time :: "event_store \<Rightarrow> 64 word \<rightharpoonup> int" where
  "last_time st k = map_option ((!) (es_heap st)) (table_of st k)"

definition store_ok :: "event_store \<Rightarrow> bool" where
  "store_ok st \<longleftrightarrow>
     ht_inv Methods_uint64 (es_table st) \<and> (\<forall>k p. table_of st k = Some p \<longrightarrow> p < length (es_heap st)) \<and>
     (\<forall>k k' p. table_of st k = Some p \<longrightarrow> table_of st k' = Some p \<longrightarrow> k = k')"

text \<open>The table has the latest time of every key of the history.\<close>

definition latest :: "(64 word \<rightharpoonup> int) \<Rightarrow> (64 word \<times> int) list \<Rightarrow> bool" where
  "latest m H \<longleftrightarrow>
     (\<forall>k. case m k of
            None \<Rightarrow> \<forall>t. (k, t) \<notin> set H
          | Some t \<Rightarrow> (k, t) \<in> set H \<and> (\<forall>t'. (k, t') \<in> set H \<longrightarrow> t' \<le> t))"

lemma latest_None: "latest m H \<Longrightarrow> m k = None \<Longrightarrow> (k, t) \<notin> set H"
  unfolding latest_def by (drule spec [of _ k]) simp

lemma latest_Some:
  assumes "latest m H" "m k = Some t"
  shows "(k, t) \<in> set H" "(k, t') \<in> set H \<Longrightarrow> t' \<le> t"
  using assms unfolding latest_def by (auto dest!: spec [of _ k])

lemma latest_update:
  assumes "latest m H" "\<And>t'. (k, t') \<in> set H \<Longrightarrow> t' \<le> t"
  shows "latest (m(k \<mapsto> t)) ((k, t) # H)"
  unfolding latest_def
proof
  fix k'
  show "case (m(k \<mapsto> t)) k' of None \<Rightarrow> \<forall>t'. (k', t') \<notin> set ((k, t) # H)
      | Some u \<Rightarrow> (k', u) \<in> set ((k, t) # H) \<and> (\<forall>t'. (k', t') \<in> set ((k, t) # H) \<longrightarrow> t' \<le> u)"
    using assms(2) latest_None [OF assms(1), of k'] latest_Some [OF assms(1), of k'] by (auto split: option.split)
qed

lemma store_size:
  assumes "store_ok st" "latest (last_time st) H"
  shows "ht_size (es_table st) \<le> length H"
proof -
  have "dom (table_of st) \<subseteq> fst ` set H"
    using assms(2) by (force simp: latest_def last_time_def dom_def split: option.splits)
  then have "card (dom (table_of st)) \<le> card (fst ` set H)"
    by (intro card_mono) auto
  also have "\<dots> \<le> length H"
    by (metis card_length length_map set_map)
  finally show ?thesis
    using assms(1) by (simp add: store_ok_def u64_sized.size_law)
qed

lemma get_last_new:
  assumes "store_ok st" "last_time st key = None" "ht_size (es_table st) < 2 ^ 50"
  obtains st' where "get_last_event_timestamp debug malloc_ok st key t = Ret (OPAL_ERR_NOT_FOUND, None, st')" "store_ok st'"
    "last_time st' = (last_time st)(key \<mapsto> t)"
proof -
  have inv: "ht_inv Methods_uint64 (es_table st)" and none: "table_of st key = None"
    using assms(1,2) by (auto simp: store_ok_def last_time_def)
  obtain tab where tab: "opal_hash_table_get_value_uint64 debug (es_table st) key = Ret (OPAL_ERR_NOT_FOUND, None, tab)"
      "ht_inv Methods_uint64 tab" "(\<lambda>k. ht_map tab (KU64 k)) = table_of st"
    using u64.get_law [OF inv, of debug key] none by (auto simp: found_code_def)
  have "ht_size tab < 2 ^ 50"
    using assms(3) u64_sized.get_size [OF inv tab(1)] by simp
  then obtain tab2 where tab2: "opal_hash_table_set_value_uint64 debug malloc_ok tab key (length (es_heap st)) = Ret (OPAL_SUCCESS, tab2)"
      "ht_inv Methods_uint64 tab2" "(\<lambda>k. ht_map tab2 (KU64 k)) = (table_of st)(key \<mapsto> length (es_heap st))"
    using u64_sized.put_room [OF tab(2), of debug key "length (es_heap st)"] tab(3) by auto
  let ?st = "\<lparr>es_table = tab2, es_heap = es_heap st @ [t]\<rparr>"
  have m: "ht_map tab2 (KU64 k) = ((table_of st)(key \<mapsto> length (es_heap st))) k" for k
    using tab2(3) by metis
  have in_heap: "\<forall>k p. table_of st k = Some p \<longrightarrow> p < length (es_heap st)"
    and "\<forall>k k' p. table_of st k = Some p \<longrightarrow> table_of st k' = Some p \<longrightarrow> k = k'"
    using assms(1) by (simp_all add: store_ok_def)
  then have "store_ok ?st"
    using tab2(2) unfolding store_ok_def by (auto simp: m intro: less_SucI)
  moreover have "last_time ?st = (last_time st)(key \<mapsto> t)"
  proof
    fix k
    show "last_time ?st k = ((last_time st)(key \<mapsto> t)) k"
      using in_heap by (cases "table_of st k") (auto simp: last_time_def m nth_append)
  qed
  ultimately show thesis
    using that tab(1) tab2(1) by (simp add: get_last_event_timestamp_def)
qed

lemma get_last_old:
  assumes "store_ok st" "last_time st key = Some t'"
  obtains p st' where "get_last_event_timestamp debug malloc_ok st key t = Ret (OPAL_SUCCESS, Some p, st')" "store_ok st'"
    "last_time st' = last_time st" "p < length (es_heap st')" "es_heap st' ! p = t'"
    "\<forall>t. store_ok (st'\<lparr>es_heap := (es_heap st')[p := t]\<rparr>) \<and>
         last_time (st'\<lparr>es_heap := (es_heap st')[p := t]\<rparr>) = (last_time st)(key \<mapsto> t)"
proof -
  obtain p where p: "table_of st key = Some p" "es_heap st ! p = t'"
    using assms(2) by (auto simp: last_time_def)
  have inv: "ht_inv Methods_uint64 (es_table st)" and in_heap: "\<forall>k p. table_of st k = Some p \<longrightarrow> p < length (es_heap st)"
    and one: "\<forall>k k' p. table_of st k = Some p \<longrightarrow> table_of st k' = Some p \<longrightarrow> k = k'"
    using assms(1) by (simp_all add: store_ok_def)
  obtain tab where tab: "opal_hash_table_get_value_uint64 debug (es_table st) key = Ret (OPAL_SUCCESS, Some p, tab)"
      "ht_inv Methods_uint64 tab" "(\<lambda>k. ht_map tab (KU64 k)) = table_of st"
    using u64.get_law [OF inv, of debug key] p by (auto simp: found_code_def)
  have m: "ht_map tab (KU64 k) = table_of st k" for k
    using tab(3) by metis
  let ?st = "st\<lparr>es_table := tab\<rparr>"
  have "store_ok ?st" "last_time ?st = last_time st"
    using assms(1) tab(2) by (auto simp: store_ok_def last_time_def m)
  moreover have "store_ok (?st\<lparr>es_heap := (es_heap ?st)[p := t]\<rparr>)" for t
    using assms(1) tab(2) by (simp add: store_ok_def m)
  moreover have "last_time (?st\<lparr>es_heap := (es_heap ?st)[p := t]\<rparr>) = (last_time st)(key \<mapsto> t)" for t
  proof
    fix k
    show "last_time (?st\<lparr>es_heap := (es_heap ?st)[p := t]\<rparr>) k = ((last_time st)(key \<mapsto> t)) k"
      using p one in_heap by (cases "table_of st k") (auto simp: last_time_def m nth_list_update)
  qed
  ultimately show thesis
    using that [of p ?st] tab(1) p in_heap by (simp add: get_last_event_timestamp_def)
qed

section \<open>One event\<close>

lemma is_repeat_step:
  assumes st: "store_ok st" "latest (last_time st) H" and ev: "event_ok sr f ev" "event_key ev \<noteq> 0"
    and H: "length H < 2 ^ 50" "\<forall>(k, t)\<in>set H. t + 2 ^ 32 \<le> LONG_MAX"
  shows "\<exists>st'. is_repeat_event debug malloc_ok sr st ev f = Ret (\<not> far_enough (event_rate sr f) H ev, st') \<and> store_ok st' \<and>
           latest (last_time st') (if far_enough (event_rate sr f) H ev then (event_key ev, re_timestamp ev) # H else H)"
proof -
  let ?k = "event_key ev" and ?t = "re_timestamp ev" and ?r = "event_rate sr f ev"
  obtain w where key: "generate_event_hashkey (re_type ev) (re_severity ev) (re_reporter ev) (re_data ev) = Ret ?k"
    and rate: "filter_max_rate sr ev f = Ret w" "uint w = ?r"
    using ev(1) by (auto simp: event_ok_def returns_def event_key_def event_rate_def)
  have r: "0 \<le> ?r" "?r < 2 ^ 32"
    unfolding rate(2) [symmetric] using uint_lt2p [of w] by simp_all
  show ?thesis
  proof (cases "last_time st ?k")
    case None
    then have "far_enough (event_rate sr f) H ev"
      using latest_None [OF st(2) None] by (auto simp: far_enough_def list_all_iff)
    moreover have "ht_size (es_table st) < 2 ^ 50"
      using store_size [OF st] H(1) by simp
    then obtain st' where "get_last_event_timestamp debug malloc_ok st ?k ?t = Ret (OPAL_ERR_NOT_FOUND, None, st')" "store_ok st'"
        "last_time st' = (last_time st)(?k \<mapsto> ?t)"
      using get_last_new [OF st(1) None] by metis
    moreover have "latest ((last_time st)(?k \<mapsto> ?t)) ((?k, ?t) # H)"
      using latest_None [OF st(2) None] by (intro latest_update [OF st(2)]) auto
    ultimately show ?thesis
      using key rate ev(2) by (simp add: is_repeat_event_def)
  next
    case (Some t')
    obtain p st' where st': "get_last_event_timestamp debug malloc_ok st ?k ?t = Ret (OPAL_SUCCESS, Some p, st')" "store_ok st'"
      "last_time st' = last_time st" "p < length (es_heap st')" "es_heap st' ! p = t'"
      "\<forall>t. store_ok (st'\<lparr>es_heap := (es_heap st')[p := t]\<rparr>) \<and>
         last_time (st'\<lparr>es_heap := (es_heap st')[p := t]\<rparr>) = (last_time st)(?k \<mapsto> t)"
      using get_last_old [OF st(1) Some] by metis
    note t' = latest_Some [OF st(2) Some]
    have far: "far_enough (event_rate sr f) H ev \<longleftrightarrow> t' + ?r \<le> ?t"
    proof
      assume "far_enough (event_rate sr f) H ev"
      then show "t' + ?r \<le> ?t"
        using t'(1) by (auto simp: far_enough_def list_all_iff)
    next
      assume "t' + ?r \<le> ?t"
      then show "far_enough (event_rate sr f) H ev"
        using t'(2) by (auto simp: far_enough_def list_all_iff intro: order.trans [OF add_right_mono])
    qed
    have "t' + 2 ^ 32 \<le> LONG_MAX"
      using bspec [OF H(2) t'(1)] by simp
    then have range: "\<not> LONG_MAX < t' + ?r"
      using r(2) by linarith
    have upd: "latest ((last_time st)(?k \<mapsto> ?t)) ((?k, ?t) # H)" if "t' + ?r \<le> ?t"
      using t'(2) that r(1) by (intro latest_update [OF st(2)]) fastforce
    have "is_repeat_event debug malloc_ok sr st ev f =
        (if ?t < t' + ?r then Ret (True, st') else Ret (False, st'\<lparr>es_heap := (es_heap st')[p := ?t]\<rparr>))"
      using range st'(4) by (simp add: is_repeat_event_def key ev(2) st'(1,5) rate)
    then show ?thesis
      using far upd st(2) st'(2,3,6) by (cases "t' + ?r \<le> ?t") auto
  qed
qed

lemma generate_loop_ok:
  assumes "store_ok st" "latest (last_time st) H" "\<forall>ev\<in>set (somes es). event_ok sr f ev"
    "length H + length es < 2 ^ 50" "\<forall>(k, t)\<in>set H. t + 2 ^ 32 \<le> LONG_MAX"
  shows "\<exists>st'. generate_loop debug malloc_ok sr f es st = Ret (raised (event_rate sr f) H (somes es), st')"
  using assms
proof (induction es arbitrary: st H)
  case (Cons e es)
  show ?case
  proof (cases e)
    case None
    then show ?thesis
      using Cons by simp
  next
    case (Some ev)
    have ok: "event_ok sr f ev" "\<forall>ev\<in>set (somes es). event_ok sr f ev" "re_timestamp ev + 2 ^ 32 \<le> LONG_MAX"
      using Cons.prems(3) Some by (simp_all add: event_ok_def)
    show ?thesis
    proof (cases "event_key ev = 0")
      case True
      then have "is_repeat_event debug malloc_ok sr st ev f = Ret (False, st)"
        using ok(1) by (auto simp: is_repeat_event_def event_ok_def event_key_def returns_def)
      then show ?thesis
        using Cons.IH [OF Cons.prems(1,2) ok(2)] Cons.prems(4,5) Some True by auto
    next
      case False
      let ?far = "far_enough (event_rate sr f) H ev"
      let ?H = "if ?far then (event_key ev, re_timestamp ev) # H else H"
      obtain st1 where st1: "is_repeat_event debug malloc_ok sr st ev f = Ret (\<not> ?far, st1)" "store_ok st1" "latest (last_time st1) ?H"
        using is_repeat_step [OF Cons.prems(1,2) ok(1) False _ Cons.prems(5)] Cons.prems(4) by auto
      have "length ?H + length es < 2 ^ 50" "\<forall>(k, t)\<in>set ?H. t + 2 ^ 32 \<le> LONG_MAX"
        using Cons.prems(4,5) ok(3) by auto
      then show ?thesis
        using Cons.IH [OF st1(2,3) ok(2)] st1(1) Some False by auto
    qed
  qed
qed simp

lemma generate_loop_append:
  "generate_loop debug alloc sr f (xs @ ys) st =
     obind (generate_loop debug alloc sr f xs st) (\<lambda>(r, st1).
       obind (generate_loop debug alloc sr f ys st1) (\<lambda>(r', st2). Ret (r @ r', st2)))"
proof (induction xs arbitrary: st)
  case Nil
  show ?case
    by (cases "generate_loop debug alloc sr f ys st") auto
next
  case (Cons x xs)
  show ?case
  proof (cases x)
    case (Some ev)
    show ?thesis
    proof (cases "is_repeat_event debug alloc sr st ev f")
      case (Ret p)
      obtain b st1 where p: "p = (b, st1)"
        by (cases p)
      show ?thesis
        using Cons.IH [of st1] Some Ret p
        by (cases "generate_loop debug alloc sr f xs st1")
          (auto simp: outcome_simps split_def intro!: arg_cong [where f = "obind _"])
    qed (simp_all add: Some)
  qed (simp add: Cons.IH)
qed

lemma filter_run_loop:
  assumes "filter_attributes sr (ws_attributes step) False None = Ret (True, f)"
  shows "filter_run debug sr step bs st = generate_loop debug malloc_ok sr f (concat bs) st"
proof (induction bs arbitrary: st)
  case (Cons b bs)
  have "orcm_analytics_base_filter_events debug malloc_ok sr st b step = generate_loop debug malloc_ok sr f b st"
    by (simp add: assms orcm_analytics_base_filter_events_def generate_events_def)
  then show ?case
    by (simp only: filter_run.simps concat.simps generate_loop_append Cons.IH)
qed simp

lemma raised_history: "ev \<in> set (raised rate H evs) \<Longrightarrow> event_key ev \<noteq> 0 \<Longrightarrow> far_enough rate H ev"
proof (induction evs arbitrary: H)
  case (Cons e evs)
  have "far_enough rate H ev" if "far_enough rate (x # H) ev" for x
    using that by (simp add: far_enough_def)
  then show ?case
    using Cons by (auto split: if_splits)
qed simp

lemma raised_apart:
  "sorted_wrt (\<lambda>e e'. event_key e \<noteq> 0 \<longrightarrow> event_key e = event_key e' \<longrightarrow> re_timestamp e + rate e' \<le> re_timestamp e')
     (raised rate H evs)"
proof (induction evs arbitrary: H)
  case (Cons ev evs)
  have "event_key ev = event_key e' \<longrightarrow> re_timestamp ev + rate e' \<le> re_timestamp e'"
    if "e' \<in> set (raised rate ((event_key ev, re_timestamp ev) # H) evs)" "event_key ev \<noteq> 0" for e'
    using raised_history [OF that(1)] that(2) by (auto simp: far_enough_def)
  then show ?case
    using Cons by auto
qed simp

lemma empty_store:
  assumes "n < 2 ^ 32" "opal_hash_table_init malloc_ok opal_hash_table_construct n = Ret (OPAL_SUCCESS, ht)"
  shows "store_ok \<lparr>es_table = ht, es_heap = []\<rparr>" "latest (last_time \<lparr>es_table = ht, es_heap = []\<rparr>) []"
proof -
  have "ht_inv Methods_uint64 ht" "ht_map ht = Map.empty"
    by (rule init_inv [OF assms])+
  then show "store_ok \<lparr>es_table = ht, es_heap = []\<rparr>" "latest (last_time \<lparr>es_table = ht, es_heap = []\<rparr>) []"
    by (simp_all add: store_ok_def latest_def last_time_def)
qed

section \<open>Properties\<close>

text \<open>
  C15: The filter of a step that suppresses repeats, over any number of batches of events: it returns, and it raises
  exactly the events before which no event with the same hash key was raised less than their interval earlier; so two
  raised events with the same key are always at least the interval of the later one apart.
\<close>

theorem event_suppression:
  assumes "opal_hash_table_init malloc_ok opal_hash_table_construct n = Ret (OPAL_SUCCESS, ht)" "n < 2 ^ 32"
    "filter_attributes sr (ws_attributes step) False None = Ret (True, f)"
    "\<forall>ev\<in>set (somes (concat bs)). event_ok sr f ev" "length (concat bs) < 2 ^ 50"
  shows "\<exists>out st. filter_run debug sr step bs \<lparr>es_table = ht, es_heap = []\<rparr> = Ret (out, st) \<and>
           out = raised (event_rate sr f) [] (somes (concat bs)) \<and>
           sorted_wrt (\<lambda>e e'. event_key e \<noteq> 0 \<longrightarrow> event_key e = event_key e' \<longrightarrow>
             re_timestamp e + event_rate sr f e' \<le> re_timestamp e') out"
proof -
  show ?thesis
    using empty_store [OF assms(2,1)] generate_loop_ok [of _ "[]" "concat bs" sr f debug] assms(4,5) raised_apart
    by (auto simp: filter_run_loop [OF assms(3)])
qed

text \<open>An interval of ten seconds: of the events at 100, 105 and 110 the second one is dropped.\<close>

definition example_event :: "int \<Rightarrow> orcm_ras_event" where
  "example_event t =
     \<lparr>re_type = ORCM_RAS_EVENT_EXCEPTION, re_severity = ORCM_RAS_SEVERITY_ERROR, re_timestamp = t,
      re_reporter = [\<lparr>ov_name = Some ''hostname'', ov_val = V_string (Some ''n1''), ov_units = None\<rparr>],
      re_description = [], re_data = []\<rparr>"

definition example_step :: orcm_workflow_step where
  "example_step =
     \<lparr>ws_attributes = [(Some ''suppress_repeat'', Some ''yes''), (Some ''time'', Some ''10'')], ws_analytic = Some ''threshold'',
      ws_step_id = 1\<rparr>"

lemma example_key:
  "generate_event_hashkey (re_type (example_event t)) (re_severity (example_event t)) (re_reporter (example_event t))
     (re_data (example_event t)) = Ret 103095739"
  by (simp add: generate_event_hashkey_def example_event_def KEY_SIZE_def compute_text_def fmt_d_def orcm_util_create_hash_key_def
      ORCM_UTIL_HASH_MULTIPLIER_def ORCM_RAS_EVENT_EXCEPTION_def ORCM_RAS_SEVERITY_ERROR_def digit_char_def dec.simps [of "Suc 0"] dec.simps [of 3])

lemma example_rate:
  "filter_max_rate None (example_event t) (Some \<lparr>ef_severity = ORCM_RAS_SEVERITY_UNKNOWN, ef_category = None, ef_time = 10\<rparr>) = Ret 10"
  by (simp add: filter_max_rate_def example_event_def ORCM_RAS_SEVERITY_UNKNOWN_def ORCM_RAS_SEVERITY_ERROR_def)

lemma example_filter:
  "filter_attributes None (ws_attributes example_step) False None =
     Ret (True, Some \<lparr>ef_severity = ORCM_RAS_SEVERITY_UNKNOWN, ef_category = None, ef_time = 10\<rparr>)"
  by (simp add: example_step_def event_filter_con_def assign_filter_value_def strneq_def orcm_util_get_time_in_sec_def
      check_numeric_def strtol_digits0_def get_seconds_multiplier_def dec_val_def digit_val_def isdigit_def LONG_MAX_def)

theorem event_suppression_witness:
  "\<exists>ht out st. opal_hash_table_init malloc_ok opal_hash_table_construct 0 = Ret (OPAL_SUCCESS, ht) \<and>
     filter_run True None example_step [[Some (example_event 100)], [Some (example_event 105), None, Some (example_event 110)]]
       \<lparr>es_table = ht, es_heap = []\<rparr> = Ret (out, st) \<and> map re_timestamp out = [100, 110]"
proof -
  obtain ht :: "nat opal_hash_table_t" where ht: "opal_hash_table_init malloc_ok opal_hash_table_construct 0 = Ret (OPAL_SUCCESS, ht)"
    by (simp add: init_zero)
  have ok: "event_ok None (Some \<lparr>ef_severity = ORCM_RAS_SEVERITY_UNKNOWN, ef_category = None, ef_time = 10\<rparr>) (example_event t)"
    if "t \<le> 110" for t
    using that by (simp add: event_ok_def example_key example_rate) (simp add: example_event_def LONG_MAX_def)
  have key: "event_key (example_event t) = 103095739" and ts: "re_timestamp (example_event t) = t" for t
    by (simp_all add: event_key_def example_key) (simp add: example_event_def)
  show ?thesis
    using event_suppression [OF ht _ example_filter, of "[[Some (example_event 100)], [Some (example_event 105), None, Some (example_event 110)]]" True] ht
    by (auto simp: ok key ts far_enough_def event_rate_def example_rate)
qed

end
