(* ===== verification/Analytics_Threshold.thy ===== *)
theory Analytics_Threshold
  imports Analytics_Suppression Argv
begin

text \<open>
  The threshold plug-in, \<^verbatim>\<open>orcm/mca/analytics/threshold/analytics_threshold.c\<close>: the policy of a step, the values that
  cross one of its limits, and the events about them.
\<close>

section \<open>Policy\<close>

definition HASH_TABLE_SIZE :: nat where
  "HASH_TABLE_SIZE = 10000"

record threshold_policy =
  tp_hi :: rat
  tp_hi_sev :: int
  tp_hi_action :: "string option"
  tp_low :: rat
  tp_low_sev :: int
  tp_low_action :: "string option"

definition threshold_policy_con :: threshold_policy where
  "threshold_policy_con =
     \<lparr>tp_hi = 0, tp_hi_sev = ORCM_RAS_SEVERITY_INFO, tp_hi_action = None, tp_low = 0,
      tp_low_sev = ORCM_RAS_SEVERITY_INFO, tp_low_action = None\<rparr>"

record threshold_module =
  tm_policy :: threshold_policy
  tm_store :: event_store

definition threshold_init :: "allocator \<Rightarrow> (status \<times> threshold_module option) outcome" where
  "threshold_init alloc =
     obind (opal_hash_table_init alloc opal_hash_table_construct HASH_TABLE_SIZE) (\<lambda>(rc, table).
       if rc \<noteq> OPAL_SUCCESS then Ret (OPAL_ERROR, None)
       else Ret (OPAL_SUCCESS,
         Some \<lparr>tm_policy = threshold_policy_con, tm_store = \<lparr>es_table = table, es_heap = []\<rparr>\<rparr>))"

text \<open>
  \<^verbatim>\<open>strtod\<close> reports a number that is too small; one that is too large has no representation here.
\<close>

definition get_threshold_value :: "string \<Rightarrow> status \<times> rat" where
  "get_threshold_value tval =
     (if \<not> list_all (\<lambda>c. isdigit c \<or> c = CHR ''-'' \<or> c = CHR ''+'' \<or> c = CHR ''.'') tval then (OPAL_ERR_BAD_PARAM, 0)
      else
        (let val = double_round (decimal_value tval) in
         if val = 0 \<and> decimal_value tval \<noteq> 0 then (OPAL_ERR_BAD_PARAM, val) else (OPAL_SUCCESS, val)))"

definition parse_token :: "argv \<Rightarrow> threshold_policy \<Rightarrow> status \<times> threshold_policy" where
  "parse_token token policy =
     (case token of
        Some [t0, t1, t2, t3] \<Rightarrow>
          (case get_threshold_value t1 of (rc, val) \<Rightarrow>
             if rc \<noteq> OPAL_SUCCESS then (rc, policy)
             else
               (let sev = orcm_analytics_event_get_severity t2 in
                if t0 = ''hi'' then (OPAL_SUCCESS, policy\<lparr>tp_hi := val, tp_hi_sev := sev, tp_hi_action := Some t3\<rparr>)
                else if t0 = ''low'' then (OPAL_SUCCESS, policy\<lparr>tp_low := val, tp_low_sev := sev, tp_low_action := Some t3\<rparr>)
                else (OPAL_ERR_BAD_PARAM, policy)))
      | _ \<Rightarrow> (OPAL_ERR_BAD_PARAM, policy))"

primrec policy_loop :: "string list \<Rightarrow> threshold_policy \<Rightarrow> status \<times> threshold_policy" where
  "policy_loop [] policy = (OPAL_SUCCESS, policy)"
| "policy_loop (p # ps) policy =
     (case parse_token (opal_argv_split malloc_ok (Some p) CHR ''|'') policy of
        (rc, policy1) \<Rightarrow> if rc \<noteq> OPAL_SUCCESS then (rc, policy1) else policy_loop ps policy1)"

text \<open>The first item of an empty list is the head of the list, which is not an attribute.\<close>

definition get_threshold_policy :: "attribute list \<Rightarrow> threshold_policy \<Rightarrow> (status \<times> threshold_policy) outcome" where
  "get_threshold_policy attributes threshold_policy =
     (case attributes of
        [] \<Rightarrow> Undef
      | (None, _) # _ \<Rightarrow> Undef
      | (Some k, s) # _ \<Rightarrow>
          if k \<noteq> ''policy'' then Ret (OPAL_ERR_BAD_PARAM, threshold_policy)
          else
            (case opal_argv_split malloc_ok s CHR '','' of
               None \<Rightarrow> Ret (OPAL_ERR_BAD_PARAM, threshold_policy)
             | Some ps \<Rightarrow>
                 if ps = [] \<or> 2 < length ps then Ret (OPAL_ERR_BAD_PARAM, threshold_policy)
                 else Ret (policy_loop ps threshold_policy)))"

section \<open>Values\<close>

text \<open>\<^verbatim>\<open>printf("%.02f")\<close>.\<close>

definition fmt_f2 :: "rat \<Rightarrow> string" where
  "fmt_f2 q =
     (let cents = nat (round_even (\<bar>q\<bar> * 100)) in
      (if q < 0 then ''-'' else []) @ dec (cents div 100) @ ''.'' @ pad 2 (cents mod 100))"

definition threshold_msg :: "string \<Rightarrow> orcm_value \<Rightarrow> string \<Rightarrow> rat \<Rightarrow> string" where
  "threshold_msg hostname v text limit =
     hostname @ '' '' @ fmt_s (ov_name v) @ '' value '' @ fmt_f2 (orcm_util_get_number_orcm_value v) @ '' '' @
     fmt_s (ov_units v) @ text @ fmt_f2 limit @ '' '' @ fmt_s (ov_units v)"

text \<open>Whether a limit is crossed, the message, the severity and the action.\<close>

definition check_threshold ::
  "orcm_value \<Rightarrow> threshold_policy \<Rightarrow> string \<Rightarrow> int \<Rightarrow> string option \<Rightarrow> bool \<times> string option \<times> int \<times> string option" where
  "check_threshold current_value policy hostname sev action =
     (let val = orcm_util_get_number_orcm_value current_value in
      if tp_hi policy \<le> val \<and> tp_hi_action policy \<noteq> None then
        (True, Some (threshold_msg hostname current_value '',greater than threshold '' (tp_hi policy)), tp_hi_sev policy,
         tp_hi_action policy)
      else if val \<le> tp_low policy \<and> tp_low_action policy \<noteq> None \<and> tp_low policy \<noteq> tp_hi policy then
        (True, Some (threshold_msg hostname current_value '', lower than threshold '' (tp_low policy)), tp_low_sev policy,
         tp_low_action policy)
      else (False, None, sev, action))"

text \<open>The code of the last value that crosses a limit is the one that is returned.\<close>

primrec monitor_loop ::
  "orcm_workflow_caddy \<Rightarrow> threshold_policy \<Rightarrow> string \<Rightarrow> orcm_value list \<Rightarrow> status \<Rightarrow> int \<Rightarrow> string option \<Rightarrow>
     orcm_value list \<Rightarrow> orcm_ras_event option list \<Rightarrow> (status \<times> orcm_value list \<times> orcm_ras_event option list) outcome" where
  "monitor_loop caddy policy hostname [] rc sev action threshold_list event_list = Ret (rc, threshold_list, event_list)"
| "monitor_loop caddy policy hostname (v # vs) rc sev action threshold_list event_list =
     (case check_threshold v policy hostname sev action of (copy, msg, sev1, action1) \<Rightarrow>
        if copy then
          obind (orcm_analytics_base_gen_notifier_event v caddy sev1 msg action1 event_list) (\<lambda>(rc1, event_list1).
            monitor_loop caddy policy hostname vs rc1 sev1 action1
              (case orcm_util_copy_orcm_value v of None \<Rightarrow> threshold_list | Some w \<Rightarrow> threshold_list @ [w]) event_list1)
        else monitor_loop caddy policy hostname vs rc sev1 action1 threshold_list event_list)"

definition monitor_threshold ::
  "orcm_workflow_caddy \<Rightarrow> threshold_policy \<Rightarrow> (status \<times> orcm_value list \<times> orcm_ras_event option list) outcome" where
  "monitor_threshold caddy policy =
     (case an_compute (cd_value caddy) of
        None \<Rightarrow> Ret (OPAL_ERR_BAD_PARAM, [], [])
      | Some data \<Rightarrow>
          (case an_key (cd_value caddy) of
             None \<Rightarrow> Undef
           | Some key \<Rightarrow>
               obind (orcm_analytics_get_hostname_from_attributes key) (\<lambda>hostname.
                 monitor_loop caddy policy hostname data OPAL_SUCCESS ORCM_RAS_SEVERITY_INFO None [] [])))"

definition threshold_analyze ::
  "bool \<Rightarrow> string option \<Rightarrow> threshold_module \<Rightarrow> orcm_workflow_caddy \<Rightarrow>
     (status \<times> threshold_module \<times> wf_output list) outcome" where
  "threshold_analyze debug suppress_repeat md caddy =
     obind (if tp_hi_action (tm_policy md) = None \<and> tp_low_action (tm_policy md) = None
            then get_threshold_policy (ws_attributes (cd_wf_step caddy)) (tm_policy md)
            else Ret (OPAL_SUCCESS, tm_policy md)) (\<lambda>(rc, policy).
       let mod1 = md\<lparr>tm_policy := policy\<rparr> in
       if rc \<noteq> OPAL_SUCCESS then Ret (rc, mod1, [])
       else
         obind (monitor_threshold caddy policy) (\<lambda>(rc1, threshold_list, event_list).
           if rc1 \<noteq> OPAL_SUCCESS then Ret (rc1, mod1, [])
           else
             (let to_next = orcm_util_load_orcm_analytics_value_compute (an_key (cd_value caddy))
                              (an_non_compute (cd_value caddy)) (Some threshold_list)
              in obind (orcm_analytics_base_db_check (cd_wf_step caddy)) (\<lambda>db.
                   obind (if db then orcm_analytics_base_log_to_database_event to_next else Ret (OPAL_SUCCESS, [])) (\<lambda>(rc2, logged).
                     if rc2 \<noteq> OPAL_SUCCESS then Ret (rc2, mod1, map Out_event logged)
                     else
                       obind (if event_list = [] then Ret ([], tm_store md)
                              else orcm_analytics_base_filter_events debug malloc_ok suppress_repeat (tm_store md) event_list
                                     (cd_wf_step caddy)) (\<lambda>(raised, store).
                         Ret (OPAL_SUCCESS, mod1\<lparr>tm_store := store\<rparr>,
                              map Out_event (logged @ raised) @ [Out_next (cd_hash_key caddy) to_next])))))))"

end
