(* ===== verification/Analytics_Threshold_Spec.thy ===== *)
theory Analytics_Threshold_Spec
  imports Analytics_Threshold
begin

text \<open>
  The threshold plug-in hands on exactly the values that cross a limit, and raises one event for each of them, unless
  the filter for repeated events drops it.  A policy in its text form is read back.
\<close>

section \<open>Policies\<close>

text \<open>A clause: the limit it is about, its number, its severity and its action.\<close>

type_synonym clause = "string \<times> string \<times> string \<times> string"

definition clause_text :: "clause \<Rightarrow> string" where
  "clause_text = (\<lambda>(k, v, s, a). intersperse_join CHR ''|'' [k, v, s, a])"

definition policy_text :: "clause list \<Rightarrow> string" where
  "policy_text cs = intersperse_join CHR '','' (map clause_text cs)"

definition apply_clause :: "clause \<Rightarrow> threshold_policy \<Rightarrow> threshold_policy" where
  "apply_clause = (\<lambda>(k, v, s, a) p.
     let val = double_round (decimal_value v); sev = orcm_analytics_event_get_severity s in
     if k = ''hi'' then p\<lparr>tp_hi := val, tp_hi_sev := sev, tp_hi_action := Some a\<rparr>
     else p\<lparr>tp_low := val, tp_low_sev := sev, tp_low_action := Some a\<rparr>)"

definition clause_ok :: "clause \<Rightarrow> bool" where
  "clause_ok = (\<lambda>(k, v, s, a).
     k \<in> {''hi'', ''low''} \<and> fst (get_threshold_value v) = OPAL_SUCCESS \<and>
     list_all (\<lambda>t. t \<noteq> [] \<and> CHR ''|'' \<notin> set t \<and> CHR '','' \<notin> set t) [v, s, a])"

lemma split_join:
  assumes "vs \<noteq> []" "\<forall>v\<in>set vs. v \<noteq> [] \<and> d \<notin> set v"
  shows "opal_argv_split malloc_ok (Some (intersperse_join d vs)) d = Some vs"
proof -
  have f: "Argv.fields d (intersperse_join d vs) = vs"
    using assms by (intro fields_join) auto
  have "filter (\<lambda>v. v \<noteq> []) vs = vs"
    using assms(2) by (simp add: filter_id_conv)
  then have "split_result False d (intersperse_join d vs) = vs"
    using f assms by (cases "intersperse_join d vs") (auto simp: split_result_def)
  then show ?thesis
    using assms(1) by (simp add: opal_argv_split_def opal_argv_split_inter_def split_loop_ok nonempty_argv_def)
qed

lemma clause_parts:
  assumes "clause_ok c"
  shows "opal_argv_split malloc_ok (Some (clause_text c)) CHR ''|'' = Some [fst c, fst (snd c), fst (snd (snd c)), snd (snd (snd c))]"
    "CHR '','' \<notin> set (clause_text c)" "clause_text c \<noteq> []"
proof -
  obtain k v s a where c: "c = (k, v, s, a)"
    by (cases c)
  have "\<forall>t\<in>set [k, v, s, a]. t \<noteq> [] \<and> CHR ''|'' \<notin> set t"
    using assms c by (auto simp: clause_ok_def)
  then show "opal_argv_split malloc_ok (Some (clause_text c)) CHR ''|'' = Some [fst c, fst (snd c), fst (snd (snd c)), snd (snd (snd c))]"
    using split_join [of "[k, v, s, a]" "CHR ''|''"] c by (simp add: clause_text_def)
  show "CHR '','' \<notin> set (clause_text c)" "clause_text c \<noteq> []"
    using assms c by (auto simp: clause_ok_def clause_text_def)
qed

lemma parse_clause:
  assumes "clause_ok c"
  shows "parse_token (Some [fst c, fst (snd c), fst (snd (snd c)), snd (snd (snd c))]) p = (OPAL_SUCCESS, apply_clause c p)"
  using assms by (cases c) (auto simp: clause_ok_def parse_token_def apply_clause_def get_threshold_value_def Let_def split: if_splits)

lemma policy_loop_ok:
  "list_all clause_ok cs \<Longrightarrow> policy_loop (map clause_text cs) p = (OPAL_SUCCESS, fold apply_clause cs p)"
  by (induction cs arbitrary: p) (simp_all add: clause_parts(1) parse_clause)

section \<open>Values\<close>

definition above :: "threshold_policy \<Rightarrow> orcm_value \<Rightarrow> bool" where
  "above p v \<longleftrightarrow> tp_hi p \<le> orcm_util_get_number_orcm_value v \<and> tp_hi_action p \<noteq> None"

definition crossed :: "threshold_policy \<Rightarrow> orcm_value \<Rightarrow> bool" where
  "crossed p v \<longleftrightarrow>
     above p v \<or> orcm_util_get_number_orcm_value v \<le> tp_low p \<and> tp_low_action p \<noteq> None \<and> tp_low p \<noteq> tp_hi p"

text \<open>The event about a value that crosses a limit.\<close>

definition notice :: "threshold_policy \<Rightarrow> orcm_value list \<Rightarrow> orcm_value list \<Rightarrow> int \<Rightarrow> string \<Rightarrow> orcm_value \<Rightarrow> orcm_ras_event" where
  "notice p key nc ts host v =
     \<lparr>re_type = ORCM_RAS_EVENT_EXCEPTION, re_severity = (if above p v then tp_hi_sev p else tp_low_sev p), re_timestamp = ts,
      re_reporter = key,
      re_description = (if 0 < ts \<and> length nc = 1 then [] else nc) @
        [\<lparr>ov_name = Some ''storage_type'', ov_val = V_uint (of_nat ORCM_STORAGE_TYPE_NOTIFICATION), ov_units = None\<rparr>,
         \<lparr>ov_name = Some ''notifier_msg'',
          ov_val = V_string (Some (if above p v then threshold_msg host v '',greater than threshold '' (tp_hi p)
            else threshold_msg host v '', lower than threshold '' (tp_low p))), ov_units = None\<rparr>,
         \<lparr>ov_name = Some ''notifier_action'', ov_val = V_string (if above p v then tp_hi_action p else tp_low_action p),
          ov_units = None\<rparr>],
      re_data = [v]\<rparr>"

text \<open>The action \<^verbatim>\<open>none\<close>, or a prefix of it, stands for no event.\<close>

definition no_action :: "string option \<Rightarrow> bool" where
  "no_action a \<longleftrightarrow> (case a of None \<Rightarrow> False | Some s \<Rightarrow> strneq s ''none'' (length s))"

definition reported :: "threshold_policy \<Rightarrow> orcm_value \<Rightarrow> bool" where
  "reported p v \<longleftrightarrow> crossed p v \<and> \<not> no_action (if above p v then tp_hi_action p else tp_low_action p)"

text \<open>Every other action but \<^verbatim>\<open>exec\<close>, or a prefix of it, is passed on with the event as it is.\<close>

definition plain_action :: "string option \<Rightarrow> bool" where
  "plain_action a \<longleftrightarrow> no_action a \<or> (case a of None \<Rightarrow> True | Some s \<Rightarrow> \<not> strneq s ''exec'' (length s))"

definition policy_plain :: "threshold_policy \<Rightarrow> bool" where
  "policy_plain p \<longleftrightarrow>
     plain_action (tp_hi_action p) \<and> plain_action (tp_low_action p) \<and> (tp_hi_action p \<noteq> None \<or> tp_low_action p \<noteq> None)"

text \<open>A sample whose values can be copied, with its keys, its time and the name of its node.\<close>

definition copyable :: "orcm_value list \<Rightarrow> bool" where
  "copyable vs \<longleftrightarrow> list_all (\<lambda>v. ov_val v \<noteq> V_unsupported) vs"

definition sample_parts ::
  "orcm_workflow_caddy \<Rightarrow> orcm_value list \<Rightarrow> orcm_value list \<Rightarrow> orcm_value list \<Rightarrow> int \<Rightarrow> string \<Rightarrow> bool" where
  "sample_parts caddy key nc data ts host \<longleftrightarrow>
     an_key (cd_value caddy) = Some key \<and> an_non_compute (cd_value caddy) = Some nc \<and> an_compute (cd_value caddy) = Some data \<and>
     copyable key \<and> copyable nc \<and> copyable data \<and> orcm_analytics_base_event_set_time nc = Ret ts \<and>
     orcm_analytics_get_hostname_from_attributes key = Ret host"

lemma copy_items_ok: "copyable vs \<Longrightarrow> copy_items vs dest = (OPAL_SUCCESS, dest @ vs)"
  by (induction vs arbitrary: dest) (simp_all add: copyable_def orcm_util_copy_orcm_value_def)

lemma check_eq:
  "check_threshold v p host sev act =
     (if crossed p v
      then (True, Some (if above p v then threshold_msg host v '',greater than threshold '' (tp_hi p)
              else threshold_msg host v '', lower than threshold '' (tp_low p)),
            if above p v then tp_hi_sev p else tp_low_sev p, if above p v then tp_hi_action p else tp_low_action p)
      else (False, None, sev, act))"
  by (cases "above p v") (auto simp: check_threshold_def crossed_def above_def Let_def)

lemma notice_ok:
  assumes "sample_parts caddy key nc data ts host" "policy_plain p" "crossed p v" "v \<in> set data"
  shows "orcm_analytics_base_gen_notifier_event v caddy (if above p v then tp_hi_sev p else tp_low_sev p)
       (Some (if above p v then threshold_msg host v '',greater than threshold '' (tp_hi p)
              else threshold_msg host v '', lower than threshold '' (tp_low p)))
       (if above p v then tp_hi_action p else tp_low_action p) el =
     Ret (OPAL_SUCCESS, el @ (if reported p v then [Some (notice p key nc ts host v)] else []))"
proof -
  obtain a where a: "(if above p v then tp_hi_action p else tp_low_action p) = Some a" "plain_action (Some a)"
    using assms(2,3) by (cases "above p v") (auto simp: above_def crossed_def policy_plain_def)
  have v: "orcm_util_copy_orcm_value v = Some v" "copyable [v]"
    using assms(1,4) by (auto simp: sample_parts_def copyable_def list_all_iff orcm_util_copy_orcm_value_def)
  have r: "reported p v \<longleftrightarrow> \<not> strneq a ''none'' (length a)"
    using assms(3) a(1) by (auto simp: reported_def no_action_def)
  show ?thesis
  proof (cases "strneq a ''none'' (length a)")
    case True
    then show ?thesis
      using a(1) r by (simp add: orcm_analytics_base_gen_notifier_event_def)
  next
    case False
    then have "\<not> strneq a ''exec'' (length a)"
      using a(2) by (simp add: plain_action_def no_action_def)
    then show ?thesis
      using assms(1) a(1) v r False
      by (simp add: orcm_analytics_base_gen_notifier_event_def orcm_analytics_base_get_analytics_value_def
          sample_parts_def orcm_util_load_orcm_analytics_value_compute_def orcm_analytics_base_event_create_def
          orcm_util_copy_list_items_def copy_items_ok orcm_analytics_base_event_set_notifier_attr_def
          orcm_analytics_base_event_set_storage_def orcm_analytics_base_event_set_description_def event_list_append_def
          ORCM_STORAGE_TYPE_NOTIFICATION_def ORCM_STORAGE_TYPE_UNDEFINED_def notice_def)
  qed
qed

lemma monitor_loop_ok:
  assumes "sample_parts caddy key nc data ts host" "policy_plain p" "set vs \<subseteq> set data"
  shows "monitor_loop caddy p host vs OPAL_SUCCESS sev act tls el =
     Ret (OPAL_SUCCESS, tls @ filter (crossed p) vs, el @ map (Some \<circ> notice p key nc ts host) (filter (reported p) vs))"
  using assms(3)
proof (induction vs arbitrary: sev act tls el)
  case (Cons v vs)
  have "orcm_util_copy_orcm_value v = Some v"
    using assms(1) Cons.prems by (auto simp: sample_parts_def copyable_def list_all_iff orcm_util_copy_orcm_value_def)
  then show ?case
    using Cons notice_ok [OF assms(1,2), of v] by (auto simp: check_eq reported_def)
qed simp

text \<open>The events about a sample.\<close>

definition sample_data :: "orcm_workflow_caddy \<Rightarrow> orcm_value list" where
  "sample_data caddy = (case an_compute (cd_value caddy) of None \<Rightarrow> [] | Some d \<Rightarrow> d)"

definition notices :: "threshold_policy \<Rightarrow> orcm_workflow_caddy \<Rightarrow> orcm_ras_event list" where
  "notices p caddy =
     (case (an_key (cd_value caddy), an_non_compute (cd_value caddy)) of
        (Some key, Some nc) \<Rightarrow>
          (case (orcm_analytics_base_event_set_time nc, orcm_analytics_get_hostname_from_attributes key) of
             (Ret ts, Ret host) \<Rightarrow> map (notice p key nc ts host) (filter (reported p) (sample_data caddy))
           | _ \<Rightarrow> [])
      | _ \<Rightarrow> [])"

definition threshold_sample :: "attribute list \<Rightarrow> orcm_workflow_caddy \<Rightarrow> bool" where
  "threshold_sample attrs caddy \<longleftrightarrow>
     ws_attributes (cd_wf_step caddy) = attrs \<and> (\<exists>key nc data ts host. sample_parts caddy key nc data ts host)"

lemma monitor_ok:
  assumes "threshold_sample attrs caddy" "policy_plain p"
  shows "monitor_threshold caddy p = Ret (OPAL_SUCCESS, filter (crossed p) (sample_data caddy), map Some (notices p caddy))"
proof -
  obtain key nc data ts host where s: "sample_parts caddy key nc data ts host"
    using assms(1) by (auto simp: threshold_sample_def)
  then have "notices p caddy = map (notice p key nc ts host) (filter (reported p) data)" "sample_data caddy = data"
    by (simp_all add: notices_def sample_data_def sample_parts_def)
  then show ?thesis
    using monitor_loop_ok [OF s assms(2) order.refl] s by (simp add: monitor_threshold_def sample_parts_def)
qed

section \<open>Runs\<close>

primrec threshold_run ::
  "bool \<Rightarrow> string option \<Rightarrow> threshold_module \<Rightarrow> orcm_workflow_caddy list \<Rightarrow>
     (status list \<times> threshold_module \<times> wf_output list) outcome" where
  "threshold_run debug sr md [] = Ret ([], md, [])"
| "threshold_run debug sr md (c # cs) =
     obind (threshold_analyze debug sr md c) (\<lambda>(rc, md1, outs).
       obind (threshold_run debug sr md1 cs) (\<lambda>(rcs, md2, outs'). Ret (rc # rcs, md2, outs @ outs')))"

fun next_data :: "wf_output list \<Rightarrow> orcm_value list option list" where
  "next_data [] = []"
| "next_data (Out_next h v # outs) = an_compute v # next_data outs"
| "next_data (Out_event e # outs) = next_data outs"

fun out_events :: "wf_output list \<Rightarrow> orcm_ras_event list" where
  "out_events [] = []"
| "out_events (Out_next h v # outs) = out_events outs"
| "out_events (Out_event e # outs) = e # out_events outs"

lemma out_append [simp]:
  "next_data (xs @ ys) = next_data xs @ next_data ys" "out_events (xs @ ys) = out_events xs @ out_events ys"
  by (induction xs rule: next_data.induct) simp_all

lemma out_map_event [simp]: "next_data (map Out_event evs) = []" "out_events (map Out_event evs) = evs"
  by (induction evs) simp_all

text \<open>The policy is read at the first sample only.\<close>

definition policy_known :: "attribute list \<Rightarrow> threshold_policy \<Rightarrow> threshold_policy \<Rightarrow> bool" where
  "policy_known attrs q p \<longleftrightarrow> q = p \<or> q = threshold_policy_con \<and> get_threshold_policy attrs q = Ret (OPAL_SUCCESS, p)"

lemma analyze_sample:
  assumes "threshold_sample attrs caddy" "policy_plain p" "policy_known attrs (tm_policy md) p" "db_check_loop attrs = Ret False"
    "filter_attributes sr attrs False None = Ret (suppress, f)"
    "generate_events debug malloc_ok sr (tm_store md) (map Some (notices p caddy)) f suppress = Ret (evs, store)"
  shows "\<exists>outs. threshold_analyze debug sr md caddy = Ret (OPAL_SUCCESS, \<lparr>tm_policy = p, tm_store = store\<rparr>, outs) \<and>
           next_data outs = [Some (filter (crossed p) (sample_data caddy))] \<and> out_events outs = evs"
proof -
  have attrs: "ws_attributes (cd_wf_step caddy) = attrs"
    using assms(1) by (simp add: threshold_sample_def)
  have policy: "(if tp_hi_action (tm_policy md) = None \<and> tp_low_action (tm_policy md) = None
      then get_threshold_policy (ws_attributes (cd_wf_step caddy)) (tm_policy md) else Ret (OPAL_SUCCESS, tm_policy md)) =
    Ret (OPAL_SUCCESS, p)"
    using assms(2,3) attrs by (auto simp: policy_known_def policy_plain_def threshold_policy_con_def)
  have db: "orcm_analytics_base_db_check (cd_wf_step caddy) = Ret False"
    using assms(4) attrs by (simp add: orcm_analytics_base_db_check_def)
  have filter: "(if map Some (notices p caddy) = [] then Ret ([], tm_store md)
      else orcm_analytics_base_filter_events debug malloc_ok sr (tm_store md) (map Some (notices p caddy)) (cd_wf_step caddy)) =
    Ret (evs, store)"
    using assms(5,6) attrs by (auto simp: orcm_analytics_base_filter_events_def generate_events_def split: if_splits)
  show ?thesis
    unfolding threshold_analyze_def policy
    using filter db by (simp add: monitor_ok [OF assms(1,2)] orcm_util_load_orcm_analytics_value_compute_def)
qed

lemma somes_Some [simp]: "somes (map Some xs) = xs"
  by (induction xs) simp_all

lemma threshold_run_ok:
  assumes "\<forall>c\<in>set cs. threshold_sample attrs c" "policy_plain p" "policy_known attrs (tm_policy md) p"
    "db_check_loop attrs = Ret False" "filter_attributes sr attrs False None = Ret (True, f)"
    "generate_loop debug malloc_ok sr f (map Some (concat (map (notices p) cs))) (tm_store md) = Ret (evs, store)"
  shows "\<exists>md' outs. threshold_run debug sr md cs = Ret (replicate (length cs) OPAL_SUCCESS, md', outs) \<and>
           next_data outs = map (\<lambda>c. Some (filter (crossed p) (sample_data c))) cs \<and> out_events outs = evs"
  using assms(1,3,6)
proof (induction cs arbitrary: md evs)
  case (Cons c cs)
  obtain evs1 store1 evs2 where e: "generate_loop debug malloc_ok sr f (map Some (notices p c)) (tm_store md) = Ret (evs1, store1)"
      "generate_loop debug malloc_ok sr f (map Some (concat (map (notices p) cs))) store1 = Ret (evs2, store)" "evs = evs1 @ evs2"
    using Cons.prems(3) by (auto simp: generate_loop_append outcome_simps split: prod.splits)
  obtain outs where outs: "threshold_analyze debug sr md c = Ret (OPAL_SUCCESS, \<lparr>tm_policy = p, tm_store = store1\<rparr>, outs)"
      "next_data outs = [Some (filter (crossed p) (sample_data c))]" "out_events outs = evs1"
    using analyze_sample [OF _ assms(2) Cons.prems(2) assms(4,5), of c debug evs1 store1] e(1) Cons.prems(1) by (auto simp: generate_events_def)
  obtain md' outs' where "threshold_run debug sr \<lparr>tm_policy = p, tm_store = store1\<rparr> cs = Ret (replicate (length cs) OPAL_SUCCESS, md', outs')"
      "next_data outs' = map (\<lambda>c. Some (filter (crossed p) (sample_data c))) cs" "out_events outs' = evs2"
    using Cons.IH [of "\<lparr>tm_policy = p, tm_store = store1\<rparr>" evs2] Cons.prems(1) e(2) by (auto simp: policy_known_def)
  then show ?case
    using outs e(3) by simp
qed simp

lemma init_module:
  obtains ht where "threshold_init malloc_ok =
      Ret (OPAL_SUCCESS, Some \<lparr>tm_policy = threshold_policy_con, tm_store = \<lparr>es_table = ht, es_heap = []\<rparr>\<rparr>)"
    "store_ok \<lparr>es_table = ht, es_heap = []\<rparr>" "latest (last_time \<lparr>es_table = ht, es_heap = []\<rparr>) []"
proof -
  obtain ht :: "nat opal_hash_table_t" where ht: "opal_hash_table_init malloc_ok opal_hash_table_construct HASH_TABLE_SIZE = Ret (OPAL_SUCCESS, ht)"
    by (simp add: HASH_TABLE_SIZE_def opal_hash_table_init_def opal_hash_table_init2_def opal_hash_round_capacity_up_def
        size_of_int_def calloc_ok_def size_t_def opal_hash_table_construct_def)
  have "HASH_TABLE_SIZE < 2 ^ 32"
    by (simp add: HASH_TABLE_SIZE_def)
  then show thesis
    using that ht by (simp add: threshold_init_def empty_store)
qed

lemma policy_text_ok:
  assumes "cs \<noteq> []" "length cs \<le> 2" "list_all clause_ok cs"
  shows "get_threshold_policy ((Some ''policy'', Some (policy_text cs)) # rest) p = Ret (OPAL_SUCCESS, fold apply_clause cs p)"
proof -
  have "opal_argv_split malloc_ok (Some (policy_text cs)) CHR '','' = Some (map clause_text cs)"
    unfolding policy_text_def using assms(1,3) clause_parts(2,3) by (intro split_join) (auto simp: list_all_iff)
  then show ?thesis
    using assms by (simp add: get_threshold_policy_def policy_loop_ok)
qed

section \<open>Examples\<close>

lemma example_numbers:
  "double_round 80 = 80" "double_round 5 = 5" "decimal_value ''80'' = 80" "decimal_value ''5'' = 5"
proof -
  show "double_round 80 = 80" "double_round 5 = 5"
    using fp_round_int [of 80 53 "- 1074"] fp_round_int [of 5 53 "- 1074"] by (simp_all add: double_round_def)
  show "decimal_value ''80'' = 80" "decimal_value ''5'' = 5"
    by (simp_all add: decimal_value_def unsigned_decimal_def exponent_of_def dec_val_def digit_val_def isdigit_def isspace_def)
qed

definition hot_policy :: threshold_policy where
  "hot_policy =
     \<lparr>tp_hi = 80, tp_hi_sev = 2, tp_hi_action = Some ''syslog'', tp_low = 0, tp_low_sev = ORCM_RAS_SEVERITY_INFO, tp_low_action = None\<rparr>"

definition temp_key :: "orcm_value list" where
  "temp_key = [\<lparr>ov_name = Some ''hostname'', ov_val = V_string (Some ''n1''), ov_units = None\<rparr>]"

definition temp_time :: "int \<Rightarrow> orcm_value list" where
  "temp_time sec = [\<lparr>ov_name = Some ''ctime'', ov_val = V_timeval sec 0, ov_units = None\<rparr>]"

definition temp_value :: "rat \<Rightarrow> orcm_value" where
  "temp_value x = \<lparr>ov_name = Some ''temp'', ov_val = V_double x, ov_units = Some ''C''\<rparr>"

definition temp_caddy :: "attribute list \<Rightarrow> int \<Rightarrow> rat list \<Rightarrow> orcm_workflow_caddy" where
  "temp_caddy attrs sec xs =
     \<lparr>cd_wf = \<lparr>wf_name = Some ''flow'', wf_hostname_regex = None, wf_workflow_id = 1\<rparr>,
      cd_wf_step = \<lparr>ws_attributes = attrs, ws_analytic = Some ''threshold'', ws_step_id = 1\<rparr>,
      cd_hash_key = 0,
      cd_value = \<lparr>an_key = Some temp_key, an_non_compute = Some (temp_time sec), an_compute = Some (map temp_value xs)\<rparr>\<rparr>"

lemma temp_parts: "sample_parts (temp_caddy attrs sec xs) temp_key (temp_time sec) (map temp_value xs) sec ''n1''"
  by (simp add: sample_parts_def temp_caddy_def temp_key_def temp_time_def temp_value_def copyable_def list_all_iff
      orcm_analytics_get_hostname_from_attributes_def)

lemma temp_sample: "threshold_sample attrs (temp_caddy attrs sec xs)"
  using temp_parts [of attrs sec xs] unfolding threshold_sample_def by (intro conjI exI) (simp add: temp_caddy_def)

lemma temp_crossed [simp]: "crossed hot_policy (temp_value x) \<longleftrightarrow> 80 \<le> x" "above hot_policy (temp_value x) \<longleftrightarrow> 80 \<le> x"
  by (simp_all add: crossed_def above_def hot_policy_def temp_value_def orcm_util_get_number_orcm_value_def)

lemma temp_reported [simp]: "reported hot_policy (temp_value x) \<longleftrightarrow> 80 \<le> x"
  by (auto simp: reported_def) (simp add: no_action_def hot_policy_def strneq_def)

lemma temp_data: "sample_data (temp_caddy attrs sec xs) = map temp_value xs"
  by (simp add: sample_data_def temp_caddy_def)

lemma temp_notices:
  "notices hot_policy (temp_caddy attrs sec xs) =
     map (notice hot_policy temp_key (temp_time sec) sec ''n1'' \<circ> temp_value) (filter (\<lambda>x. 80 \<le> x) xs)"
  using temp_parts [of attrs sec xs] by (simp add: notices_def sample_parts_def temp_data filter_map comp_def)

lemma hot_notice [simp]:
  "re_timestamp (notice hot_policy temp_key (temp_time t) t ''n1'' (temp_value x)) = t"
  "80 \<le> x \<Longrightarrow> re_severity (notice hot_policy temp_key (temp_time t) t ''n1'' (temp_value x)) = 2"
  "re_type (notice hot_policy temp_key (temp_time t) t ''n1'' (temp_value x)) = ORCM_RAS_EVENT_EXCEPTION"
  "re_reporter (notice hot_policy temp_key (temp_time t) t ''n1'' (temp_value x)) = temp_key"
  "re_data (notice hot_policy temp_key (temp_time t) t ''n1'' (temp_value x)) = [temp_value x]"
  by (simp_all add: notice_def) (simp add: hot_policy_def)

lemma hot_plain: "policy_plain hot_policy"
  by (simp add: policy_plain_def plain_action_def no_action_def hot_policy_def strneq_def)

text \<open>The hash key of the text \<^verbatim>\<open>n1temp12\<close>.\<close>

lemma temp_hash:
  "generate_event_hashkey ORCM_RAS_EVENT_EXCEPTION 2 temp_key [temp_value x] = Ret 95272078230216"
  by (simp add: generate_event_hashkey_def temp_key_def temp_value_def KEY_SIZE_def compute_text_def fmt_d_def
      orcm_util_create_hash_key_def ORCM_UTIL_HASH_MULTIPLIER_def ORCM_RAS_EVENT_EXCEPTION_def digit_char_def
      dec.simps [of "Suc 0"] dec.simps [of 2])

section \<open>Properties\<close>

text \<open>
  C28: The text of a policy of one or two clauses is read back: each clause sets its limit, its severity and its action.
\<close>

theorem threshold_policy_parse:
  assumes "cs \<noteq> []" "length cs \<le> 2" "list_all clause_ok cs"
  shows "get_threshold_policy ((Some ''policy'', Some (policy_text cs)) # rest) p = Ret (OPAL_SUCCESS, fold apply_clause cs p)"
  using assms by (rule policy_text_ok)

theorem threshold_policy_parse_witness:
  "get_threshold_policy [(Some ''policy'', Some ''hi|80|crit|syslog,low|5|warn|email'')] threshold_policy_con =
     Ret (OPAL_SUCCESS, \<lparr>tp_hi = 80, tp_hi_sev = 2, tp_hi_action = Some ''syslog'', tp_low = 5, tp_low_sev = 4, tp_low_action = Some ''email''\<rparr>)"
  using threshold_policy_parse [of "[(''hi'', ''80'', ''crit'', ''syslog''), (''low'', ''5'', ''warn'', ''email'')]" "[]" threshold_policy_con]
  by (simp add: clause_ok_def get_threshold_value_def isdigit_def example_numbers policy_text_def clause_text_def apply_clause_def
      threshold_policy_con_def orcm_analytics_event_get_severity_def)

text \<open>
  C16: A step with a policy and the suppression of repeats, which does not store to the database, over any number of
  samples: all samples are accepted; each hands on exactly its values that cross a limit; the events that are raised are
  the events about those of them whose action is not \<^verbatim>\<open>none\<close> (or a prefix of it), in their order, without those that
  repeat an event with the same hash key within their interval.  The action \<^verbatim>\<open>exec\<close> (and its prefixes), which reads more
  attributes, is not covered, nor are samples with values that cannot be copied or without a time and a name of the node.
\<close>

theorem threshold_monitoring:
  assumes "get_threshold_policy attrs threshold_policy_con = Ret (OPAL_SUCCESS, p)" "policy_plain p" "db_check_loop attrs = Ret False"
    "filter_attributes sr attrs False None = Ret (True, f)" "\<forall>c\<in>set cs. threshold_sample attrs c"
    "\<forall>c\<in>set cs. \<forall>ev\<in>set (notices p c). event_ok sr f ev" "length (concat (map (notices p) cs)) < 2 ^ 50"
  shows "\<exists>md md' outs. threshold_init malloc_ok = Ret (OPAL_SUCCESS, Some md) \<and>
           threshold_run debug sr md cs = Ret (replicate (length cs) OPAL_SUCCESS, md', outs) \<and>
           next_data outs = map (\<lambda>c. Some (filter (crossed p) (sample_data c))) cs \<and>
           out_events outs = raised (event_rate sr f) [] (concat (map (notices p) cs))"
proof -
  obtain ht where md: "threshold_init malloc_ok =
      Ret (OPAL_SUCCESS, Some \<lparr>tm_policy = threshold_policy_con, tm_store = \<lparr>es_table = ht, es_heap = []\<rparr>\<rparr>)"
    and st: "store_ok \<lparr>es_table = ht, es_heap = []\<rparr>" "latest (last_time \<lparr>es_table = ht, es_heap = []\<rparr>) []"
    by (rule init_module)
  obtain st' where "generate_loop debug malloc_ok sr f (map Some (concat (map (notices p) cs))) \<lparr>es_table = ht, es_heap = []\<rparr> =
      Ret (raised (event_rate sr f) [] (concat (map (notices p) cs)), st')"
    using generate_loop_ok [OF st, of "map Some (concat (map (notices p) cs))" sr f debug] assms(6,7) by auto
  then show ?thesis
    using threshold_run_ok [OF assms(5,2) _ assms(3,4)] md assms(1) by (simp add: policy_known_def)
qed

text \<open>A limit of 80 and an interval of ten seconds: 90 at 100 and 85 at 112 are reported, 95 at 105 only handed on.\<close>

theorem threshold_monitoring_witness:
  "\<exists>attrs md md' outs. threshold_init malloc_ok = Ret (OPAL_SUCCESS, Some md) \<and>
     threshold_run True None md [temp_caddy attrs 100 [90, 5], temp_caddy attrs 105 [95], temp_caddy attrs 112 [85]] =
       Ret ([OPAL_SUCCESS, OPAL_SUCCESS, OPAL_SUCCESS], md', outs) \<and>
     next_data outs = [Some [temp_value 90], Some [temp_value 95], Some [temp_value 85]] \<and>
     map re_timestamp (out_events outs) = [100, 112]"
proof -
  let ?attrs = "[(Some ''policy'', Some (policy_text [(''hi'', ''80'', ''crit'', ''syslog'')])), (Some ''suppress_repeat'', Some ''yes''),
    (Some ''time'', Some ''10'')]"
  let ?f = "Some \<lparr>ef_severity = ORCM_RAS_SEVERITY_UNKNOWN, ef_category = None, ef_time = 10\<rparr>"
  have policy: "get_threshold_policy ?attrs threshold_policy_con = Ret (OPAL_SUCCESS, hot_policy)"
    by (subst policy_text_ok) (simp_all add: clause_ok_def get_threshold_value_def isdigit_def example_numbers apply_clause_def
        threshold_policy_con_def orcm_analytics_event_get_severity_def hot_policy_def)
  have filter: "filter_attributes None ?attrs False None = Ret (True, ?f)"
    using example_filter by (simp add: example_step_def)
  have rate: "filter_max_rate None (notice hot_policy temp_key (temp_time t) t ''n1'' (temp_value x)) ?f = Ret 10" if "80 \<le> x" for t x
    using that by (simp add: filter_max_rate_def ORCM_RAS_SEVERITY_UNKNOWN_def)
  have key: "event_key (notice hot_policy temp_key (temp_time t) t ''n1'' (temp_value x)) = 95272078230216"
    and ok: "t \<le> 112 \<Longrightarrow> event_ok None ?f (notice hot_policy temp_key (temp_time t) t ''n1'' (temp_value x))" if "80 \<le> x" for t x
    using that by (simp_all add: event_key_def event_ok_def LONG_MAX_def rate temp_hash)
  show ?thesis
    using threshold_monitoring [OF policy hot_plain _ filter,
        of "[temp_caddy ?attrs 100 [90, 5], temp_caddy ?attrs 105 [95], temp_caddy ?attrs 112 [85]]" True]
    by (intro exI [of _ ?attrs])
      (force simp: temp_sample temp_notices temp_data ok key far_enough_def event_rate_def rate simp del: threshold_run.simps)
qed

text \<open>
  C37: When the second clause of a policy is malformed, the first sample is refused with the code of the clause, but the
  first clause has been taken over: the next sample is accepted and judged by half of the policy.
\<close>

theorem threshold_partial_policy:
  assumes "clause_ok c" "b \<noteq> []" "CHR '','' \<notin> set b" "p = apply_clause c threshold_policy_con" "policy_plain p"
    "parse_token (opal_argv_split malloc_ok (Some b) CHR ''|'') p = (rc, p)" "rc \<noteq> OPAL_SUCCESS"
    "attrs = [(Some ''policy'', Some (clause_text c @ '','' @ b))]" "threshold_sample attrs caddy"
    "tm_policy md = threshold_policy_con"
  shows "\<exists>md' outs. threshold_analyze debug sr md caddy = Ret (rc, md\<lparr>tm_policy := p\<rparr>, []) \<and>
           threshold_analyze debug sr (md\<lparr>tm_policy := p\<rparr>) caddy = Ret (OPAL_SUCCESS, md', outs) \<and>
           next_data outs = [Some (filter (crossed p) (sample_data caddy))] \<and> out_events outs = notices p caddy"
proof -
  have "opal_argv_split malloc_ok (Some (intersperse_join CHR '','' [clause_text c, b])) CHR '','' = Some [clause_text c, b]"
    using clause_parts(2,3) [OF assms(1)] assms(2,3) by (intro split_join) auto
  then have "get_threshold_policy attrs threshold_policy_con = Ret (rc, p)"
    using assms(6,7) by (simp add: assms(8) get_threshold_policy_def clause_parts(1) [OF assms(1)] parse_clause [OF assms(1)] assms(4))
  moreover have "ws_attributes (cd_wf_step caddy) = attrs"
    using assms(9) by (simp add: threshold_sample_def)
  ultimately have "threshold_analyze debug sr md caddy = Ret (rc, md\<lparr>tm_policy := p\<rparr>, [])"
    using assms(7,10) by (simp add: threshold_analyze_def threshold_policy_con_def)
  moreover have "db_check_loop attrs = Ret False" "filter_attributes sr attrs False None = Ret (False, None)"
    by (simp_all add: assms(8))
  ultimately show ?thesis
    using analyze_sample [OF assms(9,5), of "md\<lparr>tm_policy := p\<rparr>" sr False None debug "notices p caddy" "tm_store md"]
    by (auto simp: policy_known_def generate_events_def)
qed

theorem threshold_partial_policy_witness:
  "\<exists>attrs md md1 md2 outs. threshold_analyze True None md (temp_caddy attrs 100 [90]) = Ret (OPAL_ERR_BAD_PARAM, md1, []) \<and>
     threshold_analyze True None md1 (temp_caddy attrs 100 [90]) = Ret (OPAL_SUCCESS, md2, outs) \<and> length (out_events outs) = 1"
proof -
  let ?attrs = "[(Some ''policy'', Some (clause_text (''hi'', ''80'', ''crit'', ''syslog'') @ '','' @ ''low''))]"
  let ?md = "\<lparr>tm_policy = threshold_policy_con, tm_store = \<lparr>es_table = opal_hash_table_construct, es_heap = []\<rparr>\<rparr>"
  have p: "hot_policy = apply_clause (''hi'', ''80'', ''crit'', ''syslog'') threshold_policy_con"
    by (simp add: hot_policy_def apply_clause_def threshold_policy_con_def example_numbers orcm_analytics_event_get_severity_def)
  have clause: "clause_ok (''hi'', ''80'', ''crit'', ''syslog'')"
    by (simp add: clause_ok_def get_threshold_value_def isdigit_def example_numbers)
  have "opal_argv_split malloc_ok (Some ''low'') CHR ''|'' = Some [''low'']"
    using split_join [of "[''low'']" "CHR ''|''"] by simp
  then have bad: "parse_token (opal_argv_split malloc_ok (Some ''low'') CHR ''|'') hot_policy = (OPAL_ERR_BAD_PARAM, hot_policy)"
    by (simp add: parse_token_def)
  obtain md2 outs where "threshold_analyze True None ?md (temp_caddy ?attrs 100 [90]) = Ret (OPAL_ERR_BAD_PARAM, ?md\<lparr>tm_policy := hot_policy\<rparr>, [])"
      "threshold_analyze True None (?md\<lparr>tm_policy := hot_policy\<rparr>) (temp_caddy ?attrs 100 [90]) = Ret (OPAL_SUCCESS, md2, outs)"
      "out_events outs = notices hot_policy (temp_caddy ?attrs 100 [90])"
    using threshold_partial_policy [OF clause _ _ p hot_plain bad _ refl temp_sample [of ?attrs 100 "[90]"], of ?md True None] by auto
  then show ?thesis
    by (intro exI conjI) (auto simp: temp_notices)
qed

end
