(* ===== verification/Dss_Buffer.thy ===== *)
theory Dss_Buffer
  imports C_Prelude
begin

text \<open>
  Buffers of the data storage and serialisation layer (\<^verbatim>\<open>opal/dss\<close>): growing, the check for
  remaining bytes, handing the contents over, and the network byte order of integers.

  A buffer is modelled by the bytes between the start of its block and \<^verbatim>\<open>pack_ptr\<close>; their
  number is \<^verbatim>\<open>bytes_used\<close>, and \<^verbatim>\<open>unpack_ptr\<close> is an offset.  \<open>ob_base\<close> and \<open>ob_pack\<close> say whether
  \<^verbatim>\<open>base_ptr\<close> and \<^verbatim>\<open>pack_ptr\<close> are not NULL.  The two differ after an allocation has failed, which
  leaves \<^verbatim>\<open>base_ptr\<close> NULL and the other pointers in the old block.  A second failure resets
  \<^verbatim>\<open>bytes_used\<close> but not \<^verbatim>\<open>pack_ptr\<close>, so that the counters no longer describe the block; the
  model counts that as undefined.
\<close>

named_theorems dss_simps \<open>rules that evaluate buffer operations\<close>

section \<open>Definitions\<close>

type_synonym byte = "8 word"

record dss_params =
  dss_alloc :: allocator
  default_buf_type :: bool
  opal_dss_initial_size :: nat
  opal_dss_threshold_size :: nat

record opal_buffer =
  ob_desc :: bool
  ob_base :: bool
  ob_pack :: bool
  ob_bytes :: "byte list"
  ob_unpack :: nat
  ob_allocated :: nat

definition OPAL_DSS_DEFAULT_INITIAL_SIZE :: nat where
  "OPAL_DSS_DEFAULT_INITIAL_SIZE = 128"

definition OPAL_DSS_DEFAULT_THRESHOLD_SIZE :: nat where
  "OPAL_DSS_DEFAULT_THRESHOLD_SIZE = 1024"

definition dss_defaults :: dss_params where
  "dss_defaults =
     \<lparr>dss_alloc = malloc_ok, default_buf_type = False, opal_dss_initial_size = OPAL_DSS_DEFAULT_INITIAL_SIZE,
      opal_dss_threshold_size = OPAL_DSS_DEFAULT_THRESHOLD_SIZE\<rparr>"

definition opal_buffer_construct :: "bool \<Rightarrow> opal_buffer" where
  "opal_buffer_construct desc =
     \<lparr>ob_desc = desc, ob_base = False, ob_pack = False, ob_bytes = [], ob_unpack = 0, ob_allocated = 0\<rparr>"

text \<open>The loop that doubles the size; from 0 it does not end.\<close>

function dss_double :: "nat \<Rightarrow> nat \<Rightarrow> nat outcome" where
  "dss_double to_alloc required =
     (if required \<le> to_alloc then Ret to_alloc
      else if to_alloc = 0 then Diverge
      else dss_double (2 * to_alloc) required)"
  by pat_completeness auto
termination
  by (relation "measure (\<lambda>(a, r). r - a)") auto

declare dss_double.simps [simp del]

definition dss_new_size :: "dss_params \<Rightarrow> opal_buffer \<Rightarrow> nat \<Rightarrow> nat outcome" where
  "dss_new_size cfg buffer required =
     (let thr = opal_dss_threshold_size cfg in
      if thr \<le> required
      then (if thr = 0 then Undef else Ret ((required + thr - 1) div thr * thr))
      else dss_double
             (if ob_allocated buffer = 0 then opal_dss_initial_size cfg else ob_allocated buffer)
             required)"

definition opal_dss_buffer_extend ::
  "dss_params \<Rightarrow> opal_buffer \<Rightarrow> nat \<Rightarrow> (bool \<times> opal_buffer) outcome" where
  "opal_dss_buffer_extend cfg buffer bytes_to_add =
     (if bytes_to_add \<le> ob_allocated buffer - length (ob_bytes buffer)
      then Ret (ob_pack buffer, buffer)
      else
        obind (dss_new_size cfg buffer (length (ob_bytes buffer) + bytes_to_add)) (\<lambda>to_alloc.
          if ob_base buffer then
            (if dss_alloc cfg to_alloc then Ret (True, buffer\<lparr>ob_allocated := to_alloc\<rparr>)
             else Ret (False, buffer\<lparr>ob_base := False\<rparr>))
          else if dss_alloc cfg to_alloc then
            Ret (True, buffer\<lparr>ob_base := True, ob_pack := True, ob_bytes := [], ob_unpack := 0,
                              ob_allocated := to_alloc\<rparr>)
          else if ob_pack buffer then Undef
          else Ret (False, buffer)))"

definition opal_dss_too_small :: "opal_buffer \<Rightarrow> nat \<Rightarrow> bool" where
  "opal_dss_too_small buffer bytes_reqd \<longleftrightarrow>
     (if length (ob_bytes buffer) < ob_unpack buffer then True
      else length (ob_bytes buffer) - ob_unpack buffer < bytes_reqd)"

text \<open>
  Handing a block over: \<^verbatim>\<open>None\<close> is a NULL payload.  The number of bytes goes with it as an \<^verbatim>\<open>int32_t\<close>; the payload of
  a load is the block, and a number that is negative or greater than its length puts the pointers outside it.
\<close>

definition opal_dss_unload :: "opal_buffer \<Rightarrow> status \<times> byte list option \<times> int \<times> opal_buffer" where
  "opal_dss_unload buffer =
     (if \<not> ob_base buffer \<or> ob_bytes buffer = [] then (OPAL_SUCCESS, None, 0, buffer)
      else (OPAL_SUCCESS, Some (ob_bytes buffer), c_int (length (ob_bytes buffer)),
            buffer\<lparr>ob_base := False, ob_pack := False, ob_bytes := [], ob_unpack := 0, ob_allocated := 0\<rparr>))"

definition opal_dss_load :: "opal_buffer \<Rightarrow> byte list option \<Rightarrow> int \<Rightarrow> (status \<times> opal_buffer) outcome" where
  "opal_dss_load buffer payload bytes_used =
     (case payload of
        None \<Rightarrow>
          Ret (OPAL_SUCCESS,
            buffer\<lparr>ob_base := False, ob_pack := False, ob_bytes := [], ob_unpack := 0, ob_allocated := 0\<rparr>)
      | Some bs \<Rightarrow>
          if bytes_used < 0 \<or> int (length bs) < bytes_used then Undef
          else Ret (OPAL_SUCCESS,
            buffer\<lparr>ob_base := True, ob_pack := True, ob_bytes := take (nat bytes_used) bs, ob_unpack := 0,
                   ob_allocated := nat bytes_used\<rparr>))"

text \<open>
  Storing bytes behind \<^verbatim>\<open>pack_ptr\<close>, and reading them from \<^verbatim>\<open>unpack_ptr\<close>: what all functions
  that pack or unpack contiguous data do.
\<close>

definition dss_store :: "dss_params \<Rightarrow> opal_buffer \<Rightarrow> byte list \<Rightarrow> (status \<times> opal_buffer) outcome" where
  "dss_store cfg buffer bs =
     obind (opal_dss_buffer_extend cfg buffer (length bs)) (\<lambda>(dst, b).
       if \<not> dst then Ret (OPAL_ERR_OUT_OF_RESOURCE, b)
       else Ret (OPAL_SUCCESS, b\<lparr>ob_bytes := ob_bytes b @ bs\<rparr>))"

definition dss_fetch :: "opal_buffer \<Rightarrow> nat \<Rightarrow> (byte list \<times> opal_buffer) option" where
  "dss_fetch buffer n =
     (if opal_dss_too_small buffer n then None
      else Some (take n (drop (ob_unpack buffer) (ob_bytes buffer)),
                 buffer\<lparr>ob_unpack := ob_unpack buffer + n\<rparr>))"

text \<open>
  \<^verbatim>\<open>opal_dss_copy_payload\<close> appends what \<open>src\<close> has not unpacked yet.  Its length is an \<^verbatim>\<open>int32_t\<close>: from \<open>2\<^sup>3\<^sup>1\<close> bytes on
  it is cut to its low bits, and a negative one, which becomes a huge size for \<^verbatim>\<open>memcpy\<close>, is counted as undefined.
\<close>

definition opal_dss_copy_payload ::
  "dss_params \<Rightarrow> opal_buffer \<Rightarrow> opal_buffer \<Rightarrow> (status \<times> opal_buffer) outcome" where
  "opal_dss_copy_payload cfg dest src =
     (if ob_bytes dest \<noteq> [] \<and> ob_desc dest \<noteq> ob_desc src then Ret (OPAL_ERR_BUFFER, dest)
      else
        (let dest' = dest\<lparr>ob_desc := ob_desc src\<rparr>;
             bytes_left = sint (of_int (int (length (ob_bytes src)) - int (ob_unpack src)) :: 32 word)
         in if bytes_left = 0 then Ret (OPAL_SUCCESS, dest')
            else if bytes_left < 0 then Undef
            else dss_store cfg dest' (take (nat bytes_left) (drop (ob_unpack src) (ob_bytes src)))))"

text \<open>Network byte order: the bytes of a number, most significant first.\<close>

fun le_bytes :: "nat \<Rightarrow> nat \<Rightarrow> byte list" where
  "le_bytes 0 x = []"
| "le_bytes (Suc n) x = of_nat x # le_bytes n (x div 256)"

fun nat_of_le :: "byte list \<Rightarrow> nat" where
  "nat_of_le [] = 0"
| "nat_of_le (b # bs) = unat b + 256 * nat_of_le bs"

definition hton :: "nat \<Rightarrow> 'a::len word \<Rightarrow> byte list" where
  "hton n w = rev (le_bytes n (unat w))"

definition ntoh :: "byte list \<Rightarrow> 'a::len word" where
  "ntoh bs = of_nat (nat_of_le (rev bs))"

section \<open>Byte order\<close>

lemma length_le_bytes [simp]: "length (le_bytes n x) = n"
  by (induction n arbitrary: x) auto

lemma length_hton [simp]: "length (hton n w) = n"
  by (simp add: hton_def)

lemma nat_of_le_bytes: "nat_of_le (le_bytes n x) = x mod 256 ^ n"
proof (induction n arbitrary: x)
  case (Suc n)
  have "unat (of_nat x :: byte) = x mod 256"
    by (simp add: unat_of_nat)
  then show ?case
    using Suc by (simp add: mod_mult2_eq)
qed simp

lemma ntoh_hton:
  assumes "LENGTH('a) = 8 * n"
  shows "ntoh (hton n (w :: 'a::len word)) = w"
proof -
  have "unat w < 2 ^ LENGTH('a)"
    by (rule unsigned_less)
  then have "unat w < 256 ^ n"
    using assms by (simp add: power_mult)
  then show ?thesis
    by (simp add: ntoh_def hton_def nat_of_le_bytes)
qed

lemma ntoh_hton_word [simp]:
  "ntoh (hton 2 (w16 :: 16 word)) = w16" "ntoh (hton 4 (w32 :: 32 word)) = w32"
  "ntoh (hton 8 (w64 :: 64 word)) = w64"
  by (simp_all add: ntoh_hton)

section \<open>Growing\<close>

definition dss_ok :: "dss_params \<Rightarrow> bool" where
  "dss_ok cfg \<longleftrightarrow> (\<forall>n. dss_alloc cfg n) \<and> 0 < opal_dss_initial_size cfg \<and> 0 < opal_dss_threshold_size cfg"

text \<open>The invariant of buffers: \<^verbatim>\<open>unpack_ptr \<le> pack_ptr\<close> and \<^verbatim>\<open>bytes_used \<le> bytes_allocated\<close>.\<close>

definition buf_ok :: "opal_buffer \<Rightarrow> bool" where
  "buf_ok b \<longleftrightarrow>
     ob_pack b = ob_base b \<and> ob_unpack b \<le> length (ob_bytes b) \<and> length (ob_bytes b) \<le> ob_allocated b \<and>
     (\<not> ob_base b \<longrightarrow> ob_allocated b = 0)"

lemma dss_ok_defaults [simp]: "dss_ok dss_defaults"
  by (simp add: dss_ok_def dss_defaults_def OPAL_DSS_DEFAULT_INITIAL_SIZE_def
      OPAL_DSS_DEFAULT_THRESHOLD_SIZE_def)

lemma buf_ok_construct [simp]: "buf_ok (opal_buffer_construct desc)"
  by (simp add: buf_ok_def opal_buffer_construct_def)

lemma dss_double_ok:
  assumes "0 < a"
  shows "\<exists>n. dss_double a r = Ret n \<and> r \<le> n \<and> n \<le> max a (2 * r)"
  using assms
proof (induction a r rule: dss_double.induct)
  case (1 a r)
  then show ?case
    by (cases "r \<le> a") (auto simp: dss_double.simps [of a r])
qed

lemma round_up_div:
  assumes "0 < (t::nat)"
  shows "n \<le> (n + t - 1) div t * t" "(n + t - 1) div t * t \<le> n + t"
proof -
  have "n + t - 1 = (n + t - 1) div t * t + (n + t - 1) mod t" "(n + t - 1) mod t < t"
    using assms by simp_all
  then show "n \<le> (n + t - 1) div t * t" "(n + t - 1) div t * t \<le> n + t"
    by linarith+
qed

lemma new_size_ok:
  assumes "dss_ok cfg"
  obtains a where "dss_new_size cfg b r = Ret a" "r \<le> a"
    "a \<le> max (max (ob_allocated b) (opal_dss_initial_size cfg)) (max (2 * r) (r + opal_dss_threshold_size cfg))"
proof (cases "opal_dss_threshold_size cfg \<le> r")
  case True
  then show ?thesis
    using that [of "(r + opal_dss_threshold_size cfg - 1) div opal_dss_threshold_size cfg * opal_dss_threshold_size cfg"]
      assms round_up_div [of "opal_dss_threshold_size cfg" r]
    by (simp add: dss_new_size_def dss_ok_def Let_def)
next
  case False
  let ?a = "if ob_allocated b = 0 then opal_dss_initial_size cfg else ob_allocated b"
  have "0 < ?a"
    using assms by (auto simp: dss_ok_def)
  then show ?thesis
    using that dss_double_ok [of ?a r] False by (auto simp: dss_new_size_def split: if_splits)
qed

text \<open>What growing yields: enough room, and not much more.\<close>

lemma extend_ok:
  assumes cfg: "dss_ok cfg" and b: "buf_ok b" and n: "0 < n \<or> ob_base b"
  obtains a where
    "opal_dss_buffer_extend cfg b n =
       Ret (True, b\<lparr>ob_base := True, ob_pack := True, ob_allocated := a\<rparr>)"
    "length (ob_bytes b) + n \<le> a"
    "a \<le> max (max (ob_allocated b) (opal_dss_initial_size cfg))
            (max (2 * (length (ob_bytes b) + n)) (length (ob_bytes b) + n + opal_dss_threshold_size cfg))"
proof (cases "n \<le> ob_allocated b - length (ob_bytes b)")
  case True
  then have "ob_base b" "ob_pack b"
    using b n by (auto simp: buf_ok_def)
  then have "b\<lparr>ob_base := True, ob_pack := True, ob_allocated := ob_allocated b\<rparr> = b"
    by simp
  moreover have "length (ob_bytes b) + n \<le> ob_allocated b"
    using True b by (auto simp: buf_ok_def)
  ultimately show ?thesis
    using True that [of "ob_allocated b"] \<open>ob_pack b\<close> by (simp add: opal_dss_buffer_extend_def)
next
  case False
  obtain a where a: "dss_new_size cfg b (length (ob_bytes b) + n) = Ret a"
    "length (ob_bytes b) + n \<le> a"
    "a \<le> max (max (ob_allocated b) (opal_dss_initial_size cfg))
            (max (2 * (length (ob_bytes b) + n)) (length (ob_bytes b) + n + opal_dss_threshold_size cfg))"
    using new_size_ok [OF cfg] by blast
  have alloc: "dss_alloc cfg a"
    using cfg by (simp add: dss_ok_def)
  have eq: "b\<lparr>ob_base := True, ob_pack := True, ob_bytes := [], ob_unpack := 0, ob_allocated := a\<rparr> =
      b\<lparr>ob_base := True, ob_pack := True, ob_allocated := a\<rparr>" if "\<not> ob_base b"
    using b that by (cases b) (auto simp: buf_ok_def)
  have eq': "b\<lparr>ob_allocated := a\<rparr> = b\<lparr>ob_base := True, ob_pack := True, ob_allocated := a\<rparr>" if "ob_base b"
    using b that by (cases b) (auto simp: buf_ok_def)
  have "opal_dss_buffer_extend cfg b n = Ret (True, b\<lparr>ob_base := True, ob_pack := True, ob_allocated := a\<rparr>)"
    using False a(1) alloc eq eq' by (cases "ob_base b") (simp_all add: opal_dss_buffer_extend_def)
  then show ?thesis
    using a(2,3) that by blast
qed

section \<open>Storing and fetching\<close>

text \<open>
  \<open>appended b bs b'\<close>: \<open>b'\<close> is \<open>b\<close> with \<open>bs\<close> packed behind its contents.
\<close>

definition appended :: "opal_buffer \<Rightarrow> byte list \<Rightarrow> opal_buffer \<Rightarrow> bool" where
  "appended b bs b' \<longleftrightarrow>
     ob_desc b' = ob_desc b \<and> ob_bytes b' = ob_bytes b @ bs \<and> ob_unpack b' = ob_unpack b \<and> buf_ok b' \<and>
     (ob_base b \<or> bs \<noteq> [] \<longrightarrow> ob_base b')"

lemma appended_refl: "buf_ok b \<Longrightarrow> appended b [] b"
  by (simp add: appended_def)

lemma appended_trans [trans]:
  "appended b xs b' \<Longrightarrow> appended b' ys b'' \<Longrightarrow> appended b (xs @ ys) b''"
  by (auto simp: appended_def)

lemma appended_buf_ok: "appended b bs b' \<Longrightarrow> buf_ok b'"
  by (simp add: appended_def)

lemma store_ok:
  assumes "dss_ok cfg" "buf_ok b" "bs \<noteq> [] \<or> ob_base b"
  shows "\<exists>b'. dss_store cfg b bs = Ret (OPAL_SUCCESS, b') \<and> appended b bs b'"
proof -
  obtain a where "opal_dss_buffer_extend cfg b (length bs) =
       Ret (True, b\<lparr>ob_base := True, ob_pack := True, ob_allocated := a\<rparr>)"
    "length (ob_bytes b) + length bs \<le> a"
    using extend_ok [OF assms(1,2), of "length bs"] assms(3) by auto
  then show ?thesis
    using assms(2) by (auto simp: dss_store_def appended_def buf_ok_def)
qed

text \<open>\<open>unread b bs\<close>: the bytes of \<open>b\<close> that are still to be unpacked are \<open>bs\<close>.\<close>

definition unread :: "opal_buffer \<Rightarrow> byte list \<Rightarrow> bool" where
  "unread b bs \<longleftrightarrow> ob_unpack b \<le> length (ob_bytes b) \<and> drop (ob_unpack b) (ob_bytes b) = bs"

definition skip :: "nat \<Rightarrow> opal_buffer \<Rightarrow> opal_buffer" where
  "skip n b = b\<lparr>ob_unpack := ob_unpack b + n\<rparr>"

lemma skip_simps [simp]:
  "ob_desc (skip n b) = ob_desc b" "skip 0 b = b" "skip m (skip n b) = skip (n + m) b"
  "ob_bytes (skip n b) = ob_bytes b" "ob_unpack (skip n b) = ob_unpack b + n"
  by (simp_all add: skip_def add.assoc)

lemma unread_skip:
  assumes "unread b (xs @ ys)"
  shows "unread (skip (length xs) b) ys"
proof -
  have "length (ob_bytes b) - ob_unpack b = length xs + length ys"
    using assms by (metis length_append length_drop unread_def)
  moreover have "drop (length xs + ob_unpack b) (ob_bytes b) = drop (length xs) (xs @ ys)"
    using assms by (metis drop_drop unread_def)
  ultimately show ?thesis
    using assms unfolding unread_def skip_simps by (simp add: add.commute) linarith
qed

lemma fetch_ok:
  assumes "unread b (xs @ ys)" "length xs = n"
  shows "dss_fetch b n = Some (xs, skip n b)"
proof -
  have "length (ob_bytes b) - ob_unpack b = length xs + length ys"
    using assms(1) by (metis length_append length_drop unread_def)
  then show ?thesis
    using assms by (auto simp: dss_fetch_def opal_dss_too_small_def unread_def skip_def)
qed

lemma fetch_short:
  assumes "unread b xs" "length xs < n"
  shows "dss_fetch b n = None"
  using assms by (auto simp: dss_fetch_def opal_dss_too_small_def unread_def)

lemma appended_unread:
  assumes "appended b bs b'" "unread b xs"
  shows "unread b' (xs @ bs)"
  using assms by (auto simp: appended_def unread_def)

end
