(* ===== verification/Dss_Pack.thy ===== *)
theory Dss_Pack
  imports Dss_Buffer C_Float
begin

text \<open>
  Packing (\<^verbatim>\<open>opal/dss/dss_pack.c\<close>) and the table of data types (\<^verbatim>\<open>dss_register.c\<close>,
  \<^verbatim>\<open>dss_open_close.c\<close>).

  The source of a pack call is an array; \<open>dss_data\<close> has one constructor per element layout, and
  the number of values is the length of the list.  A string is the memory block it lives in, with
  its terminating NUL; a block without NUL is undefined.  Passing data of another layout than the
  type asks for is undefined.

  \<^verbatim>\<open>opal_dss_pack_buffer\<close> looks the pack function up in the table, and some of these functions call it
  again with a simpler type.  The model is stratified accordingly: \<open>pack_leaf\<close> (functions that do
  not call back), \<open>pack_mid\<close> (those that call back with a leaf type), \<open>pack_top\<close> (values and
  buffers); \<open>pack_buffer_by\<close> is the body of \<^verbatim>\<open>opal_dss_pack_buffer\<close> for each stratum.  The sizes are
  those of a 64-bit machine: \<^verbatim>\<open>int\<close> and \<^verbatim>\<open>pid_t\<close> have 4 bytes, \<^verbatim>\<open>size_t\<close> 8, \<^verbatim>\<open>bool\<close> 1.
\<close>

section \<open>Data types\<close>

abbreviation (input) OPAL_UNDEF :: byte where "OPAL_UNDEF \<equiv> 0"
abbreviation (input) OPAL_BYTE :: byte where "OPAL_BYTE \<equiv> 1"
abbreviation (input) OPAL_BOOL :: byte where "OPAL_BOOL \<equiv> 2"
abbreviation (input) OPAL_STRING :: byte where "OPAL_STRING \<equiv> 3"
abbreviation (input) OPAL_SIZE :: byte where "OPAL_SIZE \<equiv> 4"
abbreviation (input) OPAL_PID :: byte where "OPAL_PID \<equiv> 5"
abbreviation (input) OPAL_INT :: byte where "OPAL_INT \<equiv> 6"
abbreviation (input) OPAL_INT8 :: byte where "OPAL_INT8 \<equiv> 7"
abbreviation (input) OPAL_INT16 :: byte where "OPAL_INT16 \<equiv> 8"
abbreviation (input) OPAL_INT32 :: byte where "OPAL_INT32 \<equiv> 9"
abbreviation (input) OPAL_INT64 :: byte where "OPAL_INT64 \<equiv> 10"
abbreviation (input) OPAL_UINT :: byte where "OPAL_UINT \<equiv> 11"
abbreviation (input) OPAL_UINT8 :: byte where "OPAL_UINT8 \<equiv> 12"
abbreviation (input) OPAL_UINT16 :: byte where "OPAL_UINT16 \<equiv> 13"
abbreviation (input) OPAL_UINT32 :: byte where "OPAL_UINT32 \<equiv> 14"
abbreviation (input) OPAL_UINT64 :: byte where "OPAL_UINT64 \<equiv> 15"
abbreviation (input) OPAL_FLOAT :: byte where "OPAL_FLOAT \<equiv> 16"
abbreviation (input) OPAL_DOUBLE :: byte where "OPAL_DOUBLE \<equiv> 17"
abbreviation (input) OPAL_TIMEVAL :: byte where "OPAL_TIMEVAL \<equiv> 18"
abbreviation (input) OPAL_TIME :: byte where "OPAL_TIME \<equiv> 19"
abbreviation (input) OPAL_BYTE_OBJECT :: byte where "OPAL_BYTE_OBJECT \<equiv> 20"
abbreviation (input) OPAL_DATA_TYPE :: byte where "OPAL_DATA_TYPE \<equiv> 21"
abbreviation (input) OPAL_NULL :: byte where "OPAL_NULL \<equiv> 22"
abbreviation (input) OPAL_PSTAT :: byte where "OPAL_PSTAT \<equiv> 23"
abbreviation (input) OPAL_NODE_STAT :: byte where "OPAL_NODE_STAT \<equiv> 24"
abbreviation (input) OPAL_VALUE :: byte where "OPAL_VALUE \<equiv> 26"
abbreviation (input) OPAL_BUFFER :: byte where "OPAL_BUFFER \<equiv> 27"
abbreviation (input) OPAL_PTR :: byte where "OPAL_PTR \<equiv> 28"
abbreviation (input) OPAL_FLOAT_ARRAY :: byte where "OPAL_FLOAT_ARRAY \<equiv> 31"
abbreviation (input) OPAL_DOUBLE_ARRAY :: byte where "OPAL_DOUBLE_ARRAY \<equiv> 32"
abbreviation (input) OPAL_STRING_ARRAY :: byte where "OPAL_STRING_ARRAY \<equiv> 33"
abbreviation (input) OPAL_BOOL_ARRAY :: byte where "OPAL_BOOL_ARRAY \<equiv> 34"
abbreviation (input) OPAL_SIZE_ARRAY :: byte where "OPAL_SIZE_ARRAY \<equiv> 35"
abbreviation (input) OPAL_BYTE_ARRAY :: byte where "OPAL_BYTE_ARRAY \<equiv> 36"
abbreviation (input) OPAL_INT_ARRAY :: byte where "OPAL_INT_ARRAY \<equiv> 37"
abbreviation (input) OPAL_INT8_ARRAY :: byte where "OPAL_INT8_ARRAY \<equiv> 38"
abbreviation (input) OPAL_INT16_ARRAY :: byte where "OPAL_INT16_ARRAY \<equiv> 39"
abbreviation (input) OPAL_INT32_ARRAY :: byte where "OPAL_INT32_ARRAY \<equiv> 40"
abbreviation (input) OPAL_INT64_ARRAY :: byte where "OPAL_INT64_ARRAY \<equiv> 41"
abbreviation (input) OPAL_UINT_ARRAY :: byte where "OPAL_UINT_ARRAY \<equiv> 42"
abbreviation (input) OPAL_UINT8_ARRAY :: byte where "OPAL_UINT8_ARRAY \<equiv> 43"
abbreviation (input) OPAL_UINT16_ARRAY :: byte where "OPAL_UINT16_ARRAY \<equiv> 44"
abbreviation (input) OPAL_UINT32_ARRAY :: byte where "OPAL_UINT32_ARRAY \<equiv> 45"
abbreviation (input) OPAL_UINT64_ARRAY :: byte where "OPAL_UINT64_ARRAY \<equiv> 46"
abbreviation (input) OPAL_BYTE_OBJECT_ARRAY :: byte where "OPAL_BYTE_OBJECT_ARRAY \<equiv> 47"
abbreviation (input) OPAL_PID_ARRAY :: byte where "OPAL_PID_ARRAY \<equiv> 48"
abbreviation (input) OPAL_TIMEVAL_ARRAY :: byte where "OPAL_TIMEVAL_ARRAY \<equiv> 49"
abbreviation (input) OPAL_NAME :: byte where "OPAL_NAME \<equiv> 50"
abbreviation (input) OPAL_JOBID :: byte where "OPAL_JOBID \<equiv> 51"
abbreviation (input) OPAL_VPID :: byte where "OPAL_VPID \<equiv> 52"

abbreviation (input) OPAL_DATA_TYPE_T :: byte where "OPAL_DATA_TYPE_T \<equiv> OPAL_UINT8"
abbreviation (input) OPAL_JOBID_T :: byte where "OPAL_JOBID_T \<equiv> OPAL_UINT32"
abbreviation (input) OPAL_VPID_T :: byte where "OPAL_VPID_T \<equiv> OPAL_UINT32"
abbreviation (input) DSS_TYPE_BOOL :: byte where "DSS_TYPE_BOOL \<equiv> OPAL_UINT8"
abbreviation (input) DSS_TYPE_INT :: byte where "DSS_TYPE_INT \<equiv> OPAL_INT32"
abbreviation (input) DSS_TYPE_SIZE_T :: byte where "DSS_TYPE_SIZE_T \<equiv> OPAL_UINT64"
abbreviation (input) DSS_TYPE_PID_T :: byte where "DSS_TYPE_PID_T \<equiv> OPAL_UINT32"

text \<open>The families of functions that the table refers to.\<close>

datatype dss_fn =
    F_null | F_byte | F_bool | F_int | F_int16 | F_int32 | F_int64 | F_sizet | F_pid | F_string
  | F_data_type | F_byte_object | F_pstat | F_node_stat | F_value | F_buffer_contents | F_float
  | F_double | F_timeval | F_time | F_name | F_jobid | F_vpid

record opal_dss_type_info =
  odti_type :: byte
  odti_name :: string
  odti_fn :: dss_fn

definition opal_dss_register ::
  "dss_fn \<Rightarrow> string \<Rightarrow> byte \<Rightarrow> opal_dss_type_info list \<Rightarrow> status \<times> opal_dss_type_info list" where
  "opal_dss_register fn name type tbl =
     (if list_ex (\<lambda>ptr. odti_name ptr = name \<or> (0 < type \<and> odti_type ptr = type)) tbl
      then (OPAL_ERR_DATA_TYPE_REDEF, tbl)
      else if type = 0 then (OPAL_ERR_BAD_PARAM, tbl)
      else (OPAL_SUCCESS, tbl @ [\<lparr>odti_type = type, odti_name = name, odti_fn = fn\<rparr>]))"

definition intrinsic_types :: "(byte \<times> dss_fn \<times> string) list" where
  "intrinsic_types =
     [(OPAL_NULL, F_null, ''OPAL_NULL''), (OPAL_BYTE, F_byte, ''OPAL_BYTE''),
      (OPAL_BOOL, F_bool, ''OPAL_BOOL''), (OPAL_INT, F_int, ''OPAL_INT''),
      (OPAL_UINT, F_int, ''OPAL_UINT''), (OPAL_INT8, F_byte, ''OPAL_INT8''),
      (OPAL_UINT8, F_byte, ''OPAL_UINT8''), (OPAL_INT16, F_int16, ''OPAL_INT16''),
      (OPAL_UINT16, F_int16, ''OPAL_UINT16''), (OPAL_INT32, F_int32, ''OPAL_INT32''),
      (OPAL_UINT32, F_int32, ''OPAL_UINT32''), (OPAL_INT64, F_int64, ''OPAL_INT64''),
      (OPAL_UINT64, F_int64, ''OPAL_UINT64''), (OPAL_SIZE, F_sizet, ''OPAL_SIZE''),
      (OPAL_PID, F_pid, ''OPAL_PID''), (OPAL_STRING, F_string, ''OPAL_STRING''),
      (OPAL_DATA_TYPE, F_data_type, ''OPAL_DATA_TYPE''),
      (OPAL_BYTE_OBJECT, F_byte_object, ''OPAL_BYTE_OBJECT''), (OPAL_PSTAT, F_pstat, ''OPAL_PSTAT''),
      (OPAL_NODE_STAT, F_node_stat, ''OPAL_NODE_STAT''), (OPAL_VALUE, F_value, ''OPAL_VALUE''),
      (OPAL_BUFFER, F_buffer_contents, ''OPAL_BUFFER''), (OPAL_FLOAT, F_float, ''OPAL_FLOAT''),
      (OPAL_DOUBLE, F_double, ''OPAL_DOUBLE''), (OPAL_TIMEVAL, F_timeval, ''OPAL_TIMEVAL''),
      (OPAL_TIME, F_time, ''OPAL_TIME''), (OPAL_NAME, F_name, ''OPAL_NAME''),
      (OPAL_JOBID, F_jobid, ''OPAL_JOBID''), (OPAL_VPID, F_vpid, ''OPAL_VPID'')]"

fun dss_register_all ::
  "(byte \<times> dss_fn \<times> string) list \<Rightarrow> opal_dss_type_info list \<Rightarrow> status \<times> opal_dss_type_info list" where
  "dss_register_all [] tbl = (OPAL_SUCCESS, tbl)"
| "dss_register_all ((t, fn, name) # ts) tbl =
     (case opal_dss_register fn name t tbl of
        (rc, tbl') \<Rightarrow> if rc \<noteq> OPAL_SUCCESS then (rc, tbl') else dss_register_all ts tbl')"

definition opal_dss_open :: "status \<times> opal_dss_type_info list" where
  "opal_dss_open = dss_register_all intrinsic_types []"

definition opal_dss_types :: "byte \<Rightarrow> dss_fn option" where
  "opal_dss_types type =
     map_option odti_fn (find (\<lambda>info. odti_type info = type) (snd opal_dss_open))"

section \<open>Packing\<close>

datatype dss_data =
    D8 "byte list"
  | D16 "16 word list"
  | D32 "32 word list"
  | D64 "64 word list"
  | DStr "byte list option list"
  | DFloat "rat list"
  | DDouble "rat list"
  | DTimeval "(64 word \<times> 64 word) list"
  | DBo "byte list list"
  | DName "(32 word \<times> 32 word) list"

text \<open>The block of a C string.\<close>

definition c_string :: "string \<Rightarrow> byte list" where
  "c_string s = map (\<lambda>c. of_nat (of_char c)) s @ [0]"

text \<open>Continue with the buffer unless the status says otherwise; do so for every element.\<close>

definition and_then ::
  "(status \<times> opal_buffer) outcome \<Rightarrow> (opal_buffer \<Rightarrow> (status \<times> opal_buffer) outcome) \<Rightarrow>
     (status \<times> opal_buffer) outcome" where
  "and_then m f = obind m (\<lambda>(rc, b). if rc \<noteq> OPAL_SUCCESS then Ret (rc, b) else f b)"

fun pack_each ::
  "(opal_buffer \<Rightarrow> 'a \<Rightarrow> (status \<times> opal_buffer) outcome) \<Rightarrow> opal_buffer \<Rightarrow> 'a list \<Rightarrow>
     (status \<times> opal_buffer) outcome" where
  "pack_each f buffer [] = Ret (OPAL_SUCCESS, buffer)"
| "pack_each f buffer (x # xs) = and_then (f buffer x) (\<lambda>b. pack_each f b xs)"

definition opal_dss_pack_null :: "dss_params \<Rightarrow> opal_buffer \<Rightarrow> nat \<Rightarrow> (status \<times> opal_buffer) outcome" where
  "opal_dss_pack_null cfg buffer num_vals = dss_store cfg buffer (replicate num_vals 0)"

definition opal_dss_pack_byte ::
  "dss_params \<Rightarrow> opal_buffer \<Rightarrow> byte list \<Rightarrow> (status \<times> opal_buffer) outcome" where
  "opal_dss_pack_byte cfg buffer src = dss_store cfg buffer src"

definition opal_dss_pack_int16 ::
  "dss_params \<Rightarrow> opal_buffer \<Rightarrow> 16 word list \<Rightarrow> (status \<times> opal_buffer) outcome" where
  "opal_dss_pack_int16 cfg buffer src = dss_store cfg buffer (concat (map (hton 2) src))"

definition opal_dss_pack_int32 ::
  "dss_params \<Rightarrow> opal_buffer \<Rightarrow> 32 word list \<Rightarrow> (status \<times> opal_buffer) outcome" where
  "opal_dss_pack_int32 cfg buffer src = dss_store cfg buffer (concat (map (hton 4) src))"

definition opal_dss_pack_int64 ::
  "dss_params \<Rightarrow> opal_buffer \<Rightarrow> 64 word list \<Rightarrow> (status \<times> opal_buffer) outcome" where
  "opal_dss_pack_int64 cfg buffer src = dss_store cfg buffer (concat (map (hton 8) src))"

definition pack_string1 ::
  "dss_params \<Rightarrow> opal_buffer \<Rightarrow> byte list option \<Rightarrow> (status \<times> opal_buffer) outcome" where
  "pack_string1 cfg buffer ssrc =
     (case ssrc of
        None \<Rightarrow> opal_dss_pack_int32 cfg buffer [0]
      | Some blk \<Rightarrow>
          if 0 \<notin> set blk then Undef
          else
            (let s = takeWhile (\<lambda>c. c \<noteq> 0) blk in
             if 2 ^ 31 \<le> length s + 1 then Undef
             else and_then (opal_dss_pack_int32 cfg buffer [of_nat (length s + 1)])
                    (\<lambda>b. opal_dss_pack_byte cfg b (s @ [0]))))"

definition opal_dss_pack_string ::
  "dss_params \<Rightarrow> opal_buffer \<Rightarrow> byte list option list \<Rightarrow> (status \<times> opal_buffer) outcome" where
  "opal_dss_pack_string cfg buffer src = pack_each (pack_string1 cfg) buffer src"

definition opal_dss_pack_float ::
  "dss_params \<Rightarrow> opal_buffer \<Rightarrow> rat list \<Rightarrow> (status \<times> opal_buffer) outcome" where
  "opal_dss_pack_float cfg buffer src =
     pack_each (\<lambda>b x. opal_dss_pack_string cfg b [Some (c_string (fmt_f x))]) buffer src"

definition opal_dss_pack_double ::
  "dss_params \<Rightarrow> opal_buffer \<Rightarrow> rat list \<Rightarrow> (status \<times> opal_buffer) outcome" where
  "opal_dss_pack_double cfg buffer src =
     pack_each (\<lambda>b x. opal_dss_pack_string cfg b [Some (c_string (fmt_f x))]) buffer src"

definition opal_dss_pack_timeval ::
  "dss_params \<Rightarrow> opal_buffer \<Rightarrow> (64 word \<times> 64 word) list \<Rightarrow> (status \<times> opal_buffer) outcome" where
  "opal_dss_pack_timeval cfg buffer src =
     pack_each (\<lambda>b (sec, usec). opal_dss_pack_int64 cfg b [sec, usec]) buffer src"

definition opal_dss_pack_time ::
  "dss_params \<Rightarrow> opal_buffer \<Rightarrow> 64 word list \<Rightarrow> (status \<times> opal_buffer) outcome" where
  "opal_dss_pack_time cfg buffer src = pack_each (\<lambda>b t. opal_dss_pack_int64 cfg b [t]) buffer src"

definition pack_byte_object1 ::
  "dss_params \<Rightarrow> opal_buffer \<Rightarrow> byte list \<Rightarrow> (status \<times> opal_buffer) outcome" where
  "pack_byte_object1 cfg buffer bo =
     and_then (opal_dss_pack_int32 cfg buffer [of_nat (length bo)])
       (\<lambda>b. if bo \<noteq> [] then opal_dss_pack_byte cfg b bo else Ret (OPAL_SUCCESS, b))"

definition opal_dss_pack_byte_object ::
  "dss_params \<Rightarrow> opal_buffer \<Rightarrow> byte list list \<Rightarrow> (status \<times> opal_buffer) outcome" where
  "opal_dss_pack_byte_object cfg buffer src = pack_each (pack_byte_object1 cfg) buffer src"

definition pack_leaf ::
  "dss_fn \<Rightarrow> dss_params \<Rightarrow> opal_buffer \<Rightarrow> dss_data \<Rightarrow> (status \<times> opal_buffer) outcome" where
  "pack_leaf fn cfg b src =
     (case fn of
        F_null \<Rightarrow> (case src of D8 xs \<Rightarrow> opal_dss_pack_null cfg b (length xs) | _ \<Rightarrow> Undef)
      | F_byte \<Rightarrow> (case src of D8 xs \<Rightarrow> opal_dss_pack_byte cfg b xs | _ \<Rightarrow> Undef)
      | F_int16 \<Rightarrow> (case src of D16 xs \<Rightarrow> opal_dss_pack_int16 cfg b xs | _ \<Rightarrow> Undef)
      | F_int32 \<Rightarrow> (case src of D32 xs \<Rightarrow> opal_dss_pack_int32 cfg b xs | _ \<Rightarrow> Undef)
      | F_int64 \<Rightarrow> (case src of D64 xs \<Rightarrow> opal_dss_pack_int64 cfg b xs | _ \<Rightarrow> Undef)
      | F_string \<Rightarrow> (case src of DStr xs \<Rightarrow> opal_dss_pack_string cfg b xs | _ \<Rightarrow> Undef)
      | F_float \<Rightarrow> (case src of DFloat xs \<Rightarrow> opal_dss_pack_float cfg b xs | _ \<Rightarrow> Undef)
      | F_double \<Rightarrow> (case src of DDouble xs \<Rightarrow> opal_dss_pack_double cfg b xs | _ \<Rightarrow> Undef)
      | F_timeval \<Rightarrow> (case src of DTimeval xs \<Rightarrow> opal_dss_pack_timeval cfg b xs | _ \<Rightarrow> Undef)
      | F_time \<Rightarrow> (case src of D64 xs \<Rightarrow> opal_dss_pack_time cfg b xs | _ \<Rightarrow> Undef)
      | F_byte_object \<Rightarrow> (case src of DBo xs \<Rightarrow> opal_dss_pack_byte_object cfg b xs | _ \<Rightarrow> Undef)
      | _ \<Rightarrow> Undef)"

definition opal_dss_store_data_type ::
  "dss_params \<Rightarrow> opal_buffer \<Rightarrow> byte \<Rightarrow> (status \<times> opal_buffer) outcome" where
  "opal_dss_store_data_type cfg buffer type =
     (case opal_dss_types OPAL_DATA_TYPE_T of
        None \<Rightarrow> Ret (OPAL_ERR_PACK_FAILURE, buffer)
      | Some fn \<Rightarrow> pack_leaf fn cfg buffer (D8 [type]))"

definition pack_buffer_by ::
  "(dss_fn \<Rightarrow> dss_params \<Rightarrow> opal_buffer \<Rightarrow> 'd \<Rightarrow> (status \<times> opal_buffer) outcome) \<Rightarrow>
     dss_params \<Rightarrow> opal_buffer \<Rightarrow> 'd \<Rightarrow> byte \<Rightarrow> (status \<times> opal_buffer) outcome" where
  "pack_buffer_by pack_fn cfg buffer src type =
     and_then
       (if ob_desc buffer then opal_dss_store_data_type cfg buffer type else Ret (OPAL_SUCCESS, buffer))
       (\<lambda>b. case opal_dss_types type of
              None \<Rightarrow> Ret (OPAL_ERR_PACK_FAILURE, b)
            | Some fn \<Rightarrow> pack_fn fn cfg b src)"

text \<open>System types: in a buffer that is not fully described, the real type is stored first.\<close>

definition pack_system ::
  "byte \<Rightarrow> dss_params \<Rightarrow> opal_buffer \<Rightarrow> dss_data \<Rightarrow> (status \<times> opal_buffer) outcome" where
  "pack_system rtype cfg buffer src =
     and_then
       (if \<not> ob_desc buffer then opal_dss_store_data_type cfg buffer rtype else Ret (OPAL_SUCCESS, buffer))
       (\<lambda>b. pack_buffer_by pack_leaf cfg b src rtype)"

definition opal_dss_pack_bool ::
  "dss_params \<Rightarrow> opal_buffer \<Rightarrow> dss_data \<Rightarrow> (status \<times> opal_buffer) outcome" where
  "opal_dss_pack_bool = pack_system DSS_TYPE_BOOL"

definition opal_dss_pack_int ::
  "dss_params \<Rightarrow> opal_buffer \<Rightarrow> dss_data \<Rightarrow> (status \<times> opal_buffer) outcome" where
  "opal_dss_pack_int = pack_system DSS_TYPE_INT"

definition opal_dss_pack_sizet ::
  "dss_params \<Rightarrow> opal_buffer \<Rightarrow> dss_data \<Rightarrow> (status \<times> opal_buffer) outcome" where
  "opal_dss_pack_sizet = pack_system DSS_TYPE_SIZE_T"

definition opal_dss_pack_pid ::
  "dss_params \<Rightarrow> opal_buffer \<Rightarrow> dss_data \<Rightarrow> (status \<times> opal_buffer) outcome" where
  "opal_dss_pack_pid = pack_system DSS_TYPE_PID_T"

definition opal_dss_pack_data_type ::
  "dss_params \<Rightarrow> opal_buffer \<Rightarrow> dss_data \<Rightarrow> (status \<times> opal_buffer) outcome" where
  "opal_dss_pack_data_type cfg buffer src = pack_buffer_by pack_leaf cfg buffer src OPAL_DATA_TYPE_T"

definition opal_dss_pack_jobid ::
  "dss_params \<Rightarrow> opal_buffer \<Rightarrow> dss_data \<Rightarrow> (status \<times> opal_buffer) outcome" where
  "opal_dss_pack_jobid cfg buffer src = pack_buffer_by pack_leaf cfg buffer src OPAL_JOBID_T"

definition opal_dss_pack_vpid ::
  "dss_params \<Rightarrow> opal_buffer \<Rightarrow> dss_data \<Rightarrow> (status \<times> opal_buffer) outcome" where
  "opal_dss_pack_vpid cfg buffer src = pack_buffer_by pack_leaf cfg buffer src OPAL_VPID_T"

definition opal_dss_pack_name ::
  "dss_params \<Rightarrow> opal_buffer \<Rightarrow> (32 word \<times> 32 word) list \<Rightarrow> (status \<times> opal_buffer) outcome" where
  "opal_dss_pack_name cfg buffer src =
     (if \<not> dss_alloc cfg (4 * length src) then Ret (OPAL_ERR_OUT_OF_RESOURCE, buffer)
      else and_then (opal_dss_pack_jobid cfg buffer (D32 (map fst src)))
             (\<lambda>b. if \<not> dss_alloc cfg (4 * length src) then Ret (OPAL_ERR_OUT_OF_RESOURCE, b)
                  else opal_dss_pack_vpid cfg b (D32 (map snd src))))"

definition pack_mid ::
  "dss_fn \<Rightarrow> dss_params \<Rightarrow> opal_buffer \<Rightarrow> dss_data \<Rightarrow> (status \<times> opal_buffer) outcome" where
  "pack_mid fn cfg b src =
     (case fn of
        F_bool \<Rightarrow> opal_dss_pack_bool cfg b src
      | F_int \<Rightarrow> opal_dss_pack_int cfg b src
      | F_sizet \<Rightarrow> opal_dss_pack_sizet cfg b src
      | F_pid \<Rightarrow> opal_dss_pack_pid cfg b src
      | F_data_type \<Rightarrow> opal_dss_pack_data_type cfg b src
      | F_jobid \<Rightarrow> opal_dss_pack_jobid cfg b src
      | F_vpid \<Rightarrow> opal_dss_pack_vpid cfg b src
      | F_name \<Rightarrow> (case src of DName xs \<Rightarrow> opal_dss_pack_name cfg b xs | _ \<Rightarrow> Undef)
      | _ \<Rightarrow> pack_leaf fn cfg b src)"

section \<open>Values, statistics and buffers\<close>

record opal_value =
  ov_key :: "byte list option"
  ov_type :: byte
  ov_data :: dss_data

fun data_length :: "dss_data \<Rightarrow> nat" where
  "data_length (D8 xs) = length xs"
| "data_length (D16 xs) = length xs"
| "data_length (D32 xs) = length xs"
| "data_length (D64 xs) = length xs"
| "data_length (DStr xs) = length xs"
| "data_length (DFloat xs) = length xs"
| "data_length (DDouble xs) = length xs"
| "data_length (DTimeval xs) = length xs"
| "data_length (DBo xs) = length xs"
| "data_length (DName xs) = length xs"

text \<open>
  The cases of the switch on the type of a value: single values that are packed with their own
  type, and arrays with the type of their elements.
\<close>

definition value_scalar :: "byte \<Rightarrow> bool" where
  "value_scalar t \<longleftrightarrow> t \<in> set
     [OPAL_BOOL, OPAL_BYTE, OPAL_STRING, OPAL_SIZE, OPAL_PID, OPAL_INT, OPAL_INT8, OPAL_INT16,
      OPAL_INT32, OPAL_INT64, OPAL_UINT, OPAL_UINT8, OPAL_UINT16, OPAL_UINT32, OPAL_UINT64,
      OPAL_FLOAT, OPAL_DOUBLE, OPAL_TIMEVAL, OPAL_NAME]"

definition value_elem :: "byte \<Rightarrow> byte option" where
  "value_elem t = map_of
     [(OPAL_FLOAT_ARRAY, OPAL_FLOAT), (OPAL_DOUBLE_ARRAY, OPAL_DOUBLE),
      (OPAL_STRING_ARRAY, OPAL_STRING), (OPAL_BOOL_ARRAY, OPAL_BOOL), (OPAL_SIZE_ARRAY, OPAL_SIZE),
      (OPAL_BYTE_ARRAY, OPAL_BYTE), (OPAL_INT_ARRAY, OPAL_INT), (OPAL_INT8_ARRAY, OPAL_INT8),
      (OPAL_INT16_ARRAY, OPAL_INT16), (OPAL_INT32_ARRAY, OPAL_INT32),
      (OPAL_INT64_ARRAY, OPAL_INT64), (OPAL_UINT_ARRAY, OPAL_UINT), (OPAL_UINT8_ARRAY, OPAL_UINT8),
      (OPAL_UINT16_ARRAY, OPAL_UINT16), (OPAL_UINT32_ARRAY, OPAL_UINT32),
      (OPAL_UINT64_ARRAY, OPAL_UINT64), (OPAL_PID_ARRAY, OPAL_PID),
      (OPAL_TIMEVAL_ARRAY, OPAL_TIMEVAL)] t"

definition pack_value_field ::
  "dss_params \<Rightarrow> opal_buffer \<Rightarrow> byte \<Rightarrow> dss_data \<Rightarrow> (status \<times> opal_buffer) outcome" where
  "pack_value_field cfg buffer t d =
     (if value_scalar t then
        (if data_length d \<noteq> 1 then Undef else pack_buffer_by pack_mid cfg buffer d t)
      else if t = OPAL_BYTE_OBJECT then (case d of DBo [bo] \<Rightarrow> pack_byte_object1 cfg buffer bo | _ \<Rightarrow> Undef)
      else if t = OPAL_PTR then Ret (OPAL_SUCCESS, buffer)
      else
        (case value_elem t of
           None \<Rightarrow> Ret (OPAL_ERROR, buffer)
         | Some e \<Rightarrow>
             and_then (pack_buffer_by pack_mid cfg buffer (D32 [of_nat (data_length d)]) OPAL_INT32)
               (\<lambda>b. pack_buffer_by pack_mid cfg b d e)))"

definition pack_value1 ::
  "dss_params \<Rightarrow> opal_buffer \<Rightarrow> opal_value \<Rightarrow> (status \<times> opal_buffer) outcome" where
  "pack_value1 cfg buffer v =
     and_then (opal_dss_pack_string cfg buffer [ov_key v]) (\<lambda>b1.
       and_then (opal_dss_pack_data_type cfg b1 (D8 [ov_type v])) (\<lambda>b2.
         pack_value_field cfg b2 (ov_type v) (ov_data v)))"

definition opal_dss_pack_value ::
  "dss_params \<Rightarrow> opal_buffer \<Rightarrow> opal_value list \<Rightarrow> (status \<times> opal_buffer) outcome" where
  "opal_dss_pack_value cfg buffer src = pack_each (pack_value1 cfg) buffer src"

text \<open>
  The statistics objects are packed field by field: \<open>True\<close> marks a field that goes through
  \<^verbatim>\<open>opal_dss_pack_buffer\<close> with its type, \<open>False\<close> one that is packed with \<^verbatim>\<open>opal_dss_pack_float\<close>.
\<close>

type_synonym dss_field = "bool \<times> byte \<times> dss_data"

definition pack_field :: "dss_params \<Rightarrow> opal_buffer \<Rightarrow> dss_field \<Rightarrow> (status \<times> opal_buffer) outcome" where
  "pack_field cfg buffer f =
     (case f of (tagged, t, d) \<Rightarrow>
        if tagged then pack_buffer_by pack_mid cfg buffer d t else pack_leaf F_float cfg buffer d)"

record opal_pstats =
  ps_node :: "byte list"
  ps_rank :: "32 word"
  ps_pid :: "32 word"
  ps_cmd :: "byte list"
  ps_state :: byte
  ps_time :: "64 word \<times> 64 word"
  ps_percent_cpu :: rat
  ps_priority :: "32 word"
  ps_num_threads :: "16 word"
  ps_vsize :: rat
  ps_rss :: rat
  ps_peak_vsize :: rat
  ps_processor :: "16 word"
  ps_sample_time :: "64 word \<times> 64 word"

definition pstat_fields :: "opal_pstats \<Rightarrow> dss_field list" where
  "pstat_fields s =
     [(True, OPAL_STRING, DStr [Some (ps_node s)]), (True, OPAL_INT32, D32 [ps_rank s]),
      (True, OPAL_PID, D32 [ps_pid s]), (True, OPAL_STRING, DStr [Some (ps_cmd s)]),
      (True, OPAL_BYTE, D8 [ps_state s]), (True, OPAL_TIMEVAL, DTimeval [ps_time s]),
      (True, OPAL_INT32, D32 [ps_priority s]), (True, OPAL_INT16, D16 [ps_num_threads s]),
      (False, OPAL_FLOAT, DFloat [ps_vsize s]), (False, OPAL_FLOAT, DFloat [ps_rss s]),
      (False, OPAL_FLOAT, DFloat [ps_peak_vsize s]), (True, OPAL_INT16, D16 [ps_processor s]),
      (True, OPAL_TIMEVAL, DTimeval [ps_sample_time s])]"

definition opal_dss_pack_pstat ::
  "dss_params \<Rightarrow> opal_buffer \<Rightarrow> opal_pstats list \<Rightarrow> (status \<times> opal_buffer) outcome" where
  "opal_dss_pack_pstat cfg buffer src =
     pack_each (\<lambda>b s. pack_each (pack_field cfg) b (pstat_fields s)) buffer src"

record opal_diskstats =
  dk_disk :: "byte list option"
  dk_num_reads_completed :: "64 word"
  dk_num_reads_merged :: "64 word"
  dk_num_sectors_read :: "64 word"
  dk_milliseconds_reading :: "64 word"
  dk_num_writes_completed :: "64 word"
  dk_num_writes_merged :: "64 word"
  dk_num_sectors_written :: "64 word"
  dk_milliseconds_writing :: "64 word"
  dk_num_ios_in_progress :: "64 word"
  dk_milliseconds_io :: "64 word"
  dk_weighted_milliseconds_io :: "64 word"

record opal_netstats =
  ns_net_interface :: "byte list option"
  ns_num_bytes_recvd :: "64 word"
  ns_num_packets_recvd :: "64 word"
  ns_num_recv_errs :: "64 word"
  ns_num_bytes_sent :: "64 word"
  ns_num_packets_sent :: "64 word"
  ns_num_send_errs :: "64 word"

record opal_node_stats =
  nd_la :: rat
  nd_la5 :: rat
  nd_la15 :: rat
  nd_total_mem :: rat
  nd_free_mem :: rat
  nd_buffers :: rat
  nd_cached :: rat
  nd_swap_cached :: rat
  nd_swap_total :: rat
  nd_swap_free :: rat
  nd_mapped :: rat
  nd_sample_time :: "64 word \<times> 64 word"
  nd_diskstats :: "opal_diskstats list"
  nd_netstats :: "opal_netstats list"

definition disk_counts :: "opal_diskstats \<Rightarrow> 64 word list" where
  "disk_counts dk =
     [dk_num_reads_completed dk, dk_num_reads_merged dk, dk_num_sectors_read dk,
      dk_milliseconds_reading dk, dk_num_writes_completed dk, dk_num_writes_merged dk,
      dk_num_sectors_written dk, dk_milliseconds_writing dk, dk_num_ios_in_progress dk,
      dk_milliseconds_io dk, dk_weighted_milliseconds_io dk]"

definition net_counts :: "opal_netstats \<Rightarrow> 64 word list" where
  "net_counts ns =
     [ns_num_bytes_recvd ns, ns_num_packets_recvd ns, ns_num_recv_errs ns,
      ns_num_bytes_sent ns, ns_num_packets_sent ns, ns_num_send_errs ns]"

definition node_loads :: "opal_node_stats \<Rightarrow> rat list" where
  "node_loads s =
     [nd_la s, nd_la5 s, nd_la15 s, nd_total_mem s, nd_free_mem s, nd_buffers s,
      nd_cached s, nd_swap_cached s, nd_swap_total s, nd_swap_free s, nd_mapped s]"

definition pack_disk_stats :: "dss_params \<Rightarrow> opal_buffer \<Rightarrow> opal_diskstats \<Rightarrow> (status \<times> opal_buffer) outcome" where
  "pack_disk_stats cfg buffer dk =
     pack_each (pack_field cfg) buffer
       ((True, OPAL_STRING, DStr [dk_disk dk]) # map (\<lambda>c. (True, OPAL_UINT64, D64 [c])) (disk_counts dk))"

definition pack_net_stats :: "dss_params \<Rightarrow> opal_buffer \<Rightarrow> opal_netstats \<Rightarrow> (status \<times> opal_buffer) outcome" where
  "pack_net_stats cfg buffer ns =
     pack_each (pack_field cfg) buffer
       ((True, OPAL_STRING, DStr [ns_net_interface ns]) # map (\<lambda>c. (True, OPAL_UINT64, D64 [c])) (net_counts ns))"

definition pack_node_stat1 :: "dss_params \<Rightarrow> opal_buffer \<Rightarrow> opal_node_stats \<Rightarrow> (status \<times> opal_buffer) outcome" where
  "pack_node_stat1 cfg buffer s =
     and_then
       (pack_each (pack_field cfg) buffer
          (map (\<lambda>x. (False, OPAL_FLOAT, DFloat [x])) (node_loads s) @
           [(True, OPAL_TIMEVAL, DTimeval [nd_sample_time s]),
            (True, OPAL_INT32, D32 [of_nat (length (nd_diskstats s))])]))
       (\<lambda>b1. and_then (pack_each (pack_disk_stats cfg) b1 (nd_diskstats s)) (\<lambda>b2.
          and_then (pack_field cfg b2 (True, OPAL_INT32, D32 [of_nat (length (nd_netstats s))])) (\<lambda>b3.
            pack_each (pack_net_stats cfg) b3 (nd_netstats s))))"

definition opal_dss_pack_node_stat ::
  "dss_params \<Rightarrow> opal_buffer \<Rightarrow> opal_node_stats list \<Rightarrow> (status \<times> opal_buffer) outcome" where
  "opal_dss_pack_node_stat cfg buffer src = pack_each (pack_node_stat1 cfg) buffer src"

text \<open>
  A buffer inside a buffer.  The \<^verbatim>\<open>base_ptr\<close> of an empty source is set to NULL.
\<close>

definition pack_contents1 ::
  "dss_params \<Rightarrow> opal_buffer \<Rightarrow> opal_buffer \<Rightarrow> (status \<times> opal_buffer) outcome" where
  "pack_contents1 cfg buffer src =
     and_then (opal_dss_pack_sizet cfg buffer (D64 [of_nat (length (ob_bytes src))]))
       (\<lambda>b. if ob_bytes src \<noteq> [] then opal_dss_pack_byte cfg b (ob_bytes src) else Ret (OPAL_SUCCESS, b))"

definition pack_contents_source :: "opal_buffer \<Rightarrow> opal_buffer" where
  "pack_contents_source src = (if ob_bytes src \<noteq> [] then src else src\<lparr>ob_base := False\<rparr>)"

definition opal_dss_pack_buffer_contents ::
  "dss_params \<Rightarrow> opal_buffer \<Rightarrow> opal_buffer list \<Rightarrow> (status \<times> opal_buffer) outcome" where
  "opal_dss_pack_buffer_contents cfg buffer src = pack_each (pack_contents1 cfg) buffer src"

datatype dss_src =
    Plain dss_data
  | Values "opal_value list"
  | Pstats "opal_pstats list"
  | Node_stats "opal_node_stats list"
  | Buffers "opal_buffer list"

fun src_length :: "dss_src \<Rightarrow> nat" where
  "src_length (Plain d) = data_length d"
| "src_length (Values vs) = length vs"
| "src_length (Pstats ss) = length ss"
| "src_length (Node_stats ss) = length ss"
| "src_length (Buffers bs) = length bs"

definition pack_top ::
  "dss_fn \<Rightarrow> dss_params \<Rightarrow> opal_buffer \<Rightarrow> dss_src \<Rightarrow> (status \<times> opal_buffer) outcome" where
  "pack_top fn cfg b src =
     (case src of
        Plain d \<Rightarrow> pack_mid fn cfg b d
      | Values vs \<Rightarrow> if fn = F_value then opal_dss_pack_value cfg b vs else Undef
      | Pstats ss \<Rightarrow> if fn = F_pstat then opal_dss_pack_pstat cfg b ss else Undef
      | Node_stats ss \<Rightarrow> if fn = F_node_stat then opal_dss_pack_node_stat cfg b ss else Undef
      | Buffers bs \<Rightarrow> if fn = F_buffer_contents then opal_dss_pack_buffer_contents cfg b bs else Undef)"

definition opal_dss_pack_buffer ::
  "dss_params \<Rightarrow> opal_buffer \<Rightarrow> dss_src \<Rightarrow> byte \<Rightarrow> (status \<times> opal_buffer) outcome" where
  "opal_dss_pack_buffer = pack_buffer_by pack_top"

definition opal_dss_pack ::
  "dss_params \<Rightarrow> opal_buffer \<Rightarrow> dss_src \<Rightarrow> byte \<Rightarrow> (status \<times> opal_buffer) outcome" where
  "opal_dss_pack cfg buffer src type =
     and_then
       (if ob_desc buffer then opal_dss_store_data_type cfg buffer OPAL_INT32 else Ret (OPAL_SUCCESS, buffer))
       (\<lambda>b1. and_then (opal_dss_pack_int32 cfg b1 [of_nat (src_length src)])
          (\<lambda>b2. opal_dss_pack_buffer cfg b2 src type))"

section \<open>The table\<close>

lemma opal_dss_open_eq:
  "opal_dss_open =
     (OPAL_SUCCESS, map (\<lambda>(t, fn, name). \<lparr>odti_type = t, odti_name = name, odti_fn = fn\<rparr>) intrinsic_types)"
  by code_simp

lemma opal_dss_types_eq: "opal_dss_types t = map_option fst (map_of intrinsic_types t)"
proof -
  have "map_option odti_fn (find (\<lambda>info. odti_type info = t)
      (map (\<lambda>(t, fn, name). \<lparr>odti_type = t, odti_name = name, odti_fn = fn\<rparr>) xs)) =
      map_option fst (map_of xs t)" for xs
    by (induction xs) auto
  then show ?thesis
    by (simp add: opal_dss_types_def opal_dss_open_eq)
qed

end
