(* ===== verification/Dss_Unpack.thy ===== *)
theory Dss_Unpack
  imports Dss_Pack
begin

text \<open>
  Unpacking (\<^verbatim>\<open>opal/dss/dss_unpack.c\<close>) and looking ahead (\<^verbatim>\<open>dss_peek.c\<close>), in the strata of packing.
  An unpack function gets the number of values as a 32-bit signed number and returns a status, the
  elements it has written, and the buffer with \<^verbatim>\<open>unpack_ptr\<close> moved.

  A string block without a NUL is handed out as it is; where the code itself reads such a string
  (\<^verbatim>\<open>strtof\<close>, \<^verbatim>\<open>strlen\<close>), that is undefined.  \<^verbatim>\<open>opal_dss_unpack_value\<close> unpacks arrays through the
  data pointer of a fresh value, which is NULL: writing an element there is undefined.
  The sizes with which objects are allocated are nominal: they only decide whether the allocation succeeds.
\<close>

section \<open>Unpacking contiguous data\<close>

type_synonym 'a unpacked = "(status \<times> 'a list \<times> opal_buffer) outcome"

fun unpack_each :: "(opal_buffer \<Rightarrow> 'a unpacked) \<Rightarrow> opal_buffer \<Rightarrow> nat \<Rightarrow> 'a unpacked" where
  "unpack_each f buffer 0 = Ret (OPAL_SUCCESS, [], buffer)"
| "unpack_each f buffer (Suc n) =
     obind (f buffer) (\<lambda>(rc, xs, b).
       if rc \<noteq> OPAL_SUCCESS then Ret (rc, xs, b)
       else obind (unpack_each f b n) (\<lambda>(rc', ys, b'). Ret (rc', xs @ ys, b')))"

definition unpack_words :: "nat \<Rightarrow> (byte list \<Rightarrow> 'a) \<Rightarrow> opal_buffer \<Rightarrow> int \<Rightarrow> 'a unpacked" where
  "unpack_words sz conv buffer num_vals =
     (case dss_fetch buffer (size_t (size_of_int num_vals * sz)) of
        None \<Rightarrow> Ret (OPAL_ERR_UNPACK_READ_PAST_END_OF_BUFFER, [], buffer)
      | Some (bs, b) \<Rightarrow>
          Ret (OPAL_SUCCESS, map (\<lambda>i. conv (take sz (drop (i * sz) bs))) [0..<nat num_vals], b))"

definition opal_dss_unpack_null :: "opal_buffer \<Rightarrow> int \<Rightarrow> byte unpacked" where
  "opal_dss_unpack_null buffer num_vals = unpack_words 1 hd buffer num_vals"

definition opal_dss_unpack_byte :: "opal_buffer \<Rightarrow> int \<Rightarrow> byte unpacked" where
  "opal_dss_unpack_byte buffer num_vals = unpack_words 1 hd buffer num_vals"

definition opal_dss_unpack_int16 :: "opal_buffer \<Rightarrow> int \<Rightarrow> 16 word unpacked" where
  "opal_dss_unpack_int16 buffer num_vals = unpack_words 2 ntoh buffer num_vals"

definition opal_dss_unpack_int32 :: "opal_buffer \<Rightarrow> int \<Rightarrow> 32 word unpacked" where
  "opal_dss_unpack_int32 buffer num_vals = unpack_words 4 ntoh buffer num_vals"

definition opal_dss_unpack_int64 :: "opal_buffer \<Rightarrow> int \<Rightarrow> 64 word unpacked" where
  "opal_dss_unpack_int64 buffer num_vals = unpack_words 8 ntoh buffer num_vals"

definition unpack_string1 :: "dss_params \<Rightarrow> opal_buffer \<Rightarrow> byte list option unpacked" where
  "unpack_string1 cfg buffer =
     obind (opal_dss_unpack_int32 buffer 1) (\<lambda>(rc, lens, b).
       if rc \<noteq> OPAL_SUCCESS then Ret (rc, [], b)
       else
         (let len = sint (hd lens) in
          if len = 0 then Ret (OPAL_SUCCESS, [None], b)
          else if \<not> dss_alloc cfg (size_of_int len) then Ret (OPAL_ERR_OUT_OF_RESOURCE, [], b)
          else obind (opal_dss_unpack_byte b len) (\<lambda>(rc', bs, b').
                 if rc' \<noteq> OPAL_SUCCESS then Ret (rc', [], b') else Ret (OPAL_SUCCESS, [Some bs], b'))))"

definition opal_dss_unpack_string :: "dss_params \<Rightarrow> opal_buffer \<Rightarrow> int \<Rightarrow> byte list option unpacked" where
  "opal_dss_unpack_string cfg buffer num_vals = unpack_each (unpack_string1 cfg) buffer (nat num_vals)"

text \<open>The string that a block holds, for code that reads it.\<close>

definition block_string :: "byte list \<Rightarrow> string option" where
  "block_string blk =
     (if 0 \<in> set blk then Some (map (\<lambda>c. char_of (unat c)) (takeWhile (\<lambda>c. c \<noteq> 0) blk)) else None)"

definition unpack_number1 :: "(string \<Rightarrow> rat) \<Rightarrow> dss_params \<Rightarrow> opal_buffer \<Rightarrow> rat unpacked" where
  "unpack_number1 strto cfg buffer =
     obind (opal_dss_unpack_string cfg buffer 1) (\<lambda>(rc, strs, b).
       if rc \<noteq> OPAL_SUCCESS then Ret (rc, [], b)
       else
         (case hd strs of
            None \<Rightarrow> Ret (OPAL_ERR_UNPACK_FAILURE, [], b)
          | Some blk \<Rightarrow>
              (case block_string blk of
                 None \<Rightarrow> Undef
               | Some s \<Rightarrow> Ret (OPAL_SUCCESS, [strto s], b))))"

definition opal_dss_unpack_float :: "dss_params \<Rightarrow> opal_buffer \<Rightarrow> int \<Rightarrow> rat unpacked" where
  "opal_dss_unpack_float cfg buffer num_vals =
     (if opal_dss_too_small buffer (size_t (size_of_int num_vals * 4))
      then Ret (OPAL_ERR_UNPACK_READ_PAST_END_OF_BUFFER, [], buffer)
      else unpack_each (unpack_number1 strtof cfg) buffer (nat num_vals))"

definition opal_dss_unpack_double :: "dss_params \<Rightarrow> opal_buffer \<Rightarrow> int \<Rightarrow> rat unpacked" where
  "opal_dss_unpack_double cfg buffer num_vals =
     (if opal_dss_too_small buffer (size_t (size_of_int num_vals * 8))
      then Ret (OPAL_ERR_UNPACK_READ_PAST_END_OF_BUFFER, [], buffer)
      else unpack_each (unpack_number1 strtod cfg) buffer (nat num_vals))"

definition unpack_timeval1 :: "opal_buffer \<Rightarrow> (64 word \<times> 64 word) unpacked" where
  "unpack_timeval1 buffer =
     obind (opal_dss_unpack_int64 buffer 2) (\<lambda>(rc, tmp, b).
       if rc \<noteq> OPAL_SUCCESS then Ret (rc, [], b) else Ret (OPAL_SUCCESS, [(tmp ! 0, tmp ! 1)], b))"

definition opal_dss_unpack_timeval :: "opal_buffer \<Rightarrow> int \<Rightarrow> (64 word \<times> 64 word) unpacked" where
  "opal_dss_unpack_timeval buffer num_vals =
     (if opal_dss_too_small buffer (size_t (size_of_int num_vals * 16))
      then Ret (OPAL_ERR_UNPACK_READ_PAST_END_OF_BUFFER, [], buffer)
      else unpack_each unpack_timeval1 buffer (nat num_vals))"

definition opal_dss_unpack_time :: "opal_buffer \<Rightarrow> int \<Rightarrow> 64 word unpacked" where
  "opal_dss_unpack_time buffer num_vals =
     (if opal_dss_too_small buffer (size_t (size_of_int num_vals * 8))
      then Ret (OPAL_ERR_UNPACK_READ_PAST_END_OF_BUFFER, [], buffer)
      else unpack_each (\<lambda>b. opal_dss_unpack_int64 b 1) buffer (nat num_vals))"

definition unpack_object_bytes :: "dss_params \<Rightarrow> opal_buffer \<Rightarrow> byte list unpacked" where
  "unpack_object_bytes cfg buffer =
     obind (opal_dss_unpack_int32 buffer 1) (\<lambda>(rc, sizes, b).
       if rc \<noteq> OPAL_SUCCESS then Ret (rc, [], b)
       else
         (let sz = sint (hd sizes) in
          if 0 < sz then
            (if \<not> dss_alloc cfg (nat sz) then Ret (OPAL_ERR_OUT_OF_RESOURCE, [], b)
             else obind (opal_dss_unpack_byte b sz) (\<lambda>(rc', bs, b').
                    if rc' \<noteq> OPAL_SUCCESS then Ret (rc', [], b') else Ret (OPAL_SUCCESS, [bs], b')))
          else Ret (OPAL_SUCCESS, [[]], b)))"

definition opal_dss_unpack_byte_object :: "dss_params \<Rightarrow> opal_buffer \<Rightarrow> int \<Rightarrow> byte list unpacked" where
  "opal_dss_unpack_byte_object cfg buffer num =
     unpack_each
       (\<lambda>b. if \<not> dss_alloc cfg 16 then Ret (OPAL_ERR_OUT_OF_RESOURCE, [], b) else unpack_object_bytes cfg b)
       buffer (nat num)"

section \<open>Types\<close>

type_synonym 'd unpacked_data = "(status \<times> 'd \<times> opal_buffer) outcome"

definition unpacked_as :: "('a list \<Rightarrow> 'd) \<Rightarrow> 'a unpacked \<Rightarrow> 'd unpacked_data" where
  "unpacked_as c m = obind m (\<lambda>(rc, xs, b). Ret (rc, c xs, b))"

definition unpack_leaf :: "dss_fn \<Rightarrow> dss_params \<Rightarrow> opal_buffer \<Rightarrow> int \<Rightarrow> dss_data unpacked_data" where
  "unpack_leaf fn cfg b num_vals =
     (case fn of
        F_null \<Rightarrow> unpacked_as D8 (opal_dss_unpack_null b num_vals)
      | F_byte \<Rightarrow> unpacked_as D8 (opal_dss_unpack_byte b num_vals)
      | F_int16 \<Rightarrow> unpacked_as D16 (opal_dss_unpack_int16 b num_vals)
      | F_int32 \<Rightarrow> unpacked_as D32 (opal_dss_unpack_int32 b num_vals)
      | F_int64 \<Rightarrow> unpacked_as D64 (opal_dss_unpack_int64 b num_vals)
      | F_string \<Rightarrow> unpacked_as DStr (opal_dss_unpack_string cfg b num_vals)
      | F_float \<Rightarrow> unpacked_as DFloat (opal_dss_unpack_float cfg b num_vals)
      | F_double \<Rightarrow> unpacked_as DDouble (opal_dss_unpack_double cfg b num_vals)
      | F_timeval \<Rightarrow> unpacked_as DTimeval (opal_dss_unpack_timeval b num_vals)
      | F_time \<Rightarrow> unpacked_as D64 (opal_dss_unpack_time b num_vals)
      | F_byte_object \<Rightarrow> unpacked_as DBo (opal_dss_unpack_byte_object cfg b num_vals)
      | _ \<Rightarrow> Undef)"

definition opal_dss_get_data_type :: "opal_buffer \<Rightarrow> byte unpacked" where
  "opal_dss_get_data_type buffer =
     (case opal_dss_types OPAL_DATA_TYPE_T of
        None \<Rightarrow> Ret (OPAL_ERR_PACK_FAILURE, [], buffer)
      | Some F_byte \<Rightarrow> opal_dss_unpack_byte buffer 1
      | _ \<Rightarrow> Undef)"

definition opal_dss_peek_type :: "opal_buffer \<Rightarrow> (status \<times> byte) outcome" where
  "opal_dss_peek_type buffer =
     (if \<not> ob_desc buffer then Ret (OPAL_ERR_UNKNOWN_DATA_TYPE, OPAL_UNDEF)
      else if length (ob_bytes buffer) \<le> ob_unpack buffer
      then Ret (OPAL_ERR_UNPACK_READ_PAST_END_OF_BUFFER, OPAL_UNDEF)
      else obind (opal_dss_get_data_type buffer) (\<lambda>(rc, ts, _).
             if rc \<noteq> OPAL_SUCCESS then Ret (rc, OPAL_UNDEF) else Ret (OPAL_SUCCESS, hd ts)))"

definition opal_dss_peek :: "opal_buffer \<Rightarrow> (status \<times> byte \<times> int) outcome" where
  "opal_dss_peek buffer =
     (if length (ob_bytes buffer) \<le> ob_unpack buffer
      then Ret (OPAL_ERR_UNPACK_READ_PAST_END_OF_BUFFER, OPAL_NULL, 0)
      else if \<not> ob_desc buffer then Ret (OPAL_ERR_UNKNOWN_DATA_TYPE, OPAL_UNDEF, 0)
      else
        obind (opal_dss_get_data_type buffer) (\<lambda>(rc, ts, b1).
          if rc \<noteq> OPAL_SUCCESS then Ret (rc, OPAL_NULL, 0)
          else if hd ts \<noteq> OPAL_INT32 then Ret (OPAL_ERR_UNPACK_FAILURE, OPAL_NULL, 0)
          else
            obind (opal_dss_unpack_int32 b1 1) (\<lambda>(rc', ns, b2).
              if rc' \<noteq> OPAL_SUCCESS then Ret (rc', OPAL_NULL, 0)
              else
                obind (opal_dss_get_data_type b2) (\<lambda>(rc'', us, _).
                  if rc'' \<noteq> OPAL_SUCCESS then Ret (rc'', OPAL_NULL, 0)
                  else Ret (OPAL_SUCCESS, hd us, sint (hd ns))))))"

definition unpack_buffer_by ::
  "(dss_fn \<Rightarrow> dss_params \<Rightarrow> opal_buffer \<Rightarrow> int \<Rightarrow> 'd unpacked_data) \<Rightarrow> 'd \<Rightarrow>
     dss_params \<Rightarrow> opal_buffer \<Rightarrow> int \<Rightarrow> byte \<Rightarrow> 'd unpacked_data" where
  "unpack_buffer_by unpack_fn nothing cfg buffer num_vals type =
     obind
       (if ob_desc buffer then
          obind (opal_dss_get_data_type buffer) (\<lambda>(rc, ts, b).
            if rc \<noteq> OPAL_SUCCESS then Ret (rc, b)
            else if type \<noteq> hd ts then Ret (OPAL_ERR_PACK_MISMATCH, b)
            else Ret (OPAL_SUCCESS, b))
        else Ret (OPAL_SUCCESS, buffer))
       (\<lambda>(rc, b).
         if rc \<noteq> OPAL_SUCCESS then Ret (rc, nothing, b)
         else
           (case opal_dss_types type of
              None \<Rightarrow> Ret (OPAL_ERR_UNPACK_FAILURE, nothing, b)
            | Some fn \<Rightarrow> unpack_fn fn cfg b num_vals))"

abbreviation unpack_leaf_buffer :: "dss_params \<Rightarrow> opal_buffer \<Rightarrow> int \<Rightarrow> byte \<Rightarrow> dss_data unpacked_data" where
  "unpack_leaf_buffer \<equiv> unpack_buffer_by unpack_leaf (D8 [])"

text \<open>
  System types.  The type that was really packed decides: either it is the local one, or it is
  another integer type, from which the values are converted (\<^verbatim>\<open>UNPACK_SIZE_MISMATCH\<close>).
\<close>

definition remote_ints :: "byte \<Rightarrow> dss_data \<Rightarrow> int list" where
  "remote_ints remote_type d =
     (let signed = remote_type \<in> {OPAL_INT8, OPAL_INT16, OPAL_INT32, OPAL_INT64} in
      case d of
        D8 xs \<Rightarrow> map (if signed then sint else uint) xs
      | D16 xs \<Rightarrow> map (if signed then sint else uint) xs
      | D32 xs \<Rightarrow> map (if signed then sint else uint) xs
      | D64 xs \<Rightarrow> map (if signed then sint else uint) xs
      | _ \<Rightarrow> [])"

definition integer_type :: "byte \<Rightarrow> bool" where
  "integer_type t \<longleftrightarrow> t \<in> set [OPAL_UINT8, OPAL_INT8, OPAL_UINT16, OPAL_INT16, OPAL_UINT32, OPAL_INT32,
     OPAL_UINT64, OPAL_INT64]"

definition integer_size :: "byte \<Rightarrow> nat" where
  "integer_size t =
     (if t \<in> {OPAL_UINT8, OPAL_INT8} then 1 else if t \<in> {OPAL_UINT16, OPAL_INT16} then 2
      else if t \<in> {OPAL_UINT32, OPAL_INT32} then 4 else 8)"

definition unpack_system ::
  "byte \<Rightarrow> (int list \<Rightarrow> dss_data) \<Rightarrow> dss_params \<Rightarrow> opal_buffer \<Rightarrow> int \<Rightarrow> dss_data unpacked_data" where
  "unpack_system rtype cast cfg buffer num_vals =
     obind
       (if ob_desc buffer then obind (opal_dss_peek_type buffer) (\<lambda>(rc, t). Ret (rc, t, buffer))
        else obind (opal_dss_get_data_type buffer) (\<lambda>(rc, ts, b). Ret (rc, hd ts, b)))
       (\<lambda>(rc, remote_type, b).
         if rc \<noteq> OPAL_SUCCESS then Ret (rc, D8 [], b)
         else if remote_type = rtype then unpack_leaf_buffer cfg b num_vals rtype
         else if integer_type remote_type then
           (if 0 < num_vals \<and> \<not> dss_alloc cfg (nat num_vals * integer_size remote_type) then Undef
            else obind (unpack_leaf_buffer cfg b num_vals remote_type)
                   (\<lambda>(rc', d, b'). Ret (rc', cast (remote_ints remote_type d), b')))
         else Ret (OPAL_ERR_NOT_FOUND, D8 [], b))"

definition opal_dss_unpack_bool :: "dss_params \<Rightarrow> opal_buffer \<Rightarrow> int \<Rightarrow> dss_data unpacked_data" where
  "opal_dss_unpack_bool = unpack_system DSS_TYPE_BOOL (\<lambda>is. D8 (map (\<lambda>i. if i \<noteq> 0 then 1 else 0) is))"

definition opal_dss_unpack_int :: "dss_params \<Rightarrow> opal_buffer \<Rightarrow> int \<Rightarrow> dss_data unpacked_data" where
  "opal_dss_unpack_int = unpack_system DSS_TYPE_INT (\<lambda>is. D32 (map of_int is))"

definition opal_dss_unpack_sizet :: "dss_params \<Rightarrow> opal_buffer \<Rightarrow> int \<Rightarrow> dss_data unpacked_data" where
  "opal_dss_unpack_sizet = unpack_system DSS_TYPE_SIZE_T (\<lambda>is. D64 (map of_int is))"

definition opal_dss_unpack_pid :: "dss_params \<Rightarrow> opal_buffer \<Rightarrow> int \<Rightarrow> dss_data unpacked_data" where
  "opal_dss_unpack_pid = unpack_system DSS_TYPE_PID_T (\<lambda>is. D32 (map of_int is))"

definition opal_dss_unpack_data_type :: "dss_params \<Rightarrow> opal_buffer \<Rightarrow> int \<Rightarrow> dss_data unpacked_data" where
  "opal_dss_unpack_data_type cfg buffer num_vals = unpack_leaf_buffer cfg buffer num_vals OPAL_DATA_TYPE_T"

definition opal_dss_unpack_jobid :: "dss_params \<Rightarrow> opal_buffer \<Rightarrow> int \<Rightarrow> dss_data unpacked_data" where
  "opal_dss_unpack_jobid cfg buffer num_vals = unpack_leaf_buffer cfg buffer num_vals OPAL_JOBID_T"

definition opal_dss_unpack_vpid :: "dss_params \<Rightarrow> opal_buffer \<Rightarrow> int \<Rightarrow> dss_data unpacked_data" where
  "opal_dss_unpack_vpid cfg buffer num_vals = unpack_leaf_buffer cfg buffer num_vals OPAL_VPID_T"

definition words_32 :: "dss_data \<Rightarrow> 32 word list" where
  "words_32 d = (case d of D32 ws \<Rightarrow> ws | _ \<Rightarrow> [])"

definition opal_dss_unpack_name :: "dss_params \<Rightarrow> opal_buffer \<Rightarrow> int \<Rightarrow> dss_data unpacked_data" where
  "opal_dss_unpack_name cfg buffer num =
     (if \<not> dss_alloc cfg (size_t (size_of_int num * 4)) then Ret (OPAL_ERR_OUT_OF_RESOURCE, DName [], buffer)
      else
        obind (opal_dss_unpack_jobid cfg buffer num) (\<lambda>(rc, js, b).
          if rc \<noteq> OPAL_SUCCESS then Ret (rc, DName [], b)
          else if \<not> dss_alloc cfg (size_t (size_of_int num * 4))
          then Ret (OPAL_ERR_OUT_OF_RESOURCE, DName [], b)
          else
            obind (opal_dss_unpack_vpid cfg b num) (\<lambda>(rc', vs, b').
              if rc' \<noteq> OPAL_SUCCESS then Ret (rc', DName [], b')
              else Ret (OPAL_SUCCESS, DName (zip (words_32 js) (words_32 vs)), b'))))"

definition unpack_mid :: "dss_fn \<Rightarrow> dss_params \<Rightarrow> opal_buffer \<Rightarrow> int \<Rightarrow> dss_data unpacked_data" where
  "unpack_mid fn cfg b num_vals =
     (case fn of
        F_bool \<Rightarrow> opal_dss_unpack_bool cfg b num_vals
      | F_int \<Rightarrow> opal_dss_unpack_int cfg b num_vals
      | F_sizet \<Rightarrow> opal_dss_unpack_sizet cfg b num_vals
      | F_pid \<Rightarrow> opal_dss_unpack_pid cfg b num_vals
      | F_data_type \<Rightarrow> opal_dss_unpack_data_type cfg b num_vals
      | F_jobid \<Rightarrow> opal_dss_unpack_jobid cfg b num_vals
      | F_vpid \<Rightarrow> opal_dss_unpack_vpid cfg b num_vals
      | F_name \<Rightarrow> opal_dss_unpack_name cfg b num_vals
      | _ \<Rightarrow> unpack_leaf fn cfg b num_vals)"

abbreviation unpack_mid_buffer :: "dss_params \<Rightarrow> opal_buffer \<Rightarrow> int \<Rightarrow> byte \<Rightarrow> dss_data unpacked_data" where
  "unpack_mid_buffer \<equiv> unpack_buffer_by unpack_mid (D8 [])"

section \<open>Values\<close>

definition unpack_value_array :: "dss_params \<Rightarrow> opal_buffer \<Rightarrow> byte \<Rightarrow> dss_data unpacked_data" where
  "unpack_value_array cfg buffer elem =
     obind (unpack_mid_buffer cfg buffer 1 OPAL_INT32) (\<lambda>(rc, sz, b).
       if rc \<noteq> OPAL_SUCCESS then Ret (rc, sz, b)
       else
         obind (unpack_mid_buffer cfg b (sint (hd (words_32 sz))) elem) (\<lambda>(rc', d, b').
           if 0 < data_length d then Undef else Ret (rc', d, b')))"

definition unpack_value_field :: "dss_params \<Rightarrow> opal_buffer \<Rightarrow> byte \<Rightarrow> dss_data unpacked_data" where
  "unpack_value_field cfg buffer t =
     (if value_scalar t then unpack_mid_buffer cfg buffer 1 t
      else if t = OPAL_BYTE_OBJECT then unpacked_as DBo (unpack_object_bytes cfg buffer)
      else
        (case value_elem t of
           None \<Rightarrow> Ret (OPAL_ERROR, D8 [], buffer)
         | Some e \<Rightarrow> unpack_value_array cfg buffer e))"

definition bytes_of :: "dss_data \<Rightarrow> byte list" where
  "bytes_of d = (case d of D8 bs \<Rightarrow> bs | _ \<Rightarrow> [])"

definition unpack_value1 :: "dss_params \<Rightarrow> opal_buffer \<Rightarrow> opal_value unpacked" where
  "unpack_value1 cfg buffer =
     (if \<not> dss_alloc cfg 128 then Ret (OPAL_ERR_OUT_OF_RESOURCE, [], buffer)
      else
        obind (opal_dss_unpack_string cfg buffer 1) (\<lambda>(rc, keys, b1).
          if rc \<noteq> OPAL_SUCCESS then Ret (rc, [], b1)
          else
            obind (opal_dss_unpack_data_type cfg b1 1) (\<lambda>(rc', ts, b2).
              if rc' \<noteq> OPAL_SUCCESS then Ret (rc', [], b2)
              else
                (let t = hd (bytes_of ts) in
                 obind (unpack_value_field cfg b2 t) (\<lambda>(rc'', d, b3).
                   if rc'' \<noteq> OPAL_SUCCESS then Ret (rc'', [], b3)
                   else Ret (OPAL_SUCCESS, [\<lparr>ov_key = hd keys, ov_type = t, ov_data = d\<rparr>], b3))))))"

definition opal_dss_unpack_value :: "dss_params \<Rightarrow> opal_buffer \<Rightarrow> int \<Rightarrow> opal_value unpacked" where
  "opal_dss_unpack_value cfg buffer num_vals = unpack_each (unpack_value1 cfg) buffer (nat num_vals)"

section \<open>Statistics\<close>

text \<open>
  A field of a statistics object: unpacked with its type, as a raw float, or as a string that is
  then copied into an array of 32 bytes.
\<close>

datatype field_kind = Tagged byte | Raw_float | Fixed_string

definition OPAL_PSTAT_MAX_STRING_LEN :: nat where
  "OPAL_PSTAT_MAX_STRING_LEN = 32"

definition fixed_string :: "dss_data \<Rightarrow> byte list option" where
  "fixed_string d =
     (case d of
        DStr [Some blk] \<Rightarrow>
          (let s = takeWhile (\<lambda>c. c \<noteq> 0) blk in
           if 0 \<in> set blk \<and> length s \<le> OPAL_PSTAT_MAX_STRING_LEN
           then Some (s @ replicate (OPAL_PSTAT_MAX_STRING_LEN - length s) 0) else None)
      | _ \<Rightarrow> None)"

definition unpack_field :: "dss_params \<Rightarrow> opal_buffer \<Rightarrow> field_kind \<Rightarrow> dss_data unpacked_data" where
  "unpack_field cfg buffer k =
     (case k of
        Tagged t \<Rightarrow> unpack_mid_buffer cfg buffer 1 t
      | Raw_float \<Rightarrow> unpack_leaf F_float cfg buffer 1
      | Fixed_string \<Rightarrow>
          obind (unpack_mid_buffer cfg buffer 1 OPAL_STRING) (\<lambda>(rc, d, b).
            if rc \<noteq> OPAL_SUCCESS then Ret (rc, d, b)
            else
              (case fixed_string d of
                 None \<Rightarrow> Undef
               | Some s \<Rightarrow> Ret (OPAL_SUCCESS, D8 s, b))))"

fun unpack_fields :: "dss_params \<Rightarrow> opal_buffer \<Rightarrow> field_kind list \<Rightarrow> dss_data unpacked" where
  "unpack_fields cfg buffer [] = Ret (OPAL_SUCCESS, [], buffer)"
| "unpack_fields cfg buffer (k # ks) =
     obind (unpack_field cfg buffer k) (\<lambda>(rc, d, b).
       if rc \<noteq> OPAL_SUCCESS then Ret (rc, [], b)
       else obind (unpack_fields cfg b ks) (\<lambda>(rc', ds, b'). Ret (rc', d # ds, b')))"

definition word16_of :: "dss_data \<Rightarrow> 16 word" where
  "word16_of d = (case d of D16 (w # _) \<Rightarrow> w | _ \<Rightarrow> 0)"

definition word32_of :: "dss_data \<Rightarrow> 32 word" where
  "word32_of d = (case d of D32 (w # _) \<Rightarrow> w | _ \<Rightarrow> 0)"

definition word64_of :: "dss_data \<Rightarrow> 64 word" where
  "word64_of d = (case d of D64 (w # _) \<Rightarrow> w | _ \<Rightarrow> 0)"

definition float_of_data :: "dss_data \<Rightarrow> rat" where
  "float_of_data d = (case d of DFloat (x # _) \<Rightarrow> x | _ \<Rightarrow> 0)"

definition timeval_of :: "dss_data \<Rightarrow> 64 word \<times> 64 word" where
  "timeval_of d = (case d of DTimeval (x # _) \<Rightarrow> x | _ \<Rightarrow> (0, 0))"

definition string_of_data :: "dss_data \<Rightarrow> byte list option" where
  "string_of_data d = (case d of DStr (x # _) \<Rightarrow> x | _ \<Rightarrow> None)"

definition pstat_kinds :: "field_kind list" where
  "pstat_kinds =
     [Fixed_string, Tagged OPAL_INT32, Tagged OPAL_PID, Fixed_string, Tagged OPAL_BYTE,
      Tagged OPAL_TIMEVAL, Tagged OPAL_INT32, Tagged OPAL_INT16, Raw_float, Raw_float, Raw_float,
      Tagged OPAL_INT16, Tagged OPAL_TIMEVAL]"

text \<open>\<^verbatim>\<open>percent_cpu\<close> keeps the value of the constructor.\<close>

definition pstat_of :: "dss_data list \<Rightarrow> opal_pstats" where
  "pstat_of ds =
     \<lparr>ps_node = bytes_of (ds ! 0), ps_rank = word32_of (ds ! 1), ps_pid = word32_of (ds ! 2),
      ps_cmd = bytes_of (ds ! 3), ps_state = hd (bytes_of (ds ! 4)), ps_time = timeval_of (ds ! 5),
      ps_percent_cpu = 0, ps_priority = word32_of (ds ! 6), ps_num_threads = word16_of (ds ! 7),
      ps_vsize = float_of_data (ds ! 8), ps_rss = float_of_data (ds ! 9),
      ps_peak_vsize = float_of_data (ds ! 10), ps_processor = word16_of (ds ! 11),
      ps_sample_time = timeval_of (ds ! 12)\<rparr>"

definition unpack_pstat1 :: "dss_params \<Rightarrow> opal_buffer \<Rightarrow> opal_pstats unpacked" where
  "unpack_pstat1 cfg buffer =
     (if \<not> dss_alloc cfg 256 then Ret (OPAL_ERR_OUT_OF_RESOURCE, [], buffer)
      else obind (unpack_fields cfg buffer pstat_kinds) (\<lambda>(rc, ds, b).
             if rc \<noteq> OPAL_SUCCESS then Ret (rc, [], b) else Ret (OPAL_SUCCESS, [pstat_of ds], b)))"

definition opal_dss_unpack_pstat :: "dss_params \<Rightarrow> opal_buffer \<Rightarrow> int \<Rightarrow> opal_pstats unpacked" where
  "opal_dss_unpack_pstat cfg buffer num_vals = unpack_each (unpack_pstat1 cfg) buffer (nat num_vals)"

definition disk_stat_of :: "byte list option \<Rightarrow> 64 word list \<Rightarrow> opal_diskstats" where
  "disk_stat_of name cs =
     \<lparr>dk_disk = name, dk_num_reads_completed = cs ! 0, dk_num_reads_merged = cs ! 1,
      dk_num_sectors_read = cs ! 2, dk_milliseconds_reading = cs ! 3,
      dk_num_writes_completed = cs ! 4, dk_num_writes_merged = cs ! 5,
      dk_num_sectors_written = cs ! 6, dk_milliseconds_writing = cs ! 7,
      dk_num_ios_in_progress = cs ! 8, dk_milliseconds_io = cs ! 9,
      dk_weighted_milliseconds_io = cs ! 10\<rparr>"

definition net_stat_of :: "byte list option \<Rightarrow> 64 word list \<Rightarrow> opal_netstats" where
  "net_stat_of name cs =
     \<lparr>ns_net_interface = name, ns_num_bytes_recvd = cs ! 0, ns_num_packets_recvd = cs ! 1,
      ns_num_recv_errs = cs ! 2, ns_num_bytes_sent = cs ! 3,
      ns_num_packets_sent = cs ! 4, ns_num_send_errs = cs ! 5\<rparr>"

definition node_stat_of ::
  "rat list \<Rightarrow> 64 word \<times> 64 word \<Rightarrow> opal_diskstats list \<Rightarrow> opal_netstats list \<Rightarrow> opal_node_stats" where
  "node_stat_of xs st dks nts =
     \<lparr>nd_la = xs ! 0, nd_la5 = xs ! 1, nd_la15 = xs ! 2, nd_total_mem = xs ! 3,
      nd_free_mem = xs ! 4, nd_buffers = xs ! 5, nd_cached = xs ! 6,
      nd_swap_cached = xs ! 7, nd_swap_total = xs ! 8, nd_swap_free = xs ! 9,
      nd_mapped = xs ! 10, nd_sample_time = st, nd_diskstats = dks, nd_netstats = nts\<rparr>"

definition unpack_counters ::
  "nat \<Rightarrow> (byte list option \<Rightarrow> 64 word list \<Rightarrow> 'a) \<Rightarrow> dss_params \<Rightarrow> opal_buffer \<Rightarrow> 'a unpacked" where
  "unpack_counters n build cfg buffer =
     obind (unpack_fields cfg buffer (Tagged OPAL_STRING # replicate n (Tagged OPAL_UINT64)))
       (\<lambda>(rc, ds, b).
         if rc \<noteq> OPAL_SUCCESS then Ret (rc, [], b)
         else Ret (OPAL_SUCCESS, [build (string_of_data (hd ds)) (map word64_of (tl ds))], b))"

definition unpack_counted :: "(opal_buffer \<Rightarrow> 'a unpacked) \<Rightarrow> dss_params \<Rightarrow> opal_buffer \<Rightarrow> 'a unpacked" where
  "unpack_counted f cfg buffer =
     obind (unpack_field cfg buffer (Tagged OPAL_INT32)) (\<lambda>(rc, n, b).
       if rc \<noteq> OPAL_SUCCESS then Ret (rc, [], b) else unpack_each f b (nat (sint (word32_of n))))"

definition unpack_disk_stats :: "dss_params \<Rightarrow> opal_buffer \<Rightarrow> opal_diskstats unpacked" where
  "unpack_disk_stats cfg = unpack_counted (unpack_counters 11 disk_stat_of cfg) cfg"

definition unpack_net_stats :: "dss_params \<Rightarrow> opal_buffer \<Rightarrow> opal_netstats unpacked" where
  "unpack_net_stats cfg = unpack_counted (unpack_counters 6 net_stat_of cfg) cfg"

definition unpack_node_stat1 :: "dss_params \<Rightarrow> opal_buffer \<Rightarrow> opal_node_stats unpacked" where
  "unpack_node_stat1 cfg buffer =
     (if \<not> dss_alloc cfg 256 then Ret (OPAL_ERR_OUT_OF_RESOURCE, [], buffer)
      else
        obind (unpack_fields cfg buffer (replicate 11 Raw_float @ [Tagged OPAL_TIMEVAL])) (\<lambda>(rc, ds, b1).
          if rc \<noteq> OPAL_SUCCESS then Ret (rc, [], b1)
          else
            obind (unpack_disk_stats cfg b1) (\<lambda>(rc1, dks, b2).
              if rc1 \<noteq> OPAL_SUCCESS then Ret (rc1, [], b2)
              else
                obind (unpack_net_stats cfg b2) (\<lambda>(rc2, nts, b3).
                  if rc2 \<noteq> OPAL_SUCCESS then Ret (rc2, [], b3)
                  else Ret (OPAL_SUCCESS,
                         [node_stat_of (map float_of_data (take 11 ds)) (timeval_of (ds ! 11)) dks nts], b3)))))"

definition opal_dss_unpack_node_stat :: "dss_params \<Rightarrow> opal_buffer \<Rightarrow> int \<Rightarrow> opal_node_stats unpacked" where
  "opal_dss_unpack_node_stat cfg buffer num_vals =
     unpack_each (unpack_node_stat1 cfg) buffer (nat num_vals)"

section \<open>Buffers and the entry point\<close>

text \<open>
  The type of the new buffer is the default one, not that of the buffer that was packed.
\<close>

definition unpack_contents1 :: "dss_params \<Rightarrow> opal_buffer \<Rightarrow> opal_buffer unpacked" where
  "unpack_contents1 cfg buffer =
     (if \<not> dss_alloc cfg 64 then Ret (OPAL_ERR_OUT_OF_RESOURCE, [], buffer)
      else
        obind (opal_dss_unpack_sizet cfg buffer 1) (\<lambda>(rc, sz, b).
          if rc \<noteq> OPAL_SUCCESS then Ret (rc, [], b)
          else
            (let nbytes = unat (word64_of sz); m = c_int nbytes;
                 new = opal_buffer_construct (default_buf_type cfg)
             in if nbytes = 0 then Ret (OPAL_SUCCESS, [new], b)
                else
                  obind (opal_dss_unpack_byte b m) (\<lambda>(rc', bs, b').
                    if rc' \<noteq> OPAL_SUCCESS then Ret (rc', [], b')
                    else if \<not> dss_alloc cfg nbytes then Undef
                    else Ret (OPAL_SUCCESS,
                           [new\<lparr>ob_base := True, ob_pack := True, ob_bytes := bs, ob_allocated := nbytes\<rparr>],
                           b')))))"

definition opal_dss_unpack_buffer_contents :: "dss_params \<Rightarrow> opal_buffer \<Rightarrow> int \<Rightarrow> opal_buffer unpacked" where
  "opal_dss_unpack_buffer_contents cfg buffer num_vals =
     unpack_each (unpack_contents1 cfg) buffer (nat num_vals)"

definition unpack_top :: "dss_fn \<Rightarrow> dss_params \<Rightarrow> opal_buffer \<Rightarrow> int \<Rightarrow> dss_src unpacked_data" where
  "unpack_top fn cfg b num_vals =
     (case fn of
        F_value \<Rightarrow> unpacked_as Values (opal_dss_unpack_value cfg b num_vals)
      | F_pstat \<Rightarrow> unpacked_as Pstats (opal_dss_unpack_pstat cfg b num_vals)
      | F_node_stat \<Rightarrow> unpacked_as Node_stats (opal_dss_unpack_node_stat cfg b num_vals)
      | F_buffer_contents \<Rightarrow> unpacked_as Buffers (opal_dss_unpack_buffer_contents cfg b num_vals)
      | _ \<Rightarrow> obind (unpack_mid fn cfg b num_vals) (\<lambda>(rc, d, b'). Ret (rc, Plain d, b')))"

definition opal_dss_unpack_buffer ::
  "dss_params \<Rightarrow> opal_buffer \<Rightarrow> int \<Rightarrow> byte \<Rightarrow> dss_src unpacked_data" where
  "opal_dss_unpack_buffer = unpack_buffer_by unpack_top (Plain (D8 []))"

text \<open>
  \<^verbatim>\<open>opal_dss_unpack\<close>: the status, the new value of \<^verbatim>\<open>*num_vals\<close>, the data, and the buffer.
\<close>

definition dss_count_header :: "opal_buffer \<Rightarrow> 32 word unpacked" where
  "dss_count_header buffer =
     (if ob_desc buffer then
        obind (opal_dss_get_data_type buffer) (\<lambda>(rc, ts, b).
          if rc \<noteq> OPAL_SUCCESS then Ret (rc, [], b)
          else if hd ts \<noteq> OPAL_INT32 then Ret (OPAL_ERR_UNPACK_FAILURE, [], b)
          else opal_dss_unpack_int32 b 1)
      else opal_dss_unpack_int32 buffer 1)"

definition opal_dss_unpack ::
  "dss_params \<Rightarrow> opal_buffer \<Rightarrow> int \<Rightarrow> byte \<Rightarrow> (status \<times> int \<times> dss_src \<times> opal_buffer) outcome" where
  "opal_dss_unpack cfg buffer num_vals type =
     (if num_vals = 0 then Ret (OPAL_ERR_UNPACK_INADEQUATE_SPACE, 0, Plain (D8 []), buffer)
      else
        obind (dss_count_header buffer) (\<lambda>(rc, ns, b).
          if rc \<noteq> OPAL_SUCCESS then Ret (rc, 0, Plain (D8 []), b)
          else
            (let local_num = sint (hd ns);
                 (count, num', ret) =
                   (if num_vals < local_num then (num_vals, num_vals, OPAL_ERR_UNPACK_INADEQUATE_SPACE)
                    else (local_num, local_num, OPAL_SUCCESS))
             in obind (opal_dss_unpack_buffer cfg b count type) (\<lambda>(rc', d, b').
                  if rc' \<noteq> OPAL_SUCCESS then Ret (rc', 0, d, b') else Ret (ret, num', d, b')))))"

end
