(* ===== verification/Dss_Round_Trip.thy ===== *)
theory Dss_Round_Trip
  imports Dss_Unpack
begin

text \<open>
  Unpacking inverts packing.  For each stratum, \<open>bytes\<close> functions say what is written; packing appends
  exactly these bytes, and unpacking in front of them returns the data and moves behind them.  The
  locales state this contract once, for a dispatch function and for an entry point; the strata are
  interpretations of the first, and sequences of packed items are handled in the second.
\<close>

section \<open>Packing appends\<close>

definition packs :: "(status \<times> opal_buffer) outcome \<Rightarrow> opal_buffer \<Rightarrow> byte list \<Rightarrow> bool" where
  "packs m b bs \<longleftrightarrow> (\<exists>b'. m = Ret (OPAL_SUCCESS, b') \<and> appended b bs b')"

lemma packs_store:
  "dss_ok cfg \<Longrightarrow> buf_ok b \<Longrightarrow> bs \<noteq> [] \<or> ob_base b \<Longrightarrow> packs (dss_store cfg b bs) b bs"
  using store_ok by (simp add: packs_def)

lemma packs_refl: "buf_ok b \<Longrightarrow> packs (Ret (OPAL_SUCCESS, b)) b []"
  by (simp add: packs_def appended_refl)

lemma packs_and_then:
  assumes "packs m b xs" "\<And>b'. appended b xs b' \<Longrightarrow> packs (f b') b' ys"
  shows "packs (and_then m f) b (xs @ ys)"
proof -
  obtain b' where b': "m = Ret (OPAL_SUCCESS, b')" "appended b xs b'"
    using assms(1) by (auto simp: packs_def)
  obtain b'' where "f b' = Ret (OPAL_SUCCESS, b'')" "appended b' ys b''"
    using assms(2) [OF b'(2)] by (auto simp: packs_def)
  then show ?thesis
    using b' appended_trans by (auto simp: packs_def and_then_def)
qed

lemma packs_each:
  assumes "buf_ok b" "ob_base b"
    "\<And>x b. x \<in> set xs \<Longrightarrow> buf_ok b \<Longrightarrow> ob_base b \<Longrightarrow> ob_desc b = d \<Longrightarrow> packs (f b x) b (g x)" "ob_desc b = d"
  shows "packs (pack_each f b xs) b (concat (map g xs))"
  using assms
proof (induction xs arbitrary: b)
  case Nil
  then show ?case
    by (simp add: packs_refl)
next
  case (Cons x xs)
  have "packs (and_then (f b x) (\<lambda>b. pack_each f b xs)) b (g x @ concat (map g xs))"
  proof (rule packs_and_then)
    show "packs (f b x) b (g x)"
      using Cons.prems by simp
    fix b' assume "appended b (g x) b'"
    then show "packs (pack_each f b' xs) b' (concat (map g xs))"
      using Cons by (intro Cons.IH) (auto simp: appended_def)
  qed
  then show ?case
    by simp
qed

section \<open>Unpacking reads back\<close>

lemma unread_desc_skip: "unread b (xs @ ys) \<Longrightarrow> unread (skip (length xs) b) ys \<and> ob_desc (skip (length xs) b) = ob_desc b"
  by (simp add: unread_skip)

lemma unpack_each_ok:
  assumes "\<And>x b rest. x \<in> set xs \<Longrightarrow> ob_desc b = d \<Longrightarrow> unread b (g x @ rest) \<Longrightarrow>
             h b = Ret (OPAL_SUCCESS, [r x], skip (length (g x)) b)"
    "unread b (concat (map g xs) @ rest)" "ob_desc b = d"
  shows "unpack_each h b (length xs) =
           Ret (OPAL_SUCCESS, map r xs, skip (length (concat (map g xs))) b)"
  using assms
proof (induction xs arbitrary: b)
  case (Cons x xs)
  have "unread b (g x @ concat (map g xs) @ rest)"
    using Cons.prems(2) by simp
  note step = Cons.prems(1) [OF _ Cons.prems(3) this] unread_skip [OF this]
  have "unpack_each h (skip (length (g x)) b) (length xs) =
      Ret (OPAL_SUCCESS, map r xs, skip (length (concat (map g xs))) (skip (length (g x)) b))"
    by (rule Cons.IH) (use Cons.prems step in auto)
  then show ?case
    using step by simp
qed simp

lemma take_drop_concat:
  assumes "\<forall>x\<in>set xs. length (g x) = n" "i < length xs"
  shows "take n (drop (i * n) (concat (map g xs) @ rest)) = g (xs ! i)"
  using assms
proof (induction xs arbitrary: i)
  case (Cons x xs)
  then show ?case
    by (cases i) (auto simp flip: drop_drop)
qed simp

lemma length_concat_const: "\<forall>x\<in>set xs. length (g x) = n \<Longrightarrow> length (concat (map g xs)) = length xs * n"
  by (induction xs) auto

lemma size_of_count: "n < 2 ^ 31 \<Longrightarrow> sz \<le> 16 \<Longrightarrow> size_t (size_of_int (int n) * sz) = n * sz"
proof -
  assume a: "n < 2 ^ 31" "sz \<le> 16"
  have "size_of_int (int n) = n"
    using a(1) by (simp add: size_of_int_def)
  moreover have "n * sz < 2 ^ 64"
    using mult_mono [of n "2 ^ 31" sz 16] a by simp
  ultimately show ?thesis
    by (simp add: size_t_def)
qed

lemma unpack_words_ok:
  assumes "\<forall>x\<in>set xs. length (g x) = sz \<and> conv (g x) = r x" "length xs < 2 ^ 31" "sz \<le> 16"
    "unread b (concat (map g xs) @ rest)"
  shows "unpack_words sz conv b (int (length xs)) =
           Ret (OPAL_SUCCESS, map r xs, skip (length (concat (map g xs))) b)"
proof -
  have len: "length (concat (map g xs)) = length xs * sz"
    using assms(1) by (simp add: length_concat_const)
  have fetch: "dss_fetch b (length xs * sz) = Some (concat (map g xs), skip (length xs * sz) b)"
    by (rule fetch_ok [OF assms(4) len])
  have "take sz (drop (i * sz) (concat (map g xs))) = g (xs ! i)" if "i < length xs" for i
    using take_drop_concat [of xs g sz i "[]"] assms(1) that by simp
  then have "map (\<lambda>i. conv (take sz (drop (i * sz) (concat (map g xs))))) [0..<length xs] =
      map (\<lambda>i. r (xs ! i)) [0..<length xs]"
    using assms(1) by simp
  also have "\<dots> = map r xs"
    by (rule nth_equalityI) simp_all
  finally show ?thesis
    by (simp add: unpack_words_def size_of_count [OF assms(2,3)] fetch len)
qed

lemma unpack_byte_ok:
  assumes "unread b (bs @ rest)" "length bs < 2 ^ 31"
  shows "opal_dss_unpack_byte b (int (length bs)) = Ret (OPAL_SUCCESS, bs, skip (length bs) b)"
    "opal_dss_unpack_null b (int (length bs)) = Ret (OPAL_SUCCESS, bs, skip (length bs) b)"
proof -
  have "concat (map (\<lambda>x. [x]) bs) = bs"
    by (induction bs) auto
  then show "opal_dss_unpack_byte b (int (length bs)) = Ret (OPAL_SUCCESS, bs, skip (length bs) b)"
    "opal_dss_unpack_null b (int (length bs)) = Ret (OPAL_SUCCESS, bs, skip (length bs) b)"
    using unpack_words_ok [of bs "\<lambda>x. [x]" 1 hd "\<lambda>x. x" b rest] assms
    by (simp_all add: opal_dss_unpack_byte_def opal_dss_unpack_null_def)
qed

lemma unpack_ints_ok:
  shows "unread b (concat (map (hton 2) ws16) @ rest) \<Longrightarrow> length ws16 < 2 ^ 31 \<Longrightarrow>
      opal_dss_unpack_int16 b (int (length ws16)) =
        Ret (OPAL_SUCCESS, ws16, skip (length (concat (map (hton 2) ws16))) b)"
    and "unread b (concat (map (hton 4) ws32) @ rest) \<Longrightarrow> length ws32 < 2 ^ 31 \<Longrightarrow>
      opal_dss_unpack_int32 b (int (length ws32)) =
        Ret (OPAL_SUCCESS, ws32, skip (length (concat (map (hton 4) ws32))) b)"
    and "unread b (concat (map (hton 8) ws64) @ rest) \<Longrightarrow> length ws64 < 2 ^ 31 \<Longrightarrow>
      opal_dss_unpack_int64 b (int (length ws64)) =
        Ret (OPAL_SUCCESS, ws64, skip (length (concat (map (hton 8) ws64))) b)"
  using unpack_words_ok [of ws16 "hton 2" 2 ntoh "\<lambda>x. x" b rest]
    unpack_words_ok [of ws32 "hton 4" 4 ntoh "\<lambda>x. x" b rest]
    unpack_words_ok [of ws64 "hton 8" 8 ntoh "\<lambda>x. x" b rest]
  by (simp_all add: opal_dss_unpack_int16_def opal_dss_unpack_int32_def opal_dss_unpack_int64_def)

section \<open>Strings, numbers, times, byte objects\<close>

definition str_len :: "byte list \<Rightarrow> nat" where
  "str_len blk = length (takeWhile (\<lambda>c. c \<noteq> 0) blk)"

definition str_ok :: "byte list option \<Rightarrow> bool" where
  "str_ok s = (case s of None \<Rightarrow> True | Some blk \<Rightarrow> 0 \<in> set blk \<and> str_len blk + 1 < 2 ^ 31)"

text \<open>What arrives of a string block: the string with its terminator.\<close>

definition str_recv :: "byte list option \<Rightarrow> byte list option" where
  "str_recv = map_option (\<lambda>blk. takeWhile (\<lambda>c. c \<noteq> 0) blk @ [0])"

definition str_bytes :: "byte list option \<Rightarrow> byte list" where
  "str_bytes s =
     (case s of
        None \<Rightarrow> hton 4 (0 :: 32 word)
      | Some blk \<Rightarrow>
          hton 4 (of_nat (str_len blk + 1) :: 32 word) @ takeWhile (\<lambda>c. c \<noteq> 0) blk @ [0])"

lemma hton_ne [simp]: "0 < n \<Longrightarrow> hton n w \<noteq> []"
  by (metis length_0_conv length_hton less_irrefl)

lemma packs_int32_1:
  assumes "dss_ok cfg" "buf_ok b"
  shows "packs (opal_dss_pack_int32 cfg b [w]) b (hton 4 w)"
  using packs_store [OF assms, of "hton 4 w"] by (simp add: opal_dss_pack_int32_def)

lemma packs_string1:
  assumes "dss_ok cfg" "buf_ok b" "str_ok s"
  shows "packs (pack_string1 cfg b s) b (str_bytes s)"
proof (cases s)
  case None
  then show ?thesis
    using packs_int32_1 [OF assms(1,2)] by (simp add: pack_string1_def str_bytes_def)
next
  case (Some blk)
  let ?s = "takeWhile (\<lambda>c. c \<noteq> 0) blk"
  have "packs (and_then (opal_dss_pack_int32 cfg b [of_nat (length ?s + 1)])
      (\<lambda>b. opal_dss_pack_byte cfg b (?s @ [0]))) b (hton 4 (of_nat (length ?s + 1) :: 32 word) @ ?s @ [0])"
    by (intro packs_and_then packs_int32_1 assms)
       (simp add: opal_dss_pack_byte_def packs_store assms(1) appended_buf_ok)
  then show ?thesis
    using assms(3) Some by (simp add: pack_string1_def str_bytes_def str_ok_def str_len_def Let_def)
qed

lemma sint_of_nat32: "n < 2 ^ 31 \<Longrightarrow> sint (of_nat n :: 32 word) = int n"
  by (simp add: signed_of_nat signed_take_bit_int_eq_self)

lemma unpack_int32_1:
  assumes "unread b (hton 4 w @ rest)"
  shows "opal_dss_unpack_int32 b 1 = Ret (OPAL_SUCCESS, [w], skip 4 b)"
  using unpack_ints_ok(2) [of b "[w]" rest] assms by simp

lemma unpack_string1_ok:
  assumes "dss_ok cfg" "str_ok s" "unread b (str_bytes s @ rest)"
  shows "unpack_string1 cfg b = Ret (OPAL_SUCCESS, [str_recv s], skip (length (str_bytes s)) b)"
proof (cases s)
  case None
  then show ?thesis
    using unpack_int32_1 [of b 0 rest] assms(3) by (simp add: unpack_string1_def str_bytes_def str_recv_def)
next
  case (Some blk)
  define s' where "s' = takeWhile (\<lambda>c. c \<noteq> 0) blk @ [0]"
  define n where "n = length s'"
  have n: "0 < n" "n < 2 ^ 31"
    using assms(2) Some by (simp_all add: str_ok_def str_len_def n_def s'_def)
  have bytes: "str_bytes s = hton 4 (of_nat n :: 32 word) @ s'"
    using Some by (simp add: str_bytes_def str_len_def n_def s'_def)
  then have r: "unread b (hton 4 (of_nat n :: 32 word) @ s' @ rest)"
    using assms(3) by simp
  have r': "unread (skip 4 b) (s' @ rest)"
    using unread_skip [OF r] by simp
  have alloc: "dss_alloc cfg n" for n
    using assms(1) by (simp add: dss_ok_def)
  have "opal_dss_unpack_byte (skip 4 b) (int n) = Ret (OPAL_SUCCESS, s', skip (4 + n) b)"
    using unpack_byte_ok(1) [OF r'] n by (simp add: n_def)
  then have "unpack_string1 cfg b = Ret (OPAL_SUCCESS, [Some s'], skip (4 + n) b)"
    using unpack_int32_1 [OF r] n by (simp add: unpack_string1_def sint_of_nat32 alloc Let_def)
  moreover have "length (str_bytes s) = 4 + n"
    unfolding bytes by (simp add: n_def)
  moreover have "str_recv s = Some s'"
    using Some by (simp add: str_recv_def s'_def)
  ultimately show ?thesis
    by simp
qed

lemma packs_string:
  assumes "dss_ok cfg" "buf_ok b" "ob_base b" "\<forall>s\<in>set ss. str_ok s"
  shows "packs (opal_dss_pack_string cfg b ss) b (concat (map str_bytes ss))"
  unfolding opal_dss_pack_string_def
  by (rule packs_each [where d = "ob_desc b"]) (use assms packs_string1 in auto)

lemma unpack_string_ok:
  assumes "dss_ok cfg" "\<forall>s\<in>set ss. str_ok s" "unread b (concat (map str_bytes ss) @ rest)"
  shows "opal_dss_unpack_string cfg b (int (length ss)) =
           Ret (OPAL_SUCCESS, map str_recv ss, skip (length (concat (map str_bytes ss))) b)"
  unfolding opal_dss_unpack_string_def nat_int
  by (rule unpack_each_ok [where d = "ob_desc b", OF _ assms(3)]) (use assms unpack_string1_ok in auto)

text \<open>Numbers travel as decimal strings.\<close>

definition num_ok :: "rat \<Rightarrow> bool" where
  "num_ok x \<longleftrightarrow> length (fmt_f x) + 1 < 2 ^ 31"

definition num_bytes :: "rat \<Rightarrow> byte list" where
  "num_bytes x = str_bytes (Some (c_string (fmt_f x)))"

lemma fmt_f_chars: "c \<in> set (fmt_f x) \<Longrightarrow> isdigit c \<or> c = CHR ''-'' \<or> c = CHR ''.''"
  by (auto simp: fmt_f_def dest: dec_digits pad_digits split: if_splits)

lemma byte_of_char: "unat (of_nat (of_char c) :: byte) = of_char c"
  by (simp add: unat_of_nat)

lemma fmt_f_nonzero:
  assumes "c \<in> set (fmt_f x)"
  shows "(of_nat (of_char c) :: byte) \<noteq> 0"
proof
  assume "(of_nat (of_char c) :: byte) = 0"
  then have "(of_char c :: nat) = 0"
    using byte_of_char [of c] by simp
  then show False
    using fmt_f_chars [OF assms] by (auto simp: isdigit_def)
qed

lemma takeWhile_nonzero_block: "0 \<notin> set s \<Longrightarrow> takeWhile (\<lambda>c. c \<noteq> 0) (s @ [0]) = s"
  by (induction s) auto

lemma c_string_fmt_f:
  "takeWhile (\<lambda>c. c \<noteq> 0) (c_string (fmt_f x)) = map (\<lambda>c. of_nat (of_char c)) (fmt_f x)"
  "str_len (c_string (fmt_f x)) = length (fmt_f x)" "0 \<in> set (c_string (fmt_f x))"
proof -
  show tw: "takeWhile (\<lambda>c. c \<noteq> 0) (c_string (fmt_f x)) = map (\<lambda>c. of_nat (of_char c)) (fmt_f x)"
    unfolding c_string_def by (rule takeWhile_nonzero_block) (use fmt_f_nonzero in force)
  show "str_len (c_string (fmt_f x)) = length (fmt_f x)"
    by (simp add: str_len_def tw)
  show "0 \<in> set (c_string (fmt_f x))"
    by (simp add: c_string_def)
qed

lemma num_str_ok: "num_ok x \<Longrightarrow> str_ok (Some (c_string (fmt_f x)))"
  by (simp add: num_ok_def str_ok_def c_string_fmt_f)

lemma block_string_num: "block_string (map (\<lambda>c. of_nat (of_char c)) (fmt_f x) @ [0]) = Some (fmt_f x)"
proof -
  have "takeWhile (\<lambda>c. c \<noteq> 0) (map (\<lambda>c. of_nat (of_char c) :: byte) (fmt_f x) @ [0]) =
      map (\<lambda>c. of_nat (of_char c)) (fmt_f x)"
    using c_string_fmt_f(1) [of x] by (simp add: c_string_def)
  then show ?thesis
    by (simp add: block_string_def comp_def byte_of_char)
qed

lemma packs_number:
  assumes "dss_ok cfg" "buf_ok b" "ob_base b" "num_ok x"
  shows "packs (opal_dss_pack_string cfg b [Some (c_string (fmt_f x))]) b (num_bytes x)"
  using packs_string [OF assms(1-3), of "[Some (c_string (fmt_f x))]"] num_str_ok [OF assms(4)]
  by (simp add: num_bytes_def)

lemma unpack_number_ok:
  assumes "dss_ok cfg" "num_ok x" "unread b (num_bytes x @ rest)"
  shows "unpack_number1 strto cfg b = Ret (OPAL_SUCCESS, [strto (fmt_f x)], skip (length (num_bytes x)) b)"
proof -
  have "opal_dss_unpack_string cfg b 1 =
      Ret (OPAL_SUCCESS, [Some (map (\<lambda>c. of_nat (of_char c)) (fmt_f x) @ [0])], skip (length (num_bytes x)) b)"
    using unpack_string_ok [OF assms(1), of "[Some (c_string (fmt_f x))]" b rest] assms(3) num_str_ok [OF assms(2)]
    by (simp add: num_bytes_def str_recv_def c_string_fmt_f)
  then show ?thesis
    by (simp add: unpack_number1_def block_string_num)
qed

lemma too_small_enough:
  assumes "unread b (bs @ rest)" "n \<le> length bs"
  shows "\<not> opal_dss_too_small b n"
proof -
  have "length (ob_bytes b) - ob_unpack b = length bs + length rest"
    using assms(1) by (metis length_append length_drop unread_def)
  then show ?thesis
    using assms by (auto simp: opal_dss_too_small_def unread_def)
qed

lemma length_concat_le: "\<forall>x\<in>set xs. n \<le> length (g x) \<Longrightarrow> length xs * n \<le> length (concat (map g xs))"
  by (induction xs) auto

text \<open>The check for the minimal length of the elements always passes in front of packed data.\<close>

lemma checked_each_ok:
  assumes "unread b (concat (map g xs) @ rest)" "\<forall>x\<in>set xs. sz \<le> length (g x)" "length xs < 2 ^ 31" "sz \<le> 16"
    "\<And>x b rest. x \<in> set xs \<Longrightarrow> unread b (g x @ rest) \<Longrightarrow> h b = Ret (OPAL_SUCCESS, [r x], skip (length (g x)) b)"
  shows "(if opal_dss_too_small b (size_t (size_of_int (int (length xs)) * sz)) then e
          else unpack_each h b (nat (int (length xs)))) =
         Ret (OPAL_SUCCESS, map r xs, skip (length (concat (map g xs))) b)"
  using too_small_enough [OF assms(1) length_concat_le [OF assms(2)]] size_of_count [OF assms(3,4)]
    unpack_each_ok [of xs "ob_desc b" g h r b rest] assms
  by simp

lemma num_bytes_length: "8 \<le> length (num_bytes x)"
proof -
  have "6 \<le> length (pad 6 (micros x mod 1000000))"
    by (simp add: pad_def)
  then have "6 \<le> length (fmt_f x)"
    by (simp add: fmt_f_def)
  then show ?thesis
    by (simp add: num_bytes_def str_bytes_def c_string_fmt_f)
qed

definition timeval_bytes :: "64 word \<times> 64 word \<Rightarrow> byte list" where
  "timeval_bytes tv = (case tv of (s, u) \<Rightarrow> hton 8 s @ hton 8 u)"

lemma packs_timeval1:
  "dss_ok cfg \<Longrightarrow> buf_ok b \<Longrightarrow> packs (opal_dss_pack_int64 cfg b [s, u]) b (timeval_bytes (s, u))"
  using packs_store [of cfg b "hton 8 s @ hton 8 u"] by (simp add: opal_dss_pack_int64_def timeval_bytes_def)

lemma unpack_timeval1_ok:
  assumes "unread b (timeval_bytes tv @ rest)"
  shows "unpack_timeval1 b = Ret (OPAL_SUCCESS, [tv], skip (length (timeval_bytes tv)) b)"
  using assms unpack_ints_ok(3) [of b "[fst tv, snd tv]" rest]
  by (cases tv) (simp add: unpack_timeval1_def timeval_bytes_def)

definition bo_bytes :: "byte list \<Rightarrow> byte list" where
  "bo_bytes bo = hton 4 (of_nat (length bo) :: 32 word) @ bo"

lemma packs_byte_object1:
  assumes "dss_ok cfg" "buf_ok b"
  shows "packs (pack_byte_object1 cfg b bo) b (bo_bytes bo)"
  unfolding pack_byte_object1_def bo_bytes_def
  by (intro packs_and_then packs_int32_1 assms)
     (auto simp: opal_dss_pack_byte_def intro: packs_store packs_refl assms(1) dest: appended_buf_ok)

lemma unpack_object_bytes_ok:
  assumes "dss_ok cfg" "unread b (bo_bytes bo @ rest)" "length bo < 2 ^ 31"
  shows "unpack_object_bytes cfg b = Ret (OPAL_SUCCESS, [bo], skip (length (bo_bytes bo)) b)"
proof -
  have r: "unread b (hton 4 (of_nat (length bo) :: 32 word) @ bo @ rest)"
    using assms(2) by (simp add: bo_bytes_def)
  have r': "unread (skip 4 b) (bo @ rest)"
    using unread_skip [OF r] by simp
  show ?thesis
    using unpack_int32_1 [OF r] unpack_byte_ok(1) [OF r' assms(3)] assms(1,3)
    by (simp add: unpack_object_bytes_def sint_of_nat32 dss_ok_def bo_bytes_def Let_def)
qed

section \<open>The leaf functions\<close>

fun leaf_bytes :: "dss_fn \<Rightarrow> dss_data \<Rightarrow> byte list" where
  "leaf_bytes fn (D8 xs) = (if fn = F_null then replicate (length xs) 0 else xs)"
| "leaf_bytes fn (D16 xs) = concat (map (hton 2) xs)"
| "leaf_bytes fn (D32 xs) = concat (map (hton 4) xs)"
| "leaf_bytes fn (D64 xs) = concat (map (hton 8) xs)"
| "leaf_bytes fn (DStr xs) = concat (map str_bytes xs)"
| "leaf_bytes fn (DFloat xs) = concat (map num_bytes xs)"
| "leaf_bytes fn (DDouble xs) = concat (map num_bytes xs)"
| "leaf_bytes fn (DTimeval xs) = concat (map timeval_bytes xs)"
| "leaf_bytes fn (DBo xs) = concat (map bo_bytes xs)"
| "leaf_bytes fn (DName xs) = []"

text \<open>Data of the layout of the function, within the limits of the format.\<close>

fun leaf_ok :: "dss_fn \<Rightarrow> dss_data \<Rightarrow> bool" where
  "leaf_ok fn (D8 xs) = (fn \<in> {F_null, F_byte} \<and> length xs < 2 ^ 31)"
| "leaf_ok fn (D16 xs) = (fn = F_int16 \<and> length xs < 2 ^ 31)"
| "leaf_ok fn (D32 xs) = (fn = F_int32 \<and> length xs < 2 ^ 31)"
| "leaf_ok fn (D64 xs) = (fn \<in> {F_int64, F_time} \<and> length xs < 2 ^ 31)"
| "leaf_ok fn (DStr xs) = (fn = F_string \<and> list_all str_ok xs \<and> length xs < 2 ^ 31)"
| "leaf_ok fn (DFloat xs) = (fn = F_float \<and> list_all num_ok xs \<and> length xs < 2 ^ 31)"
| "leaf_ok fn (DDouble xs) = (fn = F_double \<and> list_all num_ok xs \<and> length xs < 2 ^ 31)"
| "leaf_ok fn (DTimeval xs) = (fn = F_timeval \<and> length xs < 2 ^ 31)"
| "leaf_ok fn (DBo xs) = (fn = F_byte_object \<and> list_all (\<lambda>bo. length bo < 2 ^ 31) xs \<and> length xs < 2 ^ 31)"
| "leaf_ok fn (DName xs) = False"

text \<open>
  What arrives: the data itself, except that \<^verbatim>\<open>OPAL_NULL\<close> data are zeros, strings end at their
  terminator, and numbers are rounded to six decimals and back to their format.
\<close>

fun leaf_recv :: "dss_fn \<Rightarrow> dss_data \<Rightarrow> dss_data" where
  "leaf_recv fn (D8 xs) = D8 (if fn = F_null then replicate (length xs) 0 else xs)"
| "leaf_recv fn (DStr xs) = DStr (map str_recv xs)"
| "leaf_recv fn (DFloat xs) = DFloat (map (\<lambda>x. float_round (six_decimals x)) xs)"
| "leaf_recv fn (DDouble xs) = DDouble (map (\<lambda>x. double_round (six_decimals x)) xs)"
| "leaf_recv fn d = d"

lemma leaf_packs:
  assumes "dss_ok cfg" "buf_ok b" "ob_base b" "leaf_ok fn d"
  shows "packs (pack_leaf fn cfg b d) b (leaf_bytes fn d)"
proof -
  note ok = assms(1-3)
  note each = packs_each [where d = "ob_desc b", OF ok(2,3)]
  have float: "packs (opal_dss_pack_float cfg b xs) b (concat (map num_bytes xs))"
      "packs (opal_dss_pack_double cfg b xs) b (concat (map num_bytes xs))" if "list_all num_ok xs" for xs
    unfolding opal_dss_pack_float_def opal_dss_pack_double_def
    using that by (auto simp: list_all_iff intro!: each packs_number [OF ok(1)])
  have time: "packs (opal_dss_pack_timeval cfg b xs) b (concat (map timeval_bytes xs))" for xs
    unfolding opal_dss_pack_timeval_def by (rule each) (auto simp: packs_timeval1 [OF ok(1)] split: prod.split)
  have time': "packs (opal_dss_pack_time cfg b xs) b (concat (map (hton 8) xs))" for xs
    unfolding opal_dss_pack_time_def opal_dss_pack_int64_def
    by (rule each) (auto intro!: packs_store [OF ok(1)])
  have bo: "packs (opal_dss_pack_byte_object cfg b xs) b (concat (map bo_bytes xs))" for xs
    unfolding opal_dss_pack_byte_object_def by (rule each) (auto intro!: packs_byte_object1 [OF ok(1)])
  show ?thesis
    using assms(4) packs_store [OF ok(1,2)] packs_string [OF ok] float time time' bo ok(3)
    by (cases d)
       (auto simp: pack_leaf_def opal_dss_pack_null_def opal_dss_pack_byte_def opal_dss_pack_int16_def
          opal_dss_pack_int32_def opal_dss_pack_int64_def list_all_iff)
qed

lemma leaf_unpacks:
  assumes ok: "dss_ok cfg" "leaf_ok fn d" and r: "unread b (leaf_bytes fn d @ rest)"
  shows "unpack_leaf fn cfg b (int (data_length d)) =
           Ret (OPAL_SUCCESS, leaf_recv fn d, skip (length (leaf_bytes fn d)) b)"
proof -
  note num = unpack_number_ok [OF ok(1)]
  have float: "opal_dss_unpack_float cfg b (int (length xs)) =
      Ret (OPAL_SUCCESS, map (\<lambda>x. float_round (six_decimals x)) xs, skip (length (concat (map num_bytes xs))) b)"
    "opal_dss_unpack_double cfg b (int (length xs)) =
      Ret (OPAL_SUCCESS, map (\<lambda>x. double_round (six_decimals x)) xs, skip (length (concat (map num_bytes xs))) b)"
    if "list_all num_ok xs" "length xs < 2 ^ 31" "unread b (concat (map num_bytes xs) @ rest)" for xs
  proof -
    show "opal_dss_unpack_float cfg b (int (length xs)) =
      Ret (OPAL_SUCCESS, map (\<lambda>x. float_round (six_decimals x)) xs, skip (length (concat (map num_bytes xs))) b)"
      unfolding opal_dss_unpack_float_def
      by (rule checked_each_ok [OF that(3) _ that(2)])
         (use num_bytes_length that(1) num in \<open>auto simp: strtof_fmt_f list_all_iff intro: order_trans [of 4 8]\<close>)
    show "opal_dss_unpack_double cfg b (int (length xs)) =
      Ret (OPAL_SUCCESS, map (\<lambda>x. double_round (six_decimals x)) xs, skip (length (concat (map num_bytes xs))) b)"
      unfolding opal_dss_unpack_double_def
      by (rule checked_each_ok [OF that(3) _ that(2)])
         (use num_bytes_length that(1) num in \<open>auto simp: strtod_fmt_f list_all_iff\<close>)
  qed
  have timeval: "opal_dss_unpack_timeval b (int (length xs)) =
      Ret (OPAL_SUCCESS, map (\<lambda>x. x) xs, skip (length (concat (map timeval_bytes xs))) b)"
    if "length xs < 2 ^ 31" "unread b (concat (map timeval_bytes xs) @ rest)" for xs
    unfolding opal_dss_unpack_timeval_def
    by (rule checked_each_ok [OF that(2) _ that(1)]) (auto simp: unpack_timeval1_ok timeval_bytes_def)
  have time: "opal_dss_unpack_time b (int (length xs)) =
      Ret (OPAL_SUCCESS, map (\<lambda>x. x) xs, skip (length (concat (map (hton 8) xs))) b)"
    if "length xs < 2 ^ 31" "unread b (concat (map (hton 8) xs) @ rest)" for xs
    unfolding opal_dss_unpack_time_def
    by (rule checked_each_ok [OF that(2) _ that(1)])
       (use unpack_ints_ok(3) [of _ "[_]"] in auto)
  have bo: "opal_dss_unpack_byte_object cfg b (int (length xs)) =
      Ret (OPAL_SUCCESS, map (\<lambda>x. x) xs, skip (length (concat (map bo_bytes xs))) b)"
    if "list_all (\<lambda>bo. length bo < 2 ^ 31) xs" "unread b (concat (map bo_bytes xs) @ rest)" for xs
    unfolding opal_dss_unpack_byte_object_def nat_int
    by (rule unpack_each_ok [where d = "ob_desc b", OF _ that(2)])
       (use ok(1) that(1) unpack_object_bytes_ok in \<open>auto simp: dss_ok_def list_all_iff\<close>)
  have byte: "opal_dss_unpack_byte b (int (length bs)) = Ret (OPAL_SUCCESS, bs, skip (length bs) b)"
      "opal_dss_unpack_null b (int (length bs)) = Ret (OPAL_SUCCESS, bs, skip (length bs) b)"
    if "unread b (bs @ rest)" "length bs < 2 ^ 31" for bs
    using unpack_byte_ok that by auto
  have nulls: "opal_dss_unpack_null b (int n) = Ret (OPAL_SUCCESS, replicate n 0, skip n b)"
    if "unread b (replicate n 0 @ rest)" "n < 2 ^ 31" for n
    using byte(2) [of "replicate n 0"] that by simp
  show ?thesis
    using ok(2) r byte nulls unpack_ints_ok [of b _ rest] unpack_string_ok [OF ok(1), of _ b rest] float timeval time bo
    by (cases d) (auto simp: unpack_leaf_def unpacked_as_def list_all_iff)
qed

section \<open>Dispatch\<close>

definition tag_bytes :: "bool \<Rightarrow> byte \<Rightarrow> byte list" where
  "tag_bytes desc t = (if desc then [t] else [])"

definition tagged :: "(bool \<Rightarrow> dss_fn \<Rightarrow> 'd \<Rightarrow> byte list) \<Rightarrow> bool \<Rightarrow> byte \<Rightarrow> 'd \<Rightarrow> byte list" where
  "tagged fbytes desc t d = tag_bytes desc t @ fbytes desc (the (opal_dss_types t)) d"

definition type_ok :: "(dss_fn \<Rightarrow> 'd \<Rightarrow> bool) \<Rightarrow> byte \<Rightarrow> 'd \<Rightarrow> bool" where
  "type_ok fok t d = (case opal_dss_types t of None \<Rightarrow> False | Some fn \<Rightarrow> fok fn d)"

lemmas dss_table = opal_dss_types_eq intrinsic_types_def

lemma types_of_uint8 [simp]: "opal_dss_types OPAL_DATA_TYPE_T = Some F_byte"
  by (simp add: dss_table)

lemma packs_type:
  assumes "dss_ok cfg" "buf_ok b"
  shows "packs (opal_dss_store_data_type cfg b t) b [t]"
  using packs_store [OF assms, of "[t]"]
  by (simp add: opal_dss_store_data_type_def pack_leaf_def opal_dss_pack_byte_def)

lemma unpack_type_ok:
  assumes "unread b (t # rest)"
  shows "opal_dss_get_data_type b = Ret (OPAL_SUCCESS, [t], skip 1 b)"
  using unpack_byte_ok(1) [of b "[t]" rest] assms by (simp add: opal_dss_get_data_type_def)

locale dss_packing =
  fixes pack_fn :: "dss_fn \<Rightarrow> dss_params \<Rightarrow> opal_buffer \<Rightarrow> 'd \<Rightarrow> (status \<times> opal_buffer) outcome"
    and fbytes :: "bool \<Rightarrow> dss_fn \<Rightarrow> 'd \<Rightarrow> byte list"
    and fok :: "dss_fn \<Rightarrow> 'd \<Rightarrow> bool"
  assumes pack_fn_ok:
    "dss_ok cfg \<Longrightarrow> buf_ok b \<Longrightarrow> ob_base b \<Longrightarrow> fok fn d \<Longrightarrow>
       packs (pack_fn fn cfg b d) b (fbytes (ob_desc b) fn d)"
begin

lemma pack_buffer_ok:
  assumes "dss_ok cfg" "buf_ok b" "ob_base b" "type_ok fok t d"
  shows "packs (pack_buffer_by pack_fn cfg b d t) b (tagged fbytes (ob_desc b) t d)"
proof -
  obtain fn where fn: "opal_dss_types t = Some fn" "fok fn d"
    using assms(4) by (auto simp: type_ok_def split: option.splits)
  have "packs (if ob_desc b then opal_dss_store_data_type cfg b t else Ret (OPAL_SUCCESS, b)) b
      (tag_bytes (ob_desc b) t)"
    using packs_type [OF assms(1,2)] packs_refl [OF assms(2)] by (simp add: tag_bytes_def)
  then show ?thesis
    unfolding pack_buffer_by_def tagged_def
  proof (rule packs_and_then)
    fix b' assume "appended b (tag_bytes (ob_desc b) t) b'"
    then have "buf_ok b'" "ob_base b'" "ob_desc b' = ob_desc b"
      using assms(3) by (auto simp: appended_def)
    then show "packs (case opal_dss_types t of None \<Rightarrow> Ret (OPAL_ERR_PACK_FAILURE, b')
        | Some fn \<Rightarrow> pack_fn fn cfg b' d) b' (fbytes (ob_desc b) (the (opal_dss_types t)) d)"
      using pack_fn_ok [OF assms(1), of b' fn d] fn by simp
  qed
qed

end

locale dss_dispatch = dss_packing pack_fn fbytes fok
  for pack_fn :: "dss_fn \<Rightarrow> dss_params \<Rightarrow> opal_buffer \<Rightarrow> 'd \<Rightarrow> (status \<times> opal_buffer) outcome"
    and fbytes :: "bool \<Rightarrow> dss_fn \<Rightarrow> 'd \<Rightarrow> byte list"
    and fok :: "dss_fn \<Rightarrow> 'd \<Rightarrow> bool" +
  fixes unpack_fn :: "dss_fn \<Rightarrow> dss_params \<Rightarrow> opal_buffer \<Rightarrow> int \<Rightarrow> 'd unpacked_data"
    and num :: "'d \<Rightarrow> nat"
    and frecv :: "dss_params \<Rightarrow> dss_fn \<Rightarrow> 'd \<Rightarrow> 'd"
  assumes unpack_fn_ok:
    "dss_ok cfg \<Longrightarrow> fok fn d \<Longrightarrow> unread b (fbytes (ob_desc b) fn d @ rest) \<Longrightarrow>
       unpack_fn fn cfg b (int (num d)) =
         Ret (OPAL_SUCCESS, frecv cfg fn d, skip (length (fbytes (ob_desc b) fn d)) b)"
begin

lemma unpack_buffer_ok:
  assumes "dss_ok cfg" "type_ok fok t d" "unread b (tagged fbytes (ob_desc b) t d @ rest)"
  shows "unpack_buffer_by unpack_fn nothing cfg b (int (num d)) t =
           Ret (OPAL_SUCCESS, frecv cfg (the (opal_dss_types t)) d, skip (length (tagged fbytes (ob_desc b) t d)) b)"
proof -
  obtain fn where fn: "opal_dss_types t = Some fn" "fok fn d"
    using assms(2) by (auto simp: type_ok_def split: option.splits)
  show ?thesis
  proof (cases "ob_desc b")
    case True
    then have r: "unread b (t # fbytes True fn d @ rest)"
      using assms(3) fn by (simp add: tagged_def tag_bytes_def)
    then have "unread (skip 1 b) (fbytes True fn d @ rest)"
      using unread_skip [of b "[t]"] by simp
    then show ?thesis
      using unpack_type_ok [OF r] unpack_fn_ok [OF assms(1) fn(2), of "skip 1 b" rest] fn True
      by (simp add: unpack_buffer_by_def tagged_def tag_bytes_def)
  next
    case False
    then show ?thesis
      using assms(3) unpack_fn_ok [OF assms(1) fn(2), of b rest] fn
      by (simp add: unpack_buffer_by_def tagged_def tag_bytes_def)
  qed
qed

end

interpretation leaf: dss_dispatch pack_leaf "\<lambda>_. leaf_bytes" leaf_ok unpack_leaf data_length "\<lambda>_. leaf_recv"
  by unfold_locales (simp_all add: leaf_packs leaf_unpacks)

section \<open>System types and names\<close>

lemma packs_system:
  assumes "dss_ok cfg" "buf_ok b" "ob_base b" "type_ok leaf_ok rt d"
  shows "packs (pack_system rt cfg b d) b (rt # leaf_bytes (the (opal_dss_types rt)) d)"
proof (cases "ob_desc b")
  case True
  then have "packs (pack_buffer_by pack_leaf cfg b d rt) b (rt # leaf_bytes (the (opal_dss_types rt)) d)"
    using leaf.pack_buffer_ok [OF assms] by (simp add: tagged_def tag_bytes_def)
  then show ?thesis
    using True by (simp add: pack_system_def and_then_def)
next
  case False
  have "packs (and_then (opal_dss_store_data_type cfg b rt) (\<lambda>b. pack_buffer_by pack_leaf cfg b d rt)) b
      ([rt] @ leaf_bytes (the (opal_dss_types rt)) d)"
  proof (rule packs_and_then [OF packs_type [OF assms(1,2)]])
    fix b' assume "appended b [rt] b'"
    then have "buf_ok b'" "ob_base b'" "\<not> ob_desc b'"
      using False by (auto simp: appended_def)
    then show "packs (pack_buffer_by pack_leaf cfg b' d rt) b' (leaf_bytes (the (opal_dss_types rt)) d)"
      using leaf.pack_buffer_ok [OF assms(1), of b' rt d] assms(4) by (simp add: tagged_def tag_bytes_def)
  qed
  then show ?thesis
    using False by (simp add: pack_system_def)
qed

lemma unread_ne: "unread b (x # xs) \<Longrightarrow> ob_unpack b < length (ob_bytes b)"
  by (auto simp: unread_def intro: ccontr)

lemma unpack_system_ok:
  assumes "dss_ok cfg" "type_ok leaf_ok rt d" "unread b (rt # leaf_bytes (the (opal_dss_types rt)) d @ rest)"
  shows "unpack_system rt cast cfg b (int (data_length d)) =
           Ret (OPAL_SUCCESS, leaf_recv (the (opal_dss_types rt)) d,
                skip (Suc (length (leaf_bytes (the (opal_dss_types rt)) d))) b)"
proof (cases "ob_desc b")
  case True
  then have "opal_dss_peek_type b = Ret (OPAL_SUCCESS, rt)"
    using unpack_type_ok [OF assms(3)] unread_ne [OF assms(3)] by (simp add: opal_dss_peek_type_def)
  then show ?thesis
    using True leaf.unpack_buffer_ok [OF assms(1,2), of b rest] assms(3)
    by (simp add: unpack_system_def tagged_def tag_bytes_def)
next
  case False
  have "unread (skip 1 b) (leaf_bytes (the (opal_dss_types rt)) d @ rest)"
    using unread_skip [of b "[rt]"] assms(3) by simp
  then show ?thesis
    using False unpack_type_ok [OF assms(3)] leaf.unpack_buffer_ok [OF assms(1,2), of "skip 1 b" rest]
    by (simp add: unpack_system_def tagged_def tag_bytes_def)
qed

definition mid_bytes :: "bool \<Rightarrow> dss_fn \<Rightarrow> dss_data \<Rightarrow> byte list" where
  "mid_bytes desc fn d =
     (case fn of
        F_bool \<Rightarrow> DSS_TYPE_BOOL # leaf_bytes F_byte d
      | F_int \<Rightarrow> DSS_TYPE_INT # leaf_bytes F_int32 d
      | F_sizet \<Rightarrow> DSS_TYPE_SIZE_T # leaf_bytes F_int64 d
      | F_pid \<Rightarrow> DSS_TYPE_PID_T # leaf_bytes F_int32 d
      | F_data_type \<Rightarrow> tagged (\<lambda>_. leaf_bytes) desc OPAL_DATA_TYPE_T d
      | F_jobid \<Rightarrow> tagged (\<lambda>_. leaf_bytes) desc OPAL_JOBID_T d
      | F_vpid \<Rightarrow> tagged (\<lambda>_. leaf_bytes) desc OPAL_VPID_T d
      | F_name \<Rightarrow>
          (case d of
             DName xs \<Rightarrow>
               tagged (\<lambda>_. leaf_bytes) desc OPAL_JOBID_T (D32 (map fst xs)) @
               tagged (\<lambda>_. leaf_bytes) desc OPAL_VPID_T (D32 (map snd xs))
           | _ \<Rightarrow> [])
      | _ \<Rightarrow> leaf_bytes fn d)"

definition real_fn :: "dss_fn \<Rightarrow> dss_fn" where
  "real_fn fn =
     (case fn of
        F_bool \<Rightarrow> F_byte | F_int \<Rightarrow> F_int32 | F_sizet \<Rightarrow> F_int64 | F_pid \<Rightarrow> F_int32
      | F_data_type \<Rightarrow> F_byte | F_jobid \<Rightarrow> F_int32 | F_vpid \<Rightarrow> F_int32 | _ \<Rightarrow> fn)"

definition mid_ok :: "dss_fn \<Rightarrow> dss_data \<Rightarrow> bool" where
  "mid_ok fn d =
     (if fn = F_name then (case d of DName xs \<Rightarrow> length xs < 2 ^ 31 | _ \<Rightarrow> False) else leaf_ok (real_fn fn) d)"

definition mid_recv :: "dss_fn \<Rightarrow> dss_data \<Rightarrow> dss_data" where
  "mid_recv fn d = (if fn = F_name then d else leaf_recv (real_fn fn) d)"

lemma real_types [simp]:
  "opal_dss_types OPAL_INT32 = Some F_int32" "opal_dss_types OPAL_UINT32 = Some F_int32"
  "opal_dss_types OPAL_UINT64 = Some F_int64"
  by (simp_all add: dss_table)

lemma type_ok_real [simp]:
  "type_ok leaf_ok OPAL_UINT8 d = leaf_ok F_byte d" "type_ok leaf_ok OPAL_INT32 d = leaf_ok F_int32 d"
  "type_ok leaf_ok OPAL_UINT32 d = leaf_ok F_int32 d" "type_ok leaf_ok OPAL_UINT64 d = leaf_ok F_int64 d"
  by (simp_all add: type_ok_def)

lemma mid_packs:
  assumes ok: "dss_ok cfg" "buf_ok b" "ob_base b" and d: "mid_ok fn d"
  shows "packs (pack_mid fn cfg b d) b (mid_bytes (ob_desc b) fn d)"
proof (cases "fn = F_name")
  case False
  note sys = packs_system [OF ok, of OPAL_UINT8] packs_system [OF ok, of OPAL_INT32]
    packs_system [OF ok, of OPAL_UINT64] packs_system [OF ok, of OPAL_UINT32]
    leaf.pack_buffer_ok [OF ok] leaf_packs [OF ok]
  show ?thesis
    using d False sys [where d = d]
    by (cases fn) (simp_all add: mid_ok_def real_fn_def pack_mid_def mid_bytes_def opal_dss_pack_bool_def
        opal_dss_pack_int_def opal_dss_pack_sizet_def opal_dss_pack_pid_def opal_dss_pack_data_type_def
        opal_dss_pack_jobid_def opal_dss_pack_vpid_def)
next
  case True
  with d obtain xs where d: "d = DName xs" "length xs < 2 ^ 31"
    by (auto simp: mid_ok_def split: dss_data.splits)
  have fst: "packs (opal_dss_pack_jobid cfg b (D32 (map fst xs))) b
      (tagged (\<lambda>_. leaf_bytes) (ob_desc b) OPAL_JOBID_T (D32 (map fst xs)))"
    using leaf.pack_buffer_ok [OF ok] d by (simp add: opal_dss_pack_jobid_def)
  have "packs (opal_dss_pack_vpid cfg b' (D32 (map snd xs))) b'
      (tagged (\<lambda>_. leaf_bytes) (ob_desc b) OPAL_VPID_T (D32 (map snd xs)))"
    if "appended b bs b'" for b' bs
    using leaf.pack_buffer_ok [OF ok(1), of b'] d that ok(3)
    by (simp add: opal_dss_pack_vpid_def appended_def)
  with fst show ?thesis
    using True d ok(1) packs_and_then [OF fst]
    by (simp add: pack_mid_def mid_bytes_def opal_dss_pack_name_def dss_ok_def)
qed

lemma mid_unpacks:
  assumes ok: "dss_ok cfg" and d: "mid_ok fn d" and r: "unread b (mid_bytes (ob_desc b) fn d @ rest)"
  shows "unpack_mid fn cfg b (int (data_length d)) =
           Ret (OPAL_SUCCESS, mid_recv fn d, skip (length (mid_bytes (ob_desc b) fn d)) b)"
proof (cases "fn = F_name")
  case False
  note sys = unpack_system_ok [OF ok, of OPAL_UINT8] unpack_system_ok [OF ok, of OPAL_INT32]
    unpack_system_ok [OF ok, of OPAL_UINT64] unpack_system_ok [OF ok, of OPAL_UINT32]
    leaf.unpack_buffer_ok [OF ok] leaf_unpacks [OF ok]
  show ?thesis
    using d r False sys [where d = d and b = b and rest = rest]
    by (cases fn) (simp_all add: mid_ok_def real_fn_def unpack_mid_def mid_bytes_def mid_recv_def
        opal_dss_unpack_bool_def opal_dss_unpack_int_def opal_dss_unpack_sizet_def opal_dss_unpack_pid_def
        opal_dss_unpack_data_type_def opal_dss_unpack_jobid_def opal_dss_unpack_vpid_def)
next
  case True
  with d obtain xs where d: "d = DName xs" "length xs < 2 ^ 31"
    by (auto simp: mid_ok_def split: dss_data.splits)
  define js vs where "js = tagged (\<lambda>_. leaf_bytes) (ob_desc b) OPAL_JOBID_T (D32 (map fst xs))"
    and "vs = tagged (\<lambda>_. leaf_bytes) (ob_desc b) OPAL_VPID_T (D32 (map snd xs))"
  have r: "unread b (js @ vs @ rest)"
    using r True d by (simp add: mid_bytes_def js_def vs_def)
  have 1: "opal_dss_unpack_jobid cfg b (int (length xs)) =
      Ret (OPAL_SUCCESS, D32 (map fst xs), skip (length js) b)"
    using leaf.unpack_buffer_ok [OF ok, of OPAL_JOBID_T "D32 (map fst xs)" b "vs @ rest"] r d
    by (simp add: opal_dss_unpack_jobid_def js_def)
  have 2: "opal_dss_unpack_vpid cfg (skip (length js) b) (int (length xs)) =
      Ret (OPAL_SUCCESS, D32 (map snd xs), skip (length js + length vs) b)"
    using leaf.unpack_buffer_ok [OF ok, of OPAL_VPID_T "D32 (map snd xs)" "skip (length js) b" rest]
      unread_skip [OF r] d
    by (simp add: opal_dss_unpack_vpid_def vs_def)
  show ?thesis
    using True d ok 1 2
    by (simp add: unpack_mid_def opal_dss_unpack_name_def dss_ok_def words_32_def zip_map_fst_snd
        mid_recv_def mid_bytes_def js_def vs_def)
qed

interpretation mid: dss_dispatch pack_mid mid_bytes mid_ok unpack_mid data_length "\<lambda>_. mid_recv"
  by unfold_locales (simp_all add: mid_packs mid_unpacks)

end
