(* ===== verification/Dss_Messages.thy ===== *)
theory Dss_Messages
  imports Dss_Round_Trip
begin

text \<open>
  Round trips of values, statistics and buffers, the dispatch over all types, and the entry points
  \<^verbatim>\<open>opal_dss_pack\<close> and \<^verbatim>\<open>opal_dss_unpack\<close>, on single items and on sequences of items.
\<close>

section \<open>Repetition\<close>

lemma packs_each_desc:
  assumes "buf_ok b" "ob_base b"
    "\<And>x b. x \<in> set xs \<Longrightarrow> buf_ok b \<Longrightarrow> ob_base b \<Longrightarrow> packs (f b x) b (g (ob_desc b) x)"
  shows "packs (pack_each f b xs) b (concat (map (g (ob_desc b)) xs))"
proof (rule packs_each [OF assms(1,2)])
  fix x b' assume "x \<in> set xs" "buf_ok b'" "ob_base b'" "ob_desc b' = ob_desc b"
  then show "packs (f b' x) b' (g (ob_desc b) x)"
    using assms(3) [of x b'] by simp
qed simp

lemma unpack_each_desc:
  assumes "\<And>x b rest. x \<in> set xs \<Longrightarrow> unread b (g (ob_desc b) x @ rest) \<Longrightarrow>
             h b = Ret (OPAL_SUCCESS, [r x], skip (length (g (ob_desc b) x)) b)"
    "unread b (concat (map (g (ob_desc b)) xs) @ rest)"
  shows "unpack_each h b (length xs) =
           Ret (OPAL_SUCCESS, map r xs, skip (length (concat (map (g (ob_desc b)) xs))) b)"
  by (rule unpack_each_ok [OF _ assms(2)]) (use assms(1) in auto)

section \<open>Values\<close>

definition value_field_bytes :: "bool \<Rightarrow> byte \<Rightarrow> dss_data \<Rightarrow> byte list" where
  "value_field_bytes desc t d =
     (if value_scalar t then tagged mid_bytes desc t d
      else if t = OPAL_BYTE_OBJECT then leaf_bytes F_byte_object d
      else tagged mid_bytes desc OPAL_INT32 (D32 [of_nat (data_length d)]) @
           tagged mid_bytes desc (the (value_elem t)) d)"

definition value_bytes :: "bool \<Rightarrow> opal_value \<Rightarrow> byte list" where
  "value_bytes desc v =
     str_bytes (ov_key v) @ tagged (\<lambda>_. leaf_bytes) desc OPAL_DATA_TYPE_T (D8 [ov_type v]) @
     value_field_bytes desc (ov_type v) (ov_data v)"

text \<open>Values that can be packed, and those of them that can be unpacked: arrays only when empty.\<close>

definition value_data_ok :: "byte \<Rightarrow> dss_data \<Rightarrow> bool" where
  "value_data_ok t d \<longleftrightarrow>
     (if value_scalar t then data_length d = 1 \<and> type_ok mid_ok t d
      else if t = OPAL_BYTE_OBJECT then data_length d = 1 \<and> leaf_ok F_byte_object d
      else (case value_elem t of None \<Rightarrow> False | Some e \<Rightarrow> type_ok mid_ok e d))"

definition value_packable :: "opal_value \<Rightarrow> bool" where
  "value_packable v \<longleftrightarrow> str_ok (ov_key v) \<and> value_data_ok (ov_type v) (ov_data v)"

definition value_ok :: "opal_value \<Rightarrow> bool" where
  "value_ok v \<longleftrightarrow> value_packable v \<and> (value_elem (ov_type v) \<noteq> None \<longrightarrow> data_length (ov_data v) = 0)"

definition value_recv :: "opal_value \<Rightarrow> opal_value" where
  "value_recv v =
     v\<lparr>ov_key := str_recv (ov_key v),
       ov_data := (if value_scalar (ov_type v) then mid_recv (the (opal_dss_types (ov_type v))) (ov_data v)
                   else ov_data v)\<rparr>"

lemma mid_ok_length: "mid_ok fn d \<Longrightarrow> data_length d < 2 ^ 31"
  by (cases d) (auto simp: mid_ok_def split: if_splits)

lemma type_ok_length: "type_ok mid_ok t d \<Longrightarrow> data_length d < 2 ^ 31"
  by (auto simp: type_ok_def dest: mid_ok_length split: option.splits)

lemma type_ok_int32 [simp]: "type_ok mid_ok OPAL_INT32 (D32 [w])"
  by (simp add: type_ok_def mid_ok_def real_fn_def)

lemma value_data_cases:
  assumes "value_data_ok t d"
  obtains (scalar) "value_scalar t" "data_length d = 1" "type_ok mid_ok t d"
  | (object) bo where "\<not> value_scalar t" "t = OPAL_BYTE_OBJECT" "d = DBo [bo]" "length bo < 2 ^ 31"
  | (array) e where "\<not> value_scalar t" "t \<noteq> OPAL_BYTE_OBJECT" "t \<noteq> OPAL_PTR" "value_elem t = Some e" "type_ok mid_ok e d"
proof (cases "value_scalar t")
  case True
  then show ?thesis
    using assms scalar by (simp add: value_data_ok_def)
next
  case no: False
  show ?thesis
  proof (cases "t = OPAL_BYTE_OBJECT")
    case True
    then show ?thesis
      using assms no object by (cases d) (auto simp: value_data_ok_def length_Suc_conv)
  next
    case False
    moreover have "value_elem OPAL_PTR = None"
      by (simp add: value_elem_def)
    ultimately show ?thesis
      using assms no array by (cases "t = OPAL_PTR") (auto simp: value_data_ok_def split: option.splits)
  qed
qed

lemma packs_value_field:
  assumes "dss_ok cfg" "buf_ok b" "ob_base b" "value_data_ok t d"
  shows "packs (pack_value_field cfg b t d) b (value_field_bytes (ob_desc b) t d)"
  using assms(4)
proof (cases rule: value_data_cases)
  case scalar
  then show ?thesis
    using mid.pack_buffer_ok [OF assms(1-3), of t d]
    by (simp add: pack_value_field_def value_field_bytes_def)
next
  case object
  then show ?thesis
    using packs_byte_object1 [OF assms(1-2)] by (simp add: pack_value_field_def value_field_bytes_def)
next
  case (array e)
  have "packs (pack_buffer_by pack_mid cfg b' d e) b' (tagged mid_bytes (ob_desc b) e d)"
    if "appended b bs b'" for b' bs
    using mid.pack_buffer_ok [OF assms(1), of b' e d] array that assms(3) by (simp add: appended_def)
  then show ?thesis
    using array packs_and_then [OF mid.pack_buffer_ok [OF assms(1-3) type_ok_int32 [of "of_nat (data_length d)"]]]
    by (simp add: pack_value_field_def value_field_bytes_def)
qed

lemma packs_value1:
  assumes "dss_ok cfg" "buf_ok b" "ob_base b" "value_packable v"
  shows "packs (pack_value1 cfg b v) b (value_bytes (ob_desc b) v)"
proof -
  have key: "packs (opal_dss_pack_string cfg b [ov_key v]) b (str_bytes (ov_key v))"
    using packs_string [OF assms(1-3), of "[ov_key v]"] assms(4) by (simp add: value_packable_def)
  have "packs (opal_dss_pack_data_type cfg b' (D8 [ov_type v])) b'
      (tagged (\<lambda>_. leaf_bytes) (ob_desc b) OPAL_DATA_TYPE_T (D8 [ov_type v]))"
    if "appended b bs b'" for b' bs
    using leaf.pack_buffer_ok [OF assms(1), of b' OPAL_DATA_TYPE_T "D8 [ov_type v]"] that assms(3)
    by (simp add: opal_dss_pack_data_type_def appended_def)
  moreover have "packs (pack_value_field cfg b'' (ov_type v) (ov_data v)) b''
      (value_field_bytes (ob_desc b) (ov_type v) (ov_data v))"
    if "appended b bs b'" "appended b' cs b''" for b' b'' bs cs
    using packs_value_field [OF assms(1), of b''] assms(4) that assms(3)
    by (simp add: appended_def value_packable_def)
  ultimately show ?thesis
    unfolding pack_value1_def value_bytes_def by (intro packs_and_then [OF key] packs_and_then)
qed

lemma unpack_value_field_ok:
  assumes "dss_ok cfg" "value_data_ok t d" "value_elem t \<noteq> None \<longrightarrow> data_length d = 0"
    "unread b (value_field_bytes (ob_desc b) t d @ rest)"
  shows "unpack_value_field cfg b t =
           Ret (OPAL_SUCCESS, if value_scalar t then mid_recv (the (opal_dss_types t)) d else d,
                skip (length (value_field_bytes (ob_desc b) t d)) b)"
  using assms(2)
proof (cases rule: value_data_cases)
  case scalar
  then show ?thesis
    using mid.unpack_buffer_ok [OF assms(1), of t d b rest "D8 []"] assms(4)
    by (simp add: unpack_value_field_def value_field_bytes_def)
next
  case (object bo)
  then show ?thesis
    using unpack_object_bytes_ok [of cfg b bo rest] assms(1,4)
    by (simp add: unpack_value_field_def value_field_bytes_def unpacked_as_def dss_ok_def)
next
  case (array e)
  then have d: "data_length d = 0"
    using assms(3) by simp
  define hd_bytes where "hd_bytes = tagged mid_bytes (ob_desc b) OPAL_INT32 (D32 [0])"
  have r: "unread b (hd_bytes @ tagged mid_bytes (ob_desc b) e d @ rest)"
    using array d assms(4) by (simp add: value_field_bytes_def hd_bytes_def)
  have "unpack_mid_buffer cfg b 1 OPAL_INT32 = Ret (OPAL_SUCCESS, D32 [0], skip (length hd_bytes) b)"
    using mid.unpack_buffer_ok [OF assms(1) type_ok_int32, of b 0 _ "D8 []"] r
    by (simp add: hd_bytes_def mid_recv_def real_fn_def)
  moreover have "unpack_mid_buffer cfg (skip (length hd_bytes) b) 0 e =
      Ret (OPAL_SUCCESS, mid_recv (the (opal_dss_types e)) d,
           skip (length hd_bytes + length (tagged mid_bytes (ob_desc b) e d)) b)"
    using mid.unpack_buffer_ok [OF assms(1), of e d "skip (length hd_bytes) b" rest "D8 []"] array d
      unread_skip [OF r] by simp
  moreover have "mid_recv fn d = d" for fn
    using d by (cases d) (simp_all add: mid_recv_def)
  ultimately show ?thesis
    using array d by (simp add: unpack_value_field_def unpack_value_array_def value_field_bytes_def
        words_32_def hd_bytes_def)
qed

lemma unpack_value1_ok:
  assumes "dss_ok cfg" "value_ok v" "unread b (value_bytes (ob_desc b) v @ rest)"
  shows "unpack_value1 cfg b = Ret (OPAL_SUCCESS, [value_recv v], skip (length (value_bytes (ob_desc b) v)) b)"
proof -
  define k t f where "k = str_bytes (ov_key v)"
    and "t = tagged (\<lambda>_. leaf_bytes) (ob_desc b) OPAL_DATA_TYPE_T (D8 [ov_type v])"
    and "f = value_field_bytes (ob_desc b) (ov_type v) (ov_data v)"
  have v: "str_ok (ov_key v)" "value_data_ok (ov_type v) (ov_data v)"
      "value_elem (ov_type v) \<noteq> None \<longrightarrow> data_length (ov_data v) = 0"
    using assms(2) by (auto simp: value_ok_def value_packable_def)
  have r: "unread b (k @ t @ f @ rest)"
    using assms(3) by (simp add: value_bytes_def k_def t_def f_def)
  note r1 = unread_skip [OF r]
  note r2 = unread_skip [OF r1]
  have 1: "opal_dss_unpack_string cfg b 1 = Ret (OPAL_SUCCESS, [str_recv (ov_key v)], skip (length k) b)"
    using unpack_string_ok [OF assms(1), of "[ov_key v]" b] r v(1) by (simp add: k_def)
  have 2: "opal_dss_unpack_data_type cfg (skip (length k) b) 1 =
      Ret (OPAL_SUCCESS, D8 [ov_type v], skip (length k + length t) b)"
    using leaf.unpack_buffer_ok [OF assms(1), of OPAL_DATA_TYPE_T "D8 [ov_type v]" "skip (length k) b" "f @ rest" "D8 []"] r1
    by (simp add: opal_dss_unpack_data_type_def t_def)
  have 3: "unpack_value_field cfg (skip (length k + length t) b) (ov_type v) =
      Ret (OPAL_SUCCESS, ov_data (value_recv v), skip (length k + length t + length f) b)"
    using unpack_value_field_ok [OF assms(1) v(2,3), of "skip (length k + length t) b" rest] r2
    by (simp add: f_def value_recv_def add.assoc)
  show ?thesis
    using 1 2 3 assms(1) by (simp add: unpack_value1_def dss_ok_def bytes_of_def value_bytes_def
        k_def t_def f_def value_recv_def Let_def add.assoc)
qed

section \<open>Fields of statistics\<close>

fun field_bytes :: "bool \<Rightarrow> dss_field \<Rightarrow> byte list" where
  "field_bytes desc (tg, t, d) = (if tg then tagged mid_bytes desc t d else leaf_bytes F_float d)"

definition fixed_ok :: "byte list \<Rightarrow> bool" where
  "fixed_ok blk \<longleftrightarrow> 0 \<in> set blk \<and> str_len blk \<le> OPAL_PSTAT_MAX_STRING_LEN"

definition fixed_recv :: "byte list \<Rightarrow> byte list" where
  "fixed_recv blk = takeWhile (\<lambda>c. c \<noteq> 0) blk @ replicate (OPAL_PSTAT_MAX_STRING_LEN - str_len blk) 0"

text \<open>A field and the way it is read back.\<close>

fun field_ok :: "field_kind \<Rightarrow> dss_field \<Rightarrow> bool" where
  "field_ok (Tagged t') (tg, t, d) = (tg \<and> t = t' \<and> data_length d = 1 \<and> type_ok mid_ok t d)"
| "field_ok Raw_float (tg, t, d) = (\<not> tg \<and> data_length d = 1 \<and> leaf_ok F_float d)"
| "field_ok Fixed_string (tg, t, d) = (tg \<and> t = OPAL_STRING \<and> (\<exists>blk. d = DStr [Some blk] \<and> fixed_ok blk))"

fun field_recv :: "field_kind \<Rightarrow> dss_field \<Rightarrow> dss_data" where
  "field_recv (Tagged t') (tg, t, d) = mid_recv (the (opal_dss_types t)) d"
| "field_recv Raw_float (tg, t, d) = leaf_recv F_float d"
| "field_recv Fixed_string (tg, t, d) = (case d of DStr [Some blk] \<Rightarrow> D8 (fixed_recv blk) | _ \<Rightarrow> d)"

lemma types_string [simp]: "opal_dss_types OPAL_STRING = Some F_string"
  by (simp add: dss_table)

lemma fixed_type_ok: "fixed_ok blk \<Longrightarrow> type_ok mid_ok OPAL_STRING (DStr [Some blk])"
  by (simp add: fixed_ok_def type_ok_def mid_ok_def real_fn_def str_ok_def OPAL_PSTAT_MAX_STRING_LEN_def)

lemma fixed_string_recv:
  "fixed_ok blk \<Longrightarrow> fixed_string (DStr [str_recv (Some blk)]) = Some (fixed_recv blk)"
proof -
  assume "fixed_ok blk"
  moreover have "takeWhile (\<lambda>c. c \<noteq> 0) (takeWhile (\<lambda>c. c \<noteq> 0) blk @ [0]) = takeWhile (\<lambda>c. c \<noteq> 0) blk"
    by (rule takeWhile_nonzero_block) (auto dest: set_takeWhileD)
  ultimately show ?thesis
    by (simp add: fixed_string_def str_recv_def fixed_recv_def fixed_ok_def str_len_def Let_def)
qed

lemma packs_field:
  assumes "dss_ok cfg" "buf_ok b" "ob_base b" "field_ok k f"
  shows "packs (pack_field cfg b f) b (field_bytes (ob_desc b) f)"
proof -
  obtain tg t d where f: "f = (tg, t, d)"
    by (cases f)
  have "if tg then type_ok mid_ok t d else leaf_ok F_float d"
    using assms(4) f fixed_type_ok by (cases k) auto
  then show ?thesis
    using mid.pack_buffer_ok [OF assms(1-3), of t d] leaf_packs [OF assms(1-3), of F_float d] f
    by (simp add: pack_field_def split: if_splits)
qed

lemma unpack_field_ok:
  assumes "dss_ok cfg" "field_ok k f" "unread b (field_bytes (ob_desc b) f @ rest)"
  shows "unpack_field cfg b k = Ret (OPAL_SUCCESS, field_recv k f, skip (length (field_bytes (ob_desc b) f)) b)"
proof -
  obtain tg t d where f: "f = (tg, t, d)"
    by (cases f)
  show ?thesis
  proof (cases k)
    case (Tagged t')
    then show ?thesis
      using mid.unpack_buffer_ok [OF assms(1), of t d b rest "D8 []"] assms(2,3) f by (auto simp: unpack_field_def)
  next
    case Raw_float
    then show ?thesis
      using leaf_unpacks [OF assms(1), of F_float d b rest] assms(2,3) f by (simp add: unpack_field_def)
  next
    case Fixed_string
    then obtain blk where d: "tg" "t = OPAL_STRING" "d = DStr [Some blk]" "fixed_ok blk"
      using assms(2) f by auto
    then show ?thesis
      using mid.unpack_buffer_ok [OF assms(1) fixed_type_ok [OF d(4)], of b rest "D8 []"] assms(3) f Fixed_string
        fixed_string_recv [OF d(4)]
      by (simp add: unpack_field_def mid_recv_def real_fn_def)
  qed
qed

lemma unpack_fields_ok:
  assumes "dss_ok cfg" "list_all2 field_ok ks fs"
    "unread b (concat (map (field_bytes (ob_desc b)) fs) @ rest)"
  shows "unpack_fields cfg b ks =
           Ret (OPAL_SUCCESS, map2 field_recv ks fs, skip (length (concat (map (field_bytes (ob_desc b)) fs))) b)"
  using assms(2,3)
proof (induction ks fs arbitrary: b rule: list_all2_induct)
  case (Cons k ks f fs)
  have r: "unread b (field_bytes (ob_desc b) f @ concat (map (field_bytes (ob_desc b)) fs) @ rest)"
    using Cons.prems by simp
  show ?case
    using unpack_field_ok [OF assms(1) Cons.hyps(1) r] Cons.IH [of "skip (length (field_bytes (ob_desc b) f)) b"]
      unread_skip [OF r] by simp
qed simp

lemma packs_fields:
  assumes "dss_ok cfg" "buf_ok b" "ob_base b" "list_all2 field_ok ks fs"
  shows "packs (pack_each (pack_field cfg) b fs) b (concat (map (field_bytes (ob_desc b)) fs))"
proof (rule packs_each_desc [OF assms(2,3)])
  fix f b' assume "f \<in> set fs" and b': "buf_ok b'" "ob_base b'"
  then obtain k where "field_ok k f"
    using assms(4) by (metis in_set_conv_nth list_all2_conv_all_nth)
  from packs_field [OF assms(1) b' this] show "packs (pack_field cfg b' f) b' (field_bytes (ob_desc b') f)" .
qed

section \<open>Process statistics\<close>

definition pstat_bytes :: "bool \<Rightarrow> opal_pstats \<Rightarrow> byte list" where
  "pstat_bytes desc s = concat (map (field_bytes desc) (pstat_fields s))"

definition pstat_ok :: "opal_pstats \<Rightarrow> bool" where
  "pstat_ok s \<longleftrightarrow>
     fixed_ok (ps_node s) \<and> fixed_ok (ps_cmd s) \<and> num_ok (ps_vsize s) \<and> num_ok (ps_rss s) \<and> num_ok (ps_peak_vsize s)"

abbreviation float_recv :: "rat \<Rightarrow> rat" where
  "float_recv x \<equiv> float_round (six_decimals x)"

text \<open>What arrives: \<^verbatim>\<open>percent_cpu\<close> is lost, the sizes are rounded.\<close>

definition pstat_recv :: "opal_pstats \<Rightarrow> opal_pstats" where
  "pstat_recv s =
     s\<lparr>ps_node := fixed_recv (ps_node s), ps_cmd := fixed_recv (ps_cmd s), ps_percent_cpu := 0,
       ps_vsize := float_recv (ps_vsize s), ps_rss := float_recv (ps_rss s),
       ps_peak_vsize := float_recv (ps_peak_vsize s)\<rparr>"

lemma types_stats [simp]:
  "opal_dss_types OPAL_PID = Some F_pid" "opal_dss_types OPAL_BYTE = Some F_byte"
  "opal_dss_types OPAL_TIMEVAL = Some F_timeval" "opal_dss_types OPAL_INT16 = Some F_int16"
  by (simp_all add: dss_table)

lemma pstat_fields_ok: "pstat_ok s \<Longrightarrow> list_all2 field_ok pstat_kinds (pstat_fields s)"
  by (simp add: pstat_ok_def pstat_kinds_def pstat_fields_def type_ok_def mid_ok_def real_fn_def)

lemma pstat_of_recv: "pstat_of (map2 field_recv pstat_kinds (pstat_fields s)) = pstat_recv s"
  by (simp add: pstat_of_def pstat_kinds_def pstat_fields_def mid_recv_def real_fn_def pstat_recv_def
      bytes_of_def word32_of_def word16_of_def timeval_of_def float_of_data_def)

lemma unpack_pstat1_ok:
  assumes "dss_ok cfg" "pstat_ok s" "unread b (pstat_bytes (ob_desc b) s @ rest)"
  shows "unpack_pstat1 cfg b = Ret (OPAL_SUCCESS, [pstat_recv s], skip (length (pstat_bytes (ob_desc b) s)) b)"
  using unpack_fields_ok [OF assms(1) pstat_fields_ok [OF assms(2)], of b rest] assms(1,3)
  by (simp add: unpack_pstat1_def dss_ok_def pstat_bytes_def pstat_of_recv)

section \<open>Node statistics\<close>

definition counter_fields :: "byte list option \<Rightarrow> 64 word list \<Rightarrow> dss_field list" where
  "counter_fields name cs = (True, OPAL_STRING, DStr [name]) # map (\<lambda>c. (True, OPAL_UINT64, D64 [c])) cs"

definition counter_bytes :: "bool \<Rightarrow> byte list option \<Rightarrow> 64 word list \<Rightarrow> byte list" where
  "counter_bytes desc name cs = concat (map (field_bytes desc) (counter_fields name cs))"

abbreviation disk_bytes :: "bool \<Rightarrow> opal_diskstats \<Rightarrow> byte list" where
  "disk_bytes desc dk \<equiv> counter_bytes desc (dk_disk dk) (disk_counts dk)"

abbreviation net_bytes :: "bool \<Rightarrow> opal_netstats \<Rightarrow> byte list" where
  "net_bytes desc ns \<equiv> counter_bytes desc (ns_net_interface ns) (net_counts ns)"

abbreviation int32_field :: "nat \<Rightarrow> dss_field" where
  "int32_field n \<equiv> (True, OPAL_INT32, D32 [of_nat n])"

definition node_fields :: "opal_node_stats \<Rightarrow> dss_field list" where
  "node_fields s =
     map (\<lambda>x. (False, OPAL_FLOAT, DFloat [x])) (node_loads s) @ [(True, OPAL_TIMEVAL, DTimeval [nd_sample_time s])]"

definition node_bytes :: "bool \<Rightarrow> opal_node_stats \<Rightarrow> byte list" where
  "node_bytes desc s =
     concat (map (field_bytes desc) (node_fields s)) @
     field_bytes desc (int32_field (length (nd_diskstats s))) @ concat (map (disk_bytes desc) (nd_diskstats s)) @
     field_bytes desc (int32_field (length (nd_netstats s))) @ concat (map (net_bytes desc) (nd_netstats s))"

definition node_ok :: "opal_node_stats \<Rightarrow> bool" where
  "node_ok s \<longleftrightarrow>
     list_all num_ok (node_loads s) \<and> length (nd_diskstats s) < 2 ^ 31 \<and> length (nd_netstats s) < 2 ^ 31 \<and>
     list_all (\<lambda>dk. str_ok (dk_disk dk)) (nd_diskstats s) \<and>
     list_all (\<lambda>ns. str_ok (ns_net_interface ns)) (nd_netstats s)"

definition node_recv :: "opal_node_stats \<Rightarrow> opal_node_stats" where
  "node_recv s =
     node_stat_of (map float_recv (node_loads s)) (nd_sample_time s)
       (map (\<lambda>dk. dk\<lparr>dk_disk := str_recv (dk_disk dk)\<rparr>) (nd_diskstats s))
       (map (\<lambda>ns. ns\<lparr>ns_net_interface := str_recv (ns_net_interface ns)\<rparr>) (nd_netstats s))"

lemma counter_fields_ok:
  "str_ok name \<Longrightarrow>
     list_all2 field_ok (Tagged OPAL_STRING # replicate (length cs) (Tagged OPAL_UINT64)) (counter_fields name cs)"
  by (induction cs) (simp_all add: counter_fields_def type_ok_def mid_ok_def real_fn_def)

lemma unpack_counters_ok:
  assumes "dss_ok cfg" "str_ok name" "unread b (counter_bytes (ob_desc b) name cs @ rest)"
  shows "unpack_counters (length cs) build cfg b =
           Ret (OPAL_SUCCESS, [build (str_recv name) cs], skip (length (counter_bytes (ob_desc b) name cs)) b)"
proof -
  have "map2 field_recv (replicate (length cs) (Tagged OPAL_UINT64)) (map (\<lambda>c. (True, OPAL_UINT64, D64 [c])) cs) =
      map (\<lambda>c. D64 [c]) cs"
    by (induction cs) (simp_all add: mid_recv_def real_fn_def)
  then show ?thesis
    using unpack_fields_ok [OF assms(1) counter_fields_ok [OF assms(2)], of b cs rest] assms(3)
    by (simp add: unpack_counters_def counter_bytes_def counter_fields_def mid_recv_def real_fn_def
        string_of_data_def word64_of_def comp_def)
qed

lemma unpack_counted_ok:
  assumes "dss_ok cfg" "length xs < 2 ^ 31"
    "\<And>x b rest. x \<in> set xs \<Longrightarrow> ob_desc b = d \<Longrightarrow> unread b (g x @ rest) \<Longrightarrow>
       f b = Ret (OPAL_SUCCESS, [r x], skip (length (g x)) b)"
    "ob_desc b = d" "unread b (field_bytes d (int32_field (length xs)) @ concat (map g xs) @ rest)"
  shows "unpack_counted f cfg b =
           Ret (OPAL_SUCCESS, map r xs,
                skip (length (field_bytes d (int32_field (length xs)) @ concat (map g xs))) b)"
proof -
  define h where "h = field_bytes d (int32_field (length xs))"
  have "unpack_field cfg b (Tagged OPAL_INT32) = Ret (OPAL_SUCCESS, D32 [of_nat (length xs)], skip (length h) b)"
    using unpack_field_ok [OF assms(1), of "Tagged OPAL_INT32" "int32_field (length xs)" b] assms(4,5)
    by (simp add: mid_recv_def real_fn_def h_def)
  moreover have "unpack_each f (skip (length h) b) (length xs) =
      Ret (OPAL_SUCCESS, map r xs, skip (length (concat (map g xs))) (skip (length h) b))"
    using unpack_each_ok [of xs d g f r "skip (length h) b" rest] assms(3,4) unread_skip [OF assms(5)]
    by (simp add: h_def)
  ultimately show ?thesis
    using assms(2) by (simp add: unpack_counted_def word32_of_def sint_of_nat32 h_def)
qed

lemma packs_counters:
  assumes "dss_ok cfg" "buf_ok b" "ob_base b" "str_ok name"
  shows "packs (pack_each (pack_field cfg) b (counter_fields name cs)) b (counter_bytes (ob_desc b) name cs)"
  using packs_fields [OF assms(1-3) counter_fields_ok [OF assms(4), of cs]] by (simp add: counter_bytes_def)

lemma replicate_11: "replicate 11 x = [x, x, x, x, x, x, x, x, x, x, x]"
  by (simp add: eval_nat_numeral)

lemma node_fields_ok:
  "node_ok s \<Longrightarrow> list_all2 field_ok (replicate 11 Raw_float @ [Tagged OPAL_TIMEVAL]) (node_fields s)"
  by (simp add: node_ok_def node_fields_def node_loads_def type_ok_def mid_ok_def real_fn_def replicate_11)

lemma pack_each_append: "pack_each f b (xs @ ys) = and_then (pack_each f b xs) (\<lambda>b. pack_each f b ys)"
proof (induction xs arbitrary: b)
  case Nil
  then show ?case
    by (simp add: and_then_def)
next
  case (Cons x xs)
  then show ?case
    by (cases "f b x") (auto simp: and_then_def)
qed

lemma packs_disks:
  assumes "dss_ok cfg" "buf_ok b" "ob_base b" "node_ok s"
  shows "packs (pack_each (pack_disk_stats cfg) b (nd_diskstats s)) b
           (concat (map (disk_bytes (ob_desc b)) (nd_diskstats s)))"
    "packs (pack_each (pack_net_stats cfg) b (nd_netstats s)) b
           (concat (map (net_bytes (ob_desc b)) (nd_netstats s)))"
  unfolding pack_disk_stats_def pack_net_stats_def counter_fields_def [symmetric]
  by (rule packs_each_desc [OF assms(2,3)], rule packs_counters [OF assms(1)];
      use assms(4) in \<open>simp add: node_ok_def list_all_iff\<close>)+

lemma packs_node_stat1:
  assumes ok: "dss_ok cfg" "buf_ok b" "ob_base b" and s: "node_ok s"
  shows "packs (pack_node_stat1 cfg b s) b (node_bytes (ob_desc b) s)"
proof -
  let ?d = "ob_desc b"
  have same: "buf_ok b'" "ob_base b'" "ob_desc b' = ?d" if "appended b bs b'" for b' bs
    using that ok(3) by (auto simp: appended_def)
  have int32: "packs (pack_field cfg b' (int32_field n)) b' (field_bytes ?d (int32_field n))"
    if "appended b bs b'" for b' bs n
    using packs_field [OF ok(1), of b' "Tagged OPAL_INT32" "int32_field n"] same [OF that] by simp
  have fields: "packs (pack_each (pack_field cfg) b (node_fields s @ [int32_field (length (nd_diskstats s))])) b
      (concat (map (field_bytes ?d) (node_fields s)) @ field_bytes ?d (int32_field (length (nd_diskstats s))))"
    using packs_fields [OF ok list_all2_appendI [OF node_fields_ok [OF s]],
        of "[Tagged OPAL_INT32]" "[int32_field (length (nd_diskstats s))]"]
    by simp
  have disks: "packs (pack_each (pack_disk_stats cfg) b' (nd_diskstats s)) b'
      (concat (map (disk_bytes ?d) (nd_diskstats s)))"
    "packs (pack_each (pack_net_stats cfg) b' (nd_netstats s)) b'
      (concat (map (net_bytes ?d) (nd_netstats s)))" if "appended b bs b'" for b' bs
    using packs_disks [OF ok(1) same(1) [OF that] same(2) [OF that] s] same(3) [OF that] by simp_all
  have "packs (and_then (pack_each (pack_disk_stats cfg) b1 (nd_diskstats s)) (\<lambda>b2.
          and_then (pack_field cfg b2 (int32_field (length (nd_netstats s)))) (\<lambda>b3.
            pack_each (pack_net_stats cfg) b3 (nd_netstats s)))) b1
      (concat (map (disk_bytes ?d) (nd_diskstats s)) @
       field_bytes ?d (int32_field (length (nd_netstats s))) @ concat (map (net_bytes ?d) (nd_netstats s)))"
    if "appended b bs b1" for b1 bs
    by (intro packs_and_then disks int32) (use that appended_trans in blast)+
  from packs_and_then [OF fields this] show ?thesis
    by (simp add: pack_node_stat1_def node_bytes_def node_fields_def)
qed

lemma unpack_disk_ok:
  assumes "dss_ok cfg" "str_ok (dk_disk dk)" "unread b (disk_bytes (ob_desc b) dk @ rest)"
  shows "unpack_counters 11 disk_stat_of cfg b =
           Ret (OPAL_SUCCESS, [dk\<lparr>dk_disk := str_recv (dk_disk dk)\<rparr>], skip (length (disk_bytes (ob_desc b) dk)) b)"
proof -
  have "length (disk_counts dk) = 11" "disk_stat_of name (disk_counts dk) = dk\<lparr>dk_disk := name\<rparr>" for name
    by (simp_all add: disk_counts_def disk_stat_of_def)
  then show ?thesis
    using unpack_counters_ok [OF assms, of disk_stat_of] by simp
qed

lemma unpack_net_ok:
  assumes "dss_ok cfg" "str_ok (ns_net_interface ns)" "unread b (net_bytes (ob_desc b) ns @ rest)"
  shows "unpack_counters 6 net_stat_of cfg b =
           Ret (OPAL_SUCCESS, [ns\<lparr>ns_net_interface := str_recv (ns_net_interface ns)\<rparr>],
                skip (length (net_bytes (ob_desc b) ns)) b)"
proof -
  have "length (net_counts ns) = 6" "net_stat_of name (net_counts ns) = ns\<lparr>ns_net_interface := name\<rparr>" for name
    by (simp_all add: net_counts_def net_stat_of_def)
  then show ?thesis
    using unpack_counters_ok [OF assms, of net_stat_of] by simp
qed

lemma unpack_node_stat1_ok:
  assumes ok: "dss_ok cfg" and s: "node_ok s" and r: "unread b (node_bytes (ob_desc b) s @ rest)"
  shows "unpack_node_stat1 cfg b = Ret (OPAL_SUCCESS, [node_recv s], skip (length (node_bytes (ob_desc b) s)) b)"
proof -
  define f dk nt where "f = concat (map (field_bytes (ob_desc b)) (node_fields s))"
    and "dk = field_bytes (ob_desc b) (int32_field (length (nd_diskstats s))) @
      concat (map (disk_bytes (ob_desc b)) (nd_diskstats s))"
    and "nt = field_bytes (ob_desc b) (int32_field (length (nd_netstats s))) @
      concat (map (net_bytes (ob_desc b)) (nd_netstats s))"
  have r: "unread b (f @ dk @ nt @ rest)"
    using r by (simp add: node_bytes_def f_def dk_def nt_def)
  note r1 = unread_skip [OF r]
  note r2 = unread_skip [OF r1]
  have 1: "unpack_fields cfg b (replicate 11 Raw_float @ [Tagged OPAL_TIMEVAL]) =
      Ret (OPAL_SUCCESS, map (\<lambda>x. DFloat [float_recv x]) (node_loads s) @ [DTimeval [nd_sample_time s]],
           skip (length f) b)"
    using unpack_fields_ok [OF ok node_fields_ok [OF s], of b] r
    by (simp add: f_def node_fields_def node_loads_def replicate_11 mid_recv_def real_fn_def)
  have 2: "unpack_disk_stats cfg (skip (length f) b) =
      Ret (OPAL_SUCCESS, map (\<lambda>dk. dk\<lparr>dk_disk := str_recv (dk_disk dk)\<rparr>) (nd_diskstats s),
           skip (length dk) (skip (length f) b))"
    unfolding unpack_disk_stats_def dk_def
    by (rule unpack_counted_ok [OF ok])
       (use s r1 unpack_disk_ok [OF ok] in \<open>auto simp: node_ok_def list_all_iff dk_def\<close>)
  have 3: "unpack_net_stats cfg (skip (length dk) (skip (length f) b)) =
      Ret (OPAL_SUCCESS, map (\<lambda>ns. ns\<lparr>ns_net_interface := str_recv (ns_net_interface ns)\<rparr>) (nd_netstats s),
           skip (length nt) (skip (length dk) (skip (length f) b)))"
    unfolding unpack_net_stats_def nt_def
    by (rule unpack_counted_ok [OF ok])
       (use s r2 unpack_net_ok [OF ok] in \<open>auto simp: node_ok_def list_all_iff nt_def\<close>)
  have "length (node_bytes (ob_desc b) s) = length f + length dk + length nt"
    by (simp add: node_bytes_def f_def dk_def nt_def)
  then show ?thesis
    using 1 2 3 ok by (simp add: unpack_node_stat1_def dss_ok_def node_recv_def node_loads_def float_of_data_def
        timeval_of_def add.assoc)
qed

section \<open>Buffers\<close>

definition contents_bytes :: "opal_buffer \<Rightarrow> byte list" where
  "contents_bytes src = DSS_TYPE_SIZE_T # hton 8 (of_nat (length (ob_bytes src)) :: 64 word) @ ob_bytes src"

definition contents_ok :: "opal_buffer \<Rightarrow> bool" where
  "contents_ok src \<longleftrightarrow> length (ob_bytes src) < 2 ^ 31"

text \<open>A fresh buffer of the default type with the bytes of the source, unread.\<close>

definition contents_recv :: "dss_params \<Rightarrow> opal_buffer \<Rightarrow> opal_buffer" where
  "contents_recv cfg src =
     (let new = opal_buffer_construct (default_buf_type cfg) in
      if ob_bytes src = [] then new
      else new\<lparr>ob_base := True, ob_pack := True, ob_bytes := ob_bytes src, ob_allocated := length (ob_bytes src)\<rparr>)"

lemma packs_contents1:
  assumes "dss_ok cfg" "buf_ok b" "ob_base b"
  shows "packs (pack_contents1 cfg b src) b (contents_bytes src)"
proof -
  have len: "packs (opal_dss_pack_sizet cfg b (D64 [of_nat (length (ob_bytes src))])) b
      (DSS_TYPE_SIZE_T # hton 8 (of_nat (length (ob_bytes src)) :: 64 word))"
    using packs_system [OF assms, of OPAL_UINT64 "D64 [of_nat (length (ob_bytes src))]"]
    by (simp add: opal_dss_pack_sizet_def)
  have "packs (if ob_bytes src \<noteq> [] then opal_dss_pack_byte cfg b' (ob_bytes src) else Ret (OPAL_SUCCESS, b')) b'
      (ob_bytes src)" if "appended b bs b'" for b' bs
    using packs_store [OF assms(1) appended_buf_ok [OF that], of "ob_bytes src"] packs_refl [OF appended_buf_ok [OF that]]
    by (auto simp: opal_dss_pack_byte_def)
  from packs_and_then [OF len this] show ?thesis
    by (simp add: pack_contents1_def contents_bytes_def)
qed

lemma unpack_contents1_ok:
  assumes "dss_ok cfg" "contents_ok src" "unread b (contents_bytes src @ rest)"
  shows "unpack_contents1 cfg b = Ret (OPAL_SUCCESS, [contents_recv cfg src], skip (length (contents_bytes src)) b)"
proof -
  define n where "n = length (ob_bytes src)"
  have n: "n < 2 ^ 31"
    using assms(2) by (simp add: contents_ok_def n_def)
  have un: "unat (of_nat n :: 64 word) = n"
    using n by (simp add: unat_of_nat)
  have ci: "c_int n = int n"
    using n by (simp add: c_int_def sint_of_nat32)
  have r: "unread b ((DSS_TYPE_SIZE_T # hton 8 (of_nat n :: 64 word)) @ ob_bytes src @ rest)"
    using assms(3) by (simp add: contents_bytes_def n_def)
  have "opal_dss_unpack_sizet cfg b 1 = Ret (OPAL_SUCCESS, D64 [of_nat n], skip 9 b)"
    using unpack_system_ok [OF assms(1), of OPAL_UINT64 "D64 [of_nat n]" b] r
    by (simp add: opal_dss_unpack_sizet_def)
  moreover have "opal_dss_unpack_byte (skip 9 b) (int n) = Ret (OPAL_SUCCESS, ob_bytes src, skip (9 + n) b)"
    using unpack_byte_ok(1) [of "skip 9 b" "ob_bytes src" rest] unread_skip [OF r] n by (simp add: n_def)
  moreover have "length (contents_bytes src) = 9 + n"
    by (simp add: contents_bytes_def n_def)
  ultimately show ?thesis
    using assms(1) un ci by (auto simp: unpack_contents1_def dss_ok_def word64_of_def contents_recv_def n_def Let_def)
qed

section \<open>All types\<close>

fun top_bytes :: "bool \<Rightarrow> dss_fn \<Rightarrow> dss_src \<Rightarrow> byte list" where
  "top_bytes desc fn (Plain d) = mid_bytes desc fn d"
| "top_bytes desc fn (Values vs) = concat (map (value_bytes desc) vs)"
| "top_bytes desc fn (Pstats ss) = concat (map (pstat_bytes desc) ss)"
| "top_bytes desc fn (Node_stats ss) = concat (map (node_bytes desc) ss)"
| "top_bytes desc fn (Buffers bs) = concat (map contents_bytes bs)"

fun top_ok :: "dss_fn \<Rightarrow> dss_src \<Rightarrow> bool" where
  "top_ok fn (Plain d) = (fn \<notin> {F_value, F_pstat, F_node_stat, F_buffer_contents} \<and> mid_ok fn d)"
| "top_ok fn (Values vs) = (fn = F_value \<and> list_all value_ok vs \<and> length vs < 2 ^ 31)"
| "top_ok fn (Pstats ss) = (fn = F_pstat \<and> list_all pstat_ok ss \<and> length ss < 2 ^ 31)"
| "top_ok fn (Node_stats ss) = (fn = F_node_stat \<and> list_all node_ok ss \<and> length ss < 2 ^ 31)"
| "top_ok fn (Buffers bs) = (fn = F_buffer_contents \<and> list_all contents_ok bs \<and> length bs < 2 ^ 31)"

fun top_recv :: "dss_params \<Rightarrow> dss_fn \<Rightarrow> dss_src \<Rightarrow> dss_src" where
  "top_recv cfg fn (Plain d) = Plain (mid_recv fn d)"
| "top_recv cfg fn (Values vs) = Values (map value_recv vs)"
| "top_recv cfg fn (Pstats ss) = Pstats (map pstat_recv ss)"
| "top_recv cfg fn (Node_stats ss) = Node_stats (map node_recv ss)"
| "top_recv cfg fn (Buffers bs) = Buffers (map (contents_recv cfg) bs)"

lemma unpacked_as_ok: "m = Ret (rc, xs, b) \<Longrightarrow> unpacked_as C m = Ret (rc, C xs, b)"
  by (simp add: unpacked_as_def)

lemma packs_pstat1:
  assumes "dss_ok cfg" "buf_ok b" "ob_base b" "pstat_ok s"
  shows "packs (pack_each (pack_field cfg) b (pstat_fields s)) b (pstat_bytes (ob_desc b) s)"
  unfolding pstat_bytes_def by (rule packs_fields [OF assms(1-3) pstat_fields_ok [OF assms(4)]])

text \<open>Everything that can be packed: arrays as well.\<close>

definition top_packable :: "dss_fn \<Rightarrow> dss_src \<Rightarrow> bool" where
  "top_packable fn src =
     (case src of
        Values vs \<Rightarrow> fn = F_value \<and> list_all value_packable vs \<and> length vs < 2 ^ 31
      | _ \<Rightarrow> top_ok fn src)"

lemma top_ok_packable: "top_ok fn src \<Longrightarrow> top_packable fn src"
  by (auto simp: top_packable_def value_ok_def list_all_iff split: dss_src.splits)

lemma top_packs:
  assumes ok: "dss_ok cfg" "buf_ok b" "ob_base b" and d: "top_packable fn src"
  shows "packs (pack_top fn cfg b src) b (top_bytes (ob_desc b) fn src)"
proof (cases src)
  case (Plain x)
  then show ?thesis
    using mid_packs [OF ok] d by (simp add: pack_top_def top_packable_def)
next
  case (Values vs)
  have "packs (opal_dss_pack_value cfg b vs) b (concat (map (value_bytes (ob_desc b)) vs))"
    unfolding opal_dss_pack_value_def
    by (rule packs_each_desc [OF ok(2,3)], rule packs_value1 [OF ok(1)])
       (use d Values in \<open>simp_all add: list_all_iff top_packable_def\<close>)
  then show ?thesis
    using d Values by (simp add: pack_top_def top_packable_def)
next
  case (Pstats ss)
  have "packs (opal_dss_pack_pstat cfg b ss) b (concat (map (pstat_bytes (ob_desc b)) ss))"
    unfolding opal_dss_pack_pstat_def
    by (rule packs_each_desc [OF ok(2,3)], rule packs_pstat1 [OF ok(1)])
       (use d Pstats in \<open>simp_all add: list_all_iff top_packable_def\<close>)
  then show ?thesis
    using d Pstats by (simp add: pack_top_def top_packable_def)
next
  case (Node_stats ss)
  have "packs (opal_dss_pack_node_stat cfg b ss) b (concat (map (node_bytes (ob_desc b)) ss))"
    unfolding opal_dss_pack_node_stat_def
    by (rule packs_each_desc [OF ok(2,3)], rule packs_node_stat1 [OF ok(1)])
       (use d Node_stats in \<open>simp_all add: list_all_iff top_packable_def\<close>)
  then show ?thesis
    using d Node_stats by (simp add: pack_top_def top_packable_def)
next
  case (Buffers bs)
  have "packs (opal_dss_pack_buffer_contents cfg b bs) b (concat (map contents_bytes bs))"
    unfolding opal_dss_pack_buffer_contents_def
    by (rule packs_each_desc [OF ok(2,3)], rule packs_contents1 [OF ok(1)])
  then show ?thesis
    using d Buffers by (simp add: pack_top_def top_packable_def)
qed

lemma top_unpacks:
  assumes ok: "dss_ok cfg" and d: "top_ok fn src" and r: "unread b (top_bytes (ob_desc b) fn src @ rest)"
  shows "unpack_top fn cfg b (int (src_length src)) =
           Ret (OPAL_SUCCESS, top_recv cfg fn src, skip (length (top_bytes (ob_desc b) fn src)) b)"
proof (cases src)
  case (Plain x)
  then have "unpack_mid fn cfg b (int (data_length x)) =
      Ret (OPAL_SUCCESS, mid_recv fn x, skip (length (mid_bytes (ob_desc b) fn x)) b)"
    using mid_unpacks [OF ok, of fn x b rest] d r by simp
  then show ?thesis
    using d Plain by (cases fn) (simp_all add: unpack_top_def)
next
  case (Values vs)
  have "opal_dss_unpack_value cfg b (int (length vs)) =
      Ret (OPAL_SUCCESS, map value_recv vs, skip (length (concat (map (value_bytes (ob_desc b)) vs))) b)"
    unfolding opal_dss_unpack_value_def nat_int
    by (rule unpack_each_desc, rule unpack_value1_ok [OF ok])
       (use d r Values in \<open>auto simp: list_all_iff\<close>)
  then show ?thesis
    using d Values by (simp add: unpack_top_def unpacked_as_ok)
next
  case (Pstats ss)
  have "opal_dss_unpack_pstat cfg b (int (length ss)) =
      Ret (OPAL_SUCCESS, map pstat_recv ss, skip (length (concat (map (pstat_bytes (ob_desc b)) ss))) b)"
    unfolding opal_dss_unpack_pstat_def nat_int
    by (rule unpack_each_desc, rule unpack_pstat1_ok [OF ok])
       (use d r Pstats in \<open>auto simp: list_all_iff\<close>)
  then show ?thesis
    using d Pstats by (simp add: unpack_top_def unpacked_as_ok)
next
  case (Node_stats ss)
  have "opal_dss_unpack_node_stat cfg b (int (length ss)) =
      Ret (OPAL_SUCCESS, map node_recv ss, skip (length (concat (map (node_bytes (ob_desc b)) ss))) b)"
    unfolding opal_dss_unpack_node_stat_def nat_int
    by (rule unpack_each_desc, rule unpack_node_stat1_ok [OF ok])
       (use d r Node_stats in \<open>auto simp: list_all_iff\<close>)
  then show ?thesis
    using d Node_stats by (simp add: unpack_top_def unpacked_as_ok)
next
  case (Buffers bs)
  have "opal_dss_unpack_buffer_contents cfg b (int (length bs)) =
      Ret (OPAL_SUCCESS, map (contents_recv cfg) bs, skip (length (concat (map contents_bytes bs))) b)"
    unfolding opal_dss_unpack_buffer_contents_def nat_int
    by (rule unpack_each_desc, rule unpack_contents1_ok [OF ok])
       (use d r Buffers in \<open>auto simp: list_all_iff\<close>)
  then show ?thesis
    using d Buffers by (simp add: unpack_top_def unpacked_as_ok)
qed

interpretation top_pack: dss_packing pack_top top_bytes top_packable
  by unfold_locales (simp add: top_packs)

interpretation top: dss_dispatch pack_top top_bytes top_ok unpack_top src_length top_recv
  by unfold_locales (simp_all add: top_packs top_unpacks top_ok_packable)

end
