(* ===== verification/Dss_Protocol.thy ===== *)
theory Dss_Protocol
  imports Dss_Messages
begin

text \<open>
  The entry points \<^verbatim>\<open>opal_dss_pack\<close> and \<^verbatim>\<open>opal_dss_unpack\<close> as a wire format: the sender packs a
  sequence of items, the receiver unpacks them in the same order.
\<close>

section \<open>Sequences of items\<close>

fun pack_all ::
  "(opal_buffer \<Rightarrow> 'd \<Rightarrow> 'k \<Rightarrow> (status \<times> opal_buffer) outcome) \<Rightarrow>
     opal_buffer \<Rightarrow> ('k \<times> 'd) list \<Rightarrow> (status \<times> opal_buffer) outcome" where
  "pack_all pack b [] = Ret (OPAL_SUCCESS, b)"
| "pack_all pack b ((k, d) # items) = and_then (pack b d k) (\<lambda>b. pack_all pack b items)"

fun unpack_all ::
  "(opal_buffer \<Rightarrow> int \<Rightarrow> 'k \<Rightarrow> (status \<times> int \<times> 'd \<times> opal_buffer) outcome) \<Rightarrow>
     opal_buffer \<Rightarrow> ('k \<times> int) list \<Rightarrow> (status \<times> (int \<times> 'd) list \<times> opal_buffer) outcome" where
  "unpack_all unpack b [] = Ret (OPAL_SUCCESS, [], b)"
| "unpack_all unpack b ((k, room) # ks) =
     obind (unpack b room k) (\<lambda>(rc, n, d, b1).
       if rc \<noteq> OPAL_SUCCESS then Ret (rc, [], b1)
       else obind (unpack_all unpack b1 ks) (\<lambda>(rc', ds, b2). Ret (rc', (n, d) # ds, b2)))"

lemma skip_unread: "unread b xs \<Longrightarrow> skip (length xs) b = b\<lparr>ob_unpack := length (ob_bytes b)\<rparr>"
  by (auto simp: skip_def unread_def)

locale wire_format =
  fixes pack :: "opal_buffer \<Rightarrow> 'd \<Rightarrow> 'k \<Rightarrow> (status \<times> opal_buffer) outcome"
    and unpack :: "opal_buffer \<Rightarrow> int \<Rightarrow> 'k \<Rightarrow> (status \<times> int \<times> 'd \<times> opal_buffer) outcome"
    and num :: "'d \<Rightarrow> nat"
    and item_bytes :: "bool \<Rightarrow> 'k \<Rightarrow> 'd \<Rightarrow> byte list"
    and item_ok :: "'k \<Rightarrow> 'd \<Rightarrow> bool"
    and recv :: "'k \<Rightarrow> 'd \<Rightarrow> 'd"
  assumes pack_item: "buf_ok b \<Longrightarrow> item_ok k d \<Longrightarrow> packs (pack b d k) b (item_bytes (ob_desc b) k d)"
    and unpack_item:
      "item_ok k d \<Longrightarrow> unread b (item_bytes (ob_desc b) k d @ rest) \<Longrightarrow> 0 < room \<Longrightarrow> int (num d) \<le> room \<Longrightarrow>
         unpack b room k =
           Ret (OPAL_SUCCESS, int (num d), recv k d, skip (length (item_bytes (ob_desc b) k d)) b)"
begin

lemma pack_all_ok:
  assumes "buf_ok b" "\<forall>(k, d)\<in>set items. item_ok k d"
  shows "packs (pack_all pack b items) b (concat (map (\<lambda>(k, d). item_bytes (ob_desc b) k d) items))"
  using assms
proof (induction items arbitrary: b)
  case Nil
  then show ?case
    by (simp add: packs_refl)
next
  case (Cons item items)
  obtain k d where item: "item = (k, d)"
    by (cases item)
  have first: "packs (pack b d k) b (item_bytes (ob_desc b) k d)"
    using Cons.prems item by (intro pack_item) auto
  have "packs (pack_all pack b' items) b' (concat (map (\<lambda>(k, d). item_bytes (ob_desc b) k d) items))"
    if "appended b (item_bytes (ob_desc b) k d) b'" for b'
    using Cons.IH [of b'] Cons.prems that by (simp add: appended_def)
  from packs_and_then [OF first this] show ?case
    using item by simp
qed

lemma unpack_all_ok:
  assumes "list_all2 (\<lambda>(k, d) room. item_ok k d \<and> 0 < room \<and> int (num d) \<le> room) items rooms"
    "unread b (concat (map (\<lambda>(k, d). item_bytes (ob_desc b) k d) items) @ rest)"
  shows "unpack_all unpack b (zip (map fst items) rooms) =
           Ret (OPAL_SUCCESS, map (\<lambda>(k, d). (int (num d), recv k d)) items,
                skip (length (concat (map (\<lambda>(k, d). item_bytes (ob_desc b) k d) items))) b)"
  using assms
proof (induction items rooms arbitrary: b rule: list_all2_induct)
  case (Cons item items room rooms)
  obtain k d where item: "item = (k, d)" "item_ok k d" "0 < room" "int (num d) \<le> room"
    using Cons.hyps(1) by (cases item) auto
  have r: "unread b (item_bytes (ob_desc b) k d @ concat (map (\<lambda>(k, d). item_bytes (ob_desc b) k d) items) @ rest)"
    using Cons.prems item by simp
  show ?case
    using unpack_item [OF item(2) r item(3,4)] Cons.IH [of "skip (length (item_bytes (ob_desc b) k d)) b"]
      unread_skip [OF r] item(1) by simp
qed simp

lemma round_trip:
  assumes "list_all2 (\<lambda>(k, d) room. item_ok k d \<and> 0 < room \<and> int (num d) \<le> room) items rooms"
    "buf_ok b" "unread b []"
  shows "\<exists>b'. pack_all pack b items = Ret (OPAL_SUCCESS, b') \<and> buf_ok b' \<and>
           unpack_all unpack b' (zip (map fst items) rooms) =
             Ret (OPAL_SUCCESS, map (\<lambda>(k, d). (int (num d), recv k d)) items,
                  b'\<lparr>ob_unpack := length (ob_bytes b')\<rparr>)"
proof -
  let ?bs = "concat (map (\<lambda>(k, d). item_bytes (ob_desc b) k d) items)"
  have "\<forall>(k, d)\<in>set items. item_ok k d"
    using assms(1) by (induction items rooms rule: list_all2_induct) auto
  from pack_all_ok [OF assms(2) this] obtain b' where
    b': "pack_all pack b items = Ret (OPAL_SUCCESS, b')" "appended b ?bs b'"
    by (auto simp: packs_def)
  have same: "ob_desc b' = ob_desc b" "unread b' ?bs" "buf_ok b'"
    using b'(2) appended_unread [OF b'(2) assms(3)] by (auto simp: appended_def)
  then have "skip (length ?bs) b' = b'\<lparr>ob_unpack := length (ob_bytes b')\<rparr>"
    by (intro skip_unread)
  then show ?thesis
    using b'(1) unpack_all_ok [OF assms(1), of b' "[]"] same by simp
qed

end

section \<open>The entry points\<close>

definition entry_bytes :: "bool \<Rightarrow> byte \<Rightarrow> dss_src \<Rightarrow> byte list" where
  "entry_bytes desc t src =
     (tag_bytes desc OPAL_INT32 @ hton 4 (of_nat (src_length src) :: 32 word)) @ tagged top_bytes desc t src"

abbreviation src_recv :: "dss_params \<Rightarrow> byte \<Rightarrow> dss_src \<Rightarrow> dss_src" where
  "src_recv cfg t src \<equiv> top_recv cfg (the (opal_dss_types t)) src"

lemma top_ok_length: "top_ok fn src \<Longrightarrow> src_length src < 2 ^ 31"
  by (cases src) (auto dest: mid_ok_length)

lemma src_length_ok: "type_ok top_ok t src \<Longrightarrow> src_length src < 2 ^ 31"
  by (auto simp: type_ok_def dest: top_ok_length split: option.splits)

lemma type_ok_packable: "type_ok top_ok t src \<Longrightarrow> type_ok top_packable t src"
  by (auto simp: type_ok_def dest: top_ok_packable split: option.splits)

lemma packs_count:
  assumes "dss_ok cfg" "buf_ok b"
  shows "packs (and_then (if ob_desc b then opal_dss_store_data_type cfg b OPAL_INT32 else Ret (OPAL_SUCCESS, b))
             (\<lambda>b. opal_dss_pack_int32 cfg b [w])) b (tag_bytes (ob_desc b) OPAL_INT32 @ hton 4 w)"
  by (rule packs_and_then)
     (use packs_type [OF assms] packs_refl [OF assms(2)] packs_int32_1 [OF assms(1)] in
       \<open>auto simp: tag_bytes_def appended_buf_ok\<close>)

lemma and_then_assoc: "and_then (and_then m f) g = and_then m (\<lambda>b. and_then (f b) g)"
  by (cases m) (auto simp: and_then_def)

lemma packs_entry:
  assumes "dss_ok cfg" "buf_ok b" "type_ok top_packable t src"
  shows "packs (opal_dss_pack cfg b src t) b (entry_bytes (ob_desc b) t src)"
proof -
  have "packs (opal_dss_pack_buffer cfg b' src t) b' (tagged top_bytes (ob_desc b) t src)"
    if "appended b (tag_bytes (ob_desc b) OPAL_INT32 @ hton 4 (of_nat (src_length src) :: 32 word)) b'" for b'
    using top_pack.pack_buffer_ok [OF assms(1) _ _ assms(3), of b'] that
    by (simp add: opal_dss_pack_buffer_def appended_def)
  from packs_and_then [OF packs_count [OF assms(1,2)] this] show ?thesis
    by (simp add: opal_dss_pack_def entry_bytes_def and_then_assoc)
qed

lemma count_header_ok:
  assumes "unread b ((tag_bytes (ob_desc b) OPAL_INT32 @ hton 4 w) @ rest)"
  shows "dss_count_header b =
           Ret (OPAL_SUCCESS, [w], skip (length (tag_bytes (ob_desc b) OPAL_INT32 @ hton 4 w)) b)"
proof (cases "ob_desc b")
  case True
  then have r: "unread b (OPAL_INT32 # hton 4 w @ rest)"
    using assms by (simp add: tag_bytes_def)
  then have "unread (skip 1 b) (hton 4 w @ rest)"
    using unread_skip [of b "[OPAL_INT32]"] by simp
  then show ?thesis
    using unpack_type_ok [OF r] unpack_int32_1 True by (simp add: dss_count_header_def tag_bytes_def)
next
  case False
  then show ?thesis
    using unpack_int32_1 assms by (simp add: dss_count_header_def tag_bytes_def)
qed

lemma unpack_entry:
  assumes "dss_ok cfg" "type_ok top_ok t src" "unread b (entry_bytes (ob_desc b) t src @ rest)"
    "0 < room" "int (src_length src) \<le> room"
  shows "opal_dss_unpack cfg b room t =
           Ret (OPAL_SUCCESS, int (src_length src), src_recv cfg t src, skip (length (entry_bytes (ob_desc b) t src)) b)"
proof -
  define h where "h = tag_bytes (ob_desc b) OPAL_INT32 @ hton 4 (of_nat (src_length src) :: 32 word)"
  have r: "unread b (h @ tagged top_bytes (ob_desc b) t src @ rest)"
    using assms(3) by (simp add: entry_bytes_def h_def)
  have "dss_count_header b = Ret (OPAL_SUCCESS, [of_nat (src_length src)], skip (length h) b)"
    using count_header_ok r by (simp add: h_def)
  moreover have "opal_dss_unpack_buffer cfg (skip (length h) b) (int (src_length src)) t =
      Ret (OPAL_SUCCESS, src_recv cfg t src, skip (length h + length (tagged top_bytes (ob_desc b) t src)) b)"
    using top.unpack_buffer_ok [OF assms(1,2), of "skip (length h) b" rest] unread_skip [OF r]
    by (simp add: opal_dss_unpack_buffer_def)
  moreover have "length (entry_bytes (ob_desc b) t src) = length h + length (tagged top_bytes (ob_desc b) t src)"
    by (simp add: entry_bytes_def h_def)
  ultimately show ?thesis
    using assms(4,5) sint_of_nat32 [OF src_length_ok [OF assms(2)]] by (simp add: opal_dss_unpack_def)
qed

interpretation entry: wire_format "opal_dss_pack cfg" "opal_dss_unpack cfg" src_length entry_bytes
    "\<lambda>t src. dss_ok cfg \<and> type_ok top_ok t src" "src_recv cfg" for cfg
  by unfold_locales (auto simp: packs_entry unpack_entry type_ok_packable)

section \<open>Properties\<close>

lemma construct_unread [simp]: "unread (opal_buffer_construct desc) []"
  by (simp add: unread_def opal_buffer_construct_def)

text \<open>
  C1: For any sequence of items of the registered types (integers, strings, numbers, times, names,
  byte objects, values, process and node statistics, nested buffers), each within the limits of the
  format, packing all of them into a fresh buffer of either kind succeeds, and unpacking them in the same
  order with enough room returns the number of elements of each and, of its data, what \<open>src_recv\<close> gives, and leaves the read
  pointer at the end of the buffer.  Integers, times, names and byte objects arrive unchanged.  What is lost: floats and doubles
  arrive rounded to six decimals and to their format, a string block ends behind its first NUL, \<^verbatim>\<open>OPAL_NULL\<close> data are zeros,
  \<^verbatim>\<open>percent_cpu\<close> of process statistics is 0, and a nested buffer has the default type of the receiver and is unread.  Not
  covered: values whose type is an array that is not empty (which the code cannot unpack) or \<^verbatim>\<open>OPAL_PTR\<close>, strings without a
  NUL, names of nodes and commands in process statistics that do not fit their arrays, and lengths from \<open>2\<^sup>3\<^sup>1\<close> on.
\<close>

theorem dss_message_round_trip:
  assumes "dss_ok cfg"
    "list_all2 (\<lambda>(t, src) room. type_ok top_ok t src \<and> 0 < room \<and> int (src_length src) \<le> room) items rooms"
  shows "\<exists>b. pack_all (opal_dss_pack cfg) (opal_buffer_construct desc) items = Ret (OPAL_SUCCESS, b) \<and> buf_ok b \<and>
           unpack_all (opal_dss_unpack cfg) b (zip (map fst items) rooms) =
             Ret (OPAL_SUCCESS, map (\<lambda>(t, src). (int (src_length src), src_recv cfg t src)) items,
                  b\<lparr>ob_unpack := length (ob_bytes b)\<rparr>)"
  by (rule entry.round_trip) (use assms in simp_all)

theorem dss_message_round_trip_witness:
  "\<exists>b. pack_all (opal_dss_pack dss_defaults) (opal_buffer_construct True)
         [(OPAL_INT, Plain (D32 [7, -1])), (OPAL_STRING, Plain (DStr [Some [97, 98, 0]]))] = Ret (OPAL_SUCCESS, b) \<and>
       unpack_all (opal_dss_unpack dss_defaults) b [(OPAL_INT, 2), (OPAL_STRING, 5)] =
         Ret (OPAL_SUCCESS, [(2, Plain (D32 [7, -1])), (1, Plain (DStr [Some [97, 98, 0]]))],
              b\<lparr>ob_unpack := length (ob_bytes b)\<rparr>)"
proof -
  have "opal_dss_types OPAL_INT = Some F_int"
    by (simp add: dss_table)
  then show ?thesis
    using dss_message_round_trip [of dss_defaults
        "[(OPAL_INT, Plain (D32 [7, -1])), (OPAL_STRING, Plain (DStr [Some [97, 98, 0]]))]" "[2, 5]" True]
    by (auto simp: type_ok_def mid_ok_def real_fn_def str_ok_def str_len_def mid_recv_def str_recv_def)
qed

text \<open>A single item, as a special case of the sequence.\<close>

lemma entry_round_trip:
  assumes "dss_ok cfg" "type_ok top_ok t src" "0 < src_length src"
  shows "\<exists>b. opal_dss_pack cfg (opal_buffer_construct desc) src t = Ret (OPAL_SUCCESS, b) \<and>
           opal_dss_unpack cfg b (int (src_length src)) t =
             Ret (OPAL_SUCCESS, int (src_length src), src_recv cfg t src, b\<lparr>ob_unpack := length (ob_bytes b)\<rparr>)"
proof -
  obtain b where b: "opal_dss_pack cfg (opal_buffer_construct desc) src t = Ret (OPAL_SUCCESS, b)"
    "appended (opal_buffer_construct desc) (entry_bytes desc t src) b"
    using packs_entry [OF assms(1) buf_ok_construct type_ok_packable [OF assms(2)], of desc]
    by (auto simp: packs_def opal_buffer_construct_def)
  then have u: "unread b (entry_bytes desc t src)" "ob_desc b = desc"
    using appended_unread [OF b(2) construct_unread] by (simp_all add: appended_def opal_buffer_construct_def)
  then show ?thesis
    using b(1) unpack_entry [OF assms(1,2), of b "[]" "int (src_length src)"] assms(3) skip_unread [OF u(1)] by simp
qed

text \<open>
  C2: A message of less than \<open>2\<^sup>3\<^sup>1\<close> bytes survives the transport.  A nonempty sequence of items is packed, the payload and
  its size, an \<^verbatim>\<open>int32_t\<close>, are unloaded from the buffer of the sender (which is left as new), loaded into a fresh buffer of
  the receiver, and unpacked there: the receiver, whose parameters may differ from those of the sender, obtains
  every item in order, each as \<open>src_recv\<close> says (see the property on messages).
\<close>

theorem dss_delivery:
  assumes "dss_ok scfg" "dss_ok rcfg" "items \<noteq> []"
    "list_all2 (\<lambda>(t, src) room. type_ok top_ok t src \<and> 0 < room \<and> int (src_length src) \<le> room) items rooms"
    "length (concat (map (\<lambda>(t, src). entry_bytes desc t src) items)) < 2 ^ 31"
  shows "\<exists>b payload b'.
           pack_all (opal_dss_pack scfg) (opal_buffer_construct desc) items = Ret (OPAL_SUCCESS, b) \<and>
           opal_dss_unload b = (OPAL_SUCCESS, Some payload, int (length payload), opal_buffer_construct desc) \<and>
           opal_dss_load (opal_buffer_construct desc) (Some payload) (int (length payload)) = Ret (OPAL_SUCCESS, b') \<and>
           unpack_all (opal_dss_unpack rcfg) b' (zip (map fst items) rooms) =
             Ret (OPAL_SUCCESS, map (\<lambda>(t, src). (int (src_length src), src_recv rcfg t src)) items,
                  b'\<lparr>ob_unpack := length payload\<rparr>)"
proof -
  let ?bs = "concat (map (\<lambda>(t, src). entry_bytes desc t src) items)"
  have "\<forall>(t, src)\<in>set items. dss_ok scfg \<and> type_ok top_ok t src"
    using assms(4,1) by (induction items rooms rule: list_all2_induct) auto
  from entry.pack_all_ok [OF buf_ok_construct this, of desc] obtain b where
    b: "pack_all (opal_dss_pack scfg) (opal_buffer_construct desc) items = Ret (OPAL_SUCCESS, b)"
      "appended (opal_buffer_construct desc) ?bs b"
    by (auto simp: packs_def opal_buffer_construct_def)
  have "?bs \<noteq> []"
    using assms(3) by (cases items) (auto simp: entry_bytes_def)
  then have unload: "opal_dss_unload b = (OPAL_SUCCESS, Some ?bs, int (length ?bs), opal_buffer_construct desc)"
    using b(2) c_int_small [OF assms(5)] by (simp add: opal_dss_unload_def appended_def opal_buffer_construct_def)
  define b' where "b' = (opal_buffer_construct desc)\<lparr>ob_base := True, ob_pack := True, ob_bytes := ?bs,
    ob_unpack := 0, ob_allocated := length ?bs\<rparr>"
  have b': "opal_dss_load (opal_buffer_construct desc) (Some ?bs) (int (length ?bs)) = Ret (OPAL_SUCCESS, b')"
      "unread b' ?bs" "ob_desc b' = desc" "ob_bytes b' = ?bs"
    by (simp_all add: b'_def opal_dss_load_def unread_def opal_buffer_construct_def)
  have "list_all2 (\<lambda>(t, src) room. (dss_ok rcfg \<and> type_ok top_ok t src) \<and> 0 < room \<and> int (src_length src) \<le> room)
      items rooms"
    using assms(4,2) by (auto elim: list_all2_mono)
  from entry.unpack_all_ok [OF this, of b' "[]"] have
    "unpack_all (opal_dss_unpack rcfg) b' (zip (map fst items) rooms) =
       Ret (OPAL_SUCCESS, map (\<lambda>(t, src). (int (src_length src), src_recv rcfg t src)) items,
            b'\<lparr>ob_unpack := length ?bs\<rparr>)"
    using b'(2-4) skip_unread [OF b'(2)] by simp
  then show ?thesis
    using b(1) unload b'(1) by blast
qed

theorem dss_delivery_witness:
  "\<exists>b payload b'.
     pack_all (opal_dss_pack dss_defaults) (opal_buffer_construct False) [(OPAL_BYTE, Plain (D8 [1, 2]))] =
       Ret (OPAL_SUCCESS, b) \<and>
     opal_dss_unload b = (OPAL_SUCCESS, Some payload, int (length payload), opal_buffer_construct False) \<and>
     opal_dss_load (opal_buffer_construct False) (Some payload) (int (length payload)) = Ret (OPAL_SUCCESS, b') \<and>
     unpack_all (opal_dss_unpack dss_defaults) b' [(OPAL_BYTE, 2)] =
       Ret (OPAL_SUCCESS, [(2, Plain (D8 [1, 2]))], b'\<lparr>ob_unpack := length payload\<rparr>)"
  using dss_delivery [of dss_defaults dss_defaults "[(OPAL_BYTE, Plain (D8 [1, 2]))]" "[2]" False]
  by (simp add: type_ok_def mid_ok_def real_fn_def mid_recv_def mid_bytes_def entry_bytes_def tagged_def tag_bytes_def dss_table)

text \<open>
  C27: \<^verbatim>\<open>opal_dss_copy_payload\<close> appends exactly what the source has not unpacked yet, if that is less than \<open>2\<^sup>3\<^sup>1\<close> bytes: the
  unread bytes of the destination become its own followed by those of the source, and its type that of the source.
\<close>

theorem dss_copy_payload_unread:
  assumes "dss_ok cfg" "buf_ok dest" "ob_bytes dest = [] \<or> ob_desc dest = ob_desc src"
    "unread dest xs" "unread src ys" "length ys < 2 ^ 31"
  shows "\<exists>dest'. opal_dss_copy_payload cfg dest src = Ret (OPAL_SUCCESS, dest') \<and> buf_ok dest' \<and>
           ob_desc dest' = ob_desc src \<and> unread dest' (xs @ ys)"
proof -
  let ?d = "dest\<lparr>ob_desc := ob_desc src\<rparr>"
  have d: "buf_ok ?d" "unread ?d xs" "drop (ob_unpack src) (ob_bytes src) = ys"
    using assms(2,4,5) by (simp_all add: buf_ok_def unread_def)
  have len: "int (length (ob_bytes src)) - int (ob_unpack src) = int (length ys)"
    using assms(5) by (auto simp: unread_def)
  have "sint (of_int (int (length ys)) :: 32 word) = int (length ys)"
    using c_int_small [OF assms(6)] by (simp add: c_int_def)
  note left = this [folded len, simplified len]
  show ?thesis
  proof (cases "ys = []")
    case True
    then show ?thesis
      using assms(3) d left len by (auto simp: opal_dss_copy_payload_def)
  next
    case False
    then obtain b where "dss_store cfg ?d ys = Ret (OPAL_SUCCESS, b)" "appended ?d ys b"
      using store_ok [OF assms(1) d(1), of ys] by auto
    then show ?thesis
      using False assms(3) d left len appended_unread [of ?d ys b xs] by (auto simp: opal_dss_copy_payload_def appended_def)
  qed
qed

theorem dss_copy_payload_unread_witness:
  "\<exists>dest'. opal_dss_copy_payload dss_defaults (opal_buffer_construct False)
       \<lparr>ob_desc = True, ob_base = True, ob_pack = True, ob_bytes = [5, 6, 7], ob_unpack = 1, ob_allocated = 4\<rparr> =
       Ret (OPAL_SUCCESS, dest') \<and> unread dest' [6, 7]"
  using dss_copy_payload_unread [of dss_defaults "opal_buffer_construct False"
      "\<lparr>ob_desc = True, ob_base = True, ob_pack = True, ob_bytes = [5, 6, 7], ob_unpack = 1, ob_allocated = 4\<rparr>" "[]" "[6, 7]"]
  by (auto simp: unread_def opal_buffer_construct_def buf_ok_def)



text \<open>
  C22: In a fully described buffer an item is only unpacked as the type it was packed with: any other type is
  refused with \<^verbatim>\<open>OPAL_ERR_PACK_MISMATCH\<close>, no element is delivered, and the read pointer stays behind the
  count and the type (6 bytes), where the rest of the item begins.
\<close>

theorem dss_type_mismatch:
  assumes "dss_ok cfg" "type_ok top_packable t src" "src_length src < 2 ^ 31" "t' \<noteq> t" "0 < room"
  shows "\<exists>b. opal_dss_pack cfg (opal_buffer_construct True) src t = Ret (OPAL_SUCCESS, b) \<and>
           opal_dss_unpack cfg b room t' = Ret (OPAL_ERR_PACK_MISMATCH, 0, Plain (D8 []), b\<lparr>ob_unpack := 6\<rparr>)"
proof -
  let ?h = "tag_bytes True OPAL_INT32 @ hton 4 (of_nat (src_length src) :: 32 word)"
  obtain b where b: "opal_dss_pack cfg (opal_buffer_construct True) src t = Ret (OPAL_SUCCESS, b)"
    "appended (opal_buffer_construct True) (entry_bytes True t src) b"
    using packs_entry [OF assms(1) buf_ok_construct assms(2), of True]
    by (auto simp: packs_def opal_buffer_construct_def)
  then have u: "ob_desc b" "ob_unpack b = 0"
      "unread b (?h @ t # top_bytes True (the (opal_dss_types t)) src)"
    using appended_unread [OF b(2) construct_unread]
    by (simp_all add: appended_def opal_buffer_construct_def entry_bytes_def tagged_def tag_bytes_def)
  have "dss_count_header b = Ret (OPAL_SUCCESS, [of_nat (src_length src)], skip 5 b)"
    using count_header_ok [of b "of_nat (src_length src)"] u by (simp add: tag_bytes_def)
  moreover have "opal_dss_get_data_type (skip 5 b) = Ret (OPAL_SUCCESS, [t], skip 6 b)"
    using unpack_type_ok [of "skip 5 b" t] unread_skip [OF u(3)] by (simp add: tag_bytes_def)
  moreover have "skip 6 b = b\<lparr>ob_unpack := 6\<rparr>"
    using u(2) by (simp add: skip_def)
  ultimately show ?thesis
    using b(1) u(1) assms(3-5) by (simp add: opal_dss_unpack_def opal_dss_unpack_buffer_def unpack_buffer_by_def)
qed

theorem dss_type_mismatch_witness:
  "\<exists>b. opal_dss_pack dss_defaults (opal_buffer_construct True) (Plain (D32 [7])) OPAL_INT32 = Ret (OPAL_SUCCESS, b) \<and>
     opal_dss_unpack dss_defaults b 1 OPAL_STRING = Ret (OPAL_ERR_PACK_MISMATCH, 0, Plain (D8 []), b\<lparr>ob_unpack := 6\<rparr>)"
  using dss_type_mismatch [of dss_defaults OPAL_INT32 "Plain (D32 [7])" OPAL_STRING 1]
  by (simp add: type_ok_def top_packable_def mid_ok_def real_fn_def)

text \<open>
  \<^verbatim>\<open>opal_dss_peek\<close> tells what comes next: in front of a packed item of a fully described buffer it
  returns the type and the number of elements with which the item was packed, so that unpacking with these succeeds.
\<close>

theorem dss_peek_next:
  assumes "dss_ok cfg" "type_ok top_ok t src" "0 < src_length src" "ob_desc b"
    "unread b (entry_bytes True t src @ rest)"
  shows "opal_dss_peek b = Ret (OPAL_SUCCESS, t, int (src_length src)) \<and>
         opal_dss_unpack cfg b (int (src_length src)) t =
           Ret (OPAL_SUCCESS, int (src_length src), src_recv cfg t src, skip (length (entry_bytes True t src)) b)"
proof
  let ?n = "of_nat (src_length src) :: 32 word"
  let ?d = "top_bytes True (the (opal_dss_types t)) src @ rest"
  have r: "unread b (OPAL_INT32 # hton 4 ?n @ t # ?d)"
    using assms(5) by (simp add: entry_bytes_def tagged_def tag_bytes_def)
  have r1: "unread (skip 1 b) (hton 4 ?n @ t # ?d)"
    using unread_skip [of b "[OPAL_INT32]"] r by simp
  have r2: "unread (skip 5 b) (t # ?d)"
    using unread_skip [OF r1] by simp
  show "opal_dss_peek b = Ret (OPAL_SUCCESS, t, int (src_length src))"
    using unread_ne [OF r] unpack_type_ok [OF r] unpack_int32_1 [OF r1] unpack_type_ok [OF r2] assms(4)
      sint_of_nat32 [OF src_length_ok [OF assms(2)]]
    by (simp add: opal_dss_peek_def)
  show "opal_dss_unpack cfg b (int (src_length src)) t =
      Ret (OPAL_SUCCESS, int (src_length src), src_recv cfg t src, skip (length (entry_bytes True t src)) b)"
    using unpack_entry [OF assms(1,2), of b rest] assms(3-5) by simp
qed

theorem dss_peek_next_witness:
  "opal_dss_peek \<lparr>ob_desc = True, ob_base = True, ob_pack = True,
       ob_bytes = entry_bytes True OPAL_BYTE (Plain (D8 [4, 5])), ob_unpack = 0, ob_allocated = 128\<rparr> =
     Ret (OPAL_SUCCESS, OPAL_BYTE, 2)"
  using dss_peek_next [of dss_defaults OPAL_BYTE "Plain (D8 [4, 5])" "\<lparr>ob_desc = True, ob_base = True,
      ob_pack = True, ob_bytes = entry_bytes True OPAL_BYTE (Plain (D8 [4, 5])), ob_unpack = 0, ob_allocated = 128\<rparr>" "[]"]
  by (simp add: type_ok_def mid_ok_def real_fn_def unread_def)

text \<open>
  Nothing is unpacked past the end.  At the end of a buffer of either kind, unpacking any type returns
  \<^verbatim>\<open>OPAL_ERR_UNPACK_READ_PAST_END_OF_BUFFER\<close> with no element and does not move the read pointer; with no room it
  returns \<^verbatim>\<open>OPAL_ERR_UNPACK_INADEQUATE_SPACE\<close>.
\<close>

theorem dss_unpack_at_end:
  assumes "unread b []"
  shows "opal_dss_unpack cfg b room t =
           Ret (if room = 0 then OPAL_ERR_UNPACK_INADEQUATE_SPACE else OPAL_ERR_UNPACK_READ_PAST_END_OF_BUFFER,
                0, Plain (D8 []), b)"
proof -
  have fetch: "dss_fetch b 1 = None" "dss_fetch b 4 = None"
    using fetch_short [OF assms] by simp_all
  have "size_t (size_of_int 1 * 1) = 1" "size_t (size_of_int 1 * 4) = 4"
    using size_of_count [of 1 1] size_of_count [of 1 4] by simp_all
  then have "dss_count_header b = Ret (OPAL_ERR_UNPACK_READ_PAST_END_OF_BUFFER, [], b)"
    using fetch by (simp add: dss_count_header_def opal_dss_get_data_type_def opal_dss_unpack_byte_def
        opal_dss_unpack_int32_def unpack_words_def)
  then show ?thesis
    by (simp add: opal_dss_unpack_def)
qed

theorem dss_unpack_at_end_witness:
  "opal_dss_unpack dss_defaults (opal_buffer_construct True) 1 OPAL_STRING =
     Ret (OPAL_ERR_UNPACK_READ_PAST_END_OF_BUFFER, 0, Plain (D8 []), opal_buffer_construct True)"
  using dss_unpack_at_end [of "opal_buffer_construct True" dss_defaults 1 OPAL_STRING] by simp

section \<open>What is lost on the way\<close>

lemma mid_recv_length [simp]: "data_length (mid_recv fn d) = data_length d"
  by (cases d) (auto simp: mid_recv_def)

lemma unpack_value_array_undef:
  assumes "dss_ok cfg" "type_ok mid_ok e d" "0 < data_length d"
    "unread b (tagged mid_bytes (ob_desc b) OPAL_INT32 (D32 [of_nat (data_length d)]) @
       tagged mid_bytes (ob_desc b) e d @ rest)"
  shows "unpack_value_array cfg b e = Undef"
proof -
  let ?n = "of_nat (data_length d) :: 32 word"
  define h where "h = tagged mid_bytes (ob_desc b) OPAL_INT32 (D32 [?n])"
  have "unpack_mid_buffer cfg b 1 OPAL_INT32 = Ret (OPAL_SUCCESS, D32 [?n], skip (length h) b)"
    using mid.unpack_buffer_ok [OF assms(1) type_ok_int32, of b ?n _ "D8 []"] assms(4)
    by (simp add: mid_recv_def real_fn_def h_def)
  moreover have "unpack_mid_buffer cfg (skip (length h) b) (int (data_length d)) e =
      Ret (OPAL_SUCCESS, mid_recv (the (opal_dss_types e)) d, skip (length h + length (tagged mid_bytes (ob_desc b) e d)) b)"
    using mid.unpack_buffer_ok [OF assms(1,2), of "skip (length h) b" rest "D8 []"] unread_skip [OF assms(4)]
    by (simp add: h_def)
  ultimately show ?thesis
    using assms(3) sint_of_nat32 [OF type_ok_length [OF assms(2)]] by (simp add: unpack_value_array_def words_32_def)
qed

lemma types_value [simp]: "opal_dss_types OPAL_VALUE = Some F_value"
  by (simp add: dss_table)

lemma unpack_array_value1:
  assumes "dss_ok cfg" "value_packable v" "value_elem (ov_type v) = Some e" "0 < data_length (ov_data v)"
    "unread b (value_bytes (ob_desc b) v)"
  shows "unpack_value1 cfg b = Undef"
proof -
  define k t f where "k = str_bytes (ov_key v)"
    and "t = tagged (\<lambda>_. leaf_bytes) (ob_desc b) OPAL_DATA_TYPE_T (D8 [ov_type v])"
    and "f = value_field_bytes (ob_desc b) (ov_type v) (ov_data v)"
  have r: "unread b (k @ t @ f)"
    using assms(5) by (simp add: value_bytes_def k_def t_def f_def)
  note r1 = unread_skip [OF r]
  note r2 = unread_skip [OF r1]
  have no: "\<not> value_scalar (ov_type v)" "ov_type v \<noteq> OPAL_BYTE_OBJECT"
    using assms(3) by (auto simp: value_elem_def value_scalar_def split: if_splits)
  then have e: "type_ok mid_ok e (ov_data v)" "str_ok (ov_key v)"
    using assms(2,3) by (simp_all add: value_packable_def value_data_ok_def)
  have 1: "opal_dss_unpack_string cfg b 1 = Ret (OPAL_SUCCESS, [str_recv (ov_key v)], skip (length k) b)"
    using unpack_string_ok [OF assms(1), of "[ov_key v]" b] r e(2) by (simp add: k_def)
  have 2: "opal_dss_unpack_data_type cfg (skip (length k) b) 1 =
      Ret (OPAL_SUCCESS, D8 [ov_type v], skip (length k + length t) b)"
    using leaf.unpack_buffer_ok [OF assms(1), of OPAL_DATA_TYPE_T "D8 [ov_type v]" "skip (length k) b" f "D8 []"] r1
    by (simp add: opal_dss_unpack_data_type_def t_def)
  have "unpack_value_array cfg (skip (length k + length t) b) e = Undef"
    by (rule unpack_value_array_undef [OF assms(1) e(1) assms(4), of _ "[]"])
       (use r2 no assms(3) in \<open>simp add: f_def value_field_bytes_def\<close>)
  then show ?thesis
    using 1 2 no assms(1,3)
    by (simp add: unpack_value1_def dss_ok_def bytes_of_def unpack_value_field_def Let_def)
qed

text \<open>
  C33: Arrays in values are written but cannot be read.  A value of any array type with at least one element is
  packed successfully, but unpacking it has undefined behaviour: the elements are stored through the data pointer
  of a freshly constructed value, which is NULL.
\<close>

theorem dss_array_value_undefined:
  assumes "dss_ok cfg" "value_packable v" "value_elem (ov_type v) \<noteq> None" "0 < data_length (ov_data v)"
  shows "\<exists>b. opal_dss_pack cfg (opal_buffer_construct desc) (Values [v]) OPAL_VALUE = Ret (OPAL_SUCCESS, b) \<and>
           opal_dss_unpack cfg b 1 OPAL_VALUE = Undef"
proof -
  have ok: "type_ok top_packable OPAL_VALUE (Values [v])"
    using assms(2) by (simp add: type_ok_def top_packable_def)
  obtain e where e: "value_elem (ov_type v) = Some e"
    using assms(3) by auto
  let ?h = "tag_bytes desc OPAL_INT32 @ hton 4 (1 :: 32 word)"
  obtain b where b: "opal_dss_pack cfg (opal_buffer_construct desc) (Values [v]) OPAL_VALUE = Ret (OPAL_SUCCESS, b)"
    "appended (opal_buffer_construct desc) (entry_bytes desc OPAL_VALUE (Values [v])) b"
    using packs_entry [OF assms(1) buf_ok_construct ok, of desc] by (auto simp: packs_def opal_buffer_construct_def)
  then have u: "ob_desc b = desc" "unread b (?h @ tag_bytes desc OPAL_VALUE @ value_bytes desc v)"
    using appended_unread [OF b(2) construct_unread]
    by (simp_all add: appended_def opal_buffer_construct_def entry_bytes_def tagged_def)
  note r1 = unread_skip [OF u(2)]
  have h: "dss_count_header b = Ret (OPAL_SUCCESS, [1], skip (length ?h) b)"
    using count_header_ok [of b 1] u by simp
  have "unread (skip (length (tag_bytes desc OPAL_VALUE)) (skip (length ?h) b)) (value_bytes desc v)"
    by (rule unread_skip [OF r1])
  then have "unpack_value1 cfg (skip (length (tag_bytes desc OPAL_VALUE)) (skip (length ?h) b)) = Undef"
    using unpack_array_value1 [OF assms(1,2) e assms(4)] u(1) by simp
  then have "opal_dss_unpack_buffer cfg (skip (length ?h) b) 1 OPAL_VALUE = Undef"
    using u(1) unpack_type_ok [of "skip (length ?h) b" OPAL_VALUE "value_bytes desc v"] r1
    by (auto simp: opal_dss_unpack_buffer_def unpack_buffer_by_def unpack_top_def opal_dss_unpack_value_def
        unpacked_as_def tag_bytes_def)
  then show ?thesis
    using b(1) h by (auto simp: opal_dss_unpack_def)
qed

theorem dss_array_value_undefined_witness:
  "\<exists>b. opal_dss_pack dss_defaults (opal_buffer_construct False)
         (Values [\<lparr>ov_key = None, ov_type = OPAL_INT32_ARRAY, ov_data = D32 [1, 2]\<rparr>]) OPAL_VALUE = Ret (OPAL_SUCCESS, b) \<and>
       opal_dss_unpack dss_defaults b 1 OPAL_VALUE = Undef"
  using dss_array_value_undefined [of dss_defaults "\<lparr>ov_key = None, ov_type = OPAL_INT32_ARRAY, ov_data = D32 [1, 2]\<rparr>" False]
  by (simp add: value_packable_def str_ok_def value_data_ok_def value_scalar_def value_elem_def type_ok_def
      mid_ok_def real_fn_def)

lemma six_decimals_tiny: "\<bar>x\<bar> < 1 / 2000000 \<Longrightarrow> six_decimals x = 0"
proof -
  assume a: "\<bar>x\<bar> < 1 / 2000000"
  then have "round_even (\<bar>x\<bar> * 1000000) = 0"
    by (simp add: round_even_def Let_def floor_eq_iff [of "\<bar>x\<bar> * 1000000" 0, THEN iffD2])
  then show ?thesis
    by (simp add: six_decimals_def micros_def)
qed

lemma types_double [simp]: "opal_dss_types OPAL_DOUBLE = Some F_double"
  by (simp add: dss_table)

text \<open>
  C30: A double travels as the decimal text of \<^verbatim>\<open>%f\<close>.  It arrives within half a millionth plus half a
  unit in the last place of what was sent; integers below \<open>2\<^sup>53\<close> arrive exactly; anything smaller in
  magnitude than half a millionth arrives as zero.
\<close>

theorem dss_double_transfer:
  assumes "dss_ok cfg" "num_ok x"
  shows "\<exists>b y. opal_dss_pack cfg (opal_buffer_construct desc) (Plain (DDouble [x])) OPAL_DOUBLE = Ret (OPAL_SUCCESS, b) \<and>
           opal_dss_unpack cfg b 1 OPAL_DOUBLE =
             Ret (OPAL_SUCCESS, 1, Plain (DDouble [y]), b\<lparr>ob_unpack := length (ob_bytes b)\<rparr>) \<and>
           \<bar>y - x\<bar> \<le> 1 / 2000000 + fp_ulp 53 (- 1074) (six_decimals x) / 2 \<and>
           (\<forall>k. x = of_int k \<and> \<bar>k\<bar> < 2 ^ 53 \<longrightarrow> y = x) \<and>
           (\<bar>x\<bar> < 1 / 2000000 \<longrightarrow> y = 0)"
proof -
  define y where "y = double_round (six_decimals x)"
  have "type_ok top_ok OPAL_DOUBLE (Plain (DDouble [x]))"
    using assms(2) by (simp add: type_ok_def mid_ok_def real_fn_def)
  from entry_round_trip [OF assms(1) this, of desc] obtain b where
    b: "opal_dss_pack cfg (opal_buffer_construct desc) (Plain (DDouble [x])) OPAL_DOUBLE = Ret (OPAL_SUCCESS, b)"
      "opal_dss_unpack cfg b 1 OPAL_DOUBLE =
         Ret (OPAL_SUCCESS, 1, Plain (DDouble [y]), b\<lparr>ob_unpack := length (ob_bytes b)\<rparr>)"
    by (auto simp: mid_recv_def real_fn_def y_def)
  have "\<bar>y - six_decimals x\<bar> \<le> fp_ulp 53 (- 1074) (six_decimals x) / 2"
    unfolding y_def double_round_def by (rule fp_round_err)
  then have "\<bar>y - x\<bar> \<le> 1 / 2000000 + fp_ulp 53 (- 1074) (six_decimals x) / 2"
    using six_decimals_err [of x] by linarith
  moreover have "y = x" if "x = of_int k" "\<bar>k\<bar> < 2 ^ 53" for k
    using that fp_round_int [of k 53 "- 1074"] by (simp add: y_def six_decimals_int double_round_def)
  moreover have "y = 0" if "\<bar>x\<bar> < 1 / 2000000"
    using six_decimals_tiny [OF that] by (simp add: y_def double_round_def fp_round_def)
  ultimately show ?thesis
    using b by blast
qed

theorem dss_double_transfer_witness:
  "\<exists>b. opal_dss_pack dss_defaults (opal_buffer_construct False) (Plain (DDouble [1 / 10000000])) OPAL_DOUBLE =
         Ret (OPAL_SUCCESS, b) \<and>
       opal_dss_unpack dss_defaults b 1 OPAL_DOUBLE =
         Ret (OPAL_SUCCESS, 1, Plain (DDouble [0]), b\<lparr>ob_unpack := length (ob_bytes b)\<rparr>)"
proof -
  have "micros (1 / 10000000) = 0"
    by (simp add: micros_def round_even_def Let_def)
  then have "num_ok (1 / 10000000)"
    by (simp add: num_ok_def fmt_f_def dec.simps [of 0] pad_def)
  from dss_double_transfer [OF dss_ok_defaults this, of False] show ?thesis
    by auto
qed

text \<open>
  The CPU load of a process is lost: the statistics of a process arrive with every packed field, but
  \<^verbatim>\<open>percent_cpu\<close> is never packed and arrives as 0 whatever was sent.
\<close>

theorem dss_percent_cpu_lost:
  assumes "dss_ok cfg" "pstat_ok s"
  shows "\<exists>b s'. opal_dss_pack cfg (opal_buffer_construct desc) (Pstats [s]) OPAL_PSTAT = Ret (OPAL_SUCCESS, b) \<and>
           opal_dss_unpack cfg b 1 OPAL_PSTAT =
             Ret (OPAL_SUCCESS, 1, Pstats [s'], b\<lparr>ob_unpack := length (ob_bytes b)\<rparr>) \<and>
           ps_pid s' = ps_pid s \<and> ps_time s' = ps_time s \<and> ps_percent_cpu s' = 0"
proof -
  have t: "opal_dss_types OPAL_PSTAT = Some F_pstat"
    by (simp add: dss_table)
  then have "type_ok top_ok OPAL_PSTAT (Pstats [s])"
    using assms(2) by (simp add: type_ok_def)
  from entry_round_trip [OF assms(1) this, of desc] show ?thesis
    by (auto simp: pstat_recv_def)
qed

theorem dss_percent_cpu_lost_witness:
  "let s = \<lparr>ps_node = [0], ps_rank = 0, ps_pid = 9, ps_cmd = [0], ps_state = 82, ps_time = (1, 2),
            ps_percent_cpu = 50, ps_priority = 0, ps_num_threads = 1, ps_vsize = 0, ps_rss = 0,
            ps_peak_vsize = 0, ps_processor = 0, ps_sample_time = (3, 4)\<rparr>
   in \<exists>b s'. opal_dss_pack dss_defaults (opal_buffer_construct True) (Pstats [s]) OPAL_PSTAT = Ret (OPAL_SUCCESS, b) \<and>
        opal_dss_unpack dss_defaults b 1 OPAL_PSTAT =
          Ret (OPAL_SUCCESS, 1, Pstats [s'], b\<lparr>ob_unpack := length (ob_bytes b)\<rparr>) \<and> ps_percent_cpu s' \<noteq> ps_percent_cpu s"
proof -
  let ?s = "\<lparr>ps_node = [0], ps_rank = 0, ps_pid = 9, ps_cmd = [0], ps_state = 82, ps_time = (1, 2),
            ps_percent_cpu = 50, ps_priority = 0, ps_num_threads = 1, ps_vsize = 0, ps_rss = 0,
            ps_peak_vsize = 0, ps_processor = 0, ps_sample_time = (3, 4)\<rparr>"
  have "num_ok 0"
    by (simp add: num_ok_def fmt_f_def micros_def round_even_def dec.simps [of 0] pad_def)
  then have "pstat_ok ?s"
    by (simp add: pstat_ok_def fixed_ok_def str_len_def)
  from dss_percent_cpu_lost [OF dss_ok_defaults this, of True] show ?thesis
    unfolding Let_def by fastforce
qed

end
