(* ===== verification/Analytics_Workflow.thy ===== *)
theory Analytics_Workflow
  imports Analytics_Base Dss_Protocol
begin

text \<open>
  Workflows from the file to the aggregator: the packing of a parsed file (\<^verbatim>\<open>orcm/util/workflow_util.c\<close>), the
  registration, removal and listing of workflows (\<^verbatim>\<open>analytics_base_stubs.c\<close>, \<^verbatim>\<open>analytics_base_select.c\<close>,
  \<^verbatim>\<open>analytics_base_frame.c\<close>), the commands that arrive in messages (\<^verbatim>\<open>analytics_base_recv.c\<close>), and the
  messages of the console (\<^verbatim>\<open>orcm/tools/octl/workflow.c\<close>).

  The parser of the file, the loaded components, the extension plug-ins and the progress threads are arguments.  A
  workflow that is removed is taken from the list; the stopping of its thread and its modules is not part of the state.
  A received string block without a NUL is undefined.  Of the console the messages and what it prints are modelled; the
  return codes, which it passes on, are left out.
\<close>

section \<open>State\<close>

text \<open>An item of the list that the parser makes: a string, a nested list, or another type.\<close>

datatype parsed_item =
    P_string "string option" "string option"
  | P_list "string option" "parsed_item list option"
  | P_other

record workflow_step = orcm_workflow_step +
  ws_mod :: "string option"

record workflow = orcm_workflow +
  wf_steps :: "workflow_step list"

text \<open>\<open>ab_workflow_id\<close> is the static counter of \<^verbatim>\<open>analytics_base_stubs.c\<close>.\<close>

record analytics_base =
  ab_workflows :: "workflow list"
  ab_store_raw_data :: bool
  ab_store_event_data :: bool
  ab_workflow_id :: int

definition analytics_base_open :: analytics_base where
  "analytics_base_open =
     \<lparr>ab_workflows = [], ab_store_raw_data = True, ab_store_event_data = True, ab_workflow_id = 0\<rparr>"

text \<open>The components with whether they are available, the names of the extension plug-ins, the threads that can start.\<close>

record workflow_env =
  we_components :: "(string \<times> bool) list"
  we_plugin_exist :: "string \<Rightarrow> bool"
  we_thread :: "string \<Rightarrow> bool"

section \<open>Variables in a message\<close>

text \<open>
  A call of \<^verbatim>\<open>opal_dss.unpack\<close> for one variable gives the status, the new count, what it writes to the variable (nothing
  when the message holds no element), and the buffer.
\<close>

definition pack_int :: "dss_params \<Rightarrow> opal_buffer \<Rightarrow> int \<Rightarrow> (status \<times> opal_buffer) outcome" where
  "pack_int cfg b i = opal_dss_pack cfg b (Plain (D32 [of_int i])) OPAL_INT"

definition pack_string :: "dss_params \<Rightarrow> opal_buffer \<Rightarrow> string option \<Rightarrow> (status \<times> opal_buffer) outcome" where
  "pack_string cfg b s = opal_dss_pack cfg b (Plain (DStr [map_option c_string s])) OPAL_STRING"

definition unpack_int :: "dss_params \<Rightarrow> opal_buffer \<Rightarrow> int \<Rightarrow> (status \<times> int \<times> int option \<times> opal_buffer) outcome" where
  "unpack_int cfg b cnt =
     obind (opal_dss_unpack cfg b cnt OPAL_INT) (\<lambda>(rc, n, d, b1).
       Ret (rc, n, case d of Plain (D32 (w # ws)) \<Rightarrow> Some (sint w) | _ \<Rightarrow> None, b1))"

definition unpack_string ::
  "dss_params \<Rightarrow> opal_buffer \<Rightarrow> int \<Rightarrow> (status \<times> int \<times> string option option \<times> opal_buffer) outcome" where
  "unpack_string cfg b cnt =
     obind (opal_dss_unpack cfg b cnt OPAL_STRING) (\<lambda>(rc, n, d, b1).
       case d of
         Plain (DStr (None # ss)) \<Rightarrow> Ret (rc, n, Some None, b1)
       | Plain (DStr (Some blk # ss)) \<Rightarrow>
           (case block_string blk of None \<Rightarrow> Undef | Some s \<Rightarrow> Ret (rc, n, Some (Some s), b1))
       | _ \<Rightarrow> Ret (rc, n, None, b1))"

section \<open>The file\<close>

definition orcm_util_workflow_add_check_filter_step :: "string \<Rightarrow> string option \<Rightarrow> bool \<Rightarrow> (status \<times> bool) outcome" where
  "orcm_util_workflow_add_check_filter_step key value filter_first =
     (if \<not> filter_first \<and> key = ''step'' then
        (case value of
           None \<Rightarrow> Undef
         | Some v \<Rightarrow> Ret (if v = ''filter'' then (OPAL_SUCCESS, True) else (OPAL_ERR_BAD_PARAM, False)))
      else Ret (OPAL_SUCCESS, filter_first))"

definition orcm_util_workflow_add_check_name_key ::
  "dss_params \<Rightarrow> opal_buffer \<Rightarrow> string \<Rightarrow> string option \<Rightarrow> bool \<Rightarrow> (status \<times> opal_buffer \<times> bool) outcome" where
  "orcm_util_workflow_add_check_name_key cfg buf list_head_key key name_first =
     (case key of
        None \<Rightarrow> Undef
      | Some k \<Rightarrow>
          if \<not> name_first \<and> k \<noteq> ''name'' then Ret (OPAL_ERR_BAD_PARAM, buf, name_first)
          else if k \<noteq> ''name'' then
            (if list_head_key = ''workflow'' then Ret (OPAL_ERR_BAD_PARAM, buf, True)
             else obind (pack_string cfg buf key) (\<lambda>(rc, b). Ret (rc, b, True)))
          else Ret (OPAL_SUCCESS, buf, True))"

definition orcm_util_workflow_add_extract_string_type ::
  "dss_params \<Rightarrow> opal_buffer \<Rightarrow> string option \<Rightarrow> string option \<Rightarrow> string \<Rightarrow> bool \<Rightarrow> bool \<Rightarrow>
     (status \<times> opal_buffer \<times> bool \<times> bool) outcome" where
  "orcm_util_workflow_add_extract_string_type cfg buf key value list_head_key name_first filter_first =
     obind (orcm_util_workflow_add_check_name_key cfg buf list_head_key key name_first) (\<lambda>(rc, b1, name_first1).
       if rc \<noteq> OPAL_SUCCESS then Ret (rc, b1, name_first1, filter_first)
       else
         obind (orcm_util_workflow_add_check_filter_step list_head_key value filter_first) (\<lambda>(rc1, filter_first1).
           if rc1 \<noteq> OPAL_SUCCESS then Ret (rc1, b1, name_first1, filter_first1)
           else obind (pack_string cfg b1 value) (\<lambda>(rc2, b2). Ret (rc2, b2, name_first1, filter_first1))))"

fun orcm_util_workflow_add_extract_workflow_info ::
  "dss_params \<Rightarrow> parsed_item list option \<Rightarrow> opal_buffer \<Rightarrow> string \<Rightarrow> bool \<Rightarrow> (status \<times> opal_buffer \<times> bool) outcome"
and extract_items ::
  "dss_params \<Rightarrow> parsed_item list \<Rightarrow> opal_buffer \<Rightarrow> string \<Rightarrow> bool \<Rightarrow> bool \<Rightarrow> status \<Rightarrow> (status \<times> opal_buffer \<times> bool) outcome"
where
  "orcm_util_workflow_add_extract_workflow_info cfg None buf head filter_first = Ret (OPAL_ERR_BAD_PARAM, buf, filter_first)"
| "orcm_util_workflow_add_extract_workflow_info cfg (Some items) buf head filter_first =
     obind (pack_int cfg buf (c_int (length items) - 1)) (\<lambda>(rc, b1).
       if rc \<noteq> OPAL_SUCCESS then Ret (rc, b1, filter_first)
       else extract_items cfg items b1 head filter_first False OPAL_ERR_BAD_PARAM)"
| "extract_items cfg [] buf head filter_first name_first rc = Ret (rc, buf, filter_first)"
| "extract_items cfg (P_string key value # items) buf head filter_first name_first rc =
     obind (orcm_util_workflow_add_extract_string_type cfg buf key value head name_first filter_first) (\<lambda>(rc1, b1, name_first1, filter_first1).
       if rc1 \<noteq> OPAL_SUCCESS then Ret (rc1, b1, filter_first1)
       else extract_items cfg items b1 head filter_first1 name_first1 rc1)"
| "extract_items cfg (P_list key sub # items) buf head filter_first name_first rc =
     (if \<not> name_first then Ret (OPAL_ERR_BAD_PARAM, buf, filter_first)
      else if key = None then Undef
      else if key = Some ''step'' then
        obind (orcm_util_workflow_add_extract_workflow_info cfg sub buf ''step'' filter_first) (\<lambda>(rc1, b1, filter_first1).
          if rc1 \<noteq> OPAL_SUCCESS then Ret (rc1, b1, filter_first1)
          else extract_items cfg items b1 head filter_first1 name_first rc1)
      else Ret (OPAL_ERR_BAD_PARAM, buf, filter_first))"
| "extract_items cfg (P_other # items) buf head filter_first name_first rc = Ret (OPAL_ERR_BAD_PARAM, buf, filter_first)"

section \<open>Registration\<close>

definition orcm_analytics_base_append_attributes ::
  "attribute list \<Rightarrow> string option \<Rightarrow> string option \<Rightarrow> status \<times> attribute list" where
  "orcm_analytics_base_append_attributes attr_list key value = (OPAL_SUCCESS, attr_list @ [(key, value)])"

text \<open>The two pointers and the count live through the loop; an unpack that writes nothing leaves them.\<close>

primrec orcm_analytics_base_parse_attributes ::
  "dss_params \<Rightarrow> nat \<Rightarrow> attribute list \<Rightarrow> opal_buffer \<Rightarrow> int \<Rightarrow> string option \<Rightarrow> string option \<Rightarrow>
     (status \<times> attribute list \<times> opal_buffer) outcome" where
  "orcm_analytics_base_parse_attributes cfg 0 attrs b cnt key value = Ret (OPAL_SUCCESS, attrs, b)"
| "orcm_analytics_base_parse_attributes cfg (Suc n) attrs b cnt key value =
     obind (unpack_string cfg b cnt) (\<lambda>(rc, cnt1, k, b1).
       if rc \<noteq> OPAL_SUCCESS then Ret (OPAL_ERROR, attrs, b1)
       else
         obind (unpack_string cfg b1 cnt1) (\<lambda>(rc1, cnt2, v, b2).
           if rc1 \<noteq> OPAL_SUCCESS then Ret (OPAL_ERROR, attrs, b2)
           else
             (let key1 = (case k of None \<Rightarrow> key | Some x \<Rightarrow> x); value1 = (case v of None \<Rightarrow> value | Some x \<Rightarrow> x);
                  (rc2, attrs1) = orcm_analytics_base_append_attributes attrs key1 value1
              in if rc2 \<noteq> OPAL_SUCCESS then Ret (rc2, attrs1, b2)
                 else orcm_analytics_base_parse_attributes cfg n attrs1 b2 cnt2 key1 value1)))"

definition orcm_analytics_get_plugin_name :: "workflow_env \<Rightarrow> string \<Rightarrow> string" where
  "orcm_analytics_get_plugin_name env wf_step_name =
     (if we_plugin_exist env wf_step_name then ''extension'' else wf_step_name)"

text \<open>Without a component of the name the module stays as it is and the status is success.\<close>

primrec orcm_analytics_base_select_workflow_step ::
  "(string \<times> bool) list \<Rightarrow> string \<Rightarrow> string option \<Rightarrow> status \<times> string option" where
  "orcm_analytics_base_select_workflow_step [] plugin_name m = (OPAL_SUCCESS, m)"
| "orcm_analytics_base_select_workflow_step (c # cs) plugin_name m =
     (if strneq (fst c) plugin_name 64 then
        (if \<not> snd c then (OPAL_ERR_NOT_AVAILABLE, m)
         else orcm_analytics_base_select_workflow_step cs plugin_name (Some (fst c)))
      else orcm_analytics_base_select_workflow_step cs plugin_name m)"

definition orcm_analytics_base_workflow_step_add ::
  "workflow_env \<Rightarrow> dss_params \<Rightarrow> workflow \<Rightarrow> opal_buffer \<Rightarrow> int \<Rightarrow> (status \<times> workflow \<times> opal_buffer) outcome" where
  "orcm_analytics_base_workflow_step_add env cfg w b step =
     obind (unpack_int cfg b 1) (\<lambda>(rc, cnt1, num_attributes, b1).
       if rc \<noteq> OPAL_SUCCESS then Ret (rc, w, b1)
       else
         obind (unpack_string cfg b1 cnt1) (\<lambda>(rc1, cnt2, name, b2).
           if rc1 \<noteq> OPAL_SUCCESS then Ret (rc1, w, b2)
           else
             (case num_attributes of
                None \<Rightarrow> Undef
              | Some num \<Rightarrow>
                  obind (orcm_analytics_base_parse_attributes cfg (nat num) [] b2 1 None None) (\<lambda>(rc2, attrs, b3).
                    if rc2 \<noteq> OPAL_SUCCESS then Ret (rc2, w, b3)
                    else
                      (case name of
                         Some (Some step_name) \<Rightarrow>
                           (case orcm_analytics_base_select_workflow_step (we_components env)
                                   (orcm_analytics_get_plugin_name env step_name) None of
                              (rc3, m) \<Rightarrow>
                                if rc3 \<noteq> OPAL_SUCCESS then Ret (OPAL_ERROR, w, b3)
                                else Ret (OPAL_SUCCESS,
                                  w\<lparr>wf_steps := wf_steps w @
                                       [\<lparr>ws_attributes = attrs, ws_analytic = Some step_name, ws_step_id = step, ws_mod = m\<rparr>]\<rparr>, b3))
                       | _ \<Rightarrow> Undef)))))"

primrec workflow_add_steps ::
  "workflow_env \<Rightarrow> dss_params \<Rightarrow> nat \<Rightarrow> workflow \<Rightarrow> opal_buffer \<Rightarrow> int \<Rightarrow> (status \<times> workflow \<times> opal_buffer) outcome" where
  "workflow_add_steps env cfg 0 w b step = Ret (OPAL_SUCCESS, w, b)"
| "workflow_add_steps env cfg (Suc n) w b step =
     obind (orcm_analytics_base_workflow_step_add env cfg w b step) (\<lambda>(rc, w1, b1).
       if rc \<noteq> OPAL_SUCCESS then Ret (rc, w1, b1) else workflow_add_steps env cfg n w1 b1 (step + 1))"

definition orcm_analytics_base_workflow_object_init ::
  "string option \<Rightarrow> analytics_base \<Rightarrow> (workflow \<times> analytics_base) outcome" where
  "orcm_analytics_base_workflow_object_init name ab =
     (if ab_workflow_id ab = INT_MAX then Undef
      else Ret (\<lparr>wf_name = name, wf_hostname_regex = None, wf_workflow_id = ab_workflow_id ab, wf_steps = []\<rparr>,
                ab\<lparr>ab_workflow_id := ab_workflow_id ab + 1\<rparr>))"

definition orcm_analytics_base_add_new_workflow_event_base :: "workflow_env \<Rightarrow> workflow \<Rightarrow> status" where
  "orcm_analytics_base_add_new_workflow_event_base env w =
     (if we_thread env (''wfid'' @ fmt_d (wf_workflow_id w)) then OPAL_SUCCESS else OPAL_ERR_OUT_OF_RESOURCE)"

text \<open>The result has the number of the workflow, which the caller only looks at after a success.\<close>

definition orcm_analytics_base_workflow_add ::
  "workflow_env \<Rightarrow> dss_params \<Rightarrow> opal_buffer \<Rightarrow> analytics_base \<Rightarrow> (status \<times> int \<times> analytics_base) outcome" where
  "orcm_analytics_base_workflow_add env cfg b ab =
     obind (unpack_int cfg b 1) (\<lambda>(rc, cnt1, num_steps, b1).
       if rc \<noteq> OPAL_SUCCESS then Ret (rc, 0, ab)
       else
         obind (unpack_string cfg b1 cnt1) (\<lambda>(rc1, cnt2, name, b2).
           if rc1 \<noteq> OPAL_SUCCESS then Ret (rc1, 0, ab)
           else
             obind (orcm_analytics_base_workflow_object_init (case name of None \<Rightarrow> None | Some s \<Rightarrow> s) ab) (\<lambda>(w, ab1).
               let rc2 = orcm_analytics_base_add_new_workflow_event_base env w in
               if rc2 \<noteq> OPAL_SUCCESS then Ret (rc2, 0, ab1)
               else
                 (case num_steps of
                    None \<Rightarrow> Undef
                  | Some num \<Rightarrow>
                      obind (workflow_add_steps env cfg (nat num) w b2 0) (\<lambda>(rc3, w1, b3).
                        if rc3 \<noteq> OPAL_SUCCESS then Ret (rc3, 0, ab1)
                        else Ret (OPAL_SUCCESS, wf_workflow_id w1, ab1\<lparr>ab_workflows := ab_workflows ab1 @ [w1]\<rparr>))))))"

section \<open>Removal and listing\<close>

definition workflow_number :: "string \<Rightarrow> int outcome" where
  "workflow_number wfid =
     (if wfid = ''*'' then Ret (- 1)
      else if wfid = [] then Undef
      else Ret (if isdigit (last wfid) then int_of_long (fst (strtol wfid)) else - 1))"

definition orcm_analytics_base_workflow_remove ::
  "dss_params \<Rightarrow> opal_buffer \<Rightarrow> analytics_base \<Rightarrow> (status \<times> analytics_base) outcome" where
  "orcm_analytics_base_workflow_remove cfg b ab =
     obind (unpack_string cfg b 1) (\<lambda>(rc, cnt1, name, b1).
       if rc \<noteq> OPAL_SUCCESS then Ret (rc, ab)
       else
         obind (unpack_string cfg b1 cnt1) (\<lambda>(rc1, cnt2, wfid, b2).
           if rc1 \<noteq> OPAL_SUCCESS then Ret (rc1, ab)
           else
             (case (name, wfid) of
                (Some (Some nm), Some (Some i)) \<Rightarrow>
                  obind (workflow_number i) (\<lambda>num.
                    if nm \<noteq> ''*'' \<and> list_ex (\<lambda>w. wf_name w = None) (ab_workflows ab) then Undef
                    else
                      (let gone = (\<lambda>w. nm = ''*'' \<or> (wf_name w = Some nm \<and> (num = wf_workflow_id w \<or> i = ''*'')))
                       in Ret (if list_ex gone (ab_workflows ab) then OPAL_SUCCESS else OPAL_ERROR,
                               ab\<lparr>ab_workflows := filter (\<lambda>w. \<not> gone w) (ab_workflows ab)\<rparr>)))
              | _ \<Rightarrow> Undef)))"

definition orcm_analytics_base_recv_pack_int :: "dss_params \<Rightarrow> opal_buffer \<Rightarrow> int \<Rightarrow> (status \<times> opal_buffer) outcome" where
  "orcm_analytics_base_recv_pack_int cfg b i =
     obind (pack_int cfg b i) (\<lambda>(rc, b1). Ret (if rc \<noteq> OPAL_SUCCESS then OPAL_ERROR else OPAL_SUCCESS, b1))"

primrec orcm_analytics_base_workflow_list_append_info ::
  "dss_params \<Rightarrow> workflow list \<Rightarrow> opal_buffer \<Rightarrow> (status \<times> opal_buffer) outcome" where
  "orcm_analytics_base_workflow_list_append_info cfg [] b = Ret (OPAL_SUCCESS, b)"
| "orcm_analytics_base_workflow_list_append_info cfg (w # ws) b =
     and_then (orcm_analytics_base_recv_pack_int cfg b (wf_workflow_id w)) (\<lambda>b1.
       if wf_name w = None then Undef
       else and_then (pack_string cfg b1 (wf_name w)) (orcm_analytics_base_workflow_list_append_info cfg ws))"

definition orcm_analytics_base_workflow_list :: "dss_params \<Rightarrow> opal_buffer \<Rightarrow> analytics_base \<Rightarrow> (status \<times> opal_buffer) outcome" where
  "orcm_analytics_base_workflow_list cfg b ab =
     and_then (orcm_analytics_base_recv_pack_int cfg b (c_int (length (ab_workflows ab))))
       (orcm_analytics_base_workflow_list_append_info cfg (ab_workflows ab))"

definition orcm_analytics_base_control_storage :: "8 word \<Rightarrow> analytics_base \<Rightarrow> status \<times> analytics_base" where
  "orcm_analytics_base_control_storage storage_command ab =
     (if storage_command = 0 then (OPAL_SUCCESS, ab\<lparr>ab_store_raw_data := False, ab_store_event_data := False\<rparr>)
      else if storage_command = 1 then (OPAL_SUCCESS, ab\<lparr>ab_store_raw_data := True\<rparr>)
      else if storage_command = 2 then (OPAL_SUCCESS, ab\<lparr>ab_store_event_data := True\<rparr>)
      else if storage_command = 3 then (OPAL_SUCCESS, ab\<lparr>ab_store_raw_data := True, ab_store_event_data := True\<rparr>)
      else (OPAL_ERROR, ab))"

section \<open>Messages to the aggregator\<close>

abbreviation ORCM_ANALYTICS_WORKFLOW_ADD :: "8 word" where
  "ORCM_ANALYTICS_WORKFLOW_ADD \<equiv> 1"

abbreviation ORCM_ANALYTICS_WORKFLOW_REMOVE :: "8 word" where
  "ORCM_ANALYTICS_WORKFLOW_REMOVE \<equiv> 2"

abbreviation ORCM_ANALYTICS_WORKFLOW_LIST :: "8 word" where
  "ORCM_ANALYTICS_WORKFLOW_LIST \<equiv> 3"

abbreviation ORCM_ANALYTICS_SENSOR_STORAGE_POLICY :: "8 word" where
  "ORCM_ANALYTICS_SENSOR_STORAGE_POLICY \<equiv> 4"

text \<open>A failure is the byte of \<^verbatim>\<open>ORCM_ERROR\<close>.\<close>

definition orcm_analytics_base_recv_unpack_uint8_t :: "dss_params \<Rightarrow> opal_buffer \<Rightarrow> (8 word \<times> opal_buffer) outcome" where
  "orcm_analytics_base_recv_unpack_uint8_t cfg b =
     obind (opal_dss_unpack cfg b 1 OPAL_UINT8) (\<lambda>(rc, n, d, b1).
       if rc \<noteq> OPAL_SUCCESS then Ret (- 1, b1)
       else (case d of Plain (D8 (w # ws)) \<Rightarrow> Ret (w, b1) | _ \<Rightarrow> Undef))"

text \<open>The answer that is sent; a number that cannot be packed is left out of it.\<close>

definition orcm_analytics_base_recv_send_answer :: "dss_params \<Rightarrow> opal_buffer \<Rightarrow> status \<Rightarrow> opal_buffer outcome" where
  "orcm_analytics_base_recv_send_answer cfg ans rc =
     (case status_code rc of
        None \<Rightarrow> Undef
      | Some c \<Rightarrow> obind (orcm_analytics_base_recv_pack_int cfg ans c) (\<lambda>(_, b). Ret b))"

definition orcm_analytics_base_recv ::
  "workflow_env \<Rightarrow> dss_params \<Rightarrow> bool \<Rightarrow> opal_buffer \<Rightarrow> analytics_base \<Rightarrow> (opal_buffer \<times> analytics_base) outcome" where
  "orcm_analytics_base_recv env cfg desc buffer ab =
     (let ans = opal_buffer_construct desc in
      obind (orcm_analytics_base_recv_unpack_uint8_t cfg buffer) (\<lambda>(command, b).
        obind
          (if command = ORCM_ANALYTICS_WORKFLOW_ADD then
             obind (orcm_analytics_base_workflow_add env cfg b ab) (\<lambda>(rc, wfid, ab1).
               if rc = OPAL_SUCCESS then obind (orcm_analytics_base_recv_pack_int cfg ans wfid) (\<lambda>(rc1, ans1). Ret (rc1, ans1, ab1))
               else Ret (rc, ans, ab1))
           else if command = ORCM_ANALYTICS_WORKFLOW_REMOVE then
             obind (orcm_analytics_base_workflow_remove cfg b ab) (\<lambda>(rc, ab1). Ret (rc, ans, ab1))
           else if command = ORCM_ANALYTICS_WORKFLOW_LIST then
             obind (orcm_analytics_base_workflow_list cfg ans ab) (\<lambda>(rc, ans1). Ret (rc, ans1, ab))
           else if command = ORCM_ANALYTICS_SENSOR_STORAGE_POLICY then
             obind (orcm_analytics_base_recv_unpack_uint8_t cfg b) (\<lambda>(storage, b1).
               case orcm_analytics_base_control_storage storage ab of (rc, ab1) \<Rightarrow> Ret (rc, ans, ab1))
           else Ret (OPAL_ERR_BAD_PARAM, ans, ab)) (\<lambda>(rc, ans1, ab1).
          obind (orcm_analytics_base_recv_send_answer cfg ans1 rc) (\<lambda>ans2. Ret (ans2, ab1)))))"

section \<open>Workflows of the configuration file\<close>

definition workflow_add_process_single_workflow ::
  "workflow_env \<Rightarrow> dss_params \<Rightarrow> bool \<Rightarrow> parsed_item list option \<Rightarrow> string \<Rightarrow> analytics_base \<Rightarrow> (status \<times> analytics_base) outcome" where
  "workflow_add_process_single_workflow env cfg desc result_list head ab =
     obind (orcm_util_workflow_add_extract_workflow_info cfg result_list (opal_buffer_construct desc) head False)
       (\<lambda>(rc, buf, filter_first).
          if rc \<noteq> OPAL_SUCCESS \<or> \<not> filter_first then Ret (rc, ab)
          else obind (orcm_analytics_base_workflow_add env cfg buf ab) (\<lambda>(rc1, wfid, ab1). Ret (rc1, ab1)))"

primrec workflow_add_process_workflows ::
  "workflow_env \<Rightarrow> dss_params \<Rightarrow> bool \<Rightarrow> parsed_item list \<Rightarrow> status \<Rightarrow> analytics_base \<Rightarrow> (status \<times> analytics_base) outcome" where
  "workflow_add_process_workflows env cfg desc [] rc ab = Ret (rc, ab)"
| "workflow_add_process_workflows env cfg desc (item # items) rc ab =
     (case item of
        P_string key value \<Rightarrow> workflow_add_process_workflows env cfg desc items rc ab
      | P_list None sub \<Rightarrow> Undef
      | P_list (Some key) sub \<Rightarrow>
          if key = ''workflow'' then
            obind (workflow_add_process_single_workflow env cfg desc sub key ab) (\<lambda>(rc1, ab1).
              workflow_add_process_workflows env cfg desc items rc1 ab1)
          else workflow_add_process_workflows env cfg desc items rc ab
      | P_other \<Rightarrow> Ret (OPAL_ERROR, ab))"

section \<open>The console\<close>

datatype octl_info =
    Workflow_created int
  | Workflow_failure
  | Workflow_deleted
  | Workflow_notfound
  | Workflow_list "string option" int
  | No_workflows
  | Octl_unpack

text \<open>The message with a workflow; none is sent when the file has no filter as its first step.\<close>

definition octl_workflow_add ::
  "dss_params \<Rightarrow> bool \<Rightarrow> parsed_item list option \<Rightarrow> string \<Rightarrow> (status \<times> opal_buffer option) outcome" where
  "octl_workflow_add cfg desc result_list head =
     obind (opal_dss_pack cfg (opal_buffer_construct desc) (Plain (D8 [ORCM_ANALYTICS_WORKFLOW_ADD])) OPAL_UINT8) (\<lambda>(rc, buf).
       if rc \<noteq> OPAL_SUCCESS then Ret (rc, None)
       else
         obind (orcm_util_workflow_add_extract_workflow_info cfg result_list buf head False) (\<lambda>(rc1, buf1, filter_first).
           Ret (rc1, if rc1 \<noteq> OPAL_SUCCESS \<or> \<not> filter_first then None else Some buf1)))"

definition workflow_add_unpack_buffer :: "dss_params \<Rightarrow> opal_buffer \<Rightarrow> octl_info list outcome" where
  "workflow_add_unpack_buffer cfg b =
     obind (unpack_int cfg b 1) (\<lambda>(rc, n, i, b1).
       if rc \<noteq> OPAL_SUCCESS then Ret [Octl_unpack]
       else (case i of None \<Rightarrow> Undef | Some wfid \<Rightarrow> Ret [if wfid < 0 then Workflow_failure else Workflow_created wfid]))"

definition workflow_remove_pack_buffer :: "dss_params \<Rightarrow> opal_buffer \<Rightarrow> string \<Rightarrow> string \<Rightarrow> (status \<times> opal_buffer) outcome" where
  "workflow_remove_pack_buffer cfg buf name wfid =
     and_then (opal_dss_pack cfg buf (Plain (D8 [ORCM_ANALYTICS_WORKFLOW_REMOVE])) OPAL_UINT8) (\<lambda>b1.
       and_then (pack_string cfg b1 (Some name)) (\<lambda>b2. pack_string cfg b2 (Some wfid)))"

definition workflow_remove_unpack_buffer :: "dss_params \<Rightarrow> opal_buffer \<Rightarrow> octl_info list outcome" where
  "workflow_remove_unpack_buffer cfg b =
     obind (unpack_int cfg b 1) (\<lambda>(rc, n, i, b1).
       if rc \<noteq> OPAL_SUCCESS then Ret [Octl_unpack]
       else (case i of None \<Rightarrow> Undef | Some res \<Rightarrow> Ret [if 0 \<le> res then Workflow_deleted else Workflow_notfound]))"

definition workflow_list_pack_buffer :: "dss_params \<Rightarrow> opal_buffer \<Rightarrow> (status \<times> opal_buffer) outcome" where
  "workflow_list_pack_buffer cfg buf = opal_dss_pack cfg buf (Plain (D8 [ORCM_ANALYTICS_WORKFLOW_LIST])) OPAL_UINT8"

primrec workflow_list_entries :: "dss_params \<Rightarrow> nat \<Rightarrow> int \<Rightarrow> opal_buffer \<Rightarrow> octl_info list outcome" where
  "workflow_list_entries cfg 0 n b = Ret []"
| "workflow_list_entries cfg (Suc k) n b =
     obind (unpack_int cfg b n) (\<lambda>(rc, n1, i, b1).
       if rc \<noteq> OPAL_SUCCESS then Ret [Octl_unpack]
       else
         obind (unpack_string cfg b1 n1) (\<lambda>(rc1, n2, s, b2).
           if rc1 \<noteq> OPAL_SUCCESS then Ret [Octl_unpack]
           else
             (case i of
                None \<Rightarrow> Undef
              | Some wfid \<Rightarrow>
                  obind (workflow_list_entries cfg k n2 b2) (\<lambda>infos.
                    Ret (Workflow_list (case s of None \<Rightarrow> None | Some name \<Rightarrow> name) wfid # infos)))))"

definition workflow_list_unpack_buffer :: "dss_params \<Rightarrow> opal_buffer \<Rightarrow> octl_info list outcome" where
  "workflow_list_unpack_buffer cfg b =
     obind (unpack_int cfg b 1) (\<lambda>(rc, n, i, b1).
       if rc \<noteq> OPAL_SUCCESS then Ret []
       else
         (case i of
            None \<Rightarrow> Undef
          | Some cnt \<Rightarrow> if cnt = 0 then Ret [No_workflows] else workflow_list_entries cfg (nat cnt) n b1))"

end
