(* ===== verification/Analytics_Workflow_Spec.thy ===== *)
theory Analytics_Workflow_Spec
  imports Analytics_Workflow
begin

text \<open>
  The workflow service from the console to the aggregator and back: a request is packed, transported, carried out and
  answered as an abstract list of workflows prescribes.
\<close>

section \<open>Specification\<close>

text \<open>A step has the name of its plug-in and its attributes, a workflow a name and steps.\<close>

type_synonym step_spec = "string \<times> (string \<times> string) list"

type_synonym entry_spec = "int \<times> string \<times> step_spec list"

datatype wf_request =
    Wf_add string "step_spec list"
  | Wf_remove string "nat option"
  | Wf_list

text \<open>The number that the next workflow gets, and the workflows in the order of their registration.\<close>

type_synonym wf_state = "int \<times> entry_spec list"

definition entry_matches :: "string \<Rightarrow> nat option \<Rightarrow> entry_spec \<Rightarrow> bool" where
  "entry_matches name n e \<longleftrightarrow>
     name = ''*'' \<or> (fst (snd e) = name \<and> (case n of None \<Rightarrow> True | Some k \<Rightarrow> fst e = int k))"

fun wf_spec :: "wf_request \<Rightarrow> wf_state \<Rightarrow> octl_info list \<times> wf_state" where
  "wf_spec (Wf_add name steps) (k, es) = ([Workflow_created k], (k + 1, es @ [(k, name, steps)]))"
| "wf_spec (Wf_remove name n) (k, es) =
     ([if list_ex (entry_matches name n) es then Workflow_deleted else Workflow_notfound],
      (k, filter (\<lambda>e. \<not> entry_matches name n e) es))"
| "wf_spec Wf_list (k, es) =
     (if es = [] then [No_workflows] else map (\<lambda>e. Workflow_list (Some (fst (snd e))) (fst e)) es, (k, es))"

primrec wf_specs :: "wf_request list \<Rightarrow> wf_state \<Rightarrow> octl_info list list \<times> wf_state" where
  "wf_specs [] s = ([], s)"
| "wf_specs (r # rs) s = (case wf_spec r s of (infos, s1) \<Rightarrow> case wf_specs rs s1 of (is, s2) \<Rightarrow> (infos # is, s2))"

section \<open>The service\<close>

text \<open>The block of the file that the parser makes of a workflow.\<close>

definition step_items :: "step_spec \<Rightarrow> parsed_item list" where
  "step_items s = P_string (Some ''name'') (Some (fst s)) # map (\<lambda>(k, v). P_string (Some k) (Some v)) (snd s)"

definition workflow_items :: "string \<Rightarrow> step_spec list \<Rightarrow> parsed_item list" where
  "workflow_items name steps =
     P_string (Some ''name'') (Some name) # map (\<lambda>s. P_list (Some ''step'') (Some (step_items s))) steps"

text \<open>
  The transport hands the payload of one buffer to a fresh one.  For a message of less than \<open>2\<^sup>3\<^sup>1\<close> bytes that is what
  unloading the one and loading the other do.
\<close>

definition deliver :: "bool \<Rightarrow> opal_buffer \<Rightarrow> opal_buffer" where
  "deliver desc b =
     (if \<not> ob_base b \<or> ob_bytes b = [] then opal_buffer_construct desc
      else (opal_buffer_construct desc)\<lparr>ob_base := True, ob_pack := True, ob_bytes := ob_bytes b,
        ob_allocated := length (ob_bytes b)\<rparr>)"

lemma deliver_load:
  assumes "length (ob_bytes b) < 2 ^ 31"
  shows "\<exists>payload n b'. opal_dss_unload b = (OPAL_SUCCESS, payload, n, b') \<and>
    opal_dss_load (opal_buffer_construct desc) payload n = Ret (OPAL_SUCCESS, deliver desc b)"
  using c_int_small [OF assms]
  by (auto simp: opal_dss_unload_def opal_dss_load_def deliver_def opal_buffer_construct_def)

fun wf_send :: "dss_params \<Rightarrow> bool \<Rightarrow> wf_request \<Rightarrow> (status \<times> opal_buffer option) outcome" where
  "wf_send cfg desc (Wf_add name steps) = octl_workflow_add cfg desc (Some (workflow_items name steps)) ''workflow''"
| "wf_send cfg desc (Wf_remove name n) =
     obind (workflow_remove_pack_buffer cfg (opal_buffer_construct desc) name (case n of None \<Rightarrow> ''*'' | Some k \<Rightarrow> dec k))
       (\<lambda>(rc, b). Ret (rc, if rc = OPAL_SUCCESS then Some b else None))"
| "wf_send cfg desc Wf_list =
     obind (workflow_list_pack_buffer cfg (opal_buffer_construct desc))
       (\<lambda>(rc, b). Ret (rc, if rc = OPAL_SUCCESS then Some b else None))"

fun wf_answer :: "dss_params \<Rightarrow> wf_request \<Rightarrow> opal_buffer \<Rightarrow> octl_info list outcome" where
  "wf_answer cfg (Wf_add name steps) b = workflow_add_unpack_buffer cfg b"
| "wf_answer cfg (Wf_remove name n) b = workflow_remove_unpack_buffer cfg b"
| "wf_answer cfg Wf_list b = workflow_list_unpack_buffer cfg b"

definition wf_service ::
  "workflow_env \<Rightarrow> dss_params \<Rightarrow> dss_params \<Rightarrow> bool \<Rightarrow> wf_request \<Rightarrow> analytics_base \<Rightarrow> (octl_info list \<times> analytics_base) outcome" where
  "wf_service env ccfg scfg desc r ab =
     obind (wf_send ccfg desc r) (\<lambda>(rc, buf).
       case buf of
         None \<Rightarrow> Ret ([], ab)
       | Some b \<Rightarrow>
           obind (orcm_analytics_base_recv env scfg desc (deliver desc b) ab) (\<lambda>(ans, ab1).
             obind (wf_answer ccfg r (deliver desc ans)) (\<lambda>infos. Ret (infos, ab1))))"

primrec wf_session ::
  "workflow_env \<Rightarrow> dss_params \<Rightarrow> dss_params \<Rightarrow> bool \<Rightarrow> wf_request list \<Rightarrow> analytics_base \<Rightarrow>
     (octl_info list list \<times> analytics_base) outcome" where
  "wf_session env ccfg scfg desc [] ab = Ret ([], ab)"
| "wf_session env ccfg scfg desc (r # rs) ab =
     obind (wf_service env ccfg scfg desc r ab) (\<lambda>(infos, ab1).
       obind (wf_session env ccfg scfg desc rs ab1) (\<lambda>(is, ab2). Ret (infos # is, ab2)))"

section \<open>Variables on the wire\<close>

definition text_ok :: "string \<Rightarrow> bool" where
  "text_ok s \<longleftrightarrow> CHR 0x00 \<notin> set s \<and> length s + 1 < 2 ^ 31"

definition int_bytes :: "bool \<Rightarrow> int \<Rightarrow> byte list" where
  "int_bytes d i = entry_bytes d OPAL_INT (Plain (D32 [of_int i]))"

definition string_bytes :: "bool \<Rightarrow> string \<Rightarrow> byte list" where
  "string_bytes d s = entry_bytes d OPAL_STRING (Plain (DStr [Some (c_string s)]))"

definition cmd_bytes :: "bool \<Rightarrow> 8 word \<Rightarrow> byte list" where
  "cmd_bytes d c = entry_bytes d OPAL_UINT8 (Plain (D8 [c]))"

definition holds :: "opal_buffer \<Rightarrow> bool \<Rightarrow> byte list \<Rightarrow> bool" where
  "holds b d bs \<longleftrightarrow> unread b bs \<and> ob_desc b = d"

lemma char_byte_zero: "(of_nat (of_char c) :: byte) = 0 \<longleftrightarrow> c = CHR 0x00"
proof
  assume "(of_nat (of_char c) :: byte) = 0"
  then have "of_char c = (0 :: nat)"
    using byte_of_char [of c] by simp
  moreover have "char_of (0 :: nat) = CHR 0x00"
    by (simp add: char_of_def)
  ultimately show "c = CHR 0x00"
    using char_of_char [of c, where 'a = nat] by simp
qed simp

lemma c_string_text:
  assumes "text_ok s"
  shows "takeWhile (\<lambda>c. c \<noteq> 0) (c_string s) = map (\<lambda>c. of_nat (of_char c)) s" "str_len (c_string s) = length s"
    "block_string (c_string s) = Some s" "str_ok (Some (c_string s))" "str_recv (Some (c_string s)) = Some (c_string s)"
proof -
  show tw: "takeWhile (\<lambda>c. c \<noteq> 0) (c_string s) = map (\<lambda>c. of_nat (of_char c)) s"
    unfolding c_string_def using assms
    by (intro takeWhile_nonzero_block) (auto simp: text_ok_def char_byte_zero)
  then show len: "str_len (c_string s) = length s"
    by (simp add: str_len_def)
  have zero: "0 \<in> set (c_string s)"
    by (simp add: c_string_def)
  then show "block_string (c_string s) = Some s"
    using tw by (simp add: block_string_def byte_of_char comp_def)
  show "str_ok (Some (c_string s))"
    using assms zero len by (simp add: str_ok_def text_ok_def)
  show "str_recv (Some (c_string s)) = Some (c_string s)"
    using tw by (simp add: str_recv_def c_string_def)
qed

lemma dss_types [simp]: "opal_dss_types OPAL_INT = Some F_int" "opal_dss_types OPAL_STRING = Some F_string" "opal_dss_types OPAL_UINT8 = Some F_byte"
  by (simp_all add: dss_table)

lemma item_ok: "type_ok top_ok OPAL_INT (Plain (D32 [w]))" "type_ok top_ok OPAL_UINT8 (Plain (D8 [c]))"
    "text_ok s \<Longrightarrow> type_ok top_ok OPAL_STRING (Plain (DStr [Some (c_string s)]))"
  by (simp_all add: type_ok_def mid_ok_def real_fn_def c_string_text(4))

lemma packs_pack_int: "dss_ok cfg \<Longrightarrow> buf_ok b \<Longrightarrow> packs (pack_int cfg b i) b (int_bytes (ob_desc b) i)"
  unfolding pack_int_def int_bytes_def by (intro packs_entry type_ok_packable item_ok)

lemma packs_pack_string:
  "dss_ok cfg \<Longrightarrow> buf_ok b \<Longrightarrow> text_ok s \<Longrightarrow> packs (pack_string cfg b (Some s)) b (string_bytes (ob_desc b) s)"
  unfolding pack_string_def string_bytes_def option.map by (intro packs_entry type_ok_packable item_ok)

lemma packs_cmd:
  "dss_ok cfg \<Longrightarrow> buf_ok b \<Longrightarrow> packs (opal_dss_pack cfg b (Plain (D8 [c])) OPAL_UINT8) b (cmd_bytes (ob_desc b) c)"
  unfolding cmd_bytes_def by (intro packs_entry type_ok_packable item_ok)

lemma unpack_entry_holds:
  assumes "dss_ok cfg" "type_ok top_ok t src" "holds b d (entry_bytes d t src @ rest)" "src_length src = 1"
  shows "\<exists>b'. opal_dss_unpack cfg b 1 t = Ret (OPAL_SUCCESS, 1, src_recv cfg t src, b') \<and> holds b' d rest"
proof -
  have r: "unread b (entry_bytes (ob_desc b) t src @ rest)" "ob_desc b = d"
    using assms(3) by (simp_all add: holds_def)
  show ?thesis
    using unpack_entry [OF assms(1,2) r(1), of 1] assms(4) unread_skip [OF r(1)] r(2) by (simp add: holds_def)
qed

lemma unpack_int_holds:
  assumes "dss_ok cfg" "holds b d (int_bytes d i @ rest)" "- (2 ^ 31) \<le> i" "i < 2 ^ 31"
  shows "\<exists>b'. unpack_int cfg b 1 = Ret (OPAL_SUCCESS, 1, Some i, b') \<and> holds b' d rest"
proof -
  have "sint (of_int i :: 32 word) = i"
    using assms(3,4) by (simp add: sint_sbintrunc' signed_take_bit_int_eq_self)
  then show ?thesis
    using unpack_entry_holds [OF assms(1) item_ok(1) assms(2) [unfolded int_bytes_def]] by (auto simp: unpack_int_def mid_recv_def)
qed

lemma unpack_string_holds:
  assumes "dss_ok cfg" "holds b d (string_bytes d s @ rest)" "text_ok s"
  shows "\<exists>b'. unpack_string cfg b 1 = Ret (OPAL_SUCCESS, 1, Some (Some s), b') \<and> holds b' d rest"
  using unpack_entry_holds [OF assms(1) item_ok(3) [OF assms(3)] assms(2) [unfolded string_bytes_def]] c_string_text [OF assms(3)]
  by (auto simp: unpack_string_def mid_recv_def)

lemma unpack_cmd_holds:
  assumes "dss_ok cfg" "holds b d (cmd_bytes d c @ rest)"
  shows "\<exists>b'. orcm_analytics_base_recv_unpack_uint8_t cfg b = Ret (c, b') \<and> holds b' d rest"
  using unpack_entry_holds [OF assms(1) item_ok(2) assms(2) [unfolded cmd_bytes_def]]
  by (auto simp: orcm_analytics_base_recv_unpack_uint8_t_def mid_recv_def real_fn_def)

section \<open>From the file into the message\<close>

definition step_ok :: "step_spec \<Rightarrow> bool" where
  "step_ok s \<longleftrightarrow>
     text_ok (fst s) \<and> list_all (\<lambda>(k, v). k \<noteq> ''name'' \<and> text_ok k \<and> text_ok v) (snd s) \<and> length (snd s) + 1 < 2 ^ 31"

definition attribute_bytes :: "bool \<Rightarrow> (string \<times> string) list \<Rightarrow> byte list" where
  "attribute_bytes d as = concat (map (\<lambda>(k, v). string_bytes d k @ string_bytes d v) as)"

definition step_bytes :: "bool \<Rightarrow> step_spec \<Rightarrow> byte list" where
  "step_bytes d s = int_bytes d (int (length (snd s))) @ string_bytes d (fst s) @ attribute_bytes d (snd s)"

definition workflow_bytes :: "bool \<Rightarrow> string \<Rightarrow> step_spec list \<Rightarrow> byte list" where
  "workflow_bytes d name steps = int_bytes d (int (length steps)) @ string_bytes d name @ concat (map (step_bytes d) steps)"

text \<open>As \<open>packs\<close>, with the flag for the filter.\<close>

definition extracts :: "(status \<times> opal_buffer \<times> bool) outcome \<Rightarrow> opal_buffer \<Rightarrow> byte list \<Rightarrow> bool" where
  "extracts m b bs \<longleftrightarrow> (\<exists>b'. m = Ret (OPAL_SUCCESS, b', True) \<and> appended b bs b')"

lemma appended_desc: "appended b bs b' \<Longrightarrow> ob_desc b' = ob_desc b \<and> buf_ok b'"
  by (simp add: appended_def)

lemma packsE:
  assumes "packs m b bs"
  obtains b' where "m = Ret (OPAL_SUCCESS, b')" "appended b bs b'" "ob_desc b' = ob_desc b" "buf_ok b'"
  using assms appended_desc by (auto simp: packs_def)

lemma extract_attributes:
  assumes "dss_ok cfg" "buf_ok b" "list_all (\<lambda>(k, v). k \<noteq> ''name'' \<and> text_ok k \<and> text_ok v) as"
  shows "extracts (extract_items cfg (map (\<lambda>(k, v). P_string (Some k) (Some v)) as) b ''step'' True True OPAL_SUCCESS) b
    (attribute_bytes (ob_desc b) as)"
  using assms(2,3)
proof (induction as arbitrary: b)
  case (Cons a as)
  obtain k v where a: "a = (k, v)" and ok: "k \<noteq> ''name''" "text_ok k" "text_ok v"
    using Cons.prems(2) by (cases a) auto
  obtain b1 where 1: "pack_string cfg b (Some k) = Ret (OPAL_SUCCESS, b1)" "appended b (string_bytes (ob_desc b) k) b1"
      "ob_desc b1 = ob_desc b" "buf_ok b1"
    using packs_pack_string [OF assms(1) Cons.prems(1) ok(2)] by (rule packsE)
  obtain b2 where 2: "pack_string cfg b1 (Some v) = Ret (OPAL_SUCCESS, b2)" "appended b1 (string_bytes (ob_desc b) v) b2"
      "ob_desc b2 = ob_desc b" "buf_ok b2"
    using packs_pack_string [OF assms(1) 1(4) ok(3)] 1(3) by (elim packsE) simp
  have "orcm_util_workflow_add_extract_string_type cfg b (Some k) (Some v) ''step'' True True = Ret (OPAL_SUCCESS, b2, True, True)"
    using ok(1) 1(1) 2(1) by (simp add: orcm_util_workflow_add_extract_string_type_def orcm_util_workflow_add_check_name_key_def
        orcm_util_workflow_add_check_filter_step_def)
  then show ?case
    using Cons.IH [OF 2(4)] Cons.prems(2) 2(3) appended_trans [OF appended_trans [OF 1(2) 2(2)]]
    by (auto simp: a extracts_def attribute_bytes_def)
qed (simp add: extracts_def attribute_bytes_def appended_refl)

lemma extract_named:
  assumes "dss_ok cfg" "buf_ok b" "text_ok name" "length items + 1 < 2 ^ 31" "head = ''step'' \<Longrightarrow> f \<or> name = ''filter''"
  shows "\<exists>b'. orcm_util_workflow_add_extract_workflow_info cfg (Some (P_string (Some ''name'') (Some name) # items)) b head f =
      extract_items cfg items b' head (f \<or> head = ''step'') True OPAL_SUCCESS \<and>
    appended b (int_bytes (ob_desc b) (int (length items)) @ string_bytes (ob_desc b) name) b'"
proof -
  have n: "c_int (length (P_string (Some ''name'') (Some name) # items)) - 1 = int (length items)"
    using assms(4) by (simp add: c_int_small)
  obtain b1 where 1: "pack_int cfg b (int (length items)) = Ret (OPAL_SUCCESS, b1)"
      "appended b (int_bytes (ob_desc b) (int (length items))) b1" "ob_desc b1 = ob_desc b" "buf_ok b1"
    using packs_pack_int [OF assms(1,2)] by (rule packsE)
  obtain b2 where 2: "pack_string cfg b1 (Some name) = Ret (OPAL_SUCCESS, b2)" "appended b1 (string_bytes (ob_desc b) name) b2"
    using packs_pack_string [OF assms(1) 1(4) assms(3)] 1(3) by (elim packsE) simp
  have "orcm_util_workflow_add_extract_string_type cfg b1 (Some ''name'') (Some name) head False f =
      Ret (OPAL_SUCCESS, b2, True, f \<or> head = ''step'')"
    using assms(5) 2(1) by (auto simp: orcm_util_workflow_add_extract_string_type_def orcm_util_workflow_add_check_name_key_def
        orcm_util_workflow_add_check_filter_step_def)
  then show ?thesis
    using 1(1) appended_trans [OF 1(2) 2(2)] by (intro exI [of _ b2]) (simp add: n del: list.size)
qed

lemma extract_step:
  assumes "dss_ok cfg" "buf_ok b" "step_ok s" "f \<or> fst s = ''filter''"
  shows "extracts (orcm_util_workflow_add_extract_workflow_info cfg (Some (step_items s)) b ''step'' f) b (step_bytes (ob_desc b) s)"
proof -
  have ok: "text_ok (fst s)" "list_all (\<lambda>(k, v). k \<noteq> ''name'' \<and> text_ok k \<and> text_ok v) (snd s)" "length (snd s) + 1 < 2 ^ 31"
    using assms(3) by (simp_all add: step_ok_def)
  let ?items = "map (\<lambda>(k, v). P_string (Some k) (Some v)) (snd s)"
  obtain b1 where 1: "orcm_util_workflow_add_extract_workflow_info cfg (Some (step_items s)) b ''step'' f =
        extract_items cfg ?items b1 ''step'' True True OPAL_SUCCESS"
      "appended b (int_bytes (ob_desc b) (int (length (snd s))) @ string_bytes (ob_desc b) (fst s)) b1"
    using extract_named [OF assms(1,2) ok(1), of ?items "''step''" f] ok(3) assms(4) by (auto simp: step_items_def)
  have "extracts (extract_items cfg ?items b1 ''step'' True True OPAL_SUCCESS) b1 (attribute_bytes (ob_desc b) (snd s))"
    using extract_attributes [OF assms(1) _ ok(2), of b1] appended_desc [OF 1(2)] by simp
  then show ?thesis
    using 1 appended_trans [OF 1(2)] by (auto simp: extracts_def step_bytes_def)
qed

lemma extract_steps:
  assumes "dss_ok cfg" "buf_ok b" "list_all step_ok steps" "f \<or> steps \<noteq> [] \<and> fst (hd steps) = ''filter''"
  shows "extracts (extract_items cfg (map (\<lambda>s. P_list (Some ''step'') (Some (step_items s))) steps) b ''workflow'' f True OPAL_SUCCESS) b
    (concat (map (step_bytes (ob_desc b)) steps))"
  using assms(2-4)
proof (induction steps arbitrary: b f)
  case (Cons s steps)
  obtain b1 where 1: "orcm_util_workflow_add_extract_workflow_info cfg (Some (step_items s)) b ''step'' f = Ret (OPAL_SUCCESS, b1, True)"
      "appended b (step_bytes (ob_desc b) s) b1"
    using extract_step [OF assms(1) Cons.prems(1), of s f] Cons.prems(2,3) by (auto simp: extracts_def)
  then show ?case
    using Cons.IH [of b1 True] Cons.prems(2) appended_desc [OF 1(2)] appended_trans [OF 1(2)] by (auto simp: extracts_def)
qed (simp add: extracts_def appended_refl)

lemma extract_workflow:
  assumes "dss_ok cfg" "buf_ok b" "text_ok name" "list_all step_ok steps" "steps \<noteq> []" "fst (hd steps) = ''filter''"
    "length steps + 1 < 2 ^ 31"
  shows "extracts (orcm_util_workflow_add_extract_workflow_info cfg (Some (workflow_items name steps)) b ''workflow'' False) b
    (workflow_bytes (ob_desc b) name steps)"
proof -
  let ?items = "map (\<lambda>s. P_list (Some ''step'') (Some (step_items s))) steps"
  obtain b1 where 1: "orcm_util_workflow_add_extract_workflow_info cfg (Some (workflow_items name steps)) b ''workflow'' False =
        extract_items cfg ?items b1 ''workflow'' False True OPAL_SUCCESS"
      "appended b (int_bytes (ob_desc b) (int (length steps)) @ string_bytes (ob_desc b) name) b1"
    using extract_named [OF assms(1-3), of ?items "''workflow''" False] assms(7) by (auto simp: workflow_items_def)
  have "extracts (extract_items cfg ?items b1 ''workflow'' False True OPAL_SUCCESS) b1 (concat (map (step_bytes (ob_desc b)) steps))"
    using extract_steps [OF assms(1) _ assms(4), of b1 False] assms(5,6) appended_desc [OF 1(2)] by simp
  then show ?thesis
    using 1 appended_trans [OF 1(2)] by (auto simp: extracts_def workflow_bytes_def)
qed

section \<open>From the message into the list of workflows\<close>

definition env_ok :: "workflow_env \<Rightarrow> bool" where
  "env_ok env \<longleftrightarrow> list_all snd (we_components env) \<and> (\<forall>name. we_thread env name)"

definition step_module :: "workflow_env \<Rightarrow> string \<Rightarrow> string option" where
  "step_module env name =
     (let plugin = (if we_plugin_exist env name then ''extension'' else name)
      in map_option fst (find (\<lambda>c. strneq (fst c) plugin 64) (rev (we_components env))))"

definition workflow_step_of :: "workflow_env \<Rightarrow> int \<Rightarrow> step_spec \<Rightarrow> workflow_step" where
  "workflow_step_of env i s =
     \<lparr>ws_attributes = map (\<lambda>(k, v). (Some k, Some v)) (snd s), ws_analytic = Some (fst s), ws_step_id = i,
      ws_mod = step_module env (fst s)\<rparr>"

primrec workflow_steps_of :: "workflow_env \<Rightarrow> int \<Rightarrow> step_spec list \<Rightarrow> workflow_step list" where
  "workflow_steps_of env i [] = []"
| "workflow_steps_of env i (s # steps) = workflow_step_of env i s # workflow_steps_of env (i + 1) steps"

definition workflow_of :: "workflow_env \<Rightarrow> entry_spec \<Rightarrow> workflow" where
  "workflow_of env e =
     \<lparr>wf_name = Some (fst (snd e)), wf_hostname_regex = None, wf_workflow_id = fst e,
      wf_steps = workflow_steps_of env 0 (snd (snd e))\<rparr>"

lemma find_append: "find P (xs @ ys) = (case find P xs of None \<Rightarrow> find P ys | Some x \<Rightarrow> Some x)"
  by (induction xs) simp_all

lemma select_ok:
  assumes "list_all snd cs"
  shows "orcm_analytics_base_select_workflow_step cs plugin m =
    (OPAL_SUCCESS, case find (\<lambda>c. strneq (fst c) plugin 64) (rev cs) of None \<Rightarrow> m | Some c \<Rightarrow> Some (fst c))"
  using assms by (induction cs arbitrary: m) (auto simp: find_append split: option.splits)

lemma parse_attributes_ok:
  assumes "dss_ok cfg" "holds b d (attribute_bytes d as @ rest)" "list_all (\<lambda>(k, v). k \<noteq> ''name'' \<and> text_ok k \<and> text_ok v) as"
  shows "\<exists>b'. orcm_analytics_base_parse_attributes cfg (length as) attrs b 1 key value =
      Ret (OPAL_SUCCESS, attrs @ map (\<lambda>(k, v). (Some k, Some v)) as, b') \<and> holds b' d rest"
  using assms(2,3)
proof (induction as arbitrary: b attrs key "value")
  case (Cons a as)
  obtain k v where a: "a = (k, v)" and ok: "text_ok k" "text_ok v"
    using Cons.prems(2) by (cases a) auto
  have r: "holds b d (string_bytes d k @ string_bytes d v @ attribute_bytes d as @ rest)"
    using Cons.prems(1) by (simp add: a attribute_bytes_def)
  obtain b1 where 1: "unpack_string cfg b 1 = Ret (OPAL_SUCCESS, 1, Some (Some k), b1)"
      "holds b1 d (string_bytes d v @ attribute_bytes d as @ rest)"
    using unpack_string_holds [OF assms(1) r ok(1)] by blast
  obtain b2 where 2: "unpack_string cfg b1 1 = Ret (OPAL_SUCCESS, 1, Some (Some v), b2)" "holds b2 d (attribute_bytes d as @ rest)"
    using unpack_string_holds [OF assms(1) 1(2) ok(2)] by blast
  show ?case
    using Cons.IH [OF 2(2), of "attrs @ [(Some k, Some v)]" "Some k" "Some v"] Cons.prems(2) 1(1) 2(1)
    by (auto simp: a orcm_analytics_base_append_attributes_def)
qed (simp add: attribute_bytes_def)

lemma step_add_ok:
  assumes "dss_ok cfg" "env_ok env" "step_ok s" "holds b d (step_bytes d s @ rest)"
  shows "\<exists>b'. orcm_analytics_base_workflow_step_add env cfg w b i =
      Ret (OPAL_SUCCESS, w\<lparr>wf_steps := wf_steps w @ [workflow_step_of env i s]\<rparr>, b') \<and> holds b' d rest"
proof -
  have ok: "text_ok (fst s)" "list_all (\<lambda>(k, v). k \<noteq> ''name'' \<and> text_ok k \<and> text_ok v) (snd s)" "length (snd s) + 1 < 2 ^ 31"
    using assms(3) by (simp_all add: step_ok_def)
  have r: "holds b d (int_bytes d (int (length (snd s))) @ string_bytes d (fst s) @ attribute_bytes d (snd s) @ rest)"
    using assms(4) by (simp add: step_bytes_def)
  obtain b1 where 1: "unpack_int cfg b 1 = Ret (OPAL_SUCCESS, 1, Some (int (length (snd s))), b1)"
      "holds b1 d (string_bytes d (fst s) @ attribute_bytes d (snd s) @ rest)"
    using unpack_int_holds [OF assms(1) r] ok(3) by auto
  obtain b2 where 2: "unpack_string cfg b1 1 = Ret (OPAL_SUCCESS, 1, Some (Some (fst s)), b2)" "holds b2 d (attribute_bytes d (snd s) @ rest)"
    using unpack_string_holds [OF assms(1) 1(2) ok(1)] by blast
  obtain b3 where 3: "orcm_analytics_base_parse_attributes cfg (length (snd s)) [] b2 1 None None =
      Ret (OPAL_SUCCESS, map (\<lambda>(k, v). (Some k, Some v)) (snd s), b3)" "holds b3 d rest"
    using parse_attributes_ok [OF assms(1) 2(2) ok(2), of "[]"] by auto
  have "orcm_analytics_base_select_workflow_step (we_components env) (orcm_analytics_get_plugin_name env (fst s)) None =
      (OPAL_SUCCESS, step_module env (fst s))"
    using select_ok assms(2)
    by (simp add: env_ok_def step_module_def orcm_analytics_get_plugin_name_def Let_def split: option.splits)
  then show ?thesis
    using 1(1) 2(1) 3 by (simp add: orcm_analytics_base_workflow_step_add_def workflow_step_of_def)
qed

lemma add_steps_ok:
  assumes "dss_ok cfg" "env_ok env" "list_all step_ok steps" "holds b d (concat (map (step_bytes d) steps) @ rest)"
  shows "\<exists>b'. workflow_add_steps env cfg (length steps) w b i =
      Ret (OPAL_SUCCESS, w\<lparr>wf_steps := wf_steps w @ workflow_steps_of env i steps\<rparr>, b') \<and> holds b' d rest"
  using assms(3,4)
proof (induction steps arbitrary: b w i)
  case (Cons s steps)
  have r: "holds b d (step_bytes d s @ concat (map (step_bytes d) steps) @ rest)" and s: "step_ok s"
    using Cons.prems by simp_all
  obtain b1 where 1: "orcm_analytics_base_workflow_step_add env cfg w b i =
      Ret (OPAL_SUCCESS, w\<lparr>wf_steps := wf_steps w @ [workflow_step_of env i s]\<rparr>, b1)" "holds b1 d (concat (map (step_bytes d) steps) @ rest)"
    using step_add_ok [OF assms(1,2) s r] by blast
  show ?case
    using Cons.IH [OF _ 1(2), of "w\<lparr>wf_steps := wf_steps w @ [workflow_step_of env i s]\<rparr>" "i + 1"] Cons.prems(1) 1(1) by simp
qed simp

definition request_ok :: "wf_request \<Rightarrow> bool" where
  "request_ok r =
     (case r of
        Wf_add name steps \<Rightarrow>
          text_ok name \<and> list_all step_ok steps \<and> steps \<noteq> [] \<and> fst (hd steps) = ''filter'' \<and> length steps + 1 < 2 ^ 31
      | Wf_remove name n \<Rightarrow> text_ok name \<and> (case n of None \<Rightarrow> True | Some k \<Rightarrow> k < 2 ^ 31)
      | Wf_list \<Rightarrow> True)"

definition wf_inv :: "workflow_env \<Rightarrow> analytics_base \<Rightarrow> wf_state \<Rightarrow> bool" where
  "wf_inv env ab s \<longleftrightarrow>
     ab_workflow_id ab = fst s \<and> ab_workflows ab = map (workflow_of env) (snd s) \<and> int (length (snd s)) \<le> fst s \<and>
     list_all (\<lambda>e. text_ok (fst (snd e)) \<and> 0 \<le> fst e \<and> fst e < fst s) (snd s)"

lemma workflow_add_ok:
  assumes "dss_ok cfg" "env_ok env" "request_ok (Wf_add name steps)" "holds b d (workflow_bytes d name steps @ rest)"
    "wf_inv env ab s" "fst s < INT_MAX"
  shows "\<exists>ab'. orcm_analytics_base_workflow_add env cfg b ab = Ret (OPAL_SUCCESS, fst s, ab') \<and>
    wf_inv env ab' (snd (wf_spec (Wf_add name steps) s))"
proof -
  have ok: "text_ok name" "list_all step_ok steps" "length steps + 1 < 2 ^ 31"
    using assms(3) by (simp_all add: request_ok_def)
  have r: "holds b d (int_bytes d (int (length steps)) @ string_bytes d name @ concat (map (step_bytes d) steps) @ rest)"
    using assms(4) by (simp add: workflow_bytes_def)
  obtain b1 where 1: "unpack_int cfg b 1 = Ret (OPAL_SUCCESS, 1, Some (int (length steps)), b1)"
      "holds b1 d (string_bytes d name @ concat (map (step_bytes d) steps) @ rest)"
    using unpack_int_holds [OF assms(1) r] ok(3) by auto
  obtain b2 where 2: "unpack_string cfg b1 1 = Ret (OPAL_SUCCESS, 1, Some (Some name), b2)" "holds b2 d (concat (map (step_bytes d) steps) @ rest)"
    using unpack_string_holds [OF assms(1) 1(2) ok(1)] by blast
  define w where "w = \<lparr>wf_name = Some name, wf_hostname_regex = None, wf_workflow_id = fst s, wf_steps = []\<rparr>"
  obtain b3 where 3: "workflow_add_steps env cfg (length steps) w b2 0 =
      Ret (OPAL_SUCCESS, w\<lparr>wf_steps := workflow_steps_of env 0 steps\<rparr>, b3)"
    using add_steps_ok [OF assms(1,2) ok(2) 2(2), of w 0] by (auto simp: w_def)
  have init: "orcm_analytics_base_workflow_object_init (Some name) ab = Ret (w, ab\<lparr>ab_workflow_id := fst s + 1\<rparr>)"
      "orcm_analytics_base_add_new_workflow_event_base env w = OPAL_SUCCESS"
    using assms(2,5,6)
    by (simp_all add: orcm_analytics_base_workflow_object_init_def wf_inv_def w_def env_ok_def
        orcm_analytics_base_add_new_workflow_event_base_def)
  have "w\<lparr>wf_steps := workflow_steps_of env 0 steps\<rparr> = workflow_of env (fst s, name, steps)"
    by (simp add: w_def workflow_of_def)
  then have "orcm_analytics_base_workflow_add env cfg b ab = Ret (OPAL_SUCCESS, fst s,
      ab\<lparr>ab_workflow_id := fst s + 1, ab_workflows := ab_workflows ab @ [workflow_of env (fst s, name, steps)]\<rparr>)"
    using 1(1) 2(1) 3 init by (simp add: orcm_analytics_base_workflow_add_def workflow_of_def)
  then show ?thesis
    using assms(5) ok(1) by (cases s) (auto simp: wf_inv_def list_all_iff)
qed

lemma workflow_number_ok:
  assumes "case n of None \<Rightarrow> True | Some k \<Rightarrow> k < 2 ^ 31"
  shows "workflow_number (case n of None \<Rightarrow> ''*'' | Some k \<Rightarrow> dec k) = Ret (case n of None \<Rightarrow> - 1 | Some k \<Rightarrow> int k)"
    "text_ok (case n of None \<Rightarrow> ''*'' | Some k \<Rightarrow> dec k)" "(case n of None \<Rightarrow> ''*'' | Some k \<Rightarrow> dec k) = ''*'' \<longleftrightarrow> n = None"
proof -
  have "isdigit (last (dec k))" for k
    using dec_digits [OF last_in_set [OF dec_ne]] .
  moreover have "dec k \<noteq> ''*''" for k
    using dec_digits [of "CHR ''*''" k] by (auto simp: isdigit_def)
  moreover have "int_of_long (fst (strtol (dec k))) = int k" if "k < 2 ^ 31" for k
    using strtol_dec [of "[]" k] that by (simp add: LONG_MAX_def int_of_long_def sint_of_nat32)
  ultimately show "workflow_number (case n of None \<Rightarrow> ''*'' | Some k \<Rightarrow> dec k) = Ret (case n of None \<Rightarrow> - 1 | Some k \<Rightarrow> int k)"
      "(case n of None \<Rightarrow> ''*'' | Some k \<Rightarrow> dec k) = ''*'' \<longleftrightarrow> n = None"
    using assms by (simp_all add: workflow_number_def split: option.splits)
  show "text_ok (case n of None \<Rightarrow> ''*'' | Some k \<Rightarrow> dec k)"
  proof (cases n)
    case (Some k)
    have "CHR 0x00 \<notin> set (dec k)"
      using dec_digits [of "CHR 0x00" k] by (auto simp: isdigit_def)
    moreover have "length (dec k) \<le> 10"
      using dec_length [of k 10] assms Some by simp
    ultimately show ?thesis
      using Some by (simp add: text_ok_def)
  qed (simp add: text_ok_def)
qed

lemma workflow_remove_ok:
  assumes "dss_ok cfg" "request_ok (Wf_remove name n)" "wf_inv env ab s"
    "holds b d (string_bytes d name @ string_bytes d (case n of None \<Rightarrow> ''*'' | Some k \<Rightarrow> dec k) @ rest)"
  shows "\<exists>ab'. orcm_analytics_base_workflow_remove cfg b ab =
      Ret (if list_ex (entry_matches name n) (snd s) then OPAL_SUCCESS else OPAL_ERROR, ab') \<and>
    wf_inv env ab' (snd (wf_spec (Wf_remove name n) s))"
proof -
  define i where "i = (case n of None \<Rightarrow> ''*'' | Some k \<Rightarrow> dec k)"
  define num where "num = (case n of None \<Rightarrow> - 1 | Some k \<Rightarrow> int k)"
  have ok: "text_ok name" "text_ok i" "workflow_number i = Ret num" "i = ''*'' \<longleftrightarrow> n = None"
    using assms(2) workflow_number_ok [of n] by (simp_all add: request_ok_def i_def num_def)
  obtain b1 where 1: "unpack_string cfg b 1 = Ret (OPAL_SUCCESS, 1, Some (Some name), b1)" "holds b1 d (string_bytes d i @ rest)"
    using unpack_string_holds [OF assms(1,4) ok(1)] i_def by auto
  obtain b2 where 2: "unpack_string cfg b1 1 = Ret (OPAL_SUCCESS, 1, Some (Some i), b2)"
    using unpack_string_holds [OF assms(1) 1(2) ok(2)] by blast
  define gone where "gone w \<longleftrightarrow> name = ''*'' \<or> (wf_name w = Some name \<and> (num = wf_workflow_id w \<or> i = ''*''))" for w :: workflow
  have gone: "gone (workflow_of env e) = entry_matches name n e" for e
    by (auto simp: gone_def workflow_of_def entry_matches_def ok(4) num_def split: option.splits)
  have ws: "ab_workflows ab = map (workflow_of env) (snd s)"
    using assms(3) by (simp add: wf_inv_def)
  have named: "\<not> list_ex (\<lambda>w. wf_name w = None) (ab_workflows ab)"
    by (simp add: ws list_ex_iff workflow_of_def)
  have "orcm_analytics_base_workflow_remove cfg b ab =
      Ret (if list_ex gone (ab_workflows ab) then OPAL_SUCCESS else OPAL_ERROR,
           ab\<lparr>ab_workflows := filter (\<lambda>w. \<not> gone w) (ab_workflows ab)\<rparr>)"
    using 1(1) 2 ok(3) named by (simp add: orcm_analytics_base_workflow_remove_def gone_def [abs_def])
  moreover have "list_ex gone (ab_workflows ab) = list_ex (entry_matches name n) (snd s)"
    by (simp add: ws list_ex_iff gone)
  moreover have "filter (\<lambda>w. \<not> gone w) (ab_workflows ab) = map (workflow_of env) (filter (\<lambda>e. \<not> entry_matches name n e) (snd s))"
    by (simp add: ws filter_map comp_def gone)
  ultimately show ?thesis
    using assms(3) by (cases s) (auto simp: wf_inv_def list_all_iff intro: order_trans [OF of_nat_mono [OF length_filter_le]])
qed

definition entry_bytes_list :: "bool \<Rightarrow> entry_spec list \<Rightarrow> byte list" where
  "entry_bytes_list d es = concat (map (\<lambda>e. int_bytes d (fst e) @ string_bytes d (fst (snd e))) es)"

lemma packs_recv_int: "dss_ok cfg \<Longrightarrow> buf_ok b \<Longrightarrow> packs (orcm_analytics_base_recv_pack_int cfg b i) b (int_bytes (ob_desc b) i)"
  using packs_pack_int [of cfg b i] by (auto simp: packs_def orcm_analytics_base_recv_pack_int_def)

lemma list_append_ok:
  assumes "dss_ok cfg" "buf_ok b" "list_all (\<lambda>e. text_ok (fst (snd e))) es"
  shows "packs (orcm_analytics_base_workflow_list_append_info cfg (map (workflow_of env) es) b) b (entry_bytes_list (ob_desc b) es)"
  using assms(2,3)
proof (induction es arbitrary: b)
  case (Cons e es)
  obtain b1 where 1: "orcm_analytics_base_recv_pack_int cfg b (fst e) = Ret (OPAL_SUCCESS, b1)" "appended b (int_bytes (ob_desc b) (fst e)) b1"
      "ob_desc b1 = ob_desc b" "buf_ok b1"
    using packs_recv_int [OF assms(1) Cons.prems(1)] by (rule packsE)
  have name: "text_ok (fst (snd e))"
    using Cons.prems(2) by simp
  obtain b2 where 2: "pack_string cfg b1 (Some (fst (snd e))) = Ret (OPAL_SUCCESS, b2)"
      "appended b1 (string_bytes (ob_desc b) (fst (snd e))) b2" "ob_desc b2 = ob_desc b" "buf_ok b2"
    using packs_pack_string [OF assms(1) 1(4) name] 1(3) by (elim packsE) simp
  show ?case
    using Cons.IH [OF 2(4)] Cons.prems(2) 1(1) 2(1,3) appended_trans [OF appended_trans [OF 1(2) 2(2)]]
    by (auto simp: packs_def entry_bytes_list_def workflow_of_def and_then_def)
qed (simp add: packs_refl entry_bytes_list_def)

lemma list_entries_ok:
  assumes "dss_ok cfg" "holds b d (entry_bytes_list d es @ rest)"
    "list_all (\<lambda>e. text_ok (fst (snd e)) \<and> 0 \<le> fst e \<and> fst e < 2 ^ 31) es"
  shows "workflow_list_entries cfg (length es) 1 b = Ret (map (\<lambda>e. Workflow_list (Some (fst (snd e))) (fst e)) es)"
  using assms(2,3)
proof (induction es arbitrary: b)
  case (Cons e es)
  have ok: "text_ok (fst (snd e))" "- (2 ^ 31) \<le> fst e" "fst e < 2 ^ 31"
    using Cons.prems(2) by auto
  have r: "holds b d (int_bytes d (fst e) @ string_bytes d (fst (snd e)) @ entry_bytes_list d es @ rest)"
    using Cons.prems(1) by (simp add: entry_bytes_list_def)
  obtain b1 where 1: "unpack_int cfg b 1 = Ret (OPAL_SUCCESS, 1, Some (fst e), b1)"
      "holds b1 d (string_bytes d (fst (snd e)) @ entry_bytes_list d es @ rest)"
    using unpack_int_holds [OF assms(1) r ok(2,3)] by blast
  obtain b2 where 2: "unpack_string cfg b1 1 = Ret (OPAL_SUCCESS, 1, Some (Some (fst (snd e))), b2)" "holds b2 d (entry_bytes_list d es @ rest)"
    using unpack_string_holds [OF assms(1) 1(2) ok(1)] by blast
  show ?case
    using Cons.IH [OF 2(2)] Cons.prems(2) 1(1) 2(1) by simp
qed simp

section \<open>Requests and answers\<close>

lemma deliver_holds: "appended (opal_buffer_construct desc) bs b \<Longrightarrow> bs \<noteq> [] \<Longrightarrow> holds (deliver desc b) desc bs"
  by (auto simp: appended_def deliver_def opal_buffer_construct_def holds_def unread_def)

lemma bytes_ne [simp]: "cmd_bytes d c \<noteq> []" "int_bytes d i \<noteq> []"
  by (simp_all add: cmd_bytes_def int_bytes_def entry_bytes_def)

fun request_bytes :: "bool \<Rightarrow> wf_request \<Rightarrow> byte list" where
  "request_bytes d (Wf_add name steps) = cmd_bytes d ORCM_ANALYTICS_WORKFLOW_ADD @ workflow_bytes d name steps"
| "request_bytes d (Wf_remove name n) =
     cmd_bytes d ORCM_ANALYTICS_WORKFLOW_REMOVE @ string_bytes d name @ string_bytes d (case n of None \<Rightarrow> ''*'' | Some k \<Rightarrow> dec k)"
| "request_bytes d Wf_list = cmd_bytes d ORCM_ANALYTICS_WORKFLOW_LIST"

lemma construct_desc [simp]: "ob_desc (opal_buffer_construct desc) = desc"
  by (simp add: opal_buffer_construct_def)

lemma cmd_ok:
  assumes "dss_ok cfg"
  obtains b where "opal_dss_pack cfg (opal_buffer_construct desc) (Plain (D8 [c])) OPAL_UINT8 = Ret (OPAL_SUCCESS, b)"
    "appended (opal_buffer_construct desc) (cmd_bytes desc c) b" "ob_desc b = desc" "buf_ok b"
  using packs_cmd [OF assms buf_ok_construct, of desc c] by (elim packsE) simp

lemma send_ok:
  assumes "dss_ok cfg" "request_ok r"
  shows "\<exists>b. wf_send cfg desc r = Ret (OPAL_SUCCESS, Some b) \<and> appended (opal_buffer_construct desc) (request_bytes desc r) b"
proof -
  show ?thesis
  proof (cases r)
    case (Wf_add name steps)
    obtain b1 where 1: "opal_dss_pack cfg (opal_buffer_construct desc) (Plain (D8 [ORCM_ANALYTICS_WORKFLOW_ADD])) OPAL_UINT8 = Ret (OPAL_SUCCESS, b1)"
        "appended (opal_buffer_construct desc) (cmd_bytes desc ORCM_ANALYTICS_WORKFLOW_ADD) b1" "ob_desc b1 = desc" "buf_ok b1"
      using assms(1) by (rule cmd_ok)
    have "extracts (orcm_util_workflow_add_extract_workflow_info cfg (Some (workflow_items name steps)) b1 ''workflow'' False) b1
        (workflow_bytes desc name steps)"
      using extract_workflow [OF assms(1) 1(4), of name steps] assms(2) Wf_add by (simp add: request_ok_def 1(3))
    then show ?thesis
      using Wf_add 1(1) appended_trans [OF 1(2)] by (auto simp: octl_workflow_add_def extracts_def)
  next
    case (Wf_remove name n)
    obtain b1 where 1: "opal_dss_pack cfg (opal_buffer_construct desc) (Plain (D8 [ORCM_ANALYTICS_WORKFLOW_REMOVE])) OPAL_UINT8 = Ret (OPAL_SUCCESS, b1)"
        "appended (opal_buffer_construct desc) (cmd_bytes desc ORCM_ANALYTICS_WORKFLOW_REMOVE) b1" "ob_desc b1 = desc" "buf_ok b1"
      using assms(1) by (rule cmd_ok)
    let ?i = "case n of None \<Rightarrow> ''*'' | Some k \<Rightarrow> dec k"
    have ok: "text_ok name" "text_ok ?i"
      using assms(2) workflow_number_ok(2) [of n] by (simp_all add: Wf_remove request_ok_def)
    obtain b2 where 2: "pack_string cfg b1 (Some name) = Ret (OPAL_SUCCESS, b2)" "appended b1 (string_bytes desc name) b2"
        "ob_desc b2 = desc" "buf_ok b2"
      using packs_pack_string [OF assms(1) 1(4) ok(1)] 1(3) by (elim packsE) simp
    obtain b3 where 3: "pack_string cfg b2 (Some ?i) = Ret (OPAL_SUCCESS, b3)" "appended b2 (string_bytes desc ?i) b3"
      using packs_pack_string [OF assms(1) 2(4) ok(2)] 2(3) by (elim packsE) simp
    then show ?thesis
      using Wf_remove 1(1) 2(1) 3(1) appended_trans [OF appended_trans [OF 1(2) 2(2)] 3(2)]
      by (simp add: workflow_remove_pack_buffer_def and_then_def)
  next
    case Wf_list
    obtain b1 where 1: "opal_dss_pack cfg (opal_buffer_construct desc) (Plain (D8 [ORCM_ANALYTICS_WORKFLOW_LIST])) OPAL_UINT8 = Ret (OPAL_SUCCESS, b1)"
        "appended (opal_buffer_construct desc) (cmd_bytes desc ORCM_ANALYTICS_WORKFLOW_LIST) b1" "ob_desc b1 = desc" "buf_ok b1"
      using assms(1) by (rule cmd_ok)
    then show ?thesis
      using Wf_list by (simp add: workflow_list_pack_buffer_def)
  qed
qed

fun answer_bytes :: "bool \<Rightarrow> wf_request \<Rightarrow> wf_state \<Rightarrow> byte list" where
  "answer_bytes d (Wf_add name steps) s = int_bytes d (fst s) @ int_bytes d 0"
| "answer_bytes d (Wf_remove name n) s = int_bytes d (if list_ex (entry_matches name n) (snd s) then 0 else - 1)"
| "answer_bytes d Wf_list s = int_bytes d (int (length (snd s))) @ entry_bytes_list d (snd s) @ int_bytes d 0"

lemma send_answer_ok:
  assumes "dss_ok cfg" "buf_ok b" "status_code rc = Some c"
  shows "\<exists>b'. orcm_analytics_base_recv_send_answer cfg b rc = Ret b' \<and> appended b (int_bytes (ob_desc b) c) b'"
  using packs_recv_int [OF assms(1,2), of c] assms(3) by (auto simp: packs_def orcm_analytics_base_recv_send_answer_def)

lemma recv_ok:
  assumes "dss_ok cfg" "env_ok env" "request_ok r" "holds b desc (request_bytes desc r)" "wf_inv env ab s" "fst s < INT_MAX"
  shows "\<exists>ans ab'. orcm_analytics_base_recv env cfg desc b ab = Ret (ans, ab') \<and>
    appended (opal_buffer_construct desc) (answer_bytes desc r s) ans \<and> wf_inv env ab' (snd (wf_spec r s))"
proof (cases r)
  case (Wf_add name steps)
  obtain b1 where 1: "orcm_analytics_base_recv_unpack_uint8_t cfg b = Ret (ORCM_ANALYTICS_WORKFLOW_ADD, b1)"
      "holds b1 desc (workflow_bytes desc name steps)"
    using unpack_cmd_holds [OF assms(1) assms(4) [unfolded Wf_add request_bytes.simps]] by blast
  obtain ab' where 2: "orcm_analytics_base_workflow_add env cfg b1 ab = Ret (OPAL_SUCCESS, fst s, ab')" "wf_inv env ab' (snd (wf_spec r s))"
    using workflow_add_ok [OF assms(1,2), of name steps b1 desc "[]" ab s] 1(2) assms(3,5,6) Wf_add by auto
  obtain b2 where 3: "orcm_analytics_base_recv_pack_int cfg (opal_buffer_construct desc) (fst s) = Ret (OPAL_SUCCESS, b2)"
      "appended (opal_buffer_construct desc) (int_bytes desc (fst s)) b2" "ob_desc b2 = desc" "buf_ok b2"
    using packs_recv_int [OF assms(1) buf_ok_construct, of desc "fst s"] by (elim packsE) simp
  obtain b3 where 4: "orcm_analytics_base_recv_send_answer cfg b2 OPAL_SUCCESS = Ret b3" "appended b2 (int_bytes desc 0) b3"
    using send_answer_ok [OF assms(1) 3(4), of OPAL_SUCCESS 0] 3(3) by auto
  show ?thesis
    using Wf_add 1(1) 2 3(1) 4(1) appended_trans [OF 3(2) 4(2)] by (simp add: orcm_analytics_base_recv_def)
next
  case (Wf_remove name n)
  let ?rc = "if list_ex (entry_matches name n) (snd s) then OPAL_SUCCESS else OPAL_ERROR"
  obtain b1 where 1: "orcm_analytics_base_recv_unpack_uint8_t cfg b = Ret (ORCM_ANALYTICS_WORKFLOW_REMOVE, b1)"
      "holds b1 desc (string_bytes desc name @ string_bytes desc (case n of None \<Rightarrow> ''*'' | Some k \<Rightarrow> dec k))"
    using unpack_cmd_holds [OF assms(1) assms(4) [unfolded Wf_remove request_bytes.simps]] by blast
  obtain ab' where 2: "orcm_analytics_base_workflow_remove cfg b1 ab = Ret (?rc, ab')" "wf_inv env ab' (snd (wf_spec r s))"
    using workflow_remove_ok [OF assms(1), of name n env ab s b1 desc "[]"] 1(2) assms(3,5) Wf_remove by auto
  have code: "status_code ?rc = Some (if list_ex (entry_matches name n) (snd s) then 0 else - 1)"
    by simp
  obtain b3 where "orcm_analytics_base_recv_send_answer cfg (opal_buffer_construct desc) ?rc = Ret b3"
      "appended (opal_buffer_construct desc) (answer_bytes desc r s) b3"
    using send_answer_ok [OF assms(1) buf_ok_construct code, of desc] unfolding Wf_remove by auto
  then show ?thesis
    using Wf_remove 1(1) 2 by (simp add: orcm_analytics_base_recv_def)
next
  case Wf_list
  obtain b1 where 1: "orcm_analytics_base_recv_unpack_uint8_t cfg b = Ret (ORCM_ANALYTICS_WORKFLOW_LIST, b1)"
    using unpack_cmd_holds [OF assms(1), of b desc ORCM_ANALYTICS_WORKFLOW_LIST "[]"] assms(4) Wf_list by auto
  have inv: "ab_workflows ab = map (workflow_of env) (snd s)" "length (snd s) < 2 ^ 31" "list_all (\<lambda>e. text_ok (fst (snd e))) (snd s)"
    using assms(5,6) by (auto simp: wf_inv_def INT_MAX_def list_all_iff)
  have first: "packs (orcm_analytics_base_recv_pack_int cfg (opal_buffer_construct desc) (int (length (snd s)))) (opal_buffer_construct desc)
      (int_bytes desc (int (length (snd s))))"
    using packs_recv_int [OF assms(1) buf_ok_construct, of desc "int (length (snd s))"] by simp
  have rest: "packs (orcm_analytics_base_workflow_list_append_info cfg (map (workflow_of env) (snd s)) b') b' (entry_bytes_list desc (snd s))"
    if "appended (opal_buffer_construct desc) (int_bytes desc (int (length (snd s)))) b'" for b'
    using list_append_ok [OF assms(1) _ inv(3), of b'] appended_desc [OF that] by simp
  have "packs (orcm_analytics_base_workflow_list cfg (opal_buffer_construct desc) ab) (opal_buffer_construct desc)
      (int_bytes desc (int (length (snd s))) @ entry_bytes_list desc (snd s))"
    unfolding orcm_analytics_base_workflow_list_def inv(1) length_map c_int_small [OF inv(2)]
    by (rule packs_and_then [OF first rest])
  then obtain b2 where 2: "orcm_analytics_base_workflow_list cfg (opal_buffer_construct desc) ab = Ret (OPAL_SUCCESS, b2)"
      "appended (opal_buffer_construct desc) (int_bytes desc (int (length (snd s))) @ entry_bytes_list desc (snd s)) b2"
      "ob_desc b2 = desc" "buf_ok b2"
    by (elim packsE) simp
  obtain b3 where 3: "orcm_analytics_base_recv_send_answer cfg b2 OPAL_SUCCESS = Ret b3" "appended b2 (int_bytes desc 0) b3"
    using send_answer_ok [OF assms(1) 2(4), of OPAL_SUCCESS 0] 2(3) by auto
  show ?thesis
    using Wf_list 1 2(1) 3(1) appended_trans [OF 2(2) 3(2)] assms(5) by (cases s) (simp add: orcm_analytics_base_recv_def)
qed

lemma answer_ok:
  assumes "dss_ok cfg" "holds b desc (answer_bytes desc r s)" "wf_inv env ab s" "fst s < INT_MAX"
  shows "wf_answer cfg r b = Ret (fst (wf_spec r s))"
proof (cases r)
  case (Wf_add name steps)
  have "0 \<le> fst s"
    using assms(3) by (auto simp: wf_inv_def)
  then show ?thesis
    using unpack_int_holds [OF assms(1), of b desc "fst s" "int_bytes desc 0"] assms(2,4) Wf_add
    by (cases s) (auto simp: workflow_add_unpack_buffer_def INT_MAX_def)
next
  case (Wf_remove name n)
  define i :: int where "i = (if list_ex (entry_matches name n) (snd s) then 0 else - 1)"
  have "holds b desc (int_bytes desc i @ [])" "- (2 ^ 31) \<le> i" "i < 2 ^ 31"
    using assms(2) Wf_remove by (simp_all add: i_def)
  from unpack_int_holds [OF assms(1) this] show ?thesis
    using Wf_remove by (cases s) (auto simp: workflow_remove_unpack_buffer_def i_def)
next
  case Wf_list
  have inv: "int (length (snd s)) < 2 ^ 31" "list_all (\<lambda>e. text_ok (fst (snd e)) \<and> 0 \<le> fst e \<and> fst e < 2 ^ 31) (snd s)"
    using assms(3,4) by (auto simp: wf_inv_def INT_MAX_def list_all_iff)
  obtain b1 where 1: "unpack_int cfg b 1 = Ret (OPAL_SUCCESS, 1, Some (int (length (snd s))), b1)"
      "holds b1 desc (entry_bytes_list desc (snd s) @ int_bytes desc 0)"
    using unpack_int_holds [OF assms(1), of b desc "int (length (snd s))"] assms(2) inv(1) Wf_list by auto
  show ?thesis
    using Wf_list 1(1) list_entries_ok [OF assms(1) 1(2) inv(2)]
    by (cases s) (auto simp: workflow_list_unpack_buffer_def)
qed

lemma service_ok:
  assumes "dss_ok ccfg" "dss_ok scfg" "env_ok env" "request_ok r" "wf_inv env ab s" "fst s < INT_MAX"
  shows "\<exists>ab'. wf_service env ccfg scfg desc r ab = Ret (fst (wf_spec r s), ab') \<and> wf_inv env ab' (snd (wf_spec r s))"
proof -
  have ne: "request_bytes desc r \<noteq> []" "answer_bytes desc r s \<noteq> []"
    by (cases r; simp)+
  obtain b where b: "wf_send ccfg desc r = Ret (OPAL_SUCCESS, Some b)" "holds (deliver desc b) desc (request_bytes desc r)"
    using send_ok [OF assms(1,4)] deliver_holds ne(1) by blast
  obtain ans ab' where ans: "orcm_analytics_base_recv env scfg desc (deliver desc b) ab = Ret (ans, ab')"
      "holds (deliver desc ans) desc (answer_bytes desc r s)" "wf_inv env ab' (snd (wf_spec r s))"
    using recv_ok [OF assms(2-4) b(2) assms(5,6)] deliver_holds ne(2) by blast
  show ?thesis
    using b(1) ans(1,3) answer_ok [OF assms(1) ans(2) assms(5,6)] by (simp add: wf_service_def)
qed

lemma spec_counter: "fst (snd (wf_spec r s)) \<le> fst s + 1"
  by (cases r; cases s) simp_all

lemma session_ok:
  assumes "dss_ok ccfg" "dss_ok scfg" "env_ok env" "list_all request_ok rs" "wf_inv env ab s" "fst s + int (length rs) \<le> INT_MAX"
  shows "\<exists>ab'. wf_session env ccfg scfg desc rs ab = Ret (fst (wf_specs rs s), ab') \<and> wf_inv env ab' (snd (wf_specs rs s))"
  using assms(4-6)
proof (induction rs arbitrary: ab s)
  case (Cons r rs)
  obtain ab1 where 1: "wf_service env ccfg scfg desc r ab = Ret (fst (wf_spec r s), ab1)" "wf_inv env ab1 (snd (wf_spec r s))"
    using service_ok [OF assms(1-3) _ Cons.prems(2), of r desc] Cons.prems(1,3) by auto
  show ?case
    using Cons.IH [OF _ 1(2)] Cons.prems(1,3) spec_counter [of r s] 1(1) by (auto simp: split_beta)
qed simp

text \<open>The section of the configuration file with its workflows, which the aggregator loads at its start.\<close>

definition file_items :: "(string \<times> step_spec list) list \<Rightarrow> parsed_item list" where
  "file_items ws = map (\<lambda>(name, steps). P_list (Some ''workflow'') (Some (workflow_items name steps))) ws"

definition file_requests :: "(string \<times> step_spec list) list \<Rightarrow> wf_request list" where
  "file_requests ws = map (\<lambda>(name, steps). Wf_add name steps) ws"

lemma load_ok:
  assumes "dss_ok cfg" "env_ok env" "list_all request_ok (file_requests ws)" "wf_inv env ab s" "fst s + int (length ws) \<le> INT_MAX"
  shows "\<exists>ab'. workflow_add_process_workflows env cfg desc (file_items ws) OPAL_SUCCESS ab = Ret (OPAL_SUCCESS, ab') \<and>
    wf_inv env ab' (snd (wf_specs (file_requests ws) s)) \<and> fst (snd (wf_specs (file_requests ws) s)) \<le> fst s + int (length ws)"
  using assms(3-5)
proof (induction ws arbitrary: ab s)
  case (Cons x ws)
  obtain name steps where x: "x = (name, steps)"
    by (cases x)
  have ok: "request_ok (Wf_add name steps)"
    using Cons.prems(1) by (simp add: x file_requests_def)
  obtain b where b: "orcm_util_workflow_add_extract_workflow_info cfg (Some (workflow_items name steps)) (opal_buffer_construct desc)
        ''workflow'' False = Ret (OPAL_SUCCESS, b, True)" "appended (opal_buffer_construct desc) (workflow_bytes desc name steps) b"
    using extract_workflow [OF assms(1) buf_ok_construct, of name steps desc] ok by (auto simp: extracts_def request_ok_def)
  have "holds b desc (workflow_bytes desc name steps @ [])"
    using appended_unread [OF b(2) construct_unread] appended_desc [OF b(2)] by (simp add: holds_def)
  from workflow_add_ok [OF assms(1,2) ok this Cons.prems(2)] obtain ab1 where
    1: "orcm_analytics_base_workflow_add env cfg b ab = Ret (OPAL_SUCCESS, fst s, ab1)" "wf_inv env ab1 (snd (wf_spec (Wf_add name steps) s))"
    using Cons.prems(3) by auto
  then have "workflow_add_process_single_workflow env cfg desc (Some (workflow_items name steps)) ''workflow'' ab = Ret (OPAL_SUCCESS, ab1)"
    using b(1) by (simp add: workflow_add_process_single_workflow_def)
  then show ?case
    using Cons.IH [OF _ 1(2)] Cons.prems(1,3) spec_counter [of "Wf_add name steps" s]
    by (force simp: x file_items_def file_requests_def split_beta)
qed (simp add: file_items_def file_requests_def)

lemma open_inv: "wf_inv env analytics_base_open (0, [])"
  by (simp add: wf_inv_def analytics_base_open_def)

text \<open>
  C13: The workflow service refines a list of workflows.  The aggregator loads the workflows of its configuration file; then any
  sequence of well-formed requests of the console (add a workflow from a file, remove by name and number, list) is packed,
  transported, carried out by the aggregator and answered.  What the console prints is what the list prescribes, with numbers in
  the order of the registrations, and at the end the aggregator has exactly the workflows of the list, with the steps,
  attributes and modules of their files in order.  The transport is the one of messages of less than \<open>2\<^sup>3\<^sup>1\<close> bytes.
\<close>

theorem workflow_service_refines:
  assumes "dss_ok ccfg" "dss_ok scfg" "env_ok env" "list_all request_ok (file_requests ws)" "list_all request_ok rs"
    "int (length ws) + int (length rs) \<le> INT_MAX" "s = snd (wf_specs (file_requests ws) (0, []))"
  shows "\<exists>ab0 ab. workflow_add_process_workflows env scfg desc (file_items ws) OPAL_SUCCESS analytics_base_open = Ret (OPAL_SUCCESS, ab0) \<and>
    wf_session env ccfg scfg desc rs ab0 = Ret (fst (wf_specs rs s), ab) \<and>
    ab_workflows ab = map (workflow_of env) (snd (snd (wf_specs rs s)))"
proof -
  obtain ab0 where 0: "workflow_add_process_workflows env scfg desc (file_items ws) OPAL_SUCCESS analytics_base_open = Ret (OPAL_SUCCESS, ab0)"
      "wf_inv env ab0 s" "fst s \<le> int (length ws)"
    using load_ok [OF assms(2-4) open_inv, of desc] assms(6,7) by auto
  obtain ab where "wf_session env ccfg scfg desc rs ab0 = Ret (fst (wf_specs rs s), ab)" "wf_inv env ab (snd (wf_specs rs s))"
    using session_ok [OF assms(1-3,5) 0(2), of desc] 0(3) assms(6) by auto
  then show ?thesis
    using 0(1) by (auto simp: wf_inv_def)
qed

text \<open>One workflow comes from the file; another of two steps is registered, all are listed, the second is removed.\<close>

definition example_env :: workflow_env where
  "example_env = \<lparr>we_components = [(''filter'', True), (''window'', True)], we_plugin_exist = (\<lambda>_. False), we_thread = (\<lambda>_. True)\<rparr>"

lemma example_env_ok: "env_ok example_env"
  by (simp add: env_ok_def example_env_def)

theorem workflow_service_refines_witness:
  "\<exists>ab0 ab. workflow_add_process_workflows example_env dss_defaults True (file_items [(''v'', [(''filter'', [])])]) OPAL_SUCCESS analytics_base_open =
       Ret (OPAL_SUCCESS, ab0) \<and>
     wf_session example_env dss_defaults dss_defaults True
       [Wf_add ''w'' [(''filter'', [(''hostname'', ''n1'')]), (''window'', [])], Wf_list, Wf_remove ''w'' (Some 1), Wf_list] ab0 =
       Ret ([[Workflow_created 1], [Workflow_list (Some ''v'') 0, Workflow_list (Some ''w'') 1], [Workflow_deleted], [Workflow_list (Some ''v'') 0]],
            ab) \<and> map wf_name (ab_workflows ab) = [Some ''v'']"
proof -
  let ?ws = "[(''v'', [(''filter'', [])])]"
  let ?rs = "[Wf_add ''w'' [(''filter'', [(''hostname'', ''n1'')]), (''window'', [])], Wf_list, Wf_remove ''w'' (Some 1), Wf_list]"
  have ok: "list_all request_ok (file_requests ?ws)" "list_all request_ok ?rs"
    by (simp_all add: request_ok_def step_ok_def text_ok_def file_requests_def)
  have spec: "snd (wf_specs (file_requests ?ws) (0, [])) = (1, [(0, ''v'', [(''filter'', [])])])"
      "wf_specs ?rs (1, [(0, ''v'', [(''filter'', [])])]) =
        ([[Workflow_created 1], [Workflow_list (Some ''v'') 0, Workflow_list (Some ''w'') 1], [Workflow_deleted], [Workflow_list (Some ''v'') 0]],
         (2, [(0, ''v'', [(''filter'', [])])]))"
    by (simp_all add: entry_matches_def file_requests_def)
  have bound: "int (length ?ws) + int (length ?rs) \<le> INT_MAX"
    by (simp add: INT_MAX_def)
  show ?thesis
    using workflow_service_refines [OF dss_ok_defaults dss_ok_defaults example_env_ok ok bound refl, of True] unfolding spec
    by (auto simp: workflow_of_def simp del: wf_session.simps)
qed

section \<open>Any message\<close>

text \<open>The states of the aggregator: messages may hold any bytes.\<close>

inductive reachable :: "workflow_env \<Rightarrow> dss_params \<Rightarrow> bool \<Rightarrow> analytics_base \<Rightarrow> bool" for env cfg desc where
  start: "reachable env cfg desc analytics_base_open"
| message: "reachable env cfg desc ab \<Longrightarrow> orcm_analytics_base_recv env cfg desc b ab = Ret (ans, ab1) \<Longrightarrow> reachable env cfg desc ab1"

definition numbers_ok :: "analytics_base \<Rightarrow> bool" where
  "numbers_ok ab \<longleftrightarrow>
     ab_workflow_id ab \<le> INT_MAX \<and> distinct (map wf_workflow_id (ab_workflows ab)) \<and>
     (\<forall>w\<in>set (ab_workflows ab). 0 \<le> wf_workflow_id w \<and> wf_workflow_id w < ab_workflow_id ab) \<and> 0 \<le> ab_workflow_id ab"

lemma step_add_number: "wlp (orcm_analytics_base_workflow_step_add env cfg w b i) (\<lambda>(rc, w1, b1). wf_workflow_id w1 = wf_workflow_id w)"
  unfolding orcm_analytics_base_workflow_step_add_def by (auto intro!: wlpI split: prod.splits option.splits)

lemma add_steps_number: "wlp (workflow_add_steps env cfg n w b i) (\<lambda>(rc, w1, b1). wf_workflow_id w1 = wf_workflow_id w)"
proof (induction n arbitrary: w b i)
  case (Suc n)
  have "wlp (workflow_add_steps env cfg n w1 b1 j) (\<lambda>(rc, w2, b2). wf_workflow_id w2 = wf_workflow_id w)"
    if "wf_workflow_id w1 = wf_workflow_id w" for w1 b1 j
    using Suc [of w1 b1 j] that by simp
  then show ?case
    unfolding workflow_add_steps.simps wlp_simps by (intro wlp_mono [OF step_add_number]) auto
qed simp

lemma workflow_add_numbers:
  assumes "numbers_ok ab"
  shows "wlp (orcm_analytics_base_workflow_add env cfg b ab) (\<lambda>(rc, i, ab1). numbers_ok ab1)"
proof -
  have "numbers_ok (ab\<lparr>ab_workflow_id := ab_workflow_id ab + 1\<rparr>)" if "ab_workflow_id ab \<noteq> INT_MAX"
    using assms that by (force simp: numbers_ok_def)
  moreover have "numbers_ok (ab\<lparr>ab_workflow_id := ab_workflow_id ab + 1, ab_workflows := ab_workflows ab @ [w]\<rparr>)"
    if "ab_workflow_id ab \<noteq> INT_MAX" "wf_workflow_id w = ab_workflow_id ab" for w
    using assms that by (force simp: numbers_ok_def)
  ultimately show ?thesis
    unfolding orcm_analytics_base_workflow_add_def orcm_analytics_base_workflow_object_init_def
    using assms
    by (auto simp: Let_def intro!: wlpI wlp_mono [OF add_steps_number] split: prod.splits option.splits)
qed

lemma workflow_remove_numbers:
  assumes "numbers_ok ab"
  shows "wlp (orcm_analytics_base_workflow_remove cfg b ab) (\<lambda>(rc, ab1). numbers_ok ab1)"
proof -
  have "numbers_ok (ab\<lparr>ab_workflows := filter P (ab_workflows ab)\<rparr>)" for P
    using assms by (auto simp: numbers_ok_def distinct_map_filter)
  then show ?thesis
    unfolding orcm_analytics_base_workflow_remove_def using assms by (auto simp: Let_def intro!: wlpI split: prod.splits option.splits)
qed

lemma control_storage_numbers: "numbers_ok ab \<Longrightarrow> numbers_ok (snd (orcm_analytics_base_control_storage c ab))"
  by (simp add: orcm_analytics_base_control_storage_def numbers_ok_def)

lemma recv_numbers:
  assumes "numbers_ok ab"
  shows "wlp (orcm_analytics_base_recv env cfg desc b ab) (\<lambda>(ans, ab1). numbers_ok ab1)"
proof -
  let ?ok = "\<lambda>(rc, ans, ab1). numbers_ok ab1"
  have add: "wlp (obind (orcm_analytics_base_workflow_add env cfg b ab) (\<lambda>(rc, wfid, ab1).
      if rc = OPAL_SUCCESS then obind (orcm_analytics_base_recv_pack_int cfg ans wfid) (\<lambda>(rc1, ans1). Ret (rc1, ans1, ab1))
      else Ret (rc, ans, ab1))) ?ok" for b ans
    unfolding wlp_simps by (rule wlp_mono [OF workflow_add_numbers [OF assms]]) (auto intro!: wlpI split: prod.splits)
  have remove: "wlp (obind (orcm_analytics_base_workflow_remove cfg b ab) (\<lambda>(rc, ab1). Ret (rc, ans, ab1))) ?ok" for b ans
    unfolding wlp_simps by (rule wlp_mono [OF workflow_remove_numbers [OF assms]]) auto
  have list: "wlp (obind (orcm_analytics_base_workflow_list cfg ans ab) (\<lambda>(rc, ans1). Ret (rc, ans1, ab))) ?ok" for ans
    using assms by (auto intro!: wlpI split: prod.splits)
  have store: "wlp (obind (orcm_analytics_base_recv_unpack_uint8_t cfg b) (\<lambda>(storage, b1).
      case orcm_analytics_base_control_storage storage ab of (rc, ab1) \<Rightarrow> Ret (rc, ans, ab1))) ?ok" for b ans
    using control_storage_numbers [OF assms] by (auto intro!: wlpI split: prod.splits) (metis snd_conv)
  have send: "wlp m ?ok \<Longrightarrow>
      wlp (obind m (\<lambda>(rc, ans, ab1). obind (orcm_analytics_base_recv_send_answer cfg ans rc) (\<lambda>ans2. Ret (ans2, ab1)))) (\<lambda>(ans, ab1). numbers_ok ab1)"
    for m
    unfolding wlp_simps by (rule wlp_mono, assumption) (auto intro!: wlpI split: prod.splits)
  show ?thesis
    unfolding orcm_analytics_base_recv_def Let_def
    by (subst wlp_simps, rule wlpI, clarify, rule send) (simp add: add remove list store assms del: wlp_simps(3))
qed

lemma service_reachable:
  assumes "wf_service env ccfg scfg desc r ab = Ret (infos, ab1)" "reachable env scfg desc ab"
  shows "reachable env scfg desc ab1"
  using assms by (auto simp: wf_service_def obind_eq_Ret split: option.splits intro: message)

text \<open>
  C23: Whatever messages an aggregator gets, well-formed or not, the numbers of its workflows are distinct and below the counter from
  which the next workflow takes its number.  So a request to remove a workflow by its name and number removes at most one, and
  a new workflow never gets the number of one that is registered.
\<close>

theorem workflow_numbers_unique:
  assumes "reachable env cfg desc ab"
  shows "distinct (map wf_workflow_id (ab_workflows ab)) \<and>
    (\<forall>w\<in>set (ab_workflows ab). 0 \<le> wf_workflow_id w \<and> wf_workflow_id w < ab_workflow_id ab)"
proof -
  have "numbers_ok ab"
    using assms
  proof induction
    case (message ab b ans ab1)
    then show ?case
      using recv_numbers [of ab env cfg desc b] by (simp add: wlp_def)
  qed (simp add: numbers_ok_def analytics_base_open_def INT_MAX_def)
  then show ?thesis
    by (simp add: numbers_ok_def)
qed

theorem workflow_numbers_unique_witness:
  "\<exists>ab. reachable example_env dss_defaults True ab \<and> length (ab_workflows ab) = 2 \<and> distinct (map wf_workflow_id (ab_workflows ab))"
proof -
  let ?r = "Wf_add ''w'' [(''filter'', [])]"
  have ok: "request_ok ?r"
    by (simp add: request_ok_def step_ok_def text_ok_def)
  obtain ab1 where 1: "wf_service example_env dss_defaults dss_defaults True ?r analytics_base_open = Ret ([Workflow_created 0], ab1)"
      "wf_inv example_env ab1 (1, [(0, ''w'', [(''filter'', [])])])"
    using service_ok [OF dss_ok_defaults dss_ok_defaults example_env_ok ok open_inv, of True] by (auto simp: INT_MAX_def)
  obtain ab2 where 2: "wf_service example_env dss_defaults dss_defaults True ?r ab1 = Ret ([Workflow_created 1], ab2)"
      "wf_inv example_env ab2 (2, [(0, ''w'', [(''filter'', [])]), (1, ''w'', [(''filter'', [])])])"
    using service_ok [OF dss_ok_defaults dss_ok_defaults example_env_ok ok 1(2), of True] by (auto simp: INT_MAX_def)
  have "reachable example_env dss_defaults True ab2"
    using service_reachable [OF 2(1) service_reachable [OF 1(1) start]] .
  moreover from this have "distinct (map wf_workflow_id (ab_workflows ab2))"
    using workflow_numbers_unique by blast
  ultimately show ?thesis
    using 2(2) by (auto simp: wf_inv_def)
qed

end
