(* ===== verification/Bitmap.thy ===== *)
theory Bitmap
  imports Containers
begin

unbundle bit_operations_syntax

text \<open>
  The growing bitmap of \<^verbatim>\<open>opal/class/opal_bitmap.c\<close>, over 64-bit words.  The lemmas give each
  operation its meaning on the set of bits: the two tricks with carries (the first unset bit
  is set by \<^verbatim>\<open>x | (x + 1)\<close>, the last set bit is cleared by \<^verbatim>\<open>x & (x - 1)\<close>) are proved once on
  integers.
\<close>

section \<open>Definitions\<close>

abbreviation SIZE_OF_BASE_TYPE :: int where
  "SIZE_OF_BASE_TYPE \<equiv> 64"

type_synonym word64 = "64 word"

record opal_bitmap_t =
  bitmap :: "word64 list"
  array_size :: int
  bm_max_size :: int

definition opal_bitmap_construct :: opal_bitmap_t where
  "opal_bitmap_construct = \<lparr> bitmap = [], array_size = 0, bm_max_size = INT_MAX \<rparr>"

definition words_for :: "int \<Rightarrow> int" where
  "words_for n = (n + SIZE_OF_BASE_TYPE - 1) div SIZE_OF_BASE_TYPE"

text \<open>A negative size becomes a huge \<^verbatim>\<open>size_t\<close>; it is not modelled, the result being cut to \<^verbatim>\<open>int\<close>.\<close>

definition opal_bitmap_set_max_size ::
  "opal_bitmap_t option \<Rightarrow> int \<Rightarrow> (status \<times> opal_bitmap_t option) outcome" where
  "opal_bitmap_set_max_size bm n =
     (case bm of
        None \<Rightarrow> Ret (OPAL_ERR_BAD_PARAM, None)
      | Some b \<Rightarrow> if n < 0 then Undef
                   else Ret (OPAL_SUCCESS, Some (b \<lparr> bm_max_size := words_for n \<rparr>)))"

definition opal_bitmap_clear_all_bits :: "opal_bitmap_t option \<Rightarrow> status \<times> opal_bitmap_t option" where
  "opal_bitmap_clear_all_bits bm =
     (case bm of
        None \<Rightarrow> (OPAL_ERR_BAD_PARAM, None)
      | Some b \<Rightarrow> (OPAL_SUCCESS, Some (b \<lparr> bitmap := replicate (nat (array_size b)) 0 \<rparr>)))"

definition opal_bitmap_set_all_bits :: "opal_bitmap_t option \<Rightarrow> status \<times> opal_bitmap_t option" where
  "opal_bitmap_set_all_bits bm =
     (case bm of
        None \<Rightarrow> (OPAL_ERR_BAD_PARAM, None)
      | Some b \<Rightarrow> (OPAL_SUCCESS, Some (b \<lparr> bitmap := replicate (nat (array_size b)) (- 1) \<rparr>)))"

definition opal_bitmap_init ::
  "allocator \<Rightarrow> opal_bitmap_t option \<Rightarrow> int \<Rightarrow> status \<times> opal_bitmap_t option" where
  "opal_bitmap_init alloc bm n =
     (case bm of
        None \<Rightarrow> (OPAL_ERR_BAD_PARAM, None)
      | Some b \<Rightarrow>
          if n \<le> 0 \<or> n > bm_max_size b then (OPAL_ERR_BAD_PARAM, bm)
          else
            (let sz = words_for n;
                 mx = (if bitmap b \<noteq> [] \<and> bm_max_size b < sz then sz else bm_max_size b);
                 b' = b \<lparr> array_size := sz, bm_max_size := mx \<rparr>
             in if \<not> alloc (nat sz * 8)
                then (OPAL_ERR_OUT_OF_RESOURCE, Some (b' \<lparr> bitmap := [] \<rparr>))
                else (OPAL_SUCCESS, snd (opal_bitmap_clear_all_bits (Some b')))))"

definition opal_bitmap_set_bit ::
  "allocator \<Rightarrow> opal_bitmap_t option \<Rightarrow> int \<Rightarrow> (status \<times> opal_bitmap_t option) outcome" where
  "opal_bitmap_set_bit alloc bm bit' =
     (case bm of
        None \<Rightarrow> Ret (OPAL_ERR_BAD_PARAM, None)
      | Some b \<Rightarrow>
          if bit' < 0 \<or> bit' > bm_max_size b then Ret (OPAL_ERR_BAD_PARAM, bm)
          else
            (let index = bit' div SIZE_OF_BASE_TYPE; offset = nat (bit' mod SIZE_OF_BASE_TYPE) in
             if index \<ge> array_size b \<and> array_size b = 0 then Undef
             else
               (let grown = (index div array_size b + 1) * array_size b;
                    new_size = (if grown > bm_max_size b then bm_max_size b else grown)
                in if index \<ge> array_size b \<and> \<not> alloc (nat new_size * 8)
                   then Ret (OPAL_ERR_OUT_OF_RESOURCE, Some (b \<lparr> bitmap := [] \<rparr>))
                   else
                     (let b' = (if index \<ge> array_size b
                                then b \<lparr> bitmap := bitmap b @
                                           replicate (nat (new_size - array_size b)) 0,
                                         array_size := new_size \<rparr>
                                else b)
                      in if length (bitmap b') \<le> nat index then Undef
                         else Ret (OPAL_SUCCESS,
                           Some (b' \<lparr> bitmap := (bitmap b')[nat index :=
                             bitmap b' ! nat index OR push_bit offset 1] \<rparr>))))))"

text \<open>
  The number of bits, \<^verbatim>\<open>array_size * SIZE_OF_BASE_TYPE\<close>, is computed as an \<^verbatim>\<open>int\<close>; it is not looked at for a negative index.
\<close>

definition bm_bits :: "opal_bitmap_t \<Rightarrow> int outcome" where
  "bm_bits b =
     (if array_size b * SIZE_OF_BASE_TYPE > INT_MAX then Undef else Ret (array_size b * SIZE_OF_BASE_TYPE))"

definition bm_in_range :: "opal_bitmap_t \<Rightarrow> int \<Rightarrow> bool outcome" where
  "bm_in_range b bit' = (if bit' < 0 then Ret False else obind (bm_bits b) (\<lambda>n. Ret (bit' < n)))"

definition opal_bitmap_clear_bit ::
  "opal_bitmap_t option \<Rightarrow> int \<Rightarrow> (status \<times> opal_bitmap_t option) outcome" where
  "opal_bitmap_clear_bit bm bit' =
     (case bm of
        None \<Rightarrow> Ret (OPAL_ERR_BAD_PARAM, None)
      | Some b \<Rightarrow>
          obind (bm_in_range b bit') (\<lambda>ok.
            if \<not> ok then Ret (OPAL_ERR_BAD_PARAM, bm)
            else
              (let index = nat (bit' div SIZE_OF_BASE_TYPE);
                   offset = nat (bit' mod SIZE_OF_BASE_TYPE)
               in if length (bitmap b) \<le> index then Undef
                  else Ret (OPAL_SUCCESS,
                    Some (b \<lparr> bitmap := (bitmap b)[index :=
                      bitmap b ! index AND NOT (push_bit offset 1)] \<rparr>)))))"

definition opal_bitmap_is_set_bit :: "opal_bitmap_t option \<Rightarrow> int \<Rightarrow> bool outcome" where
  "opal_bitmap_is_set_bit bm bit' =
     (case bm of
        None \<Rightarrow> Ret False
      | Some b \<Rightarrow>
          obind (bm_in_range b bit') (\<lambda>ok.
            if \<not> ok then Ret False
            else
              (let index = nat (bit' div SIZE_OF_BASE_TYPE);
                   offset = nat (bit' mod SIZE_OF_BASE_TYPE)
               in if length (bitmap b) \<le> index then Undef
                  else Ret (bitmap b ! index AND push_bit offset 1 \<noteq> 0))))"

fun skip_full :: "word64 list \<Rightarrow> nat \<Rightarrow> nat" where
  "skip_full [] i = i"
| "skip_full (w # ws) i = (if w = - 1 then skip_full ws (i + 1) else i)"

text \<open>
  The loop that counts the zeros below the lowest set bit runs for ever on 0; 64 shifts
  exhaust any other word.
\<close>

fun low_zeros :: "nat \<Rightarrow> word64 \<Rightarrow> int \<Rightarrow> int outcome" where
  "low_zeros 0 temp position = Diverge"
| "low_zeros (Suc fuel) temp position =
     (if temp AND 1 = 0 then low_zeros fuel (drop_bit 1 temp) (position + 1) else Ret position)"

definition opal_bitmap_find_and_set_first_unset_bit ::
  "allocator \<Rightarrow> opal_bitmap_t option \<Rightarrow> (status \<times> int \<times> opal_bitmap_t option) outcome" where
  "opal_bitmap_find_and_set_first_unset_bit alloc bm =
     (case bm of
        None \<Rightarrow> Ret (OPAL_ERR_BAD_PARAM, 0, None)
      | Some b \<Rightarrow>
          (let i = skip_full (bitmap b) 0 in
           if int i = array_size b then
             obind (bm_bits b) (\<lambda>position.
               obind (opal_bitmap_set_bit alloc bm position) (\<lambda>(rc, bm'). Ret (rc, position, bm')))
           else
             (let w = bitmap b ! i; w' = w OR (w + 1) in
              obind (low_zeros 65 (w XOR w') 0) (\<lambda>position.
                if position + int i * SIZE_OF_BASE_TYPE > INT_MAX then Undef
                else Ret (OPAL_SUCCESS, position + int i * SIZE_OF_BASE_TYPE,
                          Some (b \<lparr> bitmap := (bitmap b)[i := w'] \<rparr>))))))"

definition bitwise_inplace ::
  "(word64 \<Rightarrow> word64 \<Rightarrow> word64) \<Rightarrow> opal_bitmap_t option \<Rightarrow> opal_bitmap_t option
     \<Rightarrow> status \<times> opal_bitmap_t option" where
  "bitwise_inplace f dest right =
     (case (dest, right) of
        (Some d, Some r) \<Rightarrow>
          if array_size d \<noteq> array_size r then (OPAL_ERR_BAD_PARAM, dest)
          else (OPAL_SUCCESS, Some (d \<lparr> bitmap := map2 f (bitmap d) (bitmap r) \<rparr>))
      | _ \<Rightarrow> (OPAL_ERR_BAD_PARAM, dest))"

definition opal_bitmap_bitwise_and_inplace where
  "opal_bitmap_bitwise_and_inplace = bitwise_inplace (AND)"

definition opal_bitmap_bitwise_or_inplace where
  "opal_bitmap_bitwise_or_inplace = bitwise_inplace (OR)"

definition opal_bitmap_bitwise_xor_inplace where
  "opal_bitmap_bitwise_xor_inplace = bitwise_inplace (XOR)"

text \<open>For a NULL argument the error code is converted to \<^verbatim>\<open>bool\<close>, which makes it true.\<close>

definition opal_bitmap_are_different :: "opal_bitmap_t option \<Rightarrow> opal_bitmap_t option \<Rightarrow> bool" where
  "opal_bitmap_are_different left right =
     (case (left, right) of
        (Some l, Some r) \<Rightarrow> array_size l \<noteq> array_size r \<or> bitmap l \<noteq> bitmap r
      | _ \<Rightarrow> True)"

fun bitmap_chars :: "opal_bitmap_t \<Rightarrow> nat \<Rightarrow> nat \<Rightarrow> string outcome" where
  "bitmap_chars b i 0 = Ret []"
| "bitmap_chars b i (Suc n) =
     obind (opal_bitmap_is_set_bit (Some b) (int i)) (\<lambda>s.
       obind (bitmap_chars b (Suc i) n) (\<lambda>cs. Ret ((if s then CHR ''X'' else CHR ''_'') # cs)))"

definition opal_bitmap_get_string :: "allocator \<Rightarrow> opal_bitmap_t option \<Rightarrow> string option outcome" where
  "opal_bitmap_get_string alloc bm =
     (case bm of
        None \<Rightarrow> Ret None
      | Some b \<Rightarrow>
          obind (bm_bits b) (\<lambda>n.
            if n + 1 > INT_MAX then Undef
            else if \<not> alloc (nat (n + 1)) then Ret None
            else obind (bitmap_chars b 0 (nat n)) (\<lambda>cs. Ret (Some cs))))"

function count_bits :: "word64 \<Rightarrow> nat" where
  "count_bits val = (if val = 0 then 0 else Suc (count_bits (val AND (val - 1))))"
  by pat_completeness auto
termination
proof (relation "measure unat")
  fix val :: word64
  assume "val \<noteq> 0"
  then have "val AND (val - 1) < val"
    by (meson word_and_le1 word_less_1 le_less_trans measure_unat word_less_nat_alt)
  then show "(val AND (val - 1), val) \<in> measure unat"
    by (simp add: word_less_nat_alt)
qed simp

declare count_bits.simps [simp del]

text \<open>
  \<^verbatim>\<open>opal_bitmap_num_set_bits\<close> reads \<^verbatim>\<open>len\<close> words, although its argument is a number of bits, which
  the check compiled in with \<^verbatim>\<open>OPAL_ENABLE_DEBUG\<close> bounds.
\<close>

fun sum_bits :: "word64 list \<Rightarrow> nat \<Rightarrow> nat outcome" where
  "sum_bits ws 0 = Ret 0"
| "sum_bits [] (Suc n) = Undef"
| "sum_bits (w # ws) (Suc n) = obind (sum_bits ws n) (\<lambda>c. Ret (count_bits w + c))"

definition opal_bitmap_num_set_bits :: "bool \<Rightarrow> opal_bitmap_t \<Rightarrow> int \<Rightarrow> int outcome" where
  "opal_bitmap_num_set_bits debug b len =
     obind (if debug then bm_in_range b len else Ret True) (\<lambda>ok.
       if \<not> ok then Ret 0
       else obind (sum_bits (bitmap b) (nat len)) (\<lambda>c. if int c > INT_MAX then Undef else Ret (int c)))"

definition opal_bitmap_num_unset_bits :: "bool \<Rightarrow> opal_bitmap_t \<Rightarrow> int \<Rightarrow> int outcome" where
  "opal_bitmap_num_unset_bits debug b len =
     obind (opal_bitmap_num_set_bits debug b len) (\<lambda>c. Ret (len - c))"

definition opal_bitmap_is_clear :: "opal_bitmap_t \<Rightarrow> bool" where
  "opal_bitmap_is_clear b = (\<forall>w\<in>set (bitmap b). w = 0)"

section \<open>The two carry tricks\<close>

lemma int_or_succ:
  fixes k :: int
  assumes "\<forall>q<p. bit k q" "\<not> bit k p"
  shows "k OR (k + 1) = set_bit p k"
  using assms
proof (induction p arbitrary: k)
  case 0
  then obtain m where "k = 2 * m"
    by (auto simp: bit_0 elim!: evenE)
  then show ?case
    by (simp add: set_bit_0 or_int_rec [of "2 * m"])
next
  case (Suc p)
  then have odd: "odd k"
    by (metis bit_0 zero_less_Suc)
  then obtain m where m: "k = 2 * m + 1"
    by (rule oddE)
  have "bit m q" if "q < p" for q
    using Suc.prems(1) [rule_format, of "Suc q"] that m by (simp add: bit_Suc)
  moreover have "\<not> bit m p"
    using Suc.prems(2) m by (simp add: bit_Suc)
  ultimately have "m OR (m + 1) = set_bit p m"
    by (intro Suc.IH) auto
  then show ?case
    by (simp add: m set_bit_Suc or_int_rec [of "2 * m + 1"] add.commute [of 1])
qed

lemma int_and_pred:
  fixes k :: int
  assumes "\<forall>q<p. \<not> bit k q" "bit k p"
  shows "k AND (k - 1) = unset_bit p k"
  using assms
proof (induction p arbitrary: k)
  case 0
  then obtain m where "k = 2 * m + 1"
    by (auto simp: bit_0 elim!: oddE)
  then show ?case
    by (simp add: unset_bit_0 and_int_rec [of "2 * m + 1"])
next
  case (Suc p)
  then have "even k"
    by (metis bit_0 zero_less_Suc)
  then obtain m where m: "k = 2 * m"
    by (rule evenE)
  have "\<not> bit m q" if "q < p" for q
    using Suc.prems(1) [rule_format, of "Suc q"] that m by (simp add: bit_Suc)
  moreover have "bit m p"
    using Suc.prems(2) m by (simp add: bit_Suc)
  ultimately have "m AND (m - 1) = unset_bit p m"
    by (intro Suc.IH) auto
  moreover have "(2 * m - 1) div 2 = m - 1"
    by simp
  ultimately show ?case
    by (simp add: m unset_bit_Suc and_int_rec [of "2 * m"])
qed

lemma word_or_succ:
  fixes w :: word64
  assumes "\<forall>q<p. bit w q" "\<not> bit w p" "p < 64"
  shows "w OR (w + 1) = set_bit p w"
  using assms
  by transfer (simp add: int_or_succ)

lemma word_and_pred:
  fixes w :: word64
  assumes "\<forall>q<p. \<not> bit w q" "bit w p"
  shows "w AND (w - 1) = unset_bit p w"
  using assms
proof transfer
  fix p and k :: int
  assume *: "\<forall>q<p. \<not> (q < LENGTH(64) \<and> bit k q)" "p < LENGTH(64) \<and> bit k p"
  then have "\<forall>q<p. \<not> bit k q"
    by auto
  then show "take_bit LENGTH(64) (k AND (k - 1)) = take_bit LENGTH(64) (unset_bit p k)"
    using * by (simp add: int_and_pred)
qed

lemma first_unset:
  fixes w :: word64
  assumes "w \<noteq> - 1"
  obtains p where "p < 64" "\<not> bit w p" "\<forall>q<p. bit w q"
proof -
  obtain n where n: "\<not> bit w n" "n < 64"
    using assms by (auto simp: bit_eq_iff)
  have "\<forall>q<(LEAST p. \<not> bit w p). bit w q"
    using not_less_Least by blast
  moreover have "(LEAST p. \<not> bit w p) < 64"
    using Least_le [of "\<lambda>p. \<not> bit w p", OF n(1)] n(2) by linarith
  moreover have "\<not> bit w (LEAST p. \<not> bit w p)"
    using LeastI [of "\<lambda>p. \<not> bit w p", OF n(1)] .
  ultimately show thesis
    using that by blast
qed

lemma low_zeros_power:
  assumes "p < fuel" "p < 64"
  shows "low_zeros fuel (push_bit p 1) c = Ret (c + int p)"
  using assms
proof (induction p arbitrary: fuel c)
  case 0
  then show ?case
    by (cases fuel) simp_all
next
  case (Suc p)
  obtain f where f: "fuel = Suc f"
    using Suc.prems by (cases fuel) auto
  have even: "push_bit (Suc p) 1 AND 1 = (0 :: word64)"
    by (rule bit_eqI) (auto simp: bit_simps)
  have "drop_bit 1 (push_bit (Suc p) 1) = (push_bit p 1 :: word64)"
    by (rule bit_eqI) (use Suc.prems in \<open>auto simp: bit_simps\<close>)
  then show ?case
    using Suc f even by (simp add: algebra_simps)
qed

section \<open>The set of bits\<close>

definition bm_bit :: "opal_bitmap_t \<Rightarrow> nat \<Rightarrow> bool" where
  "bm_bit b n \<longleftrightarrow> n div 64 < length (bitmap b) \<and> bit (bitmap b ! (n div 64)) (n mod 64)"

definition bm_inv :: "opal_bitmap_t \<Rightarrow> bool" where
  "bm_inv b \<longleftrightarrow> array_size b = int (length (bitmap b)) \<and> bitmap b \<noteq> [] \<and>
     bm_max_size b \<le> INT_MAX"

text \<open>A map whose number of bits is an \<^verbatim>\<open>int\<close>.\<close>

definition bm_small :: "opal_bitmap_t \<Rightarrow> bool" where
  "bm_small b \<longleftrightarrow> bm_inv b \<and> array_size b < 2 ^ 25"

lemma bm_in_range_small:
  "bm_small b \<Longrightarrow> bm_in_range b i = Ret (0 \<le> i \<and> i < array_size b * 64)"
  "bm_small b \<Longrightarrow> bm_bits b = Ret (array_size b * 64)"
  by (auto simp: bm_in_range_def bm_bits_def bm_small_def INT_MAX_def)

lemma nat_div_mod_64:
  assumes "0 \<le> i"
  shows "nat (i div 64) = nat i div 64" "nat (i mod 64) = nat i mod 64"
  using assms by (simp_all add: nat_div_distrib nat_mod_distrib)

lemma is_set_eq:
  assumes "bm_small b"
  shows "opal_bitmap_is_set_bit (Some b) i = Ret (0 \<le> i \<and> bm_bit b (nat i))"
proof (cases "0 \<le> i \<and> i < array_size b * 64")
  case True
  then have i: "0 \<le> i" "nat i < length (bitmap b) * 64"
    using assms by (auto simp: bm_small_def bm_inv_def)
  then have "nat i div 64 < length (bitmap b)"
    by (simp add: less_mult_imp_div_less)
  then show ?thesis
    using True i bm_in_range_small(1) [OF assms, of i]
    by (simp add: opal_bitmap_is_set_bit_def bm_bit_def nat_div_mod_64 bit_iff_and_push_bit_not_eq_0)
next
  case False
  then have "\<not> (0 \<le> i \<and> nat i div 64 < length (bitmap b))"
    using assms by (auto simp: bm_small_def bm_inv_def div_less_iff_less_mult)
  then show ?thesis
    using False bm_in_range_small(1) [OF assms, of i] by (auto simp: opal_bitmap_is_set_bit_def bm_bit_def)
qed

lemma bm_bit_update:
  assumes "n div 64 < length (bitmap b)"
    and "\<And>q. q < 64 \<Longrightarrow> bit w q = (if q = n mod 64 then v else bit (bitmap b ! (n div 64)) q)"
  shows "bm_bit (b \<lparr> bitmap := (bitmap b)[n div 64 := w] \<rparr>) j = (if j = n then v else bm_bit b j)"
proof -
  have "j = n \<longleftrightarrow> j div 64 = n div 64 \<and> j mod 64 = n mod 64"
    by (metis div_mult_mod_eq)
  then show ?thesis
    using assms by (auto simp: bm_bit_def nth_list_update)
qed

lemma bm_bit_pad:
  "bm_bit (b \<lparr> bitmap := bitmap b @ replicate m 0, array_size := x \<rparr>) j = bm_bit b j"
  by (auto simp: bm_bit_def nth_append)

lemma set_bit_ok:
  assumes inv: "bm_inv b" and i: "0 \<le> i" "i \<le> bm_max_size b"
  obtains b' where "opal_bitmap_set_bit malloc_ok (Some b) i = Ret (OPAL_SUCCESS, Some b')"
    "bm_inv b'" "bm_max_size b' = bm_max_size b" "array_size b \<le> array_size b'"
    "\<forall>j. bm_bit b' j = (j = nat i \<or> bm_bit b j)"
    "array_size b' \<le> (i div (array_size b * 64) + 1) * array_size b"
proof -
  let ?ix = "i div 64" and ?a = "array_size b"
  define grown where "grown = (?ix div ?a + 1) * ?a"
  define n where "n = (if grown > bm_max_size b then bm_max_size b else grown)"
  have a: "?a = int (length (bitmap b))" "0 < ?a"
    using inv by (auto simp: bm_inv_def)
  define b1 where "b1 = (if ?ix \<ge> ?a then b \<lparr> bitmap := bitmap b @ replicate (nat (n - ?a)) 0,
      array_size := n \<rparr> else b)"
  have "?ix < grown"
    using a(2) by (simp add: grown_def algebra_simps)
       (metis add.commute add_less_cancel_left mult.commute mod_mult_div_eq pos_mod_bound)
  moreover have "?ix < bm_max_size b" if "?ix \<ge> ?a"
    using i a(2) that by linarith
  ultimately have n: "?ix < n" if "?ix \<ge> ?a"
    using that by (simp add: n_def)
  have b1: "array_size b1 = int (length (bitmap b1))" "?ix < array_size b1" "?a \<le> array_size b1"
      "bm_max_size b1 = bm_max_size b" "\<forall>j. bm_bit b1 j = bm_bit b j"
    using a n by (auto simp: b1_def bm_bit_pad)
  have div: "i div (?a * 64) = ?ix div ?a"
    using zdiv_zmult2_eq [of ?a i 64] a(2) by (simp add: mult.commute)
  have "array_size b1 \<le> grown"
  proof (cases "?ix \<ge> ?a")
    case True
    then show ?thesis
      by (simp add: b1_def n_def)
  next
    case False
    then have "?ix div ?a = 0"
      using i(1) by simp
    then show ?thesis
      using False by (simp add: b1_def grown_def)
  qed
  then have size: "array_size b1 \<le> (i div (?a * 64) + 1) * ?a"
    by (simp add: div grown_def)
  let ?k = "nat i div 64" and ?o = "nat i mod 64"
  have k: "nat ?ix = ?k" "nat (i mod 64) = ?o" "?k < length (bitmap b1)"
    using i(1) b1 by (auto simp: nat_div_mod_64 zdiv_int)
  define b' where "b' = b1 \<lparr> bitmap := (bitmap b1)[?k := set_bit ?o (bitmap b1 ! ?k)] \<rparr>"
  have "opal_bitmap_set_bit malloc_ok (Some b) i =
      (if length (bitmap b1) \<le> nat ?ix then Undef
       else Ret (OPAL_SUCCESS, Some (b1 \<lparr> bitmap := (bitmap b1)[nat ?ix :=
         bitmap b1 ! nat ?ix OR push_bit (nat (i mod 64)) 1] \<rparr>)))"
    using i a(2) unfolding opal_bitmap_set_bit_def b1_def n_def grown_def Let_def by simp
  then have "opal_bitmap_set_bit malloc_ok (Some b) i = Ret (OPAL_SUCCESS, Some b')"
    unfolding k(1,2) using k(3) by (simp add: b'_def set_bit_eq_or)
  moreover have "\<forall>j. bm_bit b' j = (j = nat i \<or> bm_bit b j)"
    unfolding b'_def using k(3) b1(5)
    by (subst bm_bit_update [where v = True]) (auto simp: bit_set_bit_iff)
  moreover have "bm_inv b'"
    using b1 k(3) inv by (auto simp: bm_inv_def b'_def)
  ultimately show thesis
    using that b1 size by (simp add: b'_def)
qed

lemma clear_bit_ok:
  assumes small: "bm_small b" and i: "0 \<le> i" "i < array_size b * 64"
  obtains b' where "opal_bitmap_clear_bit (Some b) i = Ret (OPAL_SUCCESS, Some b')"
    "bm_inv b'" "bm_max_size b' = bm_max_size b" "array_size b' = array_size b"
    "\<forall>j. bm_bit b' j = (j \<noteq> nat i \<and> bm_bit b j)"
proof -
  have inv: "bm_inv b"
    using small by (simp add: bm_small_def)
  let ?k = "nat i div 64" and ?o = "nat i mod 64"
  have k: "?k < length (bitmap b)"
    using i inv by (auto simp: bm_inv_def less_mult_imp_div_less)
  define b' where "b' = b \<lparr> bitmap := (bitmap b)[?k := unset_bit ?o (bitmap b ! ?k)] \<rparr>"
  have "opal_bitmap_clear_bit (Some b) i = Ret (OPAL_SUCCESS, Some b')"
    using i k bm_in_range_small(1) [OF small, of i]
    by (simp add: opal_bitmap_clear_bit_def Let_def b'_def unset_bit_eq_and_not nat_div_mod_64)
  moreover have "\<forall>j. bm_bit b' j = (j \<noteq> nat i \<and> bm_bit b j)"
    unfolding b'_def using k
    by (subst bm_bit_update [where v = False]) (auto simp: bit_unset_bit_iff)
  moreover have "bm_inv b'"
    using inv by (simp add: b'_def bm_inv_def)
  ultimately show thesis
    using that by (simp add: b'_def)
qed

section \<open>Finding the first unset bit\<close>

lemma skip_full_spec:
  "skip_full ws i = i + length (takeWhile (\<lambda>w. w = - 1) ws)"
  by (induction ws arbitrary: i) auto

lemma find_and_set_ok:
  assumes inv: "bm_inv b" and room: "array_size b * 64 \<le> bm_max_size b" and size: "array_size b < 2 ^ 24"
  obtains n b' where
    "opal_bitmap_find_and_set_first_unset_bit malloc_ok (Some b) = Ret (OPAL_SUCCESS, int n, Some b')"
    "bm_small b'" "\<not> bm_bit b n" "\<forall>j<n. bm_bit b j" "\<forall>j. bm_bit b' j = (j = n \<or> bm_bit b j)"
    "bm_max_size b' = bm_max_size b"
proof -
  let ?i = "length (takeWhile (\<lambda>w. w = - 1) (bitmap b))"
  have a: "array_size b = int (length (bitmap b))" "bitmap b \<noteq> []" "bm_max_size b \<le> INT_MAX"
    using inv by (auto simp: bm_inv_def)
  have small: "bm_small b"
    using inv size by (simp add: bm_small_def)
  have before: "bitmap b ! j = - 1" if "j < ?i" for j
  proof -
    have "takeWhile (\<lambda>w. w = - 1) (bitmap b) ! j = - 1"
      using nth_mem [OF that] by (auto dest: set_takeWhileD)
    then show ?thesis
      using takeWhile_nth [OF that] by simp
  qed
  show thesis
  proof (cases "?i = length (bitmap b)")
    case True
    let ?n = "length (bitmap b) * 64"
    have pos: "0 \<le> array_size b * 64"
      using a(1) by simp
    from inv pos room obtain b' where
        b': "opal_bitmap_set_bit malloc_ok (Some b) (array_size b * 64) = Ret (OPAL_SUCCESS, Some b')"
        "bm_inv b'" "bm_max_size b' = bm_max_size b" "array_size b \<le> array_size b'"
        "\<forall>j. bm_bit b' j = (j = nat (array_size b * 64) \<or> bm_bit b j)"
        "array_size b' \<le> (array_size b * 64 div (array_size b * 64) + 1) * array_size b"
      by (rule set_bit_ok)
    have "bm_small b'"
      using b'(2,6) size a by (simp add: bm_small_def)
    have n: "nat (array_size b * 64) = ?n" "array_size b * 64 = int ?n"
      using a(1) by simp_all
    have "bm_bit b j" if "j < ?n" for j
      using that before [of "j div 64"] True by (simp add: bm_bit_def less_mult_imp_div_less)
    moreover have "\<not> bm_bit b ?n"
      by (simp add: bm_bit_def)
    moreover have "bm_small b'"
      by fact
    moreover have "opal_bitmap_find_and_set_first_unset_bit malloc_ok (Some b) =
        Ret (OPAL_SUCCESS, int ?n, Some b')"
      using True a b'(1) room bm_in_range_small(2) [OF small]
      by (simp add: opal_bitmap_find_and_set_first_unset_bit_def skip_full_spec n)
    ultimately show thesis
      using that [of ?n b'] b' n by simp
  next
    case False
    then have i: "?i < length (bitmap b)"
      using length_takeWhile_le [of "\<lambda>w. w = - 1" "bitmap b"] by linarith
    let ?w = "bitmap b ! ?i"
    have "?w \<noteq> - 1"
      using nth_length_takeWhile [OF i] by simp
    then obtain p where p: "p < 64" "\<not> bit ?w p" "\<forall>q<p. bit ?w q"
      by (rule first_unset)
    let ?n = "?i * 64 + p"
    have n: "?n div 64 = ?i" "?n mod 64 = p"
      using p(1) by simp_all
    have w': "?w OR (?w + 1) = set_bit p ?w"
      using p by (intro word_or_succ)
    have "?w XOR set_bit p ?w = push_bit p 1"
      by (rule bit_eqI) (use p in \<open>auto simp: bit_simps\<close>)
    then have zeros: "low_zeros 65 (?w XOR (?w OR (?w + 1))) 0 = Ret (int p)"
      using low_zeros_power [of p 65 0] p(1) by (simp add: w' del: low_zeros.simps)
    define b' where "b' = b \<lparr> bitmap := (bitmap b)[?i := set_bit p ?w] \<rparr>"
    have fits: "\<not> int p + int ?i * 64 > INT_MAX"
      using i p(1) a(1) size by (simp add: INT_MAX_def)
    have run: "opal_bitmap_find_and_set_first_unset_bit malloc_ok (Some b) =
        Ret (OPAL_SUCCESS, int ?n, Some b')"
      using False a(1) zeros fits
      by (simp add: opal_bitmap_find_and_set_first_unset_bit_def skip_full_spec w' b'_def Let_def
          del: low_zeros.simps)
    have "bm_bit b j" if "j < ?n" for j
    proof (cases "j div 64 = ?i")
      case True
      then have "j mod 64 < p"
        using that by (metis add_less_cancel_left div_mult_mod_eq)
      then show ?thesis
        using True i p by (simp add: bm_bit_def)
    next
      case False
      then have "j div 64 < ?i"
        using that p(1) by (metis div_le_mono le_eq_less_or_eq less_imp_le n(1))
      then show ?thesis
        using before [of "j div 64"] i by (simp add: bm_bit_def)
    qed
    moreover have "\<not> bm_bit b ?n"
      using p n by (simp add: bm_bit_def)
    moreover have "\<forall>j. bm_bit b' j = (j = ?n \<or> bm_bit b j)"
    proof
      fix j
      show "bm_bit b' j = (j = ?n \<or> bm_bit b j)"
        using bm_bit_update [of ?n b "set_bit p ?w" True j] i n p
        by (simp add: b'_def bit_set_bit_iff)
    qed
    moreover have "bm_small b'"
      using small by (simp add: b'_def bm_small_def bm_inv_def)
    moreover have "bm_max_size b' = bm_max_size b"
      by (simp add: b'_def)
    ultimately show thesis
      using that [of ?n b'] run by blast
  qed
qed

section \<open>Counting bits\<close>

lemma count_bits_card: "count_bits w = card {n. bit w n}"
proof (induction w rule: count_bits.induct)
  case (1 w)
  show ?case
  proof (cases "w = 0")
    case False
    then obtain n where "bit w n"
      by (auto simp: bit_eq_iff)
    let ?p = "LEAST p. bit w p"
    have p: "bit w ?p" "\<forall>q<?p. \<not> bit w q"
      using LeastI [of "bit w", OF \<open>bit w n\<close>] not_less_Least by blast+
    have "{n. bit (w AND (w - 1)) n} = {n. bit w n} - {?p}"
      unfolding word_and_pred [OF p(2,1)] by (auto simp: bit_unset_bit_iff)
    moreover have "finite {n. bit w n}"
      by (rule finite_subset [of _ "{..<64}"]) (auto dest: bit_imp_le_length)
    ultimately have "card {n. bit w n} = Suc (card {n. bit (w AND (w - 1)) n})"
      using card.remove [of "{n. bit w n}" ?p] p(1) by simp
    then show ?thesis
      using 1 False by (simp add: count_bits.simps [of w])
  qed (simp add: count_bits.simps [of 0])
qed

lemma sum_bits_eq:
  "sum_bits ws n = (if n \<le> length ws then Ret (sum_list (map count_bits (take n ws))) else Undef)"
  by (induction ws n rule: sum_bits.induct) auto

lemma sum_bits_le: "(\<Sum>w\<leftarrow>ws. card {n. bit w n}) \<le> length (ws :: word64 list) * 64"
proof (induction ws)
  case (Cons w ws)
  have "card {n. bit w n} \<le> card {..<64::nat}"
    by (rule card_mono) (auto dest: bit_imp_le_length)
  then show ?case
    using Cons by simp
qed simp

section \<open>Properties\<close>

text \<open>
  C32: setting a bit within the maximum, growing the map where needed, and clearing a bit of the map
  change exactly that bit of what \<^verbatim>\<open>opal_bitmap_is_set_bit\<close> reads, for every index.  The map, grown to a
  multiple of its size that holds the bit, must have fewer than \<open>2\<^sup>2\<^sup>5\<close> words: the functions compute its number of bits
  as an \<^verbatim>\<open>int\<close>.
\<close>

theorem bitmap_set_clear_bit:
  assumes "bm_inv b" and "0 \<le> i" and "i \<le> bm_max_size b"
    and "(i div (array_size b * 64) + 1) * array_size b < 2 ^ 25"
  shows "\<exists>b1 b2. opal_bitmap_set_bit malloc_ok (Some b) i = Ret (OPAL_SUCCESS, Some b1) \<and>
           (\<forall>j. opal_bitmap_is_set_bit (Some b1) j =
                  (if j = i then Ret True else opal_bitmap_is_set_bit (Some b) j)) \<and>
           opal_bitmap_clear_bit (Some b1) i = Ret (OPAL_SUCCESS, Some b2) \<and>
           (\<forall>j. opal_bitmap_is_set_bit (Some b2) j =
                  (if j = i then Ret False else opal_bitmap_is_set_bit (Some b1) j)) \<and>
           bm_inv b1 \<and> bm_inv b2"
proof -
  from assms(1-3) obtain b1 where b1:
      "opal_bitmap_set_bit malloc_ok (Some b) i = Ret (OPAL_SUCCESS, Some b1)"
      "bm_inv b1" "bm_max_size b1 = bm_max_size b" "array_size b \<le> array_size b1"
      "\<forall>j. bm_bit b1 j = (j = nat i \<or> bm_bit b j)"
      "array_size b1 \<le> (i div (array_size b * 64) + 1) * array_size b"
    by (rule set_bit_ok)
  have small: "bm_small b1" "bm_small b"
    using assms(1,4) b1(2,4,6) by (auto simp: bm_small_def)
  have "bm_bit b1 (nat i)"
    using b1(5) by simp
  then have "i < array_size b1 * 64"
    using b1(2) assms(2) by (auto simp: bm_bit_def bm_inv_def div_less_iff_less_mult)
  with small(1) assms(2) obtain b2 where b2: "opal_bitmap_clear_bit (Some b1) i = Ret (OPAL_SUCCESS, Some b2)"
      "bm_inv b2" "bm_max_size b2 = bm_max_size b1" "array_size b2 = array_size b1"
      "\<forall>j. bm_bit b2 j = (j \<noteq> nat i \<and> bm_bit b1 j)"
    by (rule clear_bit_ok)
  then have "bm_small b2"
    using small(1) by (simp add: bm_small_def)
  then show ?thesis
    using b1 b2 assms small by (auto simp: is_set_eq)
qed

theorem bitmap_set_clear_bit_witness:
  "\<exists>b1 b2. opal_bitmap_set_bit malloc_ok
       (Some \<lparr> bitmap = [0], array_size = 1, bm_max_size = INT_MAX \<rparr>) 100 = Ret (OPAL_SUCCESS, Some b1) \<and>
     opal_bitmap_clear_bit (Some b1) 100 = Ret (OPAL_SUCCESS, Some b2)"
  using bitmap_set_clear_bit [of "\<lparr> bitmap = [0], array_size = 1, bm_max_size = INT_MAX \<rparr>" 100]
  by (auto simp: bm_inv_def INT_MAX_def)

text \<open>
  C21: in a map of fewer than \<open>2\<^sup>2\<^sup>4\<close> words whose next bit is within the maximum,
  \<^verbatim>\<open>opal_bitmap_find_and_set_first_unset_bit\<close> returns the least index whose bit was not set and
  sets exactly that bit, growing a full map; its shift loop ends.  (A full map of more words grows to a number of bits that
  is not an \<^verbatim>\<open>int\<close>.)
\<close>

theorem bitmap_first_unset_bit:
  assumes "bm_inv b" and "array_size b * 64 \<le> bm_max_size b" and "array_size b < 2 ^ 24"
  shows "\<exists>n b'. opal_bitmap_find_and_set_first_unset_bit malloc_ok (Some b) =
             Ret (OPAL_SUCCESS, int n, Some b') \<and>
           opal_bitmap_is_set_bit (Some b) (int n) = Ret False \<and>
           (\<forall>j<n. opal_bitmap_is_set_bit (Some b) (int j) = Ret True) \<and>
           (\<forall>j. opal_bitmap_is_set_bit (Some b') j =
                  (if j = int n then Ret True else opal_bitmap_is_set_bit (Some b) j))"
proof -
  from assms obtain n b' where
    "opal_bitmap_find_and_set_first_unset_bit malloc_ok (Some b) = Ret (OPAL_SUCCESS, int n, Some b')"
    "bm_small b'" "\<not> bm_bit b n" "\<forall>j<n. bm_bit b j" "\<forall>j. bm_bit b' j = (j = n \<or> bm_bit b j)"
    "bm_max_size b' = bm_max_size b"
    by (rule find_and_set_ok)
  moreover have "bm_small b"
    using assms(1,3) by (simp add: bm_small_def)
  ultimately show ?thesis
    by (auto simp: is_set_eq intro!: exI [of _ n])
qed

theorem bitmap_first_unset_bit_witness:
  "\<exists>n b'. opal_bitmap_find_and_set_first_unset_bit malloc_ok
       (Some \<lparr> bitmap = [- 1], array_size = 1, bm_max_size = INT_MAX \<rparr>) =
     Ret (OPAL_SUCCESS, int n, Some b')"
  using bitmap_first_unset_bit [of "\<lparr> bitmap = [- 1], array_size = 1, bm_max_size = INT_MAX \<rparr>"]
  by (auto simp: bm_inv_def INT_MAX_def)

text \<open>
  The default maximum allows bits up to \<^verbatim>\<open>INT_MAX\<close>: setting the last one succeeds, and reading any bit of the map
  afterwards overflows an \<^verbatim>\<open>int\<close>.
\<close>

theorem bitmap_size_overflow:
  assumes "bm_inv b" and "bm_max_size b = INT_MAX" and "0 \<le> j"
  shows "\<exists>b'. opal_bitmap_set_bit malloc_ok (Some b) INT_MAX = Ret (OPAL_SUCCESS, Some b') \<and>
           opal_bitmap_is_set_bit (Some b') j = Undef"
proof -
  have i: "0 \<le> INT_MAX" "INT_MAX \<le> bm_max_size b"
    using assms(2) by (simp_all add: INT_MAX_def)
  from assms(1) i obtain b' where b': "opal_bitmap_set_bit malloc_ok (Some b) INT_MAX = Ret (OPAL_SUCCESS, Some b')"
      "bm_inv b'" "bm_max_size b' = bm_max_size b" "array_size b \<le> array_size b'"
      "\<forall>j. bm_bit b' j = (j = nat INT_MAX \<or> bm_bit b j)"
      "array_size b' \<le> (INT_MAX div (array_size b * 64) + 1) * array_size b"
    by (rule set_bit_ok)
  have "bm_bit b' (nat INT_MAX)"
    using b'(5) by simp
  then have "nat INT_MAX div 64 < length (bitmap b')"
    by (simp add: bm_bit_def)
  then have "array_size b' * 64 > INT_MAX"
    using b'(2) by (simp add: bm_inv_def INT_MAX_def)
  then show ?thesis
    using b'(1) assms(3) by (simp add: opal_bitmap_is_set_bit_def bm_in_range_def bm_bits_def)
qed

theorem bitmap_size_overflow_witness:
  "\<exists>b'. opal_bitmap_set_bit malloc_ok (Some \<lparr> bitmap = [0], array_size = 1, bm_max_size = INT_MAX \<rparr>) INT_MAX =
       Ret (OPAL_SUCCESS, Some b') \<and> opal_bitmap_is_set_bit (Some b') 0 = Undef"
  by (rule bitmap_size_overflow) (simp_all add: bm_inv_def)

text \<open>
  \<^verbatim>\<open>opal_bitmap_num_set_bits\<close> counts the set bits of the first \<^verbatim>\<open>len\<close> words of the map, although
  its argument is documented as a number of bits: with a length in bits that is within the
  map but above its number of words it reads beyond the array.
\<close>

theorem bitmap_num_set_bits_words:
  assumes "bm_small b" and "0 \<le> len" and "len < array_size b * 64"
  shows "opal_bitmap_num_set_bits debug b len =
           (if len \<le> array_size b
            then Ret (int (\<Sum>w\<leftarrow>take (nat len) (bitmap b). card {n. bit w n}))
            else Undef)"
proof -
  have eq: "opal_bitmap_num_set_bits debug b len =
      obind (sum_bits (bitmap b) (nat len)) (\<lambda>c. if int c > INT_MAX then Undef else Ret (int c))"
    using assms bm_in_range_small(1) [OF assms(1), of len] by (simp add: opal_bitmap_num_set_bits_def)
  have "(\<Sum>w\<leftarrow>take (nat len) (bitmap b). card {n. bit w n}) \<le> length (bitmap b) * 64"
    using sum_bits_le [of "take (nat len) (bitmap b)"] by (simp add: min_def split: if_splits)
  then show ?thesis
    using assms by (auto simp: eq sum_bits_eq bm_small_def bm_inv_def count_bits_card [abs_def] INT_MAX_def)
qed

theorem bitmap_num_set_bits_words_witness:
  "opal_bitmap_num_set_bits True \<lparr> bitmap = [5], array_size = 1, bm_max_size = INT_MAX \<rparr> 3 = Undef"
  using bitmap_num_set_bits_words [of "\<lparr> bitmap = [5], array_size = 1, bm_max_size = INT_MAX \<rparr>" 3 True]
  by (simp add: bm_small_def bm_inv_def)

text \<open>
  The maximum size is given in bits and stored in words, and then compared with bits: a map whose
  maximum is \<open>n\<close> bits cannot be initialised with \<open>n\<close> bits, for any \<open>n\<close> above one.
\<close>

theorem bitmap_max_size_units:
  assumes "2 \<le> n" and "n \<le> INT_MAX"
  shows "obind (opal_bitmap_set_max_size (Some opal_bitmap_construct) n)
           (\<lambda>(rc, bm). Ret (fst (opal_bitmap_init alloc bm n))) = Ret OPAL_ERR_BAD_PARAM"
proof -
  have "words_for n < n"
    using assms(1) by (simp add: words_for_def)
  then show ?thesis
    using assms by (simp add: opal_bitmap_set_max_size_def opal_bitmap_init_def)
qed

theorem bitmap_max_size_units_witness:
  "obind (opal_bitmap_set_max_size (Some opal_bitmap_construct) 100)
     (\<lambda>(rc, bm). Ret (fst (opal_bitmap_init malloc_ok bm 100))) = Ret OPAL_ERR_BAD_PARAM"
  by (rule bitmap_max_size_units) (simp_all add: INT_MAX_def)

end
