(* ===== verification/Hotel.thy ===== *)
theory Hotel
  imports Containers
begin

text \<open>
  The hotel of \<^verbatim>\<open>opal/class/opal_hotel.c\<close> and \<^verbatim>\<open>opal_hotel.h\<close>: a fixed number of rooms, a stack of
  the numbers of the empty ones, and a timer per room when the hotel has an event base.
  The event library is reduced to one flag per room: whether its timer is pending.  The
  assertions of the source are not compiled into a release build; what happens without
  them is the model.
\<close>

section \<open>Definitions\<close>

record 'o opal_hotel_t =
  num_rooms :: int
  evbase :: bool
  eviction_timeout :: "nat \<times> nat"
  rooms :: "'o option list"
  timers :: "bool list"
  unoccupied_rooms :: "nat list"
  last_unoccupied_room :: int

definition hotel_constructor :: "'o opal_hotel_t" where
  "hotel_constructor =
     \<lparr> num_rooms = 0, evbase = False, eviction_timeout = (0, 0), rooms = [], timers = [],
       unoccupied_rooms = [], last_unoccupied_room = -1 \<rparr>"

abbreviation sizeof_room :: nat where
  "sizeof_room \<equiv> 136"

text \<open>
  \<^verbatim>\<open>opal_hotel_init\<close> writes to its three arrays without testing that they were allocated.  The
  timeout is split into seconds and microseconds.
\<close>

definition opal_hotel_init ::
  "allocator \<Rightarrow> 'o opal_hotel_t \<Rightarrow> int \<Rightarrow> bool \<Rightarrow> nat \<Rightarrow> bool
     \<Rightarrow> (status \<times> 'o opal_hotel_t) outcome" where
  "opal_hotel_init alloc h n base timeout has_callback =
     (if n \<le> 0 \<or> \<not> has_callback then Ret (OPAL_ERR_BAD_PARAM, h)
      else if \<not> alloc (nat n * sizeof_room) \<or> \<not> alloc (nat n * 16) \<or> \<not> alloc (nat n * 4) then Undef
      else Ret (OPAL_SUCCESS,
        h \<lparr> num_rooms := n, evbase := base,
            eviction_timeout := (timeout div 1000000, timeout mod 1000000),
            rooms := replicate (nat n) None, timers := replicate (nat n) False,
            unoccupied_rooms := [0..<nat n], last_unoccupied_room := n - 1 \<rparr>))"

definition opal_hotel_checkin_with_res ::
  "'o opal_hotel_t \<Rightarrow> 'o option \<Rightarrow> (nat \<times> 'o opal_hotel_t) outcome" where
  "opal_hotel_checkin_with_res h occupant =
     (if last_unoccupied_room h < 0 \<or>
         int (length (unoccupied_rooms h)) \<le> last_unoccupied_room h then Undef
      else
        (let room = unoccupied_rooms h ! nat (last_unoccupied_room h) in
         if length (rooms h) \<le> room then Undef
         else Ret (room,
           h \<lparr> last_unoccupied_room := last_unoccupied_room h - 1,
               rooms := (rooms h)[room := occupant],
               timers := (if evbase h then (timers h)[room := True] else timers h) \<rparr>)))"

definition opal_hotel_checkin ::
  "'o opal_hotel_t \<Rightarrow> 'o option \<Rightarrow> (status \<times> nat option \<times> 'o opal_hotel_t) outcome" where
  "opal_hotel_checkin h occupant =
     (if last_unoccupied_room h < 0 then Ret (OPAL_ERR_TEMP_OUT_OF_RESOURCE, None, h)
      else obind (opal_hotel_checkin_with_res h occupant)
             (\<lambda>(room, h'). Ret (OPAL_SUCCESS, Some room, h')))"

definition opal_hotel_checkout_and_return_occupant ::
  "'o opal_hotel_t \<Rightarrow> nat \<Rightarrow> ('o option \<times> 'o opal_hotel_t) outcome" where
  "opal_hotel_checkout_and_return_occupant h room =
     (if length (rooms h) \<le> room then Undef
      else
        (case rooms h ! room of
           None \<Rightarrow> Ret (None, h)
         | Some occupant \<Rightarrow>
             (let last' = last_unoccupied_room h + 1 in
              if last' < 0 \<or> int (length (unoccupied_rooms h)) \<le> last' then Undef
              else Ret (Some occupant,
                h \<lparr> rooms := (rooms h)[room := None],
                    timers := (if evbase h then (timers h)[room := False] else timers h),
                    last_unoccupied_room := last',
                    unoccupied_rooms := (unoccupied_rooms h)[nat last' := room] \<rparr>))))"

text \<open>\<^verbatim>\<open>opal_hotel_checkout\<close> is a copy of that function without the result.\<close>

definition opal_hotel_checkout :: "'o opal_hotel_t \<Rightarrow> nat \<Rightarrow> 'o opal_hotel_t outcome" where
  "opal_hotel_checkout h room =
     (if length (rooms h) \<le> room then Undef
      else if rooms h ! room \<noteq> None then
        (let last' = last_unoccupied_room h + 1 in
         if last' < 0 \<or> int (length (unoccupied_rooms h)) \<le> last' then Undef
         else Ret (h \<lparr> rooms := (rooms h)[room := None],
                       timers := (if evbase h then (timers h)[room := False] else timers h),
                       last_unoccupied_room := last',
                       unoccupied_rooms := (unoccupied_rooms h)[nat last' := room] \<rparr>))
      else Ret h)"

text \<open>The timer of a room fires: checkout, then the user's callback with room and occupant.\<close>

definition local_eviction_callback ::
  "'o opal_hotel_t \<Rightarrow> nat \<Rightarrow> ((nat \<times> 'o option) \<times> 'o opal_hotel_t) outcome" where
  "local_eviction_callback h room =
     (if length (rooms h) \<le> room then Undef
      else
        (let occupant = rooms h ! room in
         obind (opal_hotel_checkout h room) (\<lambda>h'. Ret ((room, occupant), h'))))"

definition opal_hotel_is_empty :: "'o opal_hotel_t \<Rightarrow> bool" where
  "opal_hotel_is_empty h = (last_unoccupied_room h = num_rooms h - 1)"

section \<open>The invariant\<close>

definition free_rooms :: "'o opal_hotel_t \<Rightarrow> nat list" where
  "free_rooms h = take (nat (last_unoccupied_room h + 1)) (unoccupied_rooms h)"

definition hotel_used :: "'o opal_hotel_t \<Rightarrow> nat \<rightharpoonup> 'o" where
  "hotel_used h i = (if i < length (rooms h) then rooms h ! i else None)"

definition hotel_inv :: "'o opal_hotel_t \<Rightarrow> bool" where
  "hotel_inv h \<longleftrightarrow>
     num_rooms h = int (length (rooms h)) \<and> length (unoccupied_rooms h) = length (rooms h) \<and>
     length (timers h) = length (rooms h) \<and>
     -1 \<le> last_unoccupied_room h \<and> last_unoccupied_room h < num_rooms h \<and>
     distinct (free_rooms h) \<and> set (free_rooms h) = {i. i < length (rooms h) \<and> rooms h ! i = None} \<and>
     (\<forall>i<length (rooms h). timers h ! i = (evbase h \<and> rooms h ! i \<noteq> None))"

lemma length_free_rooms:
  assumes "hotel_inv h"
  shows "length (free_rooms h) = nat (last_unoccupied_room h + 1)"
    "card {i. i < length (rooms h) \<and> rooms h ! i = None} = nat (last_unoccupied_room h + 1)"
proof -
  have "nat (last_unoccupied_room h + 1) \<le> length (unoccupied_rooms h)"
    using assms by (auto simp: hotel_inv_def)
  then show *: "length (free_rooms h) = nat (last_unoccupied_room h + 1)"
    by (simp add: free_rooms_def)
  show "card {i. i < length (rooms h) \<and> rooms h ! i = None} = nat (last_unoccupied_room h + 1)"
    using * assms distinct_card [of "free_rooms h"] by (simp add: hotel_inv_def)
qed

lemma checkin_ok:
  assumes inv: "hotel_inv h" and free: "0 \<le> last_unoccupied_room h"
  obtains room h' where "opal_hotel_checkin_with_res h (Some x) = Ret (room, h')"
    "hotel_inv h'" "hotel_used h room = None" "hotel_used h' = (hotel_used h)(room \<mapsto> x)"
    "last_unoccupied_room h' = last_unoccupied_room h - 1"
proof -
  note i = inv [unfolded hotel_inv_def]
  let ?l = "nat (last_unoccupied_room h)" and ?room = "unoccupied_rooms h ! nat (last_unoccupied_room h)"
  have l: "?l < length (unoccupied_rooms h)"
    using i free by linarith
  have fr: "free_rooms h = take ?l (unoccupied_rooms h) @ [?room]"
    using free l by (simp add: free_rooms_def nat_add_distrib take_Suc_conv_app_nth)
  then have room: "?room < length (rooms h)" "rooms h ! ?room = None"
      "?room \<notin> set (take ?l (unoccupied_rooms h))"
    using i by auto
  define h' where "h' = h \<lparr> last_unoccupied_room := last_unoccupied_room h - 1,
     rooms := (rooms h)[?room := Some x],
     timers := (if evbase h then (timers h)[?room := True] else timers h) \<rparr>"
  have "free_rooms h' = take ?l (unoccupied_rooms h)"
    by (simp add: h'_def free_rooms_def)
  moreover have "set (take ?l (unoccupied_rooms h)) =
      {i. i < length (rooms h) \<and> rooms h ! i = None} - {?room}"
    using i fr room(3) by auto
  moreover have "distinct (take ?l (unoccupied_rooms h))"
    using i fr by simp
  ultimately have "hotel_inv h'"
    using i free room by (auto simp: hotel_inv_def h'_def nth_list_update)
  moreover have "opal_hotel_checkin_with_res h (Some x) = Ret (?room, h')"
    using l free room by (simp add: opal_hotel_checkin_with_res_def h'_def Let_def)
  moreover have "hotel_used h' = (hotel_used h)(?room \<mapsto> x)"
    using room by (auto simp: fun_eq_iff hotel_used_def h'_def)
  ultimately show thesis
    using that room by (simp add: hotel_used_def h'_def)
qed

lemma checkout_ok:
  assumes inv: "hotel_inv h" and occ: "hotel_used h room = Some x"
  obtains h' where "opal_hotel_checkout_and_return_occupant h room = Ret (Some x, h')"
    "hotel_inv h'" "hotel_used h' = (hotel_used h)(room := None)"
    "last_unoccupied_room h' = last_unoccupied_room h + 1"
proof -
  note i = inv [unfolded hotel_inv_def]
  let ?l = "nat (last_unoccupied_room h + 1)"
  have room: "room < length (rooms h)" "rooms h ! room = Some x"
    using occ by (auto simp: hotel_used_def split: if_splits)
  have "set (free_rooms h) \<subseteq> {..<length (rooms h)} - {room}"
    using i room by auto
  then have "card (set (free_rooms h)) \<le> length (rooms h) - 1"
    using card_mono [of "{..<length (rooms h)} - {room}"] room by auto
  moreover have "card (set (free_rooms h)) = ?l"
    using i length_free_rooms [OF inv] distinct_card [of "free_rooms h"] by simp
  ultimately have l: "?l < length (unoccupied_rooms h)"
    using i room by linarith
  have last: "nat (last_unoccupied_room h + 1 + 1) = Suc ?l"
    using i by linarith
  define h' where "h' = h \<lparr> rooms := (rooms h)[room := None],
     timers := (if evbase h then (timers h)[room := False] else timers h),
     last_unoccupied_room := last_unoccupied_room h + 1,
     unoccupied_rooms := (unoccupied_rooms h)[?l := room] \<rparr>"
  have "free_rooms h' = free_rooms h @ [room]"
    using l last by (simp add: h'_def free_rooms_def take_Suc_conv_app_nth)
  moreover have "room \<notin> set (free_rooms h)"
    using i room by auto
  ultimately have "hotel_inv h'"
    using i l room by (auto simp: hotel_inv_def h'_def nth_list_update)
  moreover have "opal_hotel_checkout_and_return_occupant h room = Ret (Some x, h')"
    using i l room by (simp add: opal_hotel_checkout_and_return_occupant_def h'_def Let_def)
  moreover have "hotel_used h' = (hotel_used h)(room := None)"
    using room by (auto simp: fun_eq_iff hotel_used_def h'_def)
  ultimately show thesis
    using that by (simp add: h'_def)
qed

lemma hotel_empty:
  assumes "hotel_inv h"
  shows "opal_hotel_is_empty h \<longleftrightarrow> hotel_used h = Map.empty"
proof -
  note i = assms [unfolded hotel_inv_def]
  let ?F = "{i. i < length (rooms h) \<and> rooms h ! i = None}"
  have "opal_hotel_is_empty h \<longleftrightarrow> card ?F = card {..<length (rooms h)}"
    using i length_free_rooms(2) [OF assms] by (auto simp: opal_hotel_is_empty_def)
  also have "\<dots> \<longleftrightarrow> ?F = {..<length (rooms h)}"
  proof
    show "?F = {..<length (rooms h)}" if "card ?F = card {..<length (rooms h)}"
      by (rule card_subset_eq) (use that in auto)
  qed simp
  also have "\<dots> \<longleftrightarrow> hotel_used h = Map.empty"
    by (auto simp: hotel_used_def fun_eq_iff)
  finally show ?thesis .
qed

lemma hotel_init_ok:
  assumes "0 < n"
  shows "\<exists>h. opal_hotel_init malloc_ok hotel_constructor n base timeout True = Ret (OPAL_SUCCESS, h) \<and>
    (hotel_inv h \<and> num_rooms h = n \<and> evbase h = base) \<and> hotel_used h = Map.empty"
  using assms
  by (auto simp: opal_hotel_init_def hotel_constructor_def hotel_inv_def free_rooms_def
      hotel_used_def fun_eq_iff)

section \<open>The contract\<close>

lemma checkout_eq:
  "opal_hotel_checkout h room =
     obind (opal_hotel_checkout_and_return_occupant h room) (\<lambda>(occupant, h'). Ret h')"
  by (auto simp: opal_hotel_checkout_def opal_hotel_checkout_and_return_occupant_def Let_def split: option.splits)

lemma checkin_full:
  assumes "hotel_inv h"
  shows "last_unoccupied_room h < 0 \<longleftrightarrow> all_used (length (rooms h)) (hotel_used h)"
proof -
  note i = assms [unfolded hotel_inv_def]
  have "last_unoccupied_room h < 0 \<longleftrightarrow> length (free_rooms h) = 0"
    using i length_free_rooms(1) [OF assms] by linarith
  also have "\<dots> \<longleftrightarrow> set (free_rooms h) = {}"
    by simp
  also have "\<dots> \<longleftrightarrow> all_used (length (rooms h)) (hotel_used h)"
    using i by (simp add: hotel_used_def all_used_def)
  finally show ?thesis .
qed

definition hotel_acquire :: "'o opal_hotel_t \<Rightarrow> 'o \<Rightarrow> (nat option \<times> 'o opal_hotel_t) outcome" where
  "hotel_acquire h x = obind (opal_hotel_checkin h (Some x)) (\<lambda>(rc, room, h'). Ret (room, h'))"

text \<open>The parameters of a hotel that no operation changes.\<close>

definition same_hotel :: "'o opal_hotel_t \<Rightarrow> 'o opal_hotel_t \<Rightarrow> bool" where
  "same_hotel h h' \<longleftrightarrow> num_rooms h' = num_rooms h \<and> evbase h' = evbase h"

lemma num_rooms_length: "hotel_inv h \<Longrightarrow> nat (num_rooms h) = length (rooms h)"
  by (simp add: hotel_inv_def)

lemma checkin_law:
  assumes "hotel_inv h"
  shows "\<exists>r h'. hotel_acquire h x = Ret (r, h') \<and> hotel_inv h' \<and> same_hotel h h' \<and>
    replay (\<lambda>_. None) [case r of Some i \<Rightarrow> Acquired i x | None \<Rightarrow> Refused x] (nat (num_rooms h), hotel_used h) =
      Some (nat (num_rooms h'), hotel_used h')"
proof (cases "last_unoccupied_room h < 0")
  case True
  then show ?thesis
    using assms checkin_full [OF assms] num_rooms_length [OF assms]
    by (simp add: hotel_acquire_def opal_hotel_checkin_def same_hotel_def)
next
  case False
  then have "0 \<le> last_unoccupied_room h"
    by simp
  with assms obtain room h' where h': "opal_hotel_checkin_with_res h (Some x) = Ret (room, h')"
      "hotel_inv h'" "hotel_used h room = None" "hotel_used h' = (hotel_used h)(room \<mapsto> x)"
      "last_unoccupied_room h' = last_unoccupied_room h - 1"
    by (rule checkin_ok)
  then have "same_hotel h h'" "room < length (rooms h)"
    by (auto simp: opal_hotel_checkin_with_res_def same_hotel_def Let_def split: if_splits)
  then show ?thesis
    using h' False num_rooms_length [OF assms]
    by (auto simp: hotel_acquire_def opal_hotel_checkin_def same_hotel_def)
qed

lemma checkout_law:
  assumes inv: "hotel_inv h" and i: "i < length (rooms h)"
  shows "\<exists>h'. opal_hotel_checkout h i = Ret h' \<and> hotel_inv h' \<and> same_hotel h h' \<and>
    hotel_used h' = (hotel_used h)(i := None)"
proof (cases "hotel_used h i")
  case None
  then show ?thesis
    using inv i by (auto simp: hotel_used_def opal_hotel_checkout_def same_hotel_def fun_eq_iff)
next
  case (Some y)
  with inv obtain h' where h': "opal_hotel_checkout_and_return_occupant h i = Ret (Some y, h')"
      "hotel_inv h'" "hotel_used h' = (hotel_used h)(i := None)"
      "last_unoccupied_room h' = last_unoccupied_room h + 1"
    by (rule checkout_ok)
  then have "same_hotel h h'"
    by (auto simp: opal_hotel_checkout_and_return_occupant_def same_hotel_def Let_def split: if_splits option.splits)
  then show ?thesis
    using h' by (simp add: checkout_eq)
qed

interpretation hotel: slot_pool "\<lambda>_ h. hotel_inv h \<and> num_rooms h = n \<and> evbase h = base" "\<lambda>h. nat (num_rooms h)"
  hotel_used "\<lambda>_ _. None" hotel_acquire opal_hotel_checkout
  for n base
proof
  fix h :: "'o opal_hotel_t" and x
  assume "hotel_inv h \<and> num_rooms h = n \<and> evbase h = base"
  then show "\<exists>r h'. hotel_acquire h x = Ret (r, h') \<and> (hotel_inv h' \<and> num_rooms h' = n \<and> evbase h' = base) \<and>
    (\<lambda>_. None) = (\<lambda>_. None :: nat option) \<and>
    replay (\<lambda>_. None) [case r of Some i \<Rightarrow> Acquired i x | None \<Rightarrow> Refused x] (nat (num_rooms h), hotel_used h) =
      Some (nat (num_rooms h'), hotel_used h')"
    using checkin_law [of h x] by (auto simp: same_hotel_def)
next
  fix h :: "'o opal_hotel_t" and i
  assume "hotel_inv h \<and> num_rooms h = n \<and> evbase h = base" "i < nat (num_rooms h)"
  then show "\<exists>h'. opal_hotel_checkout h i = Ret h' \<and> (hotel_inv h' \<and> num_rooms h' = n \<and> evbase h' = base) \<and>
      (\<lambda>_. None) = (\<lambda>_. None :: nat option) \<and> nat (num_rooms h') = nat (num_rooms h) \<and>
      hotel_used h' = (hotel_used h)(i := None)"
    using checkout_law [of h i] num_rooms_length [of h] by (auto simp: same_hotel_def)
qed

section \<open>Properties\<close>

text \<open>
  C8: from an initialised hotel of \<open>n\<close> rooms, any sequence of check-ins and of check-outs of its rooms, occupied or
  vacant, returns.  A check-in gets a room in which nobody is, and is refused only when all \<open>n\<close> rooms are taken; an
  occupant stays until checked out; checking a vacant room out changes nothing; and afterwards the
  timers that are pending are those of the occupied rooms.  (A room number that the hotel does not have is
  excluded by an assertion in the code.)
\<close>

theorem hotel_rooms_exclusive:
  fixes ops :: "'o pool_op list"
  assumes "0 < n"
  shows "\<exists>(h :: 'o opal_hotel_t) ev h'. opal_hotel_init malloc_ok hotel_constructor n base timeout True =
           Ret (OPAL_SUCCESS, h) \<and>
         pool_run (\<lambda>h. nat (num_rooms h)) hotel_acquire opal_hotel_checkout ops h = Ret (ev, h') \<and>
         replay (\<lambda>_. None) ev (nat n, Map.empty) = Some (nat n, hotel_used h') \<and>
         (\<forall>i<nat n. timers h' ! i = (base \<and> hotel_used h' i \<noteq> None))"
proof -
  obtain h :: "'o opal_hotel_t" where h: "opal_hotel_init malloc_ok hotel_constructor n base timeout True =
      Ret (OPAL_SUCCESS, h)" "hotel_inv h \<and> num_rooms h = n \<and> evbase h = base" "hotel_used h = Map.empty"
    using hotel_init_ok [OF assms] by blast
  obtain ev h' where run: "pool_run (\<lambda>h. nat (num_rooms h)) hotel_acquire opal_hotel_checkout ops h = Ret (ev, h')"
      "hotel_inv h' \<and> num_rooms h' = n \<and> evbase h' = base"
      "replay (\<lambda>_. None) ev (nat (num_rooms h), hotel_used h) = Some (nat (num_rooms h'), hotel_used h')"
    using hotel.run_as_replay [OF h(2)] by blast
  then have "\<forall>i<nat n. timers h' ! i = (base \<and> hotel_used h' i \<noteq> None)"
    by (auto simp: hotel_inv_def hotel_used_def)
  then show ?thesis
    using h run by auto
qed

theorem hotel_rooms_exclusive_witness:
  "\<exists>h ev h'. opal_hotel_init malloc_ok hotel_constructor 1 True 5 True = Ret (OPAL_SUCCESS, h) \<and>
     pool_run (\<lambda>h. nat (num_rooms h)) hotel_acquire opal_hotel_checkout
       [Release 0, Acquire ''a'', Acquire ''b'', Release 0] h = Ret (ev, h')"
  using hotel_rooms_exclusive [of 1 True 5 "[Release 0, Acquire ''a'', Acquire ''b'', Release 0]"] by auto

text \<open>
  A check-in fails exactly when all rooms are taken, and the hotel reports itself empty exactly
  when no room is.
\<close>

theorem hotel_full_and_empty:
  assumes "hotel_inv h"
  shows "((\<exists>h'. opal_hotel_checkin h (Some x) = Ret (OPAL_ERR_TEMP_OUT_OF_RESOURCE, None, h')) \<longleftrightarrow>
            (\<forall>i<length (rooms h). hotel_used h i \<noteq> None)) \<and>
         (opal_hotel_is_empty h \<longleftrightarrow> hotel_used h = Map.empty)"
proof -
  have "(\<exists>h'. opal_hotel_checkin h (Some x) = Ret (OPAL_ERR_TEMP_OUT_OF_RESOURCE, None, h')) \<longleftrightarrow>
      last_unoccupied_room h < 0"
    by (auto simp: opal_hotel_checkin_def outcome_simps)
  then show ?thesis
    using checkin_full [OF assms] hotel_empty [OF assms] by (simp add: all_used_def)
qed

theorem hotel_full_and_empty_witness:
  "\<exists>h. opal_hotel_init malloc_ok hotel_constructor 2 False 7 True = Ret (OPAL_SUCCESS, h) \<and>
     opal_hotel_is_empty h = (hotel_used h = (Map.empty :: nat \<rightharpoonup> string))"
  using hotel_init_ok [of 2 False 7] hotel_full_and_empty by fastforce

end
