(* ===== verification/Logical_Group_File.thy ===== *)
theory Logical_Group_File
  imports Logical_Group_Map
begin

text \<open>
  Writing the groups and reading them back: splitting into lines loses no member, a line of plain names expands to
  these names, and the parsed groups are those that were saved.
\<close>

section \<open>Lines\<close>

lemma comma_join_snoc: "bm \<noteq> [] \<Longrightarrow> comma_join (bm @ [m]) = comma_join bm @ '','' @ m"
  by (induction "CHR '',''" bm rule: intersperse_join.induct) auto

lemma comma_join_ne: "bm \<noteq> [] \<Longrightarrow> \<forall>m\<in>set bm. m \<noteq> [] \<Longrightarrow> comma_join bm \<noteq> []"
  by (cases bm rule: list.exhaust; cases "tl bm"; auto)

lemma convertion_loop_ok:
  assumes "convertion_loop lim (comma_join bm) ms acc = Ret lines" "ms \<noteq> []" "\<forall>m\<in>set (bm @ ms). m \<noteq> []"
  shows "\<exists>gs. lines = acc @ map comma_join gs \<and> concat gs = bm @ ms \<and> (\<forall>g\<in>set gs. g \<noteq> [])"
  using assms
proof (induction ms arbitrary: bm acc)
  case (Cons m ms)
  have bm: "comma_join bm \<noteq> [] \<longleftrightarrow> bm \<noteq> []"
    using comma_join_ne [of bm] Cons.prems(3) by (cases "bm = []") auto
  define flush where "flush \<longleftrightarrow> lim < length (comma_join bm) + length m + 1"
  define bm' where "bm' = (if flush then [m] else bm @ [m])"
  define acc' where "acc' = (if flush then acc @ [comma_join bm] else acc)"
  have line: "(if (if flush then [] else comma_join bm) \<noteq> [] then (if flush then [] else comma_join bm) @ '',''
      else (if flush then [] else comma_join bm)) @ m = comma_join bm'"
    using bm comma_join_snoc [of bm m] by (auto simp: bm'_def)
  have m: "m \<noteq> []" "comma_join bm' \<noteq> []"
    using Cons.prems(3) comma_join_ne [of bm'] by (auto simp: bm'_def)
  have run: "length (comma_join bm') < lim"
      "convertion_loop lim (comma_join bm') ms (if ms = [] then acc' @ [comma_join bm'] else acc') = Ret lines"
    using Cons.prems(1) m(2) unfolding convertion_loop.simps flush_def [symmetric] Let_def line acc'_def [symmetric]
    by (auto split: if_splits)
  have "bm \<noteq> []" if flush
    using that run(1) by (auto simp: flush_def bm'_def)
  define pre where "pre = (if flush then [bm] else [])"
  have pre: "acc' = acc @ map comma_join pre" "concat pre @ bm' = bm @ [m]" "\<forall>g\<in>set pre. g \<noteq> []"
    using \<open>flush \<Longrightarrow> bm \<noteq> []\<close> by (simp_all add: pre_def acc'_def bm'_def)
  show ?case
  proof (cases "ms = []")
    case True
    then have "lines = acc @ map comma_join (pre @ [bm']) \<and> concat (pre @ [bm']) = bm @ [m] \<and> (\<forall>g\<in>set (pre @ [bm']). g \<noteq> [])"
      using run(2) pre by (auto simp: bm'_def)
    then show ?thesis
      using True by blast
  next
    case False
    then obtain gs where "lines = acc' @ map comma_join gs" "concat gs = bm' @ ms" "\<forall>g\<in>set gs. g \<noteq> []"
      using Cons.IH [of bm' acc'] run(2) Cons.prems(3) by (auto simp: bm'_def split: if_splits)
    then have "lines = acc @ map comma_join (pre @ gs) \<and> concat (pre @ gs) = bm @ m # ms \<and> (\<forall>g\<in>set (pre @ gs). g \<noteq> [])"
      using pre by auto
    then show ?thesis
      by blast
  qed
qed simp

section \<open>Groups\<close>

definition member_lines :: "string list list \<Rightarrow> cfg_item list" where
  "member_lines gs = map (\<lambda>g. Cfg_string ''members'' (Some (comma_join g))) gs"

text \<open>An item that describes a group.\<close>

definition group_item :: "string \<Rightarrow> string list \<Rightarrow> cfg_item \<Rightarrow> bool" where
  "group_item t ms item \<longleftrightarrow>
     (\<exists>gs. item = Cfg_list ''group'' (Cfg_string ''name'' (Some t) # member_lines gs) \<and>
           concat gs = ms \<and> gs \<noteq> [] \<and> (\<forall>g\<in>set gs. g \<noteq> []))"

text \<open>The lines of a group fit into the buffer.\<close>

definition lines_fit :: "string list \<Rightarrow> bool" where
  "lines_fit ms \<longleftrightarrow> orcm_logical_group_do_convertion ms (MAX_LINE_LENGTH - length ''member list='') \<noteq> Undef"

lemma convertion_loop_total: "convertion_loop lim line ms acc \<noteq> Undef \<Longrightarrow> \<exists>lines. convertion_loop lim line ms acc = Ret lines"
  by (induction ms arbitrary: line acc) (auto simp: Let_def split: if_splits)

lemma save_concat_ok:
  assumes "lines_fit ms" "ms \<noteq> []" "\<forall>m\<in>set ms. m \<noteq> []"
  shows "\<exists>item. orcm_logical_group_save_to_file_concat acc t ms = Ret (acc @ [item]) \<and> group_item t ms item"
proof -
  obtain lines where lines: "convertion_loop 1012 [] ms [] = Ret lines"
    using assms(1) convertion_loop_total [of 1012 "[]" ms "[]"]
    by (auto simp: lines_fit_def orcm_logical_group_do_convertion_def MAX_LINE_LENGTH_def)
  have run: "orcm_logical_group_save_to_file_concat acc t ms =
      Ret (acc @ [Cfg_list ''group'' (Cfg_string ''name'' (Some t) # map (\<lambda>l. Cfg_string ''members'' (Some l)) lines)])"
    using lines assms(2) by (auto simp: orcm_logical_group_save_to_file_concat_def orcm_logical_group_convert_members_list_def
        orcm_logical_group_do_convertion_def MAX_LINE_LENGTH_def outcome_simps)
  obtain gs where gs: "lines = map comma_join gs" "concat gs = ms" "\<forall>g\<in>set gs. g \<noteq> []"
    using convertion_loop_ok [of 1012 "[]" ms "[]" lines] lines(1) assms(2,3) by auto
  then have "gs \<noteq> []"
    using assms(2) by auto
  then show ?thesis
    using gs run by (auto simp: group_item_def member_lines_def comp_def)
qed

text \<open>The items are those of the entries of the table, in their order.\<close>

lemma save_loop_ok:
  assumes cap: "ht_capacity (lg_groups st) = length (ht_table (lg_groups st))"
    and ptr: "\<forall>e\<in>set (entries (ht_table (lg_groups st))). methods_of (fst e) = Methods_ptr"
    and ok: "\<forall>(k, a)\<in>set (entries (ht_table (lg_groups st))).
      \<exists>ms. lg_heap st a = Some ms \<and> lines_fit ms \<and> ms \<noteq> [] \<and> (\<forall>m\<in>set ms. m \<noteq> [])"
    and fuel: "length (ht_table (lg_groups st)) < fuel + start"
    and start: "start = (case node of None \<Rightarrow> 0 | Some p \<Rightarrow> p + 1)" "start \<le> length (ht_table (lg_groups st))"
  shows "\<exists>its. save_loop fuel st acc node = Ret (acc @ its) \<and>
    list_all2 (\<lambda>(k, a) item. \<exists>bs ms. k = KPtr bs \<and> lg_heap st a = Some ms \<and> group_item (tag_of_key bs) ms item)
      (entries (drop start (ht_table (lg_groups st)))) its"
  using fuel start
proof (induction fuel arbitrary: acc node start)
  case (Suc fuel)
  let ?t = "ht_table (lg_groups st)"
  show ?case
  proof (cases rule: get_next_key_cases [OF cap Suc.prems(2)])
    case 1
    then show ?thesis
      by (simp add: opal_hash_table_get_next_key_ptr_def)
  next
    case (2 k a j)
    have "(k, a) \<in> set (entries ?t)"
      using 2(3,4) by (simp add: set_entries) (metis nth_mem)
    then obtain bs ms where kb: "k = KPtr bs"
      and ms: "lg_heap st a = Some ms" "lines_fit ms" "ms \<noteq> []" "\<forall>m\<in>set ms. m \<noteq> []"
      using ptr ok by (cases k) fastforce+
    obtain item where item: "orcm_logical_group_save_to_file_concat acc (tag_of_key bs) ms = Ret (acc @ [item])"
        "group_item (tag_of_key bs) ms item"
      using save_concat_ok [OF ms(2-4)] by blast
    have "length ?t < fuel + Suc j" "Suc j = (case Some j of None \<Rightarrow> 0 | Some p \<Rightarrow> p + 1)" "Suc j \<le> length ?t"
      using Suc.prems(1) 2(2,3) by simp_all
    from Suc.IH [OF this, of "acc @ [item]"] obtain its where its: "save_loop fuel st (acc @ [item]) (Some j) = Ret ((acc @ [item]) @ its)"
      "list_all2 (\<lambda>(k, a) item. \<exists>bs ms. k = KPtr bs \<and> lg_heap st a = Some ms \<and> group_item (tag_of_key bs) ms item)
         (entries (drop (Suc j) ?t)) its"
      by blast
    have "save_loop (Suc fuel) st acc node = Ret (acc @ item # its)"
      using its(1) item(1) kb ms(1) 2(1) by (simp add: opal_hash_table_get_next_key_ptr_def)
    then show ?thesis
      unfolding 2(5) using its(2) item(2) kb ms(1) by (intro exI [of _ "item # its"] conjI list.rel_intros) auto
  qed
qed simp

section \<open>Reading\<close>

text \<open>The lines of a group, for the current tag.\<close>

lemma parse_lines_ok:
  assumes "lg_inv st" "CHR 0x00 \<notin> set t" "card (insert t (dom (lg_abs st))) < 2 ^ 50" "lg_current_tag st = Some t"
    and "\<forall>g\<in>set gs. g \<noteq> [] \<and> (\<forall>m\<in>set g. plain m)" "gs \<noteq> []"
  shows "\<exists>st'. parse_items debug False erri (member_lines gs) st = Ret (OPAL_SUCCESS, st') \<and> lg_inv st' \<and>
           lg_abs st' = (lg_abs st)(t \<mapsto> merge_members (case lg_abs st t of None \<Rightarrow> [] | Some ms \<Rightarrow> ms) (concat gs))"
  using assms
proof (induction gs arbitrary: st erri)
  case (Cons g gs)
  have g: "orte_regex_extract_node_names malloc_ok (Some (comma_join g)) None False = Ret (OPAL_SUCCESS, Some g)"
    by (rule expand_plain) (use Cons.prems(5) in auto)
  have "ht_size (lg_groups st) < 2 ^ 50"
    using lg_finite [OF Cons.prems(1)] lg_size [OF Cons.prems(1)] Cons.prems(3) card_mono [of "insert t (dom (lg_abs st))" "dom (lg_abs st)"]
    by (simp add: subset_insertI)
  then obtain st1 where st1: "orcm_logical_group_add debug False (Some t) (Some (comma_join g)) st = Ret (OPAL_SUCCESS, st1)"
      "lg_inv st1" "lg_current_tag st1 = lg_current_tag st"
      "lg_abs st1 = (lg_abs st)(t \<mapsto> merge_members (case lg_abs st t of None \<Rightarrow> [] | Some ms \<Rightarrow> ms) g)"
    using lg_add_ok [OF Cons.prems(1,2) g, of debug] by (auto simp: argv_members_def)
  have run: "parse_items debug False erri (member_lines (g # gs)) st =
      parse_items debug False OPAL_SUCCESS (member_lines gs) st1"
    using st1(1) Cons.prems(4) by (simp add: member_lines_def)
  have room: "card (insert t (dom (lg_abs st1))) < 2 ^ 50"
    using Cons.prems(3) by (simp add: st1(4))
  show ?case
  proof (cases "gs = []")
    case True
    then show ?thesis
      using run st1 Cons.prems(4) by (auto simp: member_lines_def)
  next
    case False
    obtain st2 where "parse_items debug False OPAL_SUCCESS (member_lines gs) st1 = Ret (OPAL_SUCCESS, st2)" "lg_inv st2"
        "lg_abs st2 = (lg_abs st1)(t \<mapsto> merge_members (case lg_abs st1 t of None \<Rightarrow> [] | Some ms \<Rightarrow> ms) (concat gs))"
      using Cons.IH [OF st1(2) Cons.prems(2) room, of OPAL_SUCCESS] Cons.prems(4,5) st1(3) False
      by (auto simp del: fun_upd_apply)
    then show ?thesis
      using run st1(4) by (auto simp: merge_members_append)
  qed
qed simp

lemma parse_group_ok:
  assumes "group_item t ms item" "lg_inv st" "CHR 0x00 \<notin> set t" "\<forall>m\<in>set ms. plain m" "distinct ms"
    "lg_abs st t = None" "card (insert t (dom (lg_abs st))) < 2 ^ 50"
  shows "\<exists>st'. (\<forall>items. parse_items debug False erri (item # items) st = parse_items debug False erri items st') \<and>
           lg_inv st' \<and> lg_abs st' = (lg_abs st)(t \<mapsto> ms)"
proof -
  obtain gs where gs: "item = Cfg_list ''group'' (Cfg_string ''name'' (Some t) # member_lines gs)"
      "concat gs = ms" "gs \<noteq> []" "\<forall>g\<in>set gs. g \<noteq> []"
    using assms(1) by (auto simp: group_item_def)
  define st1 where "st1 = (if lg_current_tag st = None \<or> lg_current_tag st \<noteq> Some t then st\<lparr>lg_current_tag := Some t\<rparr> else st)"
  have st1: "lg_inv st1" "lg_abs st1 = lg_abs st" "lg_current_tag st1 = Some t"
    using assms(2) by (auto simp: st1_def lg_inv_def lg_abs_def grp_def fun_eq_iff split: option.split)
  obtain st2 where st2: "parse_items debug False OPAL_SUCCESS (member_lines gs) st1 = Ret (OPAL_SUCCESS, st2)" "lg_inv st2"
      "lg_abs st2 = (lg_abs st1)(t \<mapsto> merge_members (case lg_abs st1 t of None \<Rightarrow> [] | Some ms \<Rightarrow> ms) (concat gs))"
    using parse_lines_ok [OF st1(1) assms(3) _ st1(3), of gs debug OPAL_SUCCESS] gs assms(4,7) st1(2) by auto
  have "parse_items debug False erri (item # items) st = parse_items debug False erri items st2" for items
    using st2(1) by (simp add: gs(1) orcm_logical_group_process_tag_line_def st1_def)
  then show ?thesis
    using st2 st1 gs(2) assms(5,6) by (auto simp: merge_members_new)
qed

lemma parse_groups_ok:
  assumes "list_all2 (\<lambda>(t, ms). group_item t ms) tms items" "lg_inv st" "distinct (map fst tms)"
    "\<forall>(t, ms)\<in>set tms. CHR 0x00 \<notin> set t \<and> (\<forall>m\<in>set ms. plain m) \<and> distinct ms \<and> lg_abs st t = None"
    "card (dom (lg_abs st) \<union> fst ` set tms) < 2 ^ 50"
  shows "\<exists>st'. parse_items debug False OPAL_SUCCESS items st = Ret (OPAL_SUCCESS, st') \<and> lg_inv st' \<and>
           lg_abs st' = lg_abs st ++ map_of tms"
  using assms
proof (induction tms items arbitrary: st rule: list_all2_induct)
  case (Cons tm tms item items)
  obtain t ms where tm: "tm = (t, ms)"
    by (cases tm)
  have "card (insert t (dom (lg_abs st))) \<le> card (dom (lg_abs st) \<union> fst ` set (tm # tms))"
    by (rule card_mono) (use lg_finite [OF Cons.prems(1)] tm in auto)
  then obtain st1 where st1: "\<And>its. parse_items debug False OPAL_SUCCESS (item # its) st = parse_items debug False OPAL_SUCCESS its st1"
      "lg_inv st1" "lg_abs st1 = (lg_abs st)(t \<mapsto> ms)"
    using parse_group_ok [of t ms item st debug OPAL_SUCCESS] Cons.hyps(1) Cons.prems tm by auto
  have "\<forall>(t', ms')\<in>set tms. CHR 0x00 \<notin> set t' \<and> (\<forall>m\<in>set ms'. plain m) \<and> distinct ms' \<and> lg_abs st1 t' = None"
    using Cons.prems(2,3) by (force simp: st1(3) tm)
  moreover have "dom (lg_abs st1) \<union> fst ` set tms = dom (lg_abs st) \<union> fst ` set (tm # tms)"
    by (auto simp: st1(3) tm)
  ultimately obtain st2 where "parse_items debug False OPAL_SUCCESS items st1 = Ret (OPAL_SUCCESS, st2)" "lg_inv st2"
      "lg_abs st2 = lg_abs st1 ++ map_of tms"
    using Cons.IH [OF st1(2)] Cons.prems(2,4) by auto
  moreover have "lg_abs st1 ++ map_of tms = lg_abs st ++ map_of (tm # tms)"
    using Cons.prems(2) by (simp add: tm st1(3) map_add_upd_left dom_map_of_conv_image_fst)
  ultimately show ?case
    using st1(1) by (auto simp del: map_of.simps)
qed simp

section \<open>The groups of a state as a list\<close>

definition tag_of :: "key \<Rightarrow> string" where
  "tag_of k = (case k of KPtr bs \<Rightarrow> tag_of_key bs | _ \<Rightarrow> [])"

definition groups_list :: "lg_state \<Rightarrow> (string \<times> string list) list" where
  "groups_list st = map (\<lambda>(k, a). (tag_of k, the (lg_heap st a))) (entries (ht_table (lg_groups st)))"

lemma tag_of_key_tag [simp]: "CHR 0x00 \<notin> set t \<Longrightarrow> tag_of_key (tag_key t) = t"
  unfolding tag_of_key_def tag_key_def
proof (induction t)
  case (Cons c t)
  then have "(of_nat (of_char c) :: 8 word) \<noteq> of_nat (of_char (CHR 0x00))"
    by (subst of_char_inj) auto
  then show ?case
    using Cons by (simp add: unat_of_nat of_char_of)
qed simp

lemma group_entry:
  assumes "lg_inv st" "(k, a) \<in> set (entries (ht_table (lg_groups st)))"
  obtains t ms where "k = KPtr (tag_key t)" "CHR 0x00 \<notin> set t" "lg_heap st a = Some ms" "lg_abs st t = Some ms" "tag_of k = t"
proof -
  have base: "ht_base Methods_ptr (lg_groups st)"
    using assms by (simp add: lg_inv_def ht_inv_def)
  then obtain bs where bs: "k = KPtr bs"
    using assms(2) by (cases k) (force simp: ht_base_def elts_ok_def)+
  then have g: "grp st bs = Some a"
    using assms(2) base by (simp add: grp_def ht_map_Some)
  then obtain t where t: "bs = tag_key t" "CHR 0x00 \<notin> set t" "lg_heap st a \<noteq> None"
    using assms(1) unfolding lg_inv_def is_tag_key_def by blast
  then show ?thesis
    using that [of t "the (lg_heap st a)"] bs g by (auto simp: tag_of_def lg_abs_def)
qed

lemma groups_list_ok:
  assumes "lg_inv st"
  shows "distinct (map fst (groups_list st))" "map_of (groups_list st) = lg_abs st"
proof -
  let ?es = "entries (ht_table (lg_groups st))"
  have base: "ht_base Methods_ptr (lg_groups st)"
    using assms by (simp add: lg_inv_def ht_inv_def)
  have "inj_on tag_of (set (map fst ?es))"
    by (rule inj_onI) (auto elim!: group_entry [OF assms])
  then show dist: "distinct (map fst (groups_list st))"
    using base by (auto simp: groups_list_def comp_def case_prod_beta distinct_map ht_base_def elts_ok_def inj_on_def)
  have "(t, ms) \<in> set (groups_list st) \<longleftrightarrow> lg_abs st t = Some ms" for t ms
  proof
    assume "(t, ms) \<in> set (groups_list st)"
    then show "lg_abs st t = Some ms"
      by (auto simp: groups_list_def elim!: group_entry [OF assms])
  next
    assume ms: "lg_abs st t = Some ms"
    then obtain a where a: "(KPtr (tag_key t), a) \<in> set ?es" "lg_heap st a = Some ms"
      using base by (auto simp: lg_abs_def grp_def ht_map_Some split: option.splits)
    moreover from a(1) have "tag_of (KPtr (tag_key t)) = t"
      by (rule group_entry [OF assms]) simp
    ultimately show "(t, ms) \<in> set (groups_list st)"
      by (force simp: groups_list_def)
  qed
  then have "map_of (groups_list st) t = Some ms \<longleftrightarrow> lg_abs st t = Some ms" for t ms
    using dist by (simp add: map_of_eq_Some_iff)
  then show "map_of (groups_list st) = lg_abs st"
    by (metis ext not_Some_eq)
qed

lemma save_parse_ok:
  assumes "lg_inv st" "ht_size (lg_groups st) < 2 ^ 50"
    and members: "\<forall>t ms. lg_abs st t = Some ms \<longrightarrow> ms \<noteq> [] \<and> distinct ms \<and> (\<forall>m\<in>set ms. plain m) \<and> lines_fit ms"
    and some: "lg_abs st \<noteq> Map.empty"
    and st0: "lg_inv st0" "lg_abs st0 = Map.empty"
  shows "\<exists>items st'. orcm_logical_group_save_to_file_internal st = Ret (Some items) \<and>
      orcm_logical_group_parse_from_file debug False (Some [Cfg_list ''logicalgroup'' items]) st0 =
      Ret (OPAL_SUCCESS, st') \<and> lg_inv st' \<and> lg_abs st' = lg_abs st"
proof -
  let ?es = "entries (ht_table (lg_groups st))"
  have base: "ht_base Methods_ptr (lg_groups st)"
    using assms(1) by (simp add: lg_inv_def ht_inv_def)
  have cap: "ht_capacity (lg_groups st) = length (ht_table (lg_groups st))"
    and ptr: "\<forall>e\<in>set ?es. methods_of (fst e) = Methods_ptr"
    using base by (simp_all add: ht_base_def elts_ok_def)
  have entry: "\<exists>t ms. k = KPtr (tag_key t) \<and> CHR 0x00 \<notin> set t \<and> tag_of k = t \<and> lg_heap st a = Some ms \<and> ms \<noteq> [] \<and>
      distinct ms \<and> (\<forall>m\<in>set ms. plain m) \<and> lines_fit ms" if "(k, a) \<in> set ?es" for k a
    using that by (rule group_entry [OF assms(1)]) (use members in blast)
  have heap: "\<exists>ms. lg_heap st a = Some ms \<and> lines_fit ms \<and> ms \<noteq> [] \<and> (\<forall>m\<in>set ms. m \<noteq> [])" if "(k, a) \<in> set ?es" for k a
    using entry [OF that] by (auto simp: plain_def)
  obtain items where loop: "save_loop (ht_capacity (lg_groups st) + 1) st [] None = Ret items"
    and rel: "list_all2 (\<lambda>(k, a) item. \<exists>bs ms. k = KPtr bs \<and> lg_heap st a = Some ms \<and> group_item (tag_of_key bs) ms item) ?es items"
    using save_loop_ok [OF cap ptr, of "ht_capacity (lg_groups st) + 1" 0 None "[]"] heap cap
    by (auto simp del: save_loop.simps)
  from rel have items: "list_all2 (\<lambda>(t, ms). group_item t ms) (groups_list st) items"
    unfolding groups_list_def list_all2_map1 by (rule list_all2_mono) (auto simp: tag_of_def)
  have "CHR 0x00 \<notin> set t \<and> (\<forall>m\<in>set ms. plain m) \<and> distinct ms \<and> lg_abs st0 t = None" if "(t, ms) \<in> set (groups_list st)" for t ms
    using that entry by (force simp: groups_list_def st0(2))
  then have "\<forall>(t, ms)\<in>set (groups_list st). CHR 0x00 \<notin> set t \<and> (\<forall>m\<in>set ms. plain m) \<and> distinct ms \<and> lg_abs st0 t = None"
    by blast
  moreover have "fst ` set (groups_list st) = dom (lg_abs st)"
    by (metis groups_list_ok(2) [OF assms(1)] dom_map_of_conv_image_fst)
  ultimately obtain st' where "parse_items debug False OPAL_SUCCESS items st0 = Ret (OPAL_SUCCESS, st')" "lg_inv st'"
      "lg_abs st' = lg_abs st"
    using parse_groups_ok [OF items st0(1) groups_list_ok(1) [OF assms(1)], of debug] lg_size [OF assms(1)] assms(2) st0(2)
    by (auto simp: groups_list_ok(2) [OF assms(1)])
  moreover have "orcm_logical_group_save_to_file_internal st = Ret (Some items)"
    using loop some size_zero_iff [OF assms(1)] by (simp add: orcm_logical_group_save_to_file_internal_def del: save_loop.simps)
  ultimately show ?thesis
    by (auto simp: orcm_logical_group_parse_from_file_def orcm_logical_group_parsing_def)
qed

section \<open>Properties\<close>

text \<open>
  C14: What is written can be read back: for groups whose members are plain names, none of them twice, and whose lines
  fit into the buffer, saving produces a section, and parsing this section after a new start succeeds and gives every
  tag the members it had, in their order, however the members were split into lines.
\<close>

theorem logical_group_save_parse:
  assumes "lg_inv st" "ht_size (lg_groups st) < 2 ^ 50" "lg_abs st \<noteq> Map.empty"
    and "\<forall>t ms. lg_abs st t = Some ms \<longrightarrow> ms \<noteq> [] \<and> distinct ms \<and> (\<forall>m\<in>set ms. plain m) \<and> lines_fit ms"
  shows "\<exists>items st0 st'. orcm_logical_group_save_to_file_internal st = Ret (Some items) \<and>
           orcm_logical_group_init = Ret (OPAL_SUCCESS, st0) \<and>
           orcm_logical_group_parse_from_file debug False (Some [Cfg_list ''logicalgroup'' items]) st0 =
             Ret (OPAL_SUCCESS, st') \<and>
           lg_abs st' = lg_abs st"
proof -
  obtain st0 where st0: "orcm_logical_group_init = Ret (OPAL_SUCCESS, st0)"
    using init_total by blast
  show ?thesis
    using save_parse_ok [OF assms(1,2,4,3) init_ok_state(1,2) [OF st0], of debug] st0 by blast
qed

text \<open>Two groups.\<close>

theorem logical_group_save_parse_witness:
  "\<exists>st items st0 st'. lg_session False [Lg_add ''a'' ''x,y'', Lg_add ''b'' ''z''] = Ret ([OPAL_SUCCESS, OPAL_SUCCESS], st) \<and>
     orcm_logical_group_save_to_file_internal st = Ret (Some items) \<and>
     orcm_logical_group_init = Ret (OPAL_SUCCESS, st0) \<and>
     orcm_logical_group_parse_from_file False False (Some [Cfg_list ''logicalgroup'' items]) st0 = Ret (OPAL_SUCCESS, st') \<and>
     lg_abs st' = [''a'' \<mapsto> [''x'', ''y''], ''b'' \<mapsto> [''z'']]"
proof -
  let ?ops = "[Lg_add ''a'' ''x,y'', Lg_add ''b'' ''z'']"
  have e: "expand ''x,y'' = Some [''x'', ''y'']" "expand ''z'' = Some [''z'']"
    using expand_comma_join [of "[''x'', ''y'']"] expand_comma_join [of "[''z'']"] by (simp_all add: plain_def is_special_def)
  obtain rcs st where st: "lg_session False ?ops = Ret (rcs, st)" "lg_inv st" "(rcs, lg_abs st) = spec_run ?ops Map.empty"
    by (rule lg_session_ok [of ?ops False]) (simp_all add: op_ok_def e)
  then have abs: "lg_abs st = [''a'' \<mapsto> [''x'', ''y''], ''b'' \<mapsto> [''z'']]" "rcs = [OPAL_SUCCESS, OPAL_SUCCESS]"
    using e by (simp_all add: spec_step_def merge_members_def)
  have "ht_size (lg_groups st) < 2 ^ 50"
    using lg_size [OF st(2)] by (simp add: abs(1))
  moreover have "lg_abs st \<noteq> Map.empty"
    by (simp add: abs(1))
  moreover have "\<forall>t ms. lg_abs st t = Some ms \<longrightarrow> ms \<noteq> [] \<and> distinct ms \<and> (\<forall>m\<in>set ms. plain m) \<and> lines_fit ms"
    by (simp add: abs(1) plain_def is_special_def lines_fit_def orcm_logical_group_do_convertion_def MAX_LINE_LENGTH_def)
  ultimately show ?thesis
    using logical_group_save_parse [OF st(2), of False] st(1) abs by simp
qed

text \<open>
  The lines of two members: they share a line if this line is shorter than the buffer, and have a line each if it is
  longer; but a line that fills the buffer exactly is written without flushing the first member, with its terminator one
  byte behind the buffer.
\<close>

theorem logical_group_line_bounds:
  assumes "a \<noteq> []" "length a < reserved_size" "length b < reserved_size"
  shows "orcm_logical_group_do_convertion [a, b] reserved_size =
           (if reserved_size = length a + length b + 1 then Undef
            else if length a + length b + 1 < reserved_size then Ret [a @ '','' @ b]
            else Ret (if b = [] then [a] else [a, b]))"
  using assms by (auto simp: orcm_logical_group_do_convertion_def)

text \<open>Five bytes for a line of five characters.\<close>

theorem logical_group_line_bounds_witness:
  "orcm_logical_group_do_convertion [''ab'', ''cd''] 5 = Undef \<and>
   orcm_logical_group_do_convertion [''ab'', ''cd''] 6 = Ret [''ab,cd'']"
  using logical_group_line_bounds [of "''ab''" 5 "''cd''"] logical_group_line_bounds [of "''ab''" 6 "''cd''"] by simp

end
