(* ===== verification/Pointer_Array.thy ===== *)
theory Pointer_Array
  imports Containers
begin

text \<open>
  The growing array of pointers of \<^verbatim>\<open>opal/class/opal_pointer_array.c\<close>, with which the framework
  hands out small integers for objects.  NULL elements are free.  The mutex has no
  counterpart: each operation is one step.  An access outside the array and an \<^verbatim>\<open>int\<close> overflow
  are undefined.
\<close>

section \<open>Definitions\<close>

definition TABLE_INIT :: int where
  "TABLE_INIT = 1"

definition TABLE_GROW :: int where
  "TABLE_GROW = 2"

record 'a opal_pointer_array_t =
  lowest_free :: int
  number_free :: int
  pa_size :: int
  max_size :: int
  block_size :: int
  pa_addr :: "'a option list option"

definition opal_pointer_array_construct :: "'a opal_pointer_array_t" where
  "opal_pointer_array_construct =
     \<lparr> lowest_free = 0, number_free = 0, pa_size = 0, max_size = INT_MAX, block_size = 0,
       pa_addr = None \<rparr>"

definition opal_pointer_array_init ::
  "allocator \<Rightarrow> 'a opal_pointer_array_t option \<Rightarrow> int \<Rightarrow> int \<Rightarrow> int
     \<Rightarrow> status \<times> 'a opal_pointer_array_t option" where
  "opal_pointer_array_init alloc array initial_allocation max_sz block_sz =
     (case array of
        None \<Rightarrow> (OPAL_ERR_BAD_PARAM, None)
      | Some a \<Rightarrow>
          if max_sz < block_sz then (OPAL_ERR_BAD_PARAM, Some a)
          else
            (let n = (if 0 < initial_allocation then initial_allocation else block_sz);
                 a' = a \<lparr> max_size := max_sz, block_size := block_sz, number_free := n, pa_size := n \<rparr>
             in if n < 0 \<or> \<not> calloc_ok alloc (nat n * sizeof_ptr) 1
                then (OPAL_ERR_OUT_OF_RESOURCE, Some (a' \<lparr> pa_addr := None \<rparr>))
                else (OPAL_SUCCESS, Some (a' \<lparr> pa_addr := Some (replicate (nat n) None) \<rparr>))))"

text \<open>The elements, with none for a NULL array.\<close>

definition elems :: "'a opal_pointer_array_t \<Rightarrow> 'a option list" where
  "elems a = (case pa_addr a of None \<Rightarrow> [] | Some xs \<Rightarrow> xs)"

definition grow_table ::
  "allocator \<Rightarrow> 'a opal_pointer_array_t \<Rightarrow> int \<Rightarrow> int \<Rightarrow> bool \<times> 'a opal_pointer_array_t" where
  "grow_table alloc a soft hard =
     (if soft > max_size a \<and> hard > max_size a then (False, a)
      else
        (let new_size = (if soft > max_size a then hard else soft) in
         if new_size \<ge> max_size a then (False, a)
         else if new_size < 0 \<or> \<not> alloc (nat new_size * sizeof_ptr) then (False, a)
         else (True,
           a \<lparr> number_free := number_free a + (new_size - pa_size a),
               pa_addr := Some (take (nat new_size) (elems a) @
                            replicate (nat (new_size - pa_size a)) None),
               pa_size := new_size \<rparr>)))"

text \<open>The loops that look for the next NULL element from an index on.\<close>

fun next_null :: "'a option list \<Rightarrow> nat \<Rightarrow> nat option" where
  "next_null [] i = None"
| "next_null (x # xs) i = (if x = None then Some i else next_null xs (i + 1))"

definition find_null :: "'a option list \<Rightarrow> int \<Rightarrow> int option" where
  "find_null xs i = map_option int (next_null (drop (nat i) xs) (nat i))"

definition opal_pointer_array_add ::
  "allocator \<Rightarrow> 'a opal_pointer_array_t \<Rightarrow> 'a option \<Rightarrow> ((status + int) \<times> 'a opal_pointer_array_t) outcome" where
  "opal_pointer_array_add alloc a ptr =
     (if number_free a = 0 \<and> pa_addr a \<noteq> None \<and> pa_size a * TABLE_GROW > INT_MAX then Undef
      else
        (let (ok, a1) = (if number_free a = 0
                         then grow_table alloc a
                           (if pa_addr a = None then TABLE_INIT else pa_size a * TABLE_GROW) INT_MAX
                         else (True, a))
         in if \<not> ok then Ret (Inl OPAL_ERR_OUT_OF_RESOURCE, a1)
            else
              (let index = lowest_free a1 in
               if index < 0 \<or> int (length (elems a1)) \<le> index then Undef
               else
                 (let xs = (elems a1)[nat index := ptr];
                      nf = number_free a1 - 1;
                      lf = (if nf > 0
                            then (case find_null xs (index + 1) of None \<Rightarrow> index | Some i \<Rightarrow> i)
                            else pa_size a1)
                  in Ret (Inr index,
                       a1 \<lparr> pa_addr := Some xs, number_free := nf, lowest_free := lf \<rparr>)))))"

text \<open>The growth request of the two functions that store at a given index.\<close>

definition grow_for_index ::
  "allocator \<Rightarrow> 'a opal_pointer_array_t \<Rightarrow> int \<Rightarrow> (bool \<times> 'a opal_pointer_array_t) outcome" where
  "grow_for_index alloc a index =
     (if pa_size a \<le> index then
        (if (index div TABLE_GROW + 1) * TABLE_GROW > INT_MAX then Undef
         else Ret (grow_table alloc a ((index div TABLE_GROW + 1) * TABLE_GROW) index))
      else Ret (True, a))"

definition opal_pointer_array_set_item ::
  "allocator \<Rightarrow> 'a opal_pointer_array_t \<Rightarrow> int \<Rightarrow> 'a option \<Rightarrow> (status \<times> 'a opal_pointer_array_t) outcome" where
  "opal_pointer_array_set_item alloc a index val =
     (if index < 0 then Ret (OPAL_ERROR, a)
      else
        obind (grow_for_index alloc a index) (\<lambda>(ok, a1).
          if \<not> ok then Ret (OPAL_ERROR, a1)
          else if int (length (elems a1)) \<le> index then Undef
          else
            (let xs = elems a1; old = xs ! nat index in
             Ret (OPAL_SUCCESS,
               (if val = None
                then a1 \<lparr> lowest_free := (if index < lowest_free a1 then index else lowest_free a1),
                          number_free := (if old \<noteq> None then number_free a1 + 1 else number_free a1),
                          pa_addr := Some (xs[nat index := None]) \<rparr>
                else a1 \<lparr> number_free := (if old = None then number_free a1 - 1 else number_free a1),
                          lowest_free := (if index = lowest_free a1
                            then (case find_null xs (index + 1) of None \<Rightarrow> pa_size a1 | Some i \<Rightarrow> i)
                            else lowest_free a1),
                          pa_addr := Some (xs[nat index := val]) \<rparr>)))))"

definition opal_pointer_array_test_and_set_item ::
  "allocator \<Rightarrow> 'a opal_pointer_array_t \<Rightarrow> int \<Rightarrow> 'a option \<Rightarrow> (bool \<times> 'a opal_pointer_array_t) outcome" where
  "opal_pointer_array_test_and_set_item alloc a index val =
     (if index < 0 \<or> index < pa_size a \<and> int (length (elems a)) \<le> index then Undef
      else if index < pa_size a \<and> elems a ! nat index \<noteq> None then Ret (False, a)
      else
        obind (grow_for_index alloc a index) (\<lambda>(ok, a1).
          if \<not> ok then Ret (False, a1)
          else if int (length (elems a1)) \<le> index then Undef
          else
            (let xs = (elems a1)[nat index := val] in
             Ret (True,
               a1 \<lparr> pa_addr := Some xs, number_free := number_free a1 - 1,
                    lowest_free := (if index = lowest_free a1
                      then (case find_null xs index of None \<Rightarrow> pa_size a1 | Some i \<Rightarrow> i)
                      else lowest_free a1) \<rparr>))))"

definition opal_pointer_array_set_size ::
  "allocator \<Rightarrow> 'a opal_pointer_array_t \<Rightarrow> int \<Rightarrow> status \<times> 'a opal_pointer_array_t" where
  "opal_pointer_array_set_size alloc a new_size =
     (if new_size > pa_size a
      then (case grow_table alloc a new_size new_size of
              (ok, a') \<Rightarrow> (if ok then OPAL_SUCCESS else OPAL_ERROR, a'))
      else (OPAL_SUCCESS, a))"

definition opal_pointer_array_get_item :: "'a opal_pointer_array_t \<Rightarrow> int \<Rightarrow> 'a option outcome" where
  "opal_pointer_array_get_item a element_index =
     (if element_index < 0 \<or> pa_size a \<le> element_index then Ret None
      else if int (length (elems a)) \<le> element_index then Undef
      else Ret (elems a ! nat element_index))"

definition opal_pointer_array_remove_all :: "'a opal_pointer_array_t \<Rightarrow> 'a opal_pointer_array_t" where
  "opal_pointer_array_remove_all a =
     (if number_free a = pa_size a then a
      else a \<lparr> lowest_free := 0, number_free := pa_size a,
               pa_addr := Some (replicate (nat (pa_size a)) None) \<rparr>)"

section \<open>The invariant\<close>

definition free_count :: "'a option list \<Rightarrow> nat" where
  "free_count xs = length (filter (\<lambda>x. x = None) xs)"

definition first_free :: "'a option list \<Rightarrow> nat" where
  "first_free xs = length (takeWhile (\<lambda>x. x \<noteq> None) xs)"

definition pa_inv :: "'a opal_pointer_array_t \<Rightarrow> bool" where
  "pa_inv a \<longleftrightarrow>
     pa_size a = int (length (elems a)) \<and> pa_size a \<le> INT_MAX \<and>
     number_free a = int (free_count (elems a)) \<and>
     lowest_free a = int (first_free (elems a)) \<and>
     (pa_addr a \<noteq> None \<longrightarrow> 0 < pa_size a)"

definition pa_used :: "'a opal_pointer_array_t \<Rightarrow> nat \<rightharpoonup> 'a" where
  "pa_used a i = (if i < length (elems a) then elems a ! i else None)"

text \<open>
  Doubling the size of a full array must not overflow an \<^verbatim>\<open>int\<close>: the maximal size excludes it, or the number of
  elements in use does for the next \<open>k\<close> operations.
\<close>

definition pa_room :: "nat \<Rightarrow> 'a opal_pointer_array_t \<Rightarrow> bool" where
  "pa_room k a \<longleftrightarrow>
     pa_inv a \<and> max_size a \<le> INT_MAX \<and>
     (pa_size a < 2 ^ 30 \<and> max_size a \<le> 2 ^ 30 \<or> card (dom (pa_used a)) + k \<le> 2 ^ 30)"

text \<open>The size to which a full array of \<open>n\<close> elements grows.\<close>

definition pa_grow :: "allocator \<Rightarrow> int \<Rightarrow> nat \<Rightarrow> nat option" where
  "pa_grow alloc mx n =
     (let new_size = (if n = 0 then 1 else 2 * n) in
      if int new_size < mx \<and> alloc (new_size * sizeof_ptr) then Some new_size else None)"

section \<open>Free elements\<close>

lemma free_count_simps [simp]:
  "free_count [] = 0"
  "free_count (x # xs) = (if x = None then Suc (free_count xs) else free_count xs)"
  by (simp_all add: free_count_def)

lemma free_count_append [simp]: "free_count (xs @ ys) = free_count xs + free_count ys"
  by (simp add: free_count_def)

lemma free_count_replicate [simp]: "free_count (replicate n None) = n"
  by (induction n) auto

lemma free_count_zero: "free_count xs = 0 \<longleftrightarrow> None \<notin> set xs"
  by (induction xs) auto

lemma free_count_split:
  "i < length xs \<Longrightarrow>
   free_count xs = free_count (take i xs) + of_bool (xs ! i = None) + free_count (drop (Suc i) xs)"
  by (subst id_take_nth_drop [of i xs]) auto

lemma free_count_update:
  "i < length xs \<Longrightarrow>
   free_count (xs[i := y]) + of_bool (xs ! i = None) = free_count xs + of_bool (y = None)"
  by (simp add: free_count_split [of i xs] upd_conv_take_nth_drop)

lemma first_free_simps [simp]:
  "first_free [] = 0"
  "first_free (x # xs) = (if x = None then 0 else Suc (first_free xs))"
  by (simp_all add: first_free_def)

lemma first_free_full: "None \<notin> set xs \<Longrightarrow> first_free xs = length xs"
  by (induction xs) (auto simp: eq_commute [of None])

lemma first_free_less: "None \<in> set xs \<Longrightarrow> first_free xs < length xs \<and> xs ! first_free xs = None"
  by (induction xs) auto

lemma first_free_le: "first_free xs \<le> length xs"
  by (induction xs) auto

lemma first_free_at: "first_free xs < length xs \<Longrightarrow> xs ! first_free xs = None"
  by (induction xs) auto

lemma first_free_grow: "first_free (xs @ replicate n None) = first_free xs"
  by (induction xs) (cases n, auto)

lemma first_free_none:
  "i < length xs \<Longrightarrow> first_free (xs[i := None]) = min i (first_free xs)"
  by (induction xs arbitrary: i) (auto simp: nth_Cons split: nat.splits)

lemma first_free_other:
  "i \<noteq> first_free xs \<Longrightarrow> first_free (xs[i := Some x]) = first_free xs"
  by (induction xs arbitrary: i) (auto split: nat.splits if_splits)

lemma next_null_eq: "next_null xs i = (if None \<in> set xs then Some (i + first_free xs) else None)"
  by (induction xs arbitrary: i) auto

lemma find_null_eq:
  assumes "first_free xs = k" "k < length xs"
  shows "find_null xs (int k + 1) =
           (if first_free (xs[k := Some x]) < length xs
            then Some (int (first_free (xs[k := Some x]))) else None)"
  using assms
proof (induction xs arbitrary: k)
  case (Cons y xs)
  show ?case
  proof (cases y)
    case None
    then have "k = 0"
      using Cons.prems by simp
    then show ?thesis
      using first_free_less [of xs] first_free_full [of xs]
      by (auto simp: find_null_def next_null_eq nat_add_distrib)
  next
    case (Some z)
    then obtain k' where k: "k = Suc k'" "first_free xs = k'" "k' < length xs"
      using Cons.prems by auto
    have "find_null (y # xs) (int k + 1) = map_option (\<lambda>i. i + 1) (find_null xs (int k' + 1))"
      by (simp add: find_null_def k next_null_eq nat_add_distrib)
    then show ?thesis
      using Cons.IH [OF k(2,3)] k Some by simp
  qed
qed simp

section \<open>The operations\<close>

lemma pa_usedI: "i < length (elems a) \<Longrightarrow> pa_used a i = elems a ! i"
  by (simp add: pa_used_def)

lemma pa_used_update:
  assumes "elems a' = (elems a)[i := y]" "i < length (elems a)"
  shows "pa_used a' = (pa_used a)(i := y)"
  using assms by (auto simp: fun_eq_iff pa_used_def)

lemma grow_table_ok:
  assumes inv: "pa_inv a" and grow: "grow_table alloc a soft hard = (True, a')"
    and le: "pa_size a \<le> (if soft > max_size a then hard else soft)"
      "0 < (if soft > max_size a then hard else soft)" "max_size a \<le> INT_MAX"
  shows "pa_inv a'" "pa_used a' = pa_used a" "max_size a' = max_size a"
    "pa_size a' = (if soft > max_size a then hard else soft)" "pa_size a' < max_size a"
    "pa_addr a' \<noteq> None"
proof -
  define n where "n = (if soft > max_size a then hard else soft)"
  have a': "a' = a \<lparr> number_free := number_free a + (n - pa_size a),
      pa_addr := Some (elems a @ replicate (nat (n - pa_size a)) None), pa_size := n \<rparr>"
    and n: "n < max_size a" "0 < n" "pa_size a \<le> n"
    using grow le inv by (auto simp: grow_table_def Let_def n_def pa_inv_def split: if_splits)
  have e: "elems a' = elems a @ replicate (nat (n - pa_size a)) None"
    by (simp add: a' elems_def)
  show "pa_inv a'"
    using inv n le(3) by (simp add: pa_inv_def e first_free_grow) (simp add: a')
  show "pa_used a' = pa_used a"
    by (auto simp: fun_eq_iff pa_used_def e nth_append)
  show "max_size a' = max_size a" "pa_size a' = (if soft > max_size a then hard else soft)"
    "pa_size a' < max_size a" "pa_addr a' \<noteq> None"
    using n by (simp_all add: a' n_def)
qed

lemma grow_table_fail: "grow_table alloc a soft hard = (False, a') \<Longrightarrow> a' = a"
  by (auto simp: grow_table_def Let_def split: if_splits)

lemma add_index:
  fixes x :: 'a
  assumes inv: "pa_inv a" and free: "number_free a \<noteq> 0" and addr: "pa_addr a = Some xs"
  defines "k \<equiv> first_free xs"
  defines "nf \<equiv> number_free a - 1"
  defines "a' \<equiv> a \<lparr> pa_addr := Some (xs[k := Some x]), number_free := nf,
      lowest_free := (if nf > 0
        then (case find_null (xs[k := Some x]) (int k + 1) of None \<Rightarrow> int k | Some i \<Rightarrow> i)
        else pa_size a) \<rparr>"
  shows "k < length xs" "xs ! k = None" "pa_inv a'" "pa_used a' = (pa_used a)(k \<mapsto> x)"
proof -
  let ?ys = "xs[k := Some x]"
  have e: "elems a = xs" "elems a' = ?ys"
    by (simp_all add: elems_def addr a'_def)
  have "None \<in> set xs"
    using inv free free_count_zero [of xs] by (auto simp: pa_inv_def e)
  then show k: "k < length xs" "xs ! k = None"
    using first_free_less by (auto simp: k_def)
  have fc: "Suc (free_count ?ys) = free_count xs"
    using free_count_update [OF k(1), of "Some x"] k(2) by simp
  then have nf: "nf = int (free_count ?ys)"
    using inv by (simp add: nf_def pa_inv_def e)
  have "find_null ?ys (int k + 1) = find_null xs (int k + 1)"
    by (simp add: find_null_def nat_add_distrib)
  also have "\<dots> = (if first_free ?ys < length xs then Some (int (first_free ?ys)) else None)"
    using find_null_eq [of xs k x] k by (simp add: k_def)
  finally have fn: "find_null ?ys (int k + 1) =
      (if first_free ?ys < length xs then Some (int (first_free ?ys)) else None)" .
  have "first_free ?ys < length xs \<longleftrightarrow> 0 < free_count ?ys"
    using first_free_less [of ?ys] first_free_full [of ?ys] free_count_zero [of ?ys] by auto
  moreover have "first_free ?ys = length xs" if "free_count ?ys = 0"
    using that first_free_full [of ?ys] free_count_zero [of ?ys] by simp
  ultimately have lf: "lowest_free a' = int (first_free ?ys)"
    using inv fn nf by (auto simp: a'_def pa_inv_def e)
  have "pa_size a' = pa_size a" "number_free a' = nf"
    by (simp_all add: a'_def)
  then show "pa_inv a'"
    using inv nf lf addr by (auto simp: pa_inv_def e)
  show "pa_used a' = (pa_used a)(k \<mapsto> x)"
    using k by (intro pa_used_update) (simp_all add: e)
qed

lemma all_used_iff: "pa_inv a \<Longrightarrow> all_used (nat (pa_size a)) (pa_used a) \<longleftrightarrow> number_free a = 0"
  by (auto simp: pa_inv_def all_used_def pa_used_def free_count_zero in_set_conv_nth eq_commute [of None])

lemma card_used:
  assumes "pa_inv a"
  shows "finite (dom (pa_used a))" "number_free a = 0 \<Longrightarrow> int (card (dom (pa_used a))) = pa_size a"
proof -
  have sub: "dom (pa_used a) \<subseteq> {..<nat (pa_size a)}"
    using assms by (auto simp: pa_used_def pa_inv_def split: if_splits)
  then show "finite (dom (pa_used a))"
    by (rule finite_subset) simp
  assume "number_free a = 0"
  then have "dom (pa_used a) = {..<nat (pa_size a)}"
    using sub all_used_iff [OF assms] by (auto simp: all_used_def)
  then show "int (card (dom (pa_used a))) = pa_size a"
    using assms by (simp add: pa_inv_def)
qed

text \<open>Growing a full array.\<close>

lemma grow_full:
  assumes inv: "pa_inv a" and max: "max_size a \<le> INT_MAX" and full: "number_free a = 0" and sz: "pa_size a < 2 ^ 30"
  defines "soft \<equiv> if pa_addr a = None then TABLE_INIT else pa_size a * TABLE_GROW"
  shows "case pa_grow alloc (max_size a) (nat (pa_size a)) of
      None \<Rightarrow> grow_table alloc a soft INT_MAX = (False, a)
    | Some n \<Rightarrow> \<exists>a1. grow_table alloc a soft INT_MAX = (True, a1) \<and> pa_inv a1 \<and> pa_used a1 = pa_used a \<and>
        max_size a1 = max_size a \<and> pa_size a1 = int n \<and> number_free a1 \<noteq> 0"
proof -
  let ?n = "if nat (pa_size a) = 0 then 1 else 2 * nat (pa_size a)"
  have soft: "soft = int ?n" "soft \<le> INT_MAX" "pa_size a < soft" "0 < soft"
    using inv sz by (auto simp: soft_def pa_inv_def elems_def TABLE_INIT_def TABLE_GROW_def INT_MAX_def)
  show ?thesis
  proof (cases "int ?n < max_size a \<and> alloc (?n * sizeof_ptr)")
    case True
    then obtain a1 where a1: "grow_table alloc a soft INT_MAX = (True, a1)"
      using soft by (auto simp: grow_table_def Let_def)
    have "number_free a1 = soft - pa_size a"
      using a1 full soft True by (auto simp: grow_table_def Let_def split: if_splits)
    then show ?thesis
      using a1 grow_table_ok [OF inv a1] soft True max by (auto simp: pa_grow_def Let_def)
  next
    case False
    then have "grow_table alloc a soft INT_MAX = (False, a)"
      using soft max by (auto simp: grow_table_def Let_def)
    then show ?thesis
      using False by (auto simp: pa_grow_def Let_def)
  qed
qed

lemma set_item_ok:
  assumes inv: "pa_inv a" and i: "i < length (elems a)"
  obtains a' where "opal_pointer_array_set_item alloc a (int i) val = Ret (OPAL_SUCCESS, a')"
    "pa_inv a'" "pa_used a' = (pa_used a)(i := val)" "pa_size a' = pa_size a" "max_size a' = max_size a"
proof -
  note v = inv [unfolded pa_inv_def]
  let ?xs = "elems a"
  have addr: "pa_addr a = Some ?xs"
    using i by (auto simp: elems_def split: option.splits)
  define a' where "a' = (if val = None
      then a \<lparr> lowest_free := (if int i < lowest_free a then int i else lowest_free a),
               number_free := (if ?xs ! i \<noteq> None then number_free a + 1 else number_free a),
               pa_addr := Some (?xs[i := None]) \<rparr>
      else a \<lparr> number_free := (if ?xs ! i = None then number_free a - 1 else number_free a),
               lowest_free := (if int i = lowest_free a
                 then (case find_null ?xs (int i + 1) of None \<Rightarrow> pa_size a | Some j \<Rightarrow> j)
                 else lowest_free a),
               pa_addr := Some (?xs[i := val]) \<rparr>)"
  have e: "elems a' = ?xs[i := val]"
    by (simp add: a'_def elems_def)
  have same: "pa_size a' = pa_size a" "max_size a' = max_size a"
    by (simp_all add: a'_def)
  have fc: "number_free a' = int (free_count (?xs[i := val]))"
    using free_count_update [OF i, of val] v by (auto simp: a'_def)
  have lf: "lowest_free a' = int (first_free (?xs[i := val]))"
  proof (cases val)
    case None
    then show ?thesis
      using v i by (simp add: a'_def first_free_none min_def)
  next
    case (Some x)
    then show ?thesis
      using v i find_null_eq [of ?xs i x] first_free_other [of i ?xs x]
        first_free_le [of "?xs[i := Some x]"]
      by (auto simp: a'_def split: option.splits if_splits)
  qed
  have "opal_pointer_array_set_item alloc a (int i) val = Ret (OPAL_SUCCESS, a')"
    using v i by (simp add: opal_pointer_array_set_item_def grow_for_index_def a'_def Let_def)
  moreover have "pa_inv a'"
    using v fc lf e addr same by (auto simp: pa_inv_def)
  ultimately show thesis
    using that pa_used_update [OF e i] same by simp
qed

section \<open>The contract\<close>

definition pa_acquire ::
  "allocator \<Rightarrow> 'a opal_pointer_array_t \<Rightarrow> 'a \<Rightarrow> (nat option \<times> 'a opal_pointer_array_t) outcome" where
  "pa_acquire alloc a x =
     obind (opal_pointer_array_add alloc a (Some x)) (\<lambda>(r, a').
       Ret (case r of Inl _ \<Rightarrow> None | Inr i \<Rightarrow> Some (nat i), a'))"

definition pa_release ::
  "allocator \<Rightarrow> 'a opal_pointer_array_t \<Rightarrow> nat \<Rightarrow> 'a opal_pointer_array_t outcome" where
  "pa_release alloc a i =
     obind (opal_pointer_array_set_item alloc a (int i) None) (\<lambda>(rc, a'). Ret a')"

text \<open>Adding to an array that has a free element.\<close>

lemma add_free:
  assumes inv: "pa_inv a" and free: "number_free a \<noteq> 0"
  obtains k a' where "opal_pointer_array_add alloc a (Some x) = Ret (Inr (int k), a')"
    "k < nat (pa_size a)" "pa_used a k = None" "pa_used a' = (pa_used a)(k \<mapsto> x)"
    "pa_inv a'" "max_size a' = max_size a" "pa_size a' = pa_size a"
proof -
  obtain xs where xs: "pa_addr a = Some xs"
    using inv free by (auto simp: pa_inv_def elems_def split: option.splits)
  note idx = add_index [OF inv free xs]
  let ?k = "first_free xs" and ?nf = "number_free a - 1"
  define a' where "a' = a \<lparr> pa_addr := Some (xs[?k := Some x]), number_free := ?nf,
    lowest_free := (if ?nf > 0
      then (case find_null (xs[?k := Some x]) (int ?k + 1) of None \<Rightarrow> int ?k | Some i \<Rightarrow> i)
      else pa_size a) \<rparr>"
  have e: "elems a = xs" "lowest_free a = int ?k"
    using xs inv by (simp_all add: elems_def pa_inv_def)
  then have "opal_pointer_array_add alloc a (Some x) = Ret (Inr (int ?k), a')"
    using free idx(1) by (auto simp: opal_pointer_array_add_def a'_def Let_def split: option.split)
  moreover have "?k < nat (pa_size a)" "pa_used a ?k = None"
    using inv idx(1,2) e pa_usedI [of ?k a] by (simp_all add: pa_inv_def)
  ultimately show thesis
    using that idx(3,4) [of x] by (simp add: a'_def)
qed

lemma add_grown:
  assumes "number_free a = 0" "number_free a1 \<noteq> 0" "pa_addr a = None \<or> pa_size a * TABLE_GROW \<le> INT_MAX"
    "grow_table alloc a (if pa_addr a = None then TABLE_INIT else pa_size a * TABLE_GROW) INT_MAX = (True, a1)"
  shows "opal_pointer_array_add alloc a x = opal_pointer_array_add alloc a1 x"
  using assms by (auto simp: opal_pointer_array_add_def)

lemma add_law:
  assumes inv: "pa_inv a" and max: "max_size a \<le> INT_MAX" and sz: "number_free a = 0 \<Longrightarrow> pa_size a < 2 ^ 30"
  shows "\<exists>r a'. pa_acquire alloc a x = Ret (r, a') \<and> pa_inv a' \<and> max_size a' = max_size a \<and>
    replay (pa_grow alloc (max_size a)) [case r of Some i \<Rightarrow> Acquired i x | None \<Rightarrow> Refused x]
      (nat (pa_size a), pa_used a) = Some (nat (pa_size a'), pa_used a')"
proof (cases "number_free a = 0")
  case False
  from inv this obtain k a' where "opal_pointer_array_add alloc a (Some x) = Ret (Inr (int k), a')"
      "k < nat (pa_size a)" "pa_used a k = None" "pa_used a' = (pa_used a)(k \<mapsto> x)"
      "pa_inv a'" "max_size a' = max_size a" "pa_size a' = pa_size a"
    by (rule add_free)
  then show ?thesis
    using False all_used_iff [OF inv] by (simp add: pa_acquire_def)
next
  case full: True
  have fits: "\<not> pa_size a * TABLE_GROW > INT_MAX"
    using sz [OF full] by (simp add: TABLE_GROW_def INT_MAX_def)
  note grow = grow_full [OF inv max full sz [OF full], of alloc]
  show ?thesis
  proof (cases "pa_grow alloc (max_size a) (nat (pa_size a))")
    case None
    then have "opal_pointer_array_add alloc a (Some x) = Ret (Inl OPAL_ERR_OUT_OF_RESOURCE, a)"
      using grow full fits by (simp add: opal_pointer_array_add_def)
    then show ?thesis
      using inv None full all_used_iff [OF inv] by (simp add: pa_acquire_def)
  next
    case (Some n)
    then obtain a1 where a1: "grow_table alloc a (if pa_addr a = None then TABLE_INIT else pa_size a * TABLE_GROW) INT_MAX =
          (True, a1)" "pa_inv a1" "pa_used a1 = pa_used a" "max_size a1 = max_size a" "pa_size a1 = int n" "number_free a1 \<noteq> 0"
      using grow by auto
    from a1(2,6) obtain k a' where a': "opal_pointer_array_add alloc a1 (Some x) = Ret (Inr (int k), a')"
        "k < nat (pa_size a1)" "pa_used a1 k = None" "pa_used a' = (pa_used a1)(k \<mapsto> x)"
        "pa_inv a'" "max_size a' = max_size a1" "pa_size a' = pa_size a1"
      by (rule add_free)
    moreover have "opal_pointer_array_add alloc a (Some x) = opal_pointer_array_add alloc a1 (Some x)"
      using add_grown [OF full a1(6) _ a1(1)] fits by auto
    ultimately show ?thesis
      using a1 Some full all_used_iff [OF inv] by (simp add: pa_acquire_def)
  qed
qed

lemma release_law_pa:
  assumes "pa_inv a" "i < nat (pa_size a)"
  shows "\<exists>a'. pa_release alloc a i = Ret a' \<and> pa_inv a' \<and> max_size a' = max_size a \<and> pa_size a' = pa_size a \<and>
    pa_used a' = (pa_used a)(i := None)"
proof -
  have i: "i < length (elems a)"
    using assms by (simp add: pa_inv_def)
  from assms(1) i show ?thesis
    by (rule set_item_ok [of a i alloc None]) (simp add: pa_release_def)
qed

lemma pa_roomD: "pa_room (Suc k) a \<Longrightarrow> number_free a = 0 \<Longrightarrow> pa_size a < 2 ^ 30"
  using card_used(2) [of a] by (auto simp: pa_room_def)

lemma pa_room_step:
  assumes "pa_room (Suc k) a" "pa_inv a'" "max_size a' = max_size a"
    "pa_size a' = pa_size a \<or> pa_size a' < max_size a" "pa_used a' = pa_used a \<or> (\<exists>i y. pa_used a' = (pa_used a)(i := y))"
  shows "pa_room k a'"
proof -
  have "\<exists>i. dom (pa_used a') \<subseteq> insert i (dom (pa_used a))"
    using assms(5)
  proof (elim disjE exE)
    fix i y
    assume "pa_used a' = (pa_used a)(i := y)"
    then have "dom (pa_used a') \<subseteq> insert i (dom (pa_used a))"
      by auto
    then show ?thesis ..
  qed auto
  then obtain i where "dom (pa_used a') \<subseteq> insert i (dom (pa_used a))" ..
  moreover have fin: "finite (dom (pa_used a))"
    using assms(1) card_used(1) by (auto simp: pa_room_def)
  ultimately have "card (dom (pa_used a')) \<le> card (insert i (dom (pa_used a)))"
    by (intro card_mono) auto
  then have "card (dom (pa_used a')) \<le> Suc (card (dom (pa_used a)))"
    using card_insert_if [OF fin, of i] by (auto split: if_splits)
  then show ?thesis
    using assms by (auto simp: pa_room_def)
qed

lemma pa_grow_less: "pa_grow alloc mx n = Some k \<Longrightarrow> int k < mx"
  by (auto simp: pa_grow_def Let_def split: if_splits)

interpretation ptr_array: slot_pool pa_room "\<lambda>a. nat (pa_size a)" pa_used "\<lambda>a. pa_grow alloc (max_size a)"
  "pa_acquire alloc" "pa_release alloc"
  for alloc
proof
  fix k and a :: "'a opal_pointer_array_t" and x i
  assume room: "pa_room (Suc k) a"
  then have inv: "pa_inv a" "max_size a \<le> INT_MAX"
    by (simp_all add: pa_room_def)
  obtain r a' where a': "pa_acquire alloc a x = Ret (r, a')" "pa_inv a'" "max_size a' = max_size a"
      "replay (pa_grow alloc (max_size a)) [case r of Some i \<Rightarrow> Acquired i x | None \<Rightarrow> Refused x]
        (nat (pa_size a), pa_used a) = Some (nat (pa_size a'), pa_used a')"
    using add_law [OF inv pa_roomD [OF room], of alloc x] by blast
  note one = replay_one [OF a'(4)]
  have "pa_size a' = pa_size a \<or> pa_size a' < max_size a"
    using one(1) inv(1) a'(2) pa_grow_less [of alloc "max_size a" "nat (pa_size a)"] by (auto simp: pa_inv_def)
  then have "pa_room k a'"
    by (rule pa_room_step [OF room a'(2,3) _ one(2)])
  then show "\<exists>r a'. pa_acquire alloc a x = Ret (r, a') \<and> pa_room k a' \<and>
      pa_grow alloc (max_size a') = pa_grow alloc (max_size a) \<and>
      replay (pa_grow alloc (max_size a)) [case r of Some i \<Rightarrow> Acquired i x | None \<Rightarrow> Refused x]
        (nat (pa_size a), pa_used a) = Some (nat (pa_size a'), pa_used a')"
    using a' by auto
  show "pa_room k a"
    using pa_room_step [OF room inv(1)] by simp
  assume "i < nat (pa_size a)"
  then show "\<exists>a'. pa_release alloc a i = Ret a' \<and> pa_room k a' \<and>
      pa_grow alloc (max_size a') = pa_grow alloc (max_size a) \<and> nat (pa_size a') = nat (pa_size a) \<and>
      pa_used a' = (pa_used a)(i := None)"
    using release_law_pa [OF inv(1), of i alloc] pa_room_step [OF room] by fastforce
qed

section \<open>Properties\<close>

text \<open>
  C9: any sequence of additions and of removals of indices of the array, used or free, returns.  An addition gets an
  index whose element is free; it is refused only when every element is used and the array cannot be doubled below its
  maximal size; the array grows only when every element is used; an element keeps its pointer until it is removed;
  removing a free one changes nothing; the counter of free elements and the index of the lowest free one stay
  exact.  So that doubling does not overflow an \<^verbatim>\<open>int\<close>, the maximal size is at most \<open>2\<^sup>3\<^sup>0\<close>, or (with the default maximum)
  there are at most \<open>2\<^sup>3\<^sup>0\<close> elements in use and operations.
\<close>

theorem pointer_array_indices_exclusive:
  assumes "pa_inv a" and "max_size a \<le> INT_MAX"
    and "pa_size a < 2 ^ 30 \<and> max_size a \<le> 2 ^ 30 \<or> card (dom (pa_used a)) + length ops \<le> 2 ^ 30"
  shows "\<exists>ev a'. pool_run (\<lambda>a. nat (pa_size a)) (pa_acquire alloc) (pa_release alloc) ops a = Ret (ev, a') \<and>
           replay (pa_grow alloc (max_size a)) ev (nat (pa_size a), pa_used a) = Some (nat (pa_size a'), pa_used a') \<and>
           pa_inv a'"
proof -
  have "pa_room (length ops) a"
    using assms by (simp add: pa_room_def)
  then show ?thesis
    using ptr_array.run_as_replay [of ops a alloc] by (auto simp: pa_room_def)
qed

lemma replicate_two: "replicate 2 x = [x, x]"
  by (simp add: numeral_2_eq_2)

lemma pa_init_two:
  "opal_pointer_array_init malloc_ok (Some opal_pointer_array_construct) 2 INT_MAX 2 =
     (OPAL_SUCCESS, Some \<lparr> lowest_free = 0, number_free = 2, pa_size = 2, max_size = INT_MAX,
        block_size = 2, pa_addr = Some [None, None] \<rparr>)"
  "pa_inv \<lparr> lowest_free = 0, number_free = 2, pa_size = 2, max_size = INT_MAX,
        block_size = 2, pa_addr = Some [None, None] \<rparr>"
  "pa_used \<lparr> lowest_free = 0, number_free = 2, pa_size = 2, max_size = INT_MAX,
        block_size = 2, pa_addr = Some [None, None] \<rparr> = Map.empty"
  by (auto simp: opal_pointer_array_init_def opal_pointer_array_construct_def calloc_ok_def
      pa_inv_def pa_used_def elems_def INT_MAX_def Let_def replicate_two fun_eq_iff nth_Cons split: nat.splits)

theorem pointer_array_indices_exclusive_witness:
  "\<exists>a ev a'. opal_pointer_array_init malloc_ok (Some opal_pointer_array_construct) 2 INT_MAX 2 =
       (OPAL_SUCCESS, Some a) \<and>
     pool_run (\<lambda>a. nat (pa_size a)) (pa_acquire malloc_ok) (pa_release malloc_ok)
       [Release 0, Acquire ''a'', Acquire ''b'', Acquire ''c'', Release 1, Acquire ''d''] a = Ret (ev, a')"
  using pa_init_two(1) pointer_array_indices_exclusive [OF pa_init_two(2), of
      "[Release 0, Acquire ''a'', Acquire ''b'', Acquire ''c'', Release 1, Acquire ''d'']" malloc_ok]
  unfolding pa_init_two(3) by fastforce

text \<open>
  Storing at an index inside the array: the item is what the index then reads, no other index
  changes, and the invariant is kept, for a pointer and for NULL.
\<close>

theorem pointer_array_set_get:
  assumes "pa_inv a" and "0 \<le> index" and "index < pa_size a"
  shows "\<exists>a'. opal_pointer_array_set_item alloc a index val = Ret (OPAL_SUCCESS, a') \<and> pa_inv a' \<and>
           (\<forall>j. opal_pointer_array_get_item a' j =
                  (if j = index then Ret val else opal_pointer_array_get_item a j))"
proof -
  have i: "nat index < length (elems a)" "int (nat index) = index"
    using assms by (auto simp: pa_inv_def)
  from assms(1) i(1) obtain a' where a':
      "opal_pointer_array_set_item alloc a (int (nat index)) val = Ret (OPAL_SUCCESS, a')"
      "pa_inv a'" "pa_used a' = (pa_used a)(nat index := val)" "pa_size a' = pa_size a"
      "max_size a' = max_size a"
    by (rule set_item_ok)
  have get: "opal_pointer_array_get_item b j = Ret (if j < 0 then None else pa_used b (nat j))"
    if "pa_inv b" for b j
    using that by (auto simp: opal_pointer_array_get_item_def pa_used_def pa_inv_def)
  show ?thesis
    using a' i assms(2) by (auto simp: get [OF a'(2)] get [OF assms(1)])
qed

theorem pointer_array_set_get_witness:
  "\<exists>a'. opal_pointer_array_set_item malloc_ok
      \<lparr> lowest_free = 0, number_free = 2, pa_size = 2, max_size = INT_MAX,
        block_size = 2, pa_addr = Some [None, None] \<rparr> 1 (Some ''x'') = Ret (OPAL_SUCCESS, a') \<and>
    opal_pointer_array_get_item a' 1 = Ret (Some ''x'')"
  using pointer_array_set_get [OF pa_init_two(2), of 1 malloc_ok "Some ''x''"] by auto

text \<open>
  C40: the last index that an odd \<^verbatim>\<open>max_size\<close> allows, when it is beyond the current size: the request
  rounds up past the maximum, the array is then made exactly \<^verbatim>\<open>index\<close> elements long, and the
  store is one element outside it.
\<close>

theorem pointer_array_set_item_overrun:
  assumes "pa_inv a" and "odd (max_size a)" and "1 < max_size a" and "max_size a < INT_MAX"
    and "pa_size a < max_size a" and "alloc (nat (max_size a - 1) * sizeof_ptr)"
  shows "opal_pointer_array_set_item alloc a (max_size a - 1) val = Undef"
proof -
  let ?i = "max_size a - 1"
  have soft: "(?i div TABLE_GROW + 1) * TABLE_GROW = max_size a + 1"
    using assms(2) by (auto simp: TABLE_GROW_def elim!: oddE)
  have grow: "grow_for_index alloc a ?i = Ret (grow_table alloc a (max_size a + 1) ?i)"
    using assms soft by (auto simp: grow_for_index_def)
  obtain a' where a': "grow_table alloc a (max_size a + 1) ?i = (True, a')"
    using assms by (auto simp: grow_table_def Let_def)
  then have "pa_inv a'" "pa_size a' = ?i"
    using grow_table_ok [OF assms(1) a'] assms by simp_all
  then have "int (length (elems a')) = ?i"
    by (simp add: pa_inv_def)
  then show ?thesis
    using assms a' by (simp add: opal_pointer_array_set_item_def grow)
qed

theorem pointer_array_set_item_overrun_witness:
  "opal_pointer_array_set_item malloc_ok
     \<lparr> lowest_free = 0, number_free = 1, pa_size = 1, max_size = 5,
       block_size = 1, pa_addr = Some [None] \<rparr> 4 (Some ''x'') = Undef"
  using pointer_array_set_item_overrun [of "\<lparr> lowest_free = 0, number_free = 1, pa_size = 1,
      max_size = 5, block_size = 1, pa_addr = Some [None] \<rparr>" malloc_ok "Some ''x''"]
  by (simp add: pa_inv_def elems_def INT_MAX_def)

end
