(* ===== verification/Ring_Buffer.thy ===== *)
theory Ring_Buffer
  imports Containers
begin

text \<open>
  The ring buffer of \<^verbatim>\<open>opal/class/opal_ring_buffer.c\<close>: a circular array that drops its oldest
  element when a push finds it full.  The locking macros have no counterpart: each operation
  is one step.  The lemmas show that the ring is a bounded first-in first-out queue.
\<close>

section \<open>Definitions\<close>

record 'a opal_ring_buffer_t =
  head :: int
  tail :: int
  ring_size :: int
  addr :: "'a option list"

definition opal_ring_buffer_construct :: "'a opal_ring_buffer_t" where
  "opal_ring_buffer_construct = \<lparr> head = 0, tail = -1, ring_size = 0, addr = [] \<rparr>"

text \<open>
  A negative size is converted to a huge \<^verbatim>\<open>size_t\<close>, for which \<^verbatim>\<open>calloc\<close> fails.
\<close>

definition opal_ring_buffer_init ::
  "allocator \<Rightarrow> 'a opal_ring_buffer_t option \<Rightarrow> int \<Rightarrow> status \<times> 'a opal_ring_buffer_t option" where
  "opal_ring_buffer_init alloc ring n =
     (case ring of
        None \<Rightarrow> (OPAL_ERR_BAD_PARAM, None)
      | Some r \<Rightarrow>
          if n < 0 \<or> \<not> calloc_ok alloc (nat n * sizeof_ptr) 1
          then (OPAL_ERR_OUT_OF_RESOURCE, Some (r \<lparr> addr := [] \<rparr>))
          else (OPAL_SUCCESS, Some (r \<lparr> addr := replicate (nat n) None, ring_size := n \<rparr>)))"

definition in_range :: "'a opal_ring_buffer_t \<Rightarrow> int \<Rightarrow> bool" where
  "in_range r i \<longleftrightarrow> 0 \<le> i \<and> i < int (length (addr r))"

text \<open>\<^verbatim>\<open>opal_ring_buffer_push\<close> returns the element it overwrites, or NULL.\<close>

definition opal_ring_buffer_push ::
  "'a opal_ring_buffer_t \<Rightarrow> 'a option \<Rightarrow> ('a option \<times> 'a opal_ring_buffer_t) outcome" where
  "opal_ring_buffer_push r ptr =
     (if \<not> in_range r (head r) then Undef
      else
        (let p = addr r ! nat (head r);
             tail1 = (if p \<noteq> None
                      then (if tail r = ring_size r - 1 then 0 else head r + 1)
                      else tail r);
             tail2 = (if tail1 < 0 then head r else tail1);
             head1 = (if head r = ring_size r - 1 then 0 else head r + 1)
         in Ret (p, r \<lparr> addr := (addr r)[nat (head r) := ptr], tail := tail2, head := head1 \<rparr>)))"

definition opal_ring_buffer_pop ::
  "'a opal_ring_buffer_t \<Rightarrow> ('a option \<times> 'a opal_ring_buffer_t) outcome" where
  "opal_ring_buffer_pop r =
     (if tail r = -1 then Ret (None, r)
      else if \<not> in_range r (tail r) then Undef
      else
        (let tail1 = (if tail r = ring_size r - 1 then 0 else tail r + 1);
             tail2 = (if tail1 = head r then -1 else tail1)
         in Ret (addr r ! nat (tail r),
              r \<lparr> addr := (addr r)[nat (tail r) := None], tail := tail2 \<rparr>)))"

definition opal_ring_buffer_poke :: "'a opal_ring_buffer_t \<Rightarrow> int \<Rightarrow> 'a option outcome" where
  "opal_ring_buffer_poke r i =
     (if ring_size r \<le> i \<or> tail r = -1 then Ret None
      else
        (let offset =
               (if i < 0 then (if head r = 0 then ring_size r - 1 else head r - 1)
                else if ring_size r \<le> tail r + i then tail r + i - ring_size r
                else tail r + i)
         in if in_range r offset then Ret (addr r ! nat offset) else Undef))"

section \<open>The ring as a queue\<close>

text \<open>
  \<open>ring_rep r q\<close>: read from the tail, the array holds the queue \<open>q\<close> and then free places.
\<close>

definition ring_rep :: "'a opal_ring_buffer_t \<Rightarrow> 'a list \<Rightarrow> bool" where
  "ring_rep r q \<longleftrightarrow>
     (\<exists>t k. t < length (addr r) \<and> ring_size r = int (length (addr r)) \<and>
        rotate t (addr r) = map Some q @ replicate k None \<and>
        head r = int ((t + length q) mod length (addr r)) \<and>
        tail r = (if q = [] then -1 else int t))"

definition ring_content :: "'a opal_ring_buffer_t \<Rightarrow> 'a list" where
  "ring_content r =
     map the (takeWhile (\<lambda>x. x \<noteq> None)
       (rotate (nat (if tail r < 0 then head r else tail r)) (addr r)))"

definition ring_inv :: "'a opal_ring_buffer_t \<Rightarrow> bool" where
  "ring_inv r \<longleftrightarrow> ring_rep r (ring_content r)"

lemma ring_repI:
  assumes "t < length (addr r)" "ring_size r = int (length (addr r))"
    "rotate t (addr r) = map Some q @ replicate k None"
    "head r = int ((t + length q) mod length (addr r))" "tail r = (if q = [] then -1 else int t)"
  shows "ring_rep r q"
  using assms unfolding ring_rep_def by blast

lemma takeWhile_some: "takeWhile (\<lambda>x. x \<noteq> None) (map Some q @ replicate k None) = map Some q"
proof (induction q)
  case Nil
  then show ?case
    by (cases k) auto
qed simp

lemma ring_content_rep:
  assumes "ring_rep r q"
  shows "ring_content r = q" "ring_inv r" "length q \<le> length (addr r)"
proof -
  obtain t k where r: "t < length (addr r)" "rotate t (addr r) = map Some q @ replicate k None"
      "head r = int ((t + length q) mod length (addr r))" "tail r = (if q = [] then -1 else int t)"
    using assms by (auto simp: ring_rep_def)
  have len: "length (addr r) = length q + k"
    using arg_cong [OF r(2), of length] by simp
  have "rotate (nat (if tail r < 0 then head r else tail r)) (addr r) = rotate t (addr r)"
    using r by auto
  then show c: "ring_content r = q"
    unfolding ring_content_def r(2) by (simp add: takeWhile_some [simplified] comp_def)
  show "ring_inv r" "length q \<le> length (addr r)"
    using assms c len by (simp_all add: ring_inv_def)
qed

lemma ring_nth:
  assumes "rotate t xs = map Some q @ replicate k None" "i < length xs"
  shows "xs ! ((t + i) mod length xs) = (if i < length q then Some (q ! i) else None)"
proof -
  have "length xs = length q + k"
    using arg_cong [OF assms(1), of length] by simp
  moreover have "xs ! ((t + i) mod length xs) = rotate t xs ! i"
    using assms(2) by (simp add: nth_rotate)
  ultimately show ?thesis
    using assms by (simp add: nth_append)
qed

lemma rotate_eqI:
  assumes "length xs = length q + k"
    and "\<And>i. i < length xs \<Longrightarrow> xs ! ((t + i) mod length xs) = (if i < length q then Some (q ! i) else None)"
  shows "rotate t xs = map Some q @ replicate k None"
  using assms by (intro nth_equalityI) (auto simp: nth_rotate nth_append)

lemma ring_push_ok:
  assumes "ring_rep r q"
  shows "\<exists>r'. opal_ring_buffer_push r (Some x) =
      Ret (if length q < length (addr r) then None else Some (hd q), r') \<and>
    ring_rep r' (if length q < length (addr r) then q @ [x] else tl q @ [x]) \<and>
    length (addr r') = length (addr r)"
proof -
  let ?n = "length (addr r)"
  obtain t k where t: "t < ?n" and size: "ring_size r = int ?n"
    and rot: "rotate t (addr r) = map Some q @ replicate k None"
    and hd: "head r = int ((t + length q) mod ?n)" and tl: "tail r = (if q = [] then -1 else int t)"
    using assms by (auto simp: ring_rep_def)
  have len: "?n = length q + k"
    using arg_cong [OF rot, of length] by simp
  note nth = ring_nth [OF rot]
  let ?h = "(t + length q) mod ?n"
  have n0: "addr r \<noteq> []"
    using t by auto
  then have h: "?h < ?n" "in_range r (head r)"
    by (simp_all add: in_range_def hd)
  have hd': "(if head r = ring_size r - 1 then 0 else head r + 1) = int (Suc (t + length q) mod ?n)"
    using t by (auto simp: hd size mod_Suc)
  show ?thesis
  proof (cases "k = 0")
    case False
    then have lt: "length q < ?n"
      using len by simp
    have none: "addr r ! ?h = None"
      using nth [OF lt] by simp
    let ?r = "r \<lparr> addr := (addr r)[?h := Some x], tail := int t,
                   head := int (Suc (t + length q) mod ?n) \<rparr>"
    have push: "opal_ring_buffer_push r (Some x) = Ret (None, ?r)"
      using h none hd' tl t by (auto simp: opal_ring_buffer_push_def hd Let_def)
    have "rotate t ((addr r)[?h := Some x]) = map Some (q @ [x]) @ replicate (k - 1) None"
    proof (rule rotate_eqI)
      fix i assume i: "i < length ((addr r)[?h := Some x])"
      then show "(addr r)[?h := Some x] ! ((t + i) mod length ((addr r)[?h := Some x])) =
          (if i < length (q @ [x]) then Some ((q @ [x]) ! i) else None)"
        using nth [of i] mod_add_inj [of i ?n "length q" t] lt h
        by (auto simp: nth_list_update nth_append less_Suc_eq)
    qed (use len False in simp)
    then have "ring_rep ?r (q @ [x])"
      using t size by (auto simp: ring_rep_def)
    then show ?thesis
      using push lt by simp
  next
    case True
    then have full: "length q = ?n" "q \<noteq> []"
      using len t by auto
    then have ht: "?h = t"
      using t by simp
    have some: "addr r ! t = Some (q ! 0)"
      using nth [of 0] t full n0 by simp
    let ?t = "Suc t mod ?n"
    let ?r = "r \<lparr> addr := (addr r)[t := Some x], tail := int ?t, head := int ?t \<rparr>"
    have push: "opal_ring_buffer_push r (Some x) = Ret (Some (hd q), ?r)"
      using h(2) some hd' tl t full ht
      by (auto simp: opal_ring_buffer_push_def hd Let_def size mod_Suc hd_conv_nth)
    have "rotate ?t ((addr r)[t := Some x]) = map Some (tl q @ [x]) @ replicate 0 None"
    proof (rule rotate_eqI)
      fix i assume i: "i < length ((addr r)[t := Some x])"
      have eq: "(?t + i) mod ?n = (t + Suc i) mod ?n"
        by (simp add: mod_add_left_eq)
      have "(t + Suc i) mod ?n = t \<longleftrightarrow> Suc i = ?n"
      proof (cases "Suc i = ?n")
        case False
        then show ?thesis
          using i t n0 mod_add_inj [of "Suc i" ?n 0 t] by auto
      qed (use t in simp)
      then show "(addr r)[t := Some x] ! ((?t + i) mod length ((addr r)[t := Some x])) =
          (if i < length (tl q @ [x]) then Some ((tl q @ [x]) ! i) else None)"
        using i t nth [of "Suc i"] full unfolding length_list_update eq
        by (auto simp: nth_list_update nth_append nth_tl)
    qed (use full in \<open>cases q; simp\<close>)
    then have "ring_rep ?r (tl q @ [x])"
      by (intro ring_repI [where t = ?t and k = 0]) (use n0 size full in simp_all)
    then show ?thesis
      using push full by simp
  qed
qed

lemma ring_pop_ok:
  assumes "ring_rep r q"
  shows "\<exists>r'. opal_ring_buffer_pop r = Ret (if q = [] then None else Some (hd q), r') \<and>
    ring_rep r' (tl q) \<and> length (addr r') = length (addr r)"
proof -
  let ?n = "length (addr r)"
  obtain t k where t: "t < ?n" and size: "ring_size r = int ?n"
    and rot: "rotate t (addr r) = map Some q @ replicate k None"
    and hd: "head r = int ((t + length q) mod ?n)" and tl: "tail r = (if q = [] then -1 else int t)"
    using assms by (auto simp: ring_rep_def)
  have len: "?n = length q + k"
    using arg_cong [OF rot, of length] by simp
  note nth = ring_nth [OF rot]
  have n0: "addr r \<noteq> []"
    using t by auto
  show ?thesis
  proof (cases q)
    case Nil
    then show ?thesis
      using tl assms by (simp add: opal_ring_buffer_pop_def)
  next
    case (Cons x q')
    let ?t = "Suc t mod ?n"
    have x: "addr r ! t = Some x"
      using nth [of 0] t Cons n0 by simp
    have wrap: "(if tail r = ring_size r - 1 then 0 else tail r + 1) = int ?t"
      using t tl Cons by (auto simp: size mod_Suc)
    have hd': "(t + length q) mod ?n = (?t + length q') mod ?n"
      using Cons by (simp add: mod_add_left_eq)
    have empty: "int ?t = head r \<longleftrightarrow> q' = []"
    proof -
      have "(?t + 0) mod ?n = (?t + length q') mod ?n \<longleftrightarrow> 0 = length q'"
        using mod_add_inj [of 0 ?n "length q'" ?t] n0 len Cons by auto
      then show ?thesis
        using n0 by (simp add: hd hd')
    qed
    let ?r = "r \<lparr> addr := (addr r)[t := None], tail := (if q' = [] then -1 else int ?t) \<rparr>"
    have pop: "opal_ring_buffer_pop r = Ret (Some x, ?r)"
      using tl Cons t x wrap empty by (auto simp: opal_ring_buffer_pop_def in_range_def Let_def)
    have "rotate ?t ((addr r)[t := None]) = map Some q' @ replicate (Suc k) None"
    proof (rule rotate_eqI)
      fix i assume i: "i < length ((addr r)[t := None])"
      have eq: "(?t + i) mod ?n = (t + Suc i) mod ?n"
        by (simp add: mod_add_left_eq)
      have "(t + Suc i) mod ?n = t \<longleftrightarrow> Suc i = ?n"
      proof (cases "Suc i = ?n")
        case False
        then show ?thesis
          using i t n0 mod_add_inj [of "Suc i" ?n 0 t] by auto
      qed (use t in simp)
      then show "(addr r)[t := None] ! ((?t + i) mod length ((addr r)[t := None])) =
          (if i < length q' then Some (q' ! i) else None)"
        using i t nth [of "Suc i"] Cons len unfolding length_list_update eq
        by (auto simp: nth_list_update)
    qed (use len Cons in simp)
    then have "ring_rep ?r q'"
      by (intro ring_repI [where t = ?t and k = "Suc k"]) (use n0 size hd hd' in simp_all)
    then show ?thesis
      using pop Cons by simp
  qed
qed

lemma ring_poke_ok:
  assumes "ring_rep r q"
  shows "opal_ring_buffer_poke r i =
           Ret (if q = [] \<or> int (length q) \<le> i then None
                else if i < 0 then Some (last q) else Some (q ! nat i))"
proof -
  let ?n = "length (addr r)"
  obtain t k where t: "t < ?n" and size: "ring_size r = int ?n"
    and rot: "rotate t (addr r) = map Some q @ replicate k None"
    and hd: "head r = int ((t + length q) mod ?n)" and tl: "tail r = (if q = [] then -1 else int t)"
    using assms by (auto simp: ring_rep_def)
  have len: "?n = length q + k"
    using arg_cong [OF rot, of length] by simp
  note nth = ring_nth [OF rot]
  consider "q = []" | "int ?n \<le> i" | "q \<noteq> []" "i < 0" | "q \<noteq> []" "0 \<le> i" "i < int ?n"
    by linarith
  then show ?thesis
  proof cases
    case 3
    let ?j = "(t + (length q - 1)) mod ?n"
    have n0: "addr r \<noteq> []"
      using t by auto
    have "(t + length q) mod ?n = Suc ?j mod ?n"
      using 3 by (cases q) (simp_all add: mod_Suc_eq)
    moreover have "?j < ?n"
      using n0 by simp
    ultimately have off: "(if head r = 0 then ring_size r - 1 else head r - 1) = int ?j"
      by (auto simp: hd size mod_Suc)
    have "length q - 1 < ?n"
      using 3 len by (cases q) auto
    then have "addr r ! ?j = Some (last q)"
      using nth [of "length q - 1"] 3 by (simp add: last_conv_nth)
    then show ?thesis
      using 3 off tl \<open>?j < ?n\<close> by (simp add: opal_ring_buffer_poke_def in_range_def size Let_def)
  next
    case 4
    let ?j = "(t + nat i) mod ?n"
    have off: "(if ring_size r \<le> tail r + i then tail r + i - ring_size r else tail r + i) = int ?j"
      using 4 t tl by (auto simp: size mod_if [of "t + nat i"])
    have "?j < ?n"
      using t by (intro mod_less_divisor) linarith
    then have "opal_ring_buffer_poke r i = Ret (addr r ! ?j)"
      using 4 off tl by (simp add: opal_ring_buffer_poke_def in_range_def size Let_def)
    moreover have "addr r ! ?j = (if nat i < length q then Some (q ! nat i) else None)"
      using 4 by (intro nth) linarith
    ultimately show ?thesis
      using 4 by auto
  qed (use len tl in \<open>auto simp: opal_ring_buffer_poke_def size\<close>)
qed

lemma ring_init_ok:
  assumes "0 < n" "calloc_ok alloc (nat n * sizeof_ptr) 1"
  obtains r where "opal_ring_buffer_init alloc (Some opal_ring_buffer_construct) n =
      (OPAL_SUCCESS, Some r)" "ring_rep r []" "length (addr r) = nat n"
proof
  show "opal_ring_buffer_init alloc (Some opal_ring_buffer_construct) n =
      (OPAL_SUCCESS, Some \<lparr> head = 0, tail = -1, ring_size = n, addr = replicate (nat n) None \<rparr>)"
    using assms by (simp add: opal_ring_buffer_init_def opal_ring_buffer_construct_def)
  show "ring_rep \<lparr> head = 0, tail = -1, ring_size = n, addr = replicate (nat n) None \<rparr> []"
    by (rule ring_repI [where t = 0 and k = "nat n"]) (use assms(1) in simp_all)
qed simp

section \<open>The contract\<close>

interpretation ring: bounded_queue "\<lambda>r. ring_inv r \<and> length (addr r) = n" ring_content n
  "\<lambda>r x. opal_ring_buffer_push r (Some x)" opal_ring_buffer_pop
  for n
proof
  fix r :: "'a opal_ring_buffer_t" and x
  assume r: "ring_inv r \<and> length (addr r) = n"
  then have rep: "ring_rep r (ring_content r)"
    by (simp add: ring_inv_def)
  show "\<exists>r'. opal_ring_buffer_push r (Some x) =
      Ret (if length (ring_content r) < n then None else Some (hd (ring_content r)), r') \<and>
      (ring_inv r' \<and> length (addr r') = n) \<and>
      ring_content r' = (if length (ring_content r) < n then ring_content r @ [x]
        else tl (ring_content r) @ [x])"
    using ring_push_ok [OF rep, of x] r ring_content_rep(1,2) by (auto split: if_splits)
  show "\<exists>r'. opal_ring_buffer_pop r =
      Ret (if ring_content r = [] then None else Some (hd (ring_content r)), r') \<and>
      (ring_inv r' \<and> length (addr r') = n) \<and> ring_content r' = tl (ring_content r)"
    using ring_pop_ok [OF rep] r ring_content_rep(1,2) by auto
  show "length (ring_content r) \<le> n"
    using ring_content_rep(3) [OF rep] r by simp
qed

section \<open>Properties\<close>

text \<open>
  C7: an initialised ring of \<open>n\<close> places is a first-in first-out queue: any sequence of pushes and
  pops returns what it returns on a list to which pushes append, from which pops take the
  first element, and which gives up its first element when a push finds \<open>n\<close> elements.
\<close>

theorem ring_buffer_refines_fifo:
  assumes "0 < n" and "calloc_ok alloc (nat n * sizeof_ptr) 1"
  shows "\<exists>r r'. opal_ring_buffer_init alloc (Some opal_ring_buffer_construct) n =
           (OPAL_SUCCESS, Some r) \<and>
         queue_run (\<lambda>r x. opal_ring_buffer_push r (Some x)) opal_ring_buffer_pop ops r =
           Ret (fst (fifo_run (nat n) ops []), r') \<and>
         ring_content r' = snd (fifo_run (nat n) ops [])"
proof (rule ring_init_ok [OF assms])
  fix r :: "'a opal_ring_buffer_t"
  assume r: "opal_ring_buffer_init alloc (Some opal_ring_buffer_construct) n = (OPAL_SUCCESS, Some r)"
    "ring_rep r []" "length (addr r) = nat n"
  then show ?thesis
    using ring.run_refines_fifo [of r "nat n" ops] ring_content_rep [OF r(2)] by auto
qed

theorem ring_buffer_refines_fifo_witness:
  "\<exists>r r'. opal_ring_buffer_init malloc_ok (Some opal_ring_buffer_construct) 2 =
     (OPAL_SUCCESS, Some r) \<and>
   queue_run (\<lambda>r x. opal_ring_buffer_push r (Some x)) opal_ring_buffer_pop
     [Push (1::nat), Push 2, Push 3, Pop] r = Ret ([None, None, Some 1, Some 2], r') \<and>
   ring_content r' = [3]"
  using ring_buffer_refines_fifo [of 2 malloc_ok "[Push (1::nat), Push 2, Push 3, Pop]"]
  by (simp add: calloc_ok_def)

text \<open>
  \<^verbatim>\<open>opal_ring_buffer_poke\<close> reads the element at a distance from the oldest one, the newest one
  for a negative index, and NULL beyond the elements of the ring, without access outside
  the array.
\<close>

theorem ring_buffer_poke_correct:
  assumes "ring_inv r"
  shows "opal_ring_buffer_poke r i =
           Ret (if ring_content r = [] \<or> int (length (ring_content r)) \<le> i then None
                else if i < 0 then Some (last (ring_content r)) else Some (ring_content r ! nat i))"
  using assms unfolding ring_inv_def by (rule ring_poke_ok)

theorem ring_buffer_poke_correct_witness:
  "opal_ring_buffer_poke
     \<lparr> head = 1, tail = 1, ring_size = 2, addr = [Some ''new'', Some ''old''] \<rparr> (- 1) =
   Ret (Some ''new'')"
proof -
  let ?r = "\<lparr> head = 1, tail = 1, ring_size = 2, addr = [Some ''new'', Some ''old''] \<rparr>"
  have c: "ring_content ?r = [''old'', ''new'']"
    by (simp add: ring_content_def)
  have "ring_inv ?r"
    unfolding ring_inv_def c by (rule ring_repI [where t = 1 and k = 0]) (simp_all add: mod_Suc)
  then show ?thesis
    using ring_buffer_poke_correct [of ?r "- 1"] c by simp
qed

end
