(* ===== verification/Spec2Isabelle.thy ===== *)
theory Spec2Isabelle
  imports Analytics_Aggregate Analytics_Filter Analytics_Spatial_Spec Analytics_Threshold_Spec Analytics_Workflow_Spec
    Argv Bitmap Dss_Protocol Hash_Table_Map Hotel Logical_Group_File Logical_Group_Nesting Pointer_Array Regex_Round_Trip
    Ring_Buffer
begin

text \<open>
  \<^bold>\<open>The program.\<close>  Sensys (ORCM) monitors clusters: daemons on the nodes sample sensors, send the values in messages to
  aggregators, and aggregators analyze them in workflows of plug-ins, raise events and store data; a console,
  \<^verbatim>\<open>octl\<close>, steers them.  It is written in C on three layers: \<^verbatim>\<open>opal\<close> (containers, serialization, utilities),
  \<^verbatim>\<open>orte\<close> (processes and messages) and \<^verbatim>\<open>orcm\<close>.  The parts that are modelled here build on one another:

  \<^item> the containers and string arrays of OPAL are used by everything else;
  \<^item> the serialization layer turns values into bytes and back, and buffers travel between processes;
  \<^item> node names are written as compact expressions, which logical groups name and nest, in a hash table and a file;
  \<^item> analytics plug-ins take one sample after the other, keep state in hash tables, look up logical groups, and hand
    values to the next step and events to the dispatcher;
  \<^item> the workflow service reads workflows from a file, sends them in messages to an aggregator, and registers them.

  \<^bold>\<open>How C is modelled.\<close>  A call gives an \<open>outcome\<close> (theory C_Prelude): \<open>Ret\<close> with its results, \<open>Undef\<close> when the
  C standard leaves its behaviour undefined (a NULL or dangling pointer, an access out of range, a signed overflow), and
  \<open>Diverge\<close> when it does not end.  \<open>obind\<close> composes calls, \<open>wlp\<close> states what holds of all their results.  Error
  codes are values of \<open>status\<close>.  Structures are records, pointers that may be NULL are options, NUL-terminated strings
  are \<open>string\<close>, integers are words where their width matters and otherwise \<open>int\<close> or \<open>nat\<close> with the reduction
  written out.  A string that a function changes in place is one of its results.  Allocation is an argument (\<open>allocator\<close>) of the containers, string arrays, buffers and
  expressions, with the error paths of the code; the layers above mostly pass one that succeeds (\<open>malloc_ok\<close>).  Time of day and the state of \<^verbatim>\<open>errno\<close> are arguments.  Floating point numbers are
  finite and rational, and every operation rounds to the nearest number of its format (theory C_Float).

  \<^bold>\<open>Theories and what they show.\<close>

  \<^item> C_Prelude, C_String, C_Float: the vocabulary above, and the functions of the C library (\<^verbatim>\<open>strtol\<close>, \<^verbatim>\<open>%d\<close>,
    \<^verbatim>\<open>%f\<close>, \<^verbatim>\<open>strtod\<close>).
  \<^item> Containers: the contracts of the containers as locales.  \<open>keyed_store\<close> and \<open>sized_store\<close> are interpreted by the hash table
    (qualifiers \<open>u32\<close>, \<open>u64\<close>, \<open>ptr\<close>), \<open>bounded_queue\<close> by the ring buffer, \<open>slot_pool\<close> by the hotel
    and the pointer array.  Logical groups, event suppression and the spatial plug-in use the hash table only through these laws.
  \<^item> Argv (\<^verbatim>\<open>opal/util/argv.c\<close>): all operations on string arrays; splitting equals a specification, joining and splitting invert
    each other, inserting and deleting cancel.
  \<^item> Hash_Table, Hash_Table_Map (\<^verbatim>\<open>opal_hash_table.c\<close>): probing, growth and removal with re-insertion; every operation ends, keeps
    the invariant of probe paths and acts as an operation on finite maps; traversal visits every entry once; a table that was
    filled by an initial size that is too small makes a look-up diverge.
  \<^item> Ring_Buffer, Hotel, Pointer_Array, Bitmap (\<^verbatim>\<open>opal/class\<close>): refinement of a bounded queue; rooms and indices that are
    handed out only while free, refused only when none is, and may be given back twice; the first unset bit; and the overrun of \<^verbatim>\<open>opal_pointer_array_set_item\<close>.
  \<^item> Dss_Buffer, Dss_Pack, Dss_Unpack (\<^verbatim>\<open>opal/dss\<close>): buffers, the table of types, packing and unpacking of all types.  The
    functions call one another through the table, in strata: leaf types, types that stand for others, and values, statistics and buffers.
  \<^item> Dss_Round_Trip, Dss_Messages, Dss_Protocol: for each stratum an interpretation of the locales \<open>dss_packing\<close> and
    \<open>dss_dispatch\<close>, and \<open>wire_format\<close> for the entry points: messages are read back, also through \<^verbatim>\<open>unload\<close> and
    \<^verbatim>\<open>load\<close> and with other parameters at the receiver; wrong types are reported; what arrives of a double.
  \<^item> Regex, Regex_Round_Trip (\<^verbatim>\<open>orte/util/regex.c\<close>): compressing node names and expanding the result gives the same names; counts of processes.
  \<^item> Logical_Group, Logical_Group_Map, Logical_Group_File, Logical_Group_Nesting (\<^verbatim>\<open>orcm/util/logical_group.c\<close>): groups refine a
    map from tags to members; saving and parsing the file gives the groups back; expansion of nested groups ends on a
    forest, diverges on a cycle and is undefined on a diamond.
  \<^item> Analytics_Base, Analytics_Events, Analytics_Suppression (\<^verbatim>\<open>orcm/util/utils.c\<close>, \<^verbatim>\<open>orcm/mca/analytics/base\<close>): values,
    events, and the filter that raises an event only if none with the same key was raised within its interval.
  \<^item> Analytics_Window and its specification (\<^verbatim>\<open>analytics/window\<close>): the statistic kept sample by sample equals the one over all
    numbers of the window; windows do not overlap, and the limits of windows of time are those of an abstract window.
  \<^item> Analytics_Threshold and its specification (\<^verbatim>\<open>analytics/threshold\<close>): policies are read back from their text; exactly the values that
    cross a limit are handed on, with the events that the filter lets through.
  \<^item> Analytics_Aggregate, Analytics_Filter, Analytics_Spatial and its specification (\<^verbatim>\<open>analytics/aggregate\<close>, \<^verbatim>\<open>analytics/filter\<close>,
    \<^verbatim>\<open>analytics/spatial\<close>): running extremes, samples selected by names of logical groups, and rounds over the nodes of a group.
  \<^item> Analytics_Workflow and its specification (\<^verbatim>\<open>orcm/util/workflow_util.c\<close>, \<^verbatim>\<open>analytics/base\<close>, \<^verbatim>\<open>octl/workflow.c\<close>):
    from the file through packing, transport, unpacking and registration to the answer on the console, the service refines a list of
    workflows; for messages with any bytes, numbers of workflows are never shared.

  Where the code is wrong the theorems say what it does: the overrun, divergence and undefined behaviours above, errors that leave
  dangling lists (\<^verbatim>\<open>orcm_logical_group_add\<close>), a half-read policy that is applied, the maximum of negative numbers.

  \<^bold>\<open>Bounds and fuel.\<close>  Loops over lists are recursive functions on them.  The other loops have fuel, and running out of it is
  \<open>Diverge\<close>.  A probe of the hash table has its capacity as fuel: once it has seen every slot it only goes round.  Closing the gap after
  a removal passes every slot at most once when the table has a free slot, and has the third power of the capacity as fuel.  The theorems
  show that fuel does not run out under the invariant, which keeps a slot free.  The search for a bit in a word of 64 bits has fuel 65.
  The expansion of nested groups has its fuel as an argument; more than the number of groups plus the number of tags in the expression is
  enough for a forest, and on a cycle no fuel is.  Sizes are below the limits of the types that hold
  them, as hypotheses say: lengths and payloads that are sent below 2^31 bytes (\<^verbatim>\<open>int32_t\<close>), bitmaps below 2^25 words and
  pointer arrays below 2^30 elements (\<^verbatim>\<open>int\<close>), hash tables below 2^64 bytes (\<^verbatim>\<open>size_t\<close>).  Where handing a payload over,
  copying it, the bitmap and the pointer array leave these ranges, the definitions truncate or are undefined as the code is; the
  \<^verbatim>\<open>size_t\<close> arithmetic of a growing buffer is not wrapped.

  \<^bold>\<open>Not modelled.\<close>  Sockets, threads and the event loop: a message is its payload, the expiry of a timer is a call, and the
  progress threads of workflows are an argument.  Databases, notifiers, sensors and the XML parser, which are input and output or
  libraries; the parsed list of a workflow file is an argument.  Regular expressions of the genex plug-in, which are
  those of the C library, and the C++ plug-ins, which are loaded at run time.  The scheduler and the run-time systems of ORTE and
  OPAL, which consist of callbacks around such services.  Reference counts: freeing is modelled only where the code uses what
  it freed.  Infinities and NaN.  Sizes of objects in \<^verbatim>\<open>Dss_Unpack\<close> (values, process and node statistics) are nominal: they only
  enter the question whether an allocation succeeds.
\<close>

end
